(* ===== verification/Prelude.thy ===== *)
theory Prelude
  imports Main "HOL-Library.Word"
begin

text \<open>
  Shared vocabulary of the development: the model's base types, the exceptions the
  source raises (as values of one datatype), the collections of rewrite rules the
  component theories add to, and generic lemmas on lists, characters and bytes.

  A Python \<open>str\<close> is a \<open>string\<close> that holds its UTF-8 encoding, so that
  \<open>s.encode("utf-8")\<close> is the same character list read as bytes; Python's unbounded
  \<open>int\<close> is \<open>int\<close>; a \<open>datetime\<close> is an instant in UTC, counted in
  microseconds (\<open>timedelta(seconds=n)\<close> is \<open>n * 1000000\<close>).
\<close>

section \<open>Base types\<close>

type_synonym byte = "8 word"
type_synonym bytes = "8 word list"
type_synonym datetime = int

definition timedelta_s :: "int \<Rightarrow> int" where
  "timedelta_s n = n * 1000000"

text \<open>
  The exceptions that the modelled code raises or catches. Payloads are the values the
  exception object carries, as far as any handler or caller reads them.
\<close>

datatype exn =
    ValueError string
  | TypeError string
  | KeyError string
  | IndexError
  | RuntimeError string
  | AssertionError
  | DBAPIError
  | InvalidTransition string string
  | GuardRejected string string
  | RetryExhausted nat exn
  | TransientProviderError string
  | TerminalProviderError string
  | CircuitOpenError string
  | MandateNotFound string
  | SkuNotFound string
  | SkuUnavailable string
  | InvalidPriceMutation string
  | CheckoutSignatureInvalid string
  | IdempotencyInFlightTimeout string
  | IdempotentAttemptFailed string
  | SagaNotFound string
  | IntegrityHalted string
  | RedisError string
  | NonceCacheUnavailable string
  | SystemExit string
  | LLMUnavailable string
  | DecimalInvalidOperation
  | DecimalOverflow
  | OverflowError string
  | OrderNotFoundForExplain string
  | HTTPException int "string + (string \<times> string) list"
  | RateLimitUnavailable string
  | APIError "int option" "string option"
  | TransientAnchorError string
  | AnchorConflictError string
  | ContractCustomError string
  | UnknownScenario string
  | ZeroDivisionError

type_synonym 'a result = "exn + 'a"

definition rbind :: "'a result \<Rightarrow> ('a \<Rightarrow> 'b result) \<Rightarrow> 'b result" where
  "rbind r f = (case r of Inl e \<Rightarrow> Inl e | Inr x \<Rightarrow> f x)"

lemma rbind_simps [simp]:
  "rbind (Inl e) f = Inl e"
  "rbind (Inr x) f = f x"
  by (simp_all add: rbind_def)

lemma rbind_eq_Inr: "rbind r f = Inr y \<longleftrightarrow> (\<exists>x. r = Inr x \<and> f x = Inr y)"
  by (cases r) auto

section \<open>Characters and bytes\<close>

definition encode_utf8 :: "string \<Rightarrow> bytes" where
  "encode_utf8 s = map of_char s"

lemma of_char_byte_inj: "(of_char c :: byte) = of_char d \<longleftrightarrow> c = d"
proof
  assume "(of_char c :: byte) = of_char d"
  then have "unat (of_char c :: byte) = unat (of_char d :: byte)" by simp
  moreover have "unat (of_char e :: byte) = of_char e" for e
  proof -
    have "(of_char e :: byte) = of_nat (of_char e)" by (simp only: of_nat_of_char)
    moreover have "(of_char e :: nat) < 2 ^ LENGTH(8)" by simp
    ultimately show ?thesis by (simp add: unat_of_nat take_bit_nat_eq_self)
  qed
  ultimately have "(of_char c :: nat) = of_char d" by simp
  then show "c = d" by simp
qed simp

lemma encode_utf8_inj [simp]: "encode_utf8 s = encode_utf8 t \<longleftrightarrow> s = t"
proof -
  have "inj (of_char :: char \<Rightarrow> byte)"
    by (rule injI) (simp add: of_char_byte_inj)
  then show ?thesis
    by (simp add: encode_utf8_def inj_map_eq_map)
qed

end
