(* ===== verification/Exec.thy ===== *)
theory Exec
  imports Prelude
begin

text \<open>
  Effects. A computation takes a state and returns a result or an exception together with the
  state it leaves behind: an exception does not undo what was done before it, as in Python.
  \<open>bind\<close>, \<open>handle\<close> (try/except) and the loops are functions, and \<open>wp\<close> is the
  weakest precondition of a computation for a pair of postconditions, one for a returned value
  and one for an exception. The rules \<open>wp_simps\<close> compute \<open>wp\<close> through the structure of
  a program; a component's lemmas enter with \<open>wp_mono\<close>.
\<close>

type_synonym ('s, 'a) comp = "'s \<Rightarrow> 'a result \<times> 's"

definition return :: "'a \<Rightarrow> ('s, 'a) comp" where
  "return x = (\<lambda>s. (Inr x, s))"

definition raise :: "exn \<Rightarrow> ('s, 'a) comp" where
  "raise e = (\<lambda>s. (Inl e, s))"

definition bind :: "('s, 'a) comp \<Rightarrow> ('a \<Rightarrow> ('s, 'b) comp) \<Rightarrow> ('s, 'b) comp" where
  "bind m f = (\<lambda>s. case m s of (Inl e, s') \<Rightarrow> (Inl e, s') | (Inr x, s') \<Rightarrow> f x s')"

definition gets :: "('s \<Rightarrow> 'a) \<Rightarrow> ('s, 'a) comp" where
  "gets f = (\<lambda>s. (Inr (f s), s))"

definition modify :: "('s \<Rightarrow> 's) \<Rightarrow> ('s, unit) comp" where
  "modify f = (\<lambda>s. (Inr (), f s))"

definition lift_result :: "'a result \<Rightarrow> ('s, 'a) comp" where
  "lift_result r = (\<lambda>s. (r, s))"

text \<open>\<open>try: m except: h\<close>; the handler sees the state the exception left.\<close>

definition handle :: "('s, 'a) comp \<Rightarrow> (exn \<Rightarrow> ('s, 'a) comp) \<Rightarrow> ('s, 'a) comp" where
  "handle m h = (\<lambda>s. case m s of (Inl e, s') \<Rightarrow> h e s' | (Inr x, s') \<Rightarrow> (Inr x, s'))"

definition assert_that :: "bool \<Rightarrow> ('s, unit) comp" where
  "assert_that b = (if b then return () else raise AssertionError)"

fun for_each :: "'a list \<Rightarrow> ('a \<Rightarrow> ('s, 'b) comp) \<Rightarrow> ('s, 'b list) comp" where
  "for_each [] f = return []"
| "for_each (x # xs) f = bind (f x) (\<lambda>y. bind (for_each xs f) (\<lambda>ys. return (y # ys)))"

section \<open>Running the basic computations\<close>

lemma run_simps:
  "return x s = (Inr x, s)"
  "raise e s = (Inl e, s)"
  "gets f s = (Inr (f s), s)"
  "modify g s = (Inr (), g s)"
  "lift_result r s = (r, s)"
  by (simp_all add: return_def raise_def gets_def modify_def lift_result_def)

lemma bind_run:
  "m s = (Inr x, s') \<Longrightarrow> bind m f s = f x s'"
  "m s = (Inl e, s') \<Longrightarrow> bind m f s = (Inl e, s')"
  by (simp_all add: bind_def)

lemma handle_run:
  "m s = (Inr x, s') \<Longrightarrow> handle m h s = (Inr x, s')"
  "m s = (Inl e, s') \<Longrightarrow> handle m h s = h e s'"
  by (simp_all add: handle_def)

lemma bind_simps [simp]:
  "bind (return x) f = f x"
  "bind (raise e) f = raise e"
  "bind (gets g) k s = k (g s) s"
  "bind (modify h) l s = l () (h s)"
  "bind (lift_result (Inr y)) n = n y"
  "bind (lift_result (Inl e')) q = raise e'"
  by (simp_all add: bind_def fun_eq_iff run_simps)

lemma bind_assoc: "bind (bind m f) g = bind m (\<lambda>x. bind (f x) g)"
  by (simp add: bind_def fun_eq_iff split: prod.split sum.split)

lemma handle_simps [simp]:
  "handle (return x) h = return x"
  "handle (raise e) h = h e"
  by (simp_all add: handle_def fun_eq_iff run_simps)

section \<open>Weakest preconditions\<close>

definition wp :: "('s, 'a) comp \<Rightarrow> ('a \<Rightarrow> 's \<Rightarrow> bool) \<Rightarrow> (exn \<Rightarrow> 's \<Rightarrow> bool) \<Rightarrow> 's \<Rightarrow> bool" where
  "wp m Q E s \<longleftrightarrow> (case m s of (Inl e, s') \<Rightarrow> E e s' | (Inr x, s') \<Rightarrow> Q x s')"

lemma wp_return [simp]: "wp (return x) Q E s \<longleftrightarrow> Q x s"
  by (simp add: wp_def run_simps)

lemma wp_raise [simp]: "wp (raise e) Q E s \<longleftrightarrow> E e s"
  by (simp add: wp_def run_simps)

lemma wp_gets [simp]: "wp (gets f) Q E s \<longleftrightarrow> Q (f s) s"
  by (simp add: wp_def run_simps)

lemma wp_modify [simp]: "wp (modify f) Q E s \<longleftrightarrow> Q () (f s)"
  by (simp add: wp_def run_simps)

lemma wp_lift_result [simp]:
  "wp (lift_result r) Q E s \<longleftrightarrow> (case r of Inl e \<Rightarrow> E e s | Inr x \<Rightarrow> Q x s)"
  by (simp add: wp_def run_simps split: sum.split)

lemma wp_bind [simp]: "wp (bind m f) Q E s \<longleftrightarrow> wp m (\<lambda>x. wp (f x) Q E) E s"
  by (simp add: wp_def bind_def split: prod.split sum.split)

lemma wp_handle [simp]: "wp (handle m h) Q E s \<longleftrightarrow> wp m Q (\<lambda>e. wp (h e) Q E) s"
  by (simp add: wp_def handle_def split: prod.split sum.split)

lemma wp_if [simp]: "wp (if b then m else n) Q E s \<longleftrightarrow> (if b then wp m Q E s else wp n Q E s)"
  by simp

lemma wp_assert [simp]: "wp (assert_that b) Q E s \<longleftrightarrow> (if b then Q () s else E AssertionError s)"
  by (simp add: assert_that_def)

lemma wp_mono:
  assumes "wp m Q' E' s" "\<And>x s'. Q' x s' \<Longrightarrow> Q x s'" "\<And>e s'. E' e s' \<Longrightarrow> E e s'"
  shows "wp m Q E s"
  using assms by (auto simp: wp_def split: prod.splits sum.splits)

lemma wp_conj: "wp m Q E s \<Longrightarrow> wp m Q' E' s \<Longrightarrow> wp m (\<lambda>x s'. Q x s' \<and> Q' x s') (\<lambda>e s'. E e s' \<and> E' e s') s"
  by (auto simp: wp_def split: prod.splits sum.splits)

lemma wp_true [simp]: "wp m (\<lambda>x s'. True) (\<lambda>e s'. True) s"
  by (auto simp: wp_def split: prod.splits sum.splits)

lemma wp_runD: "wp m Q E s \<Longrightarrow> m s = (Inr x, s') \<Longrightarrow> Q x s'"
  by (simp add: wp_def)

lemma wp_runE: "wp m Q E s \<Longrightarrow> m s = (Inl e, s') \<Longrightarrow> E e s'"
  by (simp add: wp_def)

lemma wpI: "(\<And>x s'. m s = (Inr x, s') \<Longrightarrow> Q x s') \<Longrightarrow> (\<And>e s'. m s = (Inl e, s') \<Longrightarrow> E e s') \<Longrightarrow> wp m Q E s"
  by (auto simp: wp_def split: prod.splits sum.splits)

text \<open>
  A computation keeps an invariant \<open>I\<close> when the state it leaves satisfies it, whether it
  returned or raised. Invariants pass through every way of putting computations together.
\<close>

definition keeps :: "('s \<Rightarrow> bool) \<Rightarrow> ('s, 'a) comp \<Rightarrow> bool" where
  "keeps I m \<longleftrightarrow> (\<forall>s. I s \<longrightarrow> I (snd (m s)))"

named_theorems keeps_rules

lemma keepsI: "(\<And>s. I s \<Longrightarrow> I (snd (m s))) \<Longrightarrow> keeps I m"
  by (simp add: keeps_def)

lemma keepsD: "keeps I m \<Longrightarrow> I s \<Longrightarrow> I (snd (m s))"
  by (simp add: keeps_def)

lemma keeps_wp: "keeps I m \<longleftrightarrow> (\<forall>s. I s \<longrightarrow> wp m (\<lambda>x. I) (\<lambda>e. I) s)"
  by (auto simp: keeps_def wp_def split: prod.splits sum.splits) (metis old.sum.exhaust prod.collapse)+

lemma keeps_basic [keeps_rules]:
  "keeps I (return x)" "keeps I (raise e)" "keeps I (gets f)" "keeps I (lift_result r)"
  "keeps I (assert_that b)"
  by (simp_all add: keeps_def assert_that_def run_simps)

lemma keeps_bind [keeps_rules]: "keeps I m \<Longrightarrow> (\<And>x. keeps I (f x)) \<Longrightarrow> keeps I (bind m f)"
  unfolding keeps_wp wp_bind by (metis (mono_tags, lifting) wp_mono)

lemma keeps_handle [keeps_rules]: "keeps I m \<Longrightarrow> (\<And>e. keeps I (h e)) \<Longrightarrow> keeps I (handle m h)"
  unfolding keeps_wp wp_handle by (metis (mono_tags, lifting) wp_mono)

lemma keeps_if [keeps_rules]: "keeps I m \<Longrightarrow> keeps I n \<Longrightarrow> keeps I (if b then m else n)"
  by simp

lemma keeps_option [keeps_rules]:
  "keeps I m \<Longrightarrow> (\<And>x. keeps I (f x)) \<Longrightarrow> keeps I (case v of None \<Rightarrow> m | Some x \<Rightarrow> f x)"
  by (simp split: option.split)

lemma keeps_prod [keeps_rules]:
  "(\<And>x y. keeps I (f x y)) \<Longrightarrow> keeps I (case v of (x, y) \<Rightarrow> f x y)"
  by (simp split: prod.split)

lemma keeps_for_each [keeps_rules]: "(\<And>x. keeps I (f x)) \<Longrightarrow> keeps I (for_each xs f)"
  by (induction xs) (auto intro!: keeps_rules)

section \<open>Retry\<close>

text \<open>
  \<open>retry_with_full_jitter\<close> (\<open>platform/retry.py\<close>): \<open>retry_on\<close> is the tuple of
  exception classes as a predicate. The pauses between attempts change no state; time passes in
  the clock the attempts read. \<open>attempt\<close> counts from 0, \<open>left\<close> is
  \<open>max_attempts - attempt\<close>.
\<close>

fun retry_loop :: "nat \<Rightarrow> (exn \<Rightarrow> bool) \<Rightarrow> ('s, 'a) comp \<Rightarrow> nat \<Rightarrow> ('s, 'a) comp" where
  "retry_loop max_attempts retry_on fn 0 = raise AssertionError"
| "retry_loop max_attempts retry_on fn (Suc left) =
     handle fn (\<lambda>exc.
       if \<not> retry_on exc then raise exc
       else if left = 0 then raise (RetryExhausted max_attempts exc)
       else retry_loop max_attempts retry_on fn left)"

definition retry_with_full_jitter :: "('s, 'a) comp \<Rightarrow> nat \<Rightarrow> (exn \<Rightarrow> bool) \<Rightarrow> ('s, 'a) comp" where
  "retry_with_full_jitter fn max_attempts retry_on =
     (if max_attempts < 1 then raise (ValueError ''max_attempts must be >= 1'')
      else retry_loop max_attempts retry_on fn max_attempts)"

lemma keeps_retry_loop: "keeps I fn \<Longrightarrow> keeps I (retry_loop n p fn k)"
  by (induction k) (auto intro!: keeps_rules)

lemma keeps_retry [keeps_rules]: "keeps I fn \<Longrightarrow> keeps I (retry_with_full_jitter fn n p)"
  by (simp add: retry_with_full_jitter_def keeps_retry_loop keeps_rules)

text \<open>A loop invariant: it holds before every attempt, and the last attempt decides.\<close>

lemma wp_retry_loop:
  assumes step: "\<And>s. J s \<Longrightarrow> wp fn Q (\<lambda>e s'. if p e then J s' \<and> E (RetryExhausted n e) s' else E e s') s"
    and "J s" "0 < k"
  shows "wp (retry_loop n p fn k) Q E s"
  using assms(2,3)
proof (induction k arbitrary: s)
  case (Suc k)
  have "wp fn Q (\<lambda>e. wp (if \<not> p e then raise e else if k = 0 then raise (RetryExhausted n e)
          else retry_loop n p fn k) Q E) s"
    by (rule wp_mono [OF step [OF Suc.prems(1)]]) (use Suc.IH in \<open>auto split: if_splits\<close>)
  then show ?case by simp
qed simp

lemma wp_retry:
  assumes "\<And>s. J s \<Longrightarrow> wp fn Q (\<lambda>e s'. if p e then J s' \<and> E (RetryExhausted n e) s' else E e s') s"
    and "J s" "0 < n"
  shows "wp (retry_with_full_jitter fn n p) Q E s"
  using wp_retry_loop [OF assms] assms(3) by (simp add: retry_with_full_jitter_def)

end
