(* ===== verification/Sha256.thy ===== *)
theory Sha256
  imports Prelude
begin

unbundle bit_operations_syntax

text \<open>
  The hashing part of Python's standard library that the code calls: \<open>hashlib.sha256\<close>
  (FIPS 180-4), \<open>hmac.new(key, msg, sha256)\<close> (RFC 2104), \<open>bytes.hex\<close> and
  \<open>bytes.fromhex\<close>. The functions are written out in full, so that every hash in the
  model is a computed value. The lemmas give what the components rely on: a digest has
  32 bytes, and hexadecimal text and bytes are in one-to-one correspondence.
\<close>

section \<open>SHA-256\<close>

type_synonym w32 = "32 word"

text \<open>
  The constants are the first 32 bits of the fractional parts of the cube roots (the round
  constants) and of the square roots (the initial state) of the first primes. \<open>int_root e b n 0\<close>
  is the integer part of the \<open>e\<close>-th root of \<open>n\<close>, found bit by bit from \<open>2 ^ b\<close>
  down; \<open>word_of_int\<close> then drops the integer part of the scaled root.
\<close>

fun int_root :: "nat \<Rightarrow> nat \<Rightarrow> int \<Rightarrow> int \<Rightarrow> int" where
  "int_root e 0 n r = r"
| "int_root e (Suc b) n r = int_root e b n (if (r + 2 ^ b) ^ e \<le> n then r + 2 ^ b else r)"

definition sha_primes :: "int list" where
  "sha_primes = filter (\<lambda>n. list_all (\<lambda>d. n mod d \<noteq> 0) [2..n - 1]) [2..311]"

definition sha_k :: "w32 list" where
  "sha_k = map (\<lambda>p. word_of_int (int_root 3 40 (p * 2 ^ 96) 0)) sha_primes"

definition sqrt_bits :: "int \<Rightarrow> w32" where
  "sqrt_bits p = word_of_int (int_root 2 40 (p * 2 ^ 64) 0)"

definition rotr :: "nat \<Rightarrow> w32 \<Rightarrow> w32" where
  "rotr n x = drop_bit n x OR push_bit (32 - n) x"

definition bsig0 :: "w32 \<Rightarrow> w32" where "bsig0 x = rotr 2 x XOR rotr 13 x XOR rotr 22 x"
definition bsig1 :: "w32 \<Rightarrow> w32" where "bsig1 x = rotr 6 x XOR rotr 11 x XOR rotr 25 x"
definition ssig0 :: "w32 \<Rightarrow> w32" where "ssig0 x = rotr 7 x XOR rotr 18 x XOR drop_bit 3 x"
definition ssig1 :: "w32 \<Rightarrow> w32" where "ssig1 x = rotr 17 x XOR rotr 19 x XOR drop_bit 10 x"
definition sha_ch :: "w32 \<Rightarrow> w32 \<Rightarrow> w32 \<Rightarrow> w32" where
  "sha_ch x y z = (x AND y) XOR (NOT x AND z)"
definition sha_maj :: "w32 \<Rightarrow> w32 \<Rightarrow> w32 \<Rightarrow> w32" where
  "sha_maj x y z = (x AND y) XOR (x AND z) XOR (y AND z)"

text \<open>The message schedule, newest word first.\<close>

fun extend_schedule :: "nat \<Rightarrow> w32 list \<Rightarrow> w32 list" where
  "extend_schedule 0 ws = ws"
| "extend_schedule (Suc n) ws =
     extend_schedule n ((ssig1 (ws ! 1) + ws ! 6 + ssig0 (ws ! 14) + ws ! 15) # ws)"

datatype sha_state = SHA w32 w32 w32 w32 w32 w32 w32 w32

fun sha_round :: "w32 \<times> w32 \<Rightarrow> sha_state \<Rightarrow> sha_state" where
  "sha_round (k, w) (SHA a b c d e f g h) =
     (let t1 = h + bsig1 e + sha_ch e f g + k + w;
          t2 = bsig0 a + sha_maj a b c
      in SHA (t1 + t2) a b c (d + t1) e f g)"

fun sha_add :: "sha_state \<Rightarrow> sha_state \<Rightarrow> sha_state" where
  "sha_add (SHA a b c d e f g h) (SHA a' b' c' d' e' f' g' h') =
     SHA (a + a') (b + b') (c + c') (d + d') (e + e') (f + f') (g + g') (h + h')"

fun be_words :: "bytes \<Rightarrow> w32 list" where
  "be_words (b0 # b1 # b2 # b3 # bs) =
     (push_bit 24 (ucast b0) OR push_bit 16 (ucast b1) OR push_bit 8 (ucast b2) OR ucast b3) # be_words bs"
| "be_words _ = []"

definition sha_block :: "sha_state \<Rightarrow> bytes \<Rightarrow> sha_state" where
  "sha_block st blk =
     (let ws = rev (extend_schedule 48 (rev (be_words blk)))
      in sha_add st (fold sha_round (zip sha_k ws) st))"

function sha_blocks :: "sha_state \<Rightarrow> bytes \<Rightarrow> sha_state" where
  "sha_blocks st bs = (if bs = [] then st else sha_blocks (sha_block st (take 64 bs)) (drop 64 bs))"
  by pat_completeness auto
termination
  by (relation "measure (\<lambda>(st, bs). length bs)") auto

declare sha_blocks.simps [simp del]

definition be32 :: "w32 \<Rightarrow> bytes" where
  "be32 w = [ucast (drop_bit 24 w), ucast (drop_bit 16 w), ucast (drop_bit 8 w), ucast w]"

definition be64 :: "nat \<Rightarrow> bytes" where
  "be64 n = (let w = (of_nat n :: 64 word) in map (\<lambda>k. ucast (drop_bit k w)) [56, 48, 40, 32, 24, 16, 8, 0])"

definition sha_pad :: "bytes \<Rightarrow> bytes" where
  "sha_pad m = m @ 0x80 # replicate ((119 - length m mod 64) mod 64) 0 @ be64 (8 * length m)"

definition sha_init :: sha_state where
  "sha_init = SHA (sqrt_bits 2) (sqrt_bits 3) (sqrt_bits 5) (sqrt_bits 7)
     (sqrt_bits 11) (sqrt_bits 13) (sqrt_bits 17) (sqrt_bits 19)"

fun sha_out :: "sha_state \<Rightarrow> bytes" where
  "sha_out (SHA a b c d e f g h) =
     be32 a @ be32 b @ be32 c @ be32 d @ be32 e @ be32 f @ be32 g @ be32 h"

definition sha256 :: "bytes \<Rightarrow> bytes" where
  "sha256 m = sha_out (sha_blocks sha_init (sha_pad m))"

lemma length_be32 [simp]: "length (be32 w) = 4"
  by (simp add: be32_def)

lemma length_sha_out [simp]: "length (sha_out st) = 32"
  by (cases st) simp

lemma length_sha256 [simp]: "length (sha256 m) = 32"
  by (simp add: sha256_def)

lemma sha256_neq_Nil [simp]: "sha256 m \<noteq> []"
  by (metis length_sha256 list.size(3) zero_neq_numeral)

section \<open>HMAC-SHA256\<close>

definition hmac_block_key :: "bytes \<Rightarrow> bytes" where
  "hmac_block_key k = (let k' = (if length k > 64 then sha256 k else k) in k' @ replicate (64 - length k') 0)"

definition hmac_sha256 :: "bytes \<Rightarrow> bytes \<Rightarrow> bytes" where
  "hmac_sha256 key msg =
     (let k = hmac_block_key key
      in sha256 (map (\<lambda>b. b XOR 0x5c) k @ sha256 (map (\<lambda>b. b XOR 0x36) k @ msg)))"

lemma length_hmac_sha256 [simp]: "length (hmac_sha256 k m) = 32"
  by (simp add: hmac_sha256_def Let_def)

section \<open>Hexadecimal text\<close>

definition hex_digits :: string where
  "hex_digits = ''0123456789abcdef''"

definition hex_byte :: "byte \<Rightarrow> string" where
  "hex_byte b = [hex_digits ! (unat b div 16), hex_digits ! (unat b mod 16)]"

definition hex :: "bytes \<Rightarrow> string" where
  "hex bs = concat (map hex_byte bs)"

text \<open>\<open>hmac.compare_digest\<close> of two strings: it refuses text that is not ASCII.\<close>

definition is_ascii :: "string \<Rightarrow> bool" where
  "is_ascii s \<longleftrightarrow> list_all (\<lambda>c. (of_char c :: nat) < 128) s"

definition compare_digest :: "string \<Rightarrow> string \<Rightarrow> bool result" where
  "compare_digest a b =
     (if is_ascii a \<and> is_ascii b then Inr (a = b)
      else Inl (TypeError ''comparing strings with non-ASCII characters is not supported''))"

lemma compare_digest_True [simp]: "compare_digest a b = Inr True \<longleftrightarrow> a = b \<and> is_ascii a"
  by (auto simp: compare_digest_def)

text \<open>\<open>bytes.fromhex\<close>: pairs of digits of either case; ASCII whitespace between pairs is skipped.\<close>

definition hex_value :: "char \<Rightarrow> nat option" where
  "hex_value c =
     (let n = of_char c :: nat
      in if 48 \<le> n \<and> n \<le> 57 then Some (n - 48)
         else if 97 \<le> n \<and> n \<le> 102 then Some (n - 87)
         else if 65 \<le> n \<and> n \<le> 70 then Some (n - 55)
         else None)"

definition is_ascii_space :: "char \<Rightarrow> bool" where
  "is_ascii_space c = (let n = of_char c :: nat in n = 32 \<or> (9 \<le> n \<and> n \<le> 13))"

fun fromhex :: "string \<Rightarrow> bytes option" where
  "fromhex [] = Some []"
| "fromhex (c # cs) =
     (if is_ascii_space c then fromhex cs
      else (case cs of
              [] \<Rightarrow> None
            | d # ds \<Rightarrow>
                (case (hex_value c, hex_value d) of
                   (Some x, Some y) \<Rightarrow> map_option (\<lambda>bs. of_nat (16 * x + y) # bs) (fromhex ds)
                 | _ \<Rightarrow> None)))"

lemma hex_digit_value: "n < 16 \<Longrightarrow> hex_value (hex_digits ! n) = Some n \<and> \<not> is_ascii_space (hex_digits ! n)"
proof -
  have "\<forall>n \<in> set [0..<16]. hex_value (hex_digits ! n) = Some n \<and> \<not> is_ascii_space (hex_digits ! n)"
    by code_simp
  moreover assume "n < 16"
  ultimately show ?thesis by auto
qed

lemma length_hex [simp]: "length (hex bs) = 2 * length bs"
  by (induction bs) (simp_all add: hex_def hex_byte_def)

lemma fromhex_hex_append: "fromhex (hex bs @ r) = map_option (\<lambda>cs. bs @ cs) (fromhex r)"
proof (induction bs)
  case Nil
  then show ?case by (simp add: hex_def option.map_ident)
next
  case (Cons b bs)
  have lt: "unat b < 256" using unsigned_less [of b] by simp
  then have d: "unat b div 16 < 16" "unat b mod 16 < 16" by auto
  have b: "of_nat (16 * (unat b div 16) + unat b mod 16) = b" by simp
  show ?case
    using Cons.IH hex_digit_value [OF d(1)] hex_digit_value [OF d(2)] b
    by (simp add: hex_def hex_byte_def option.map_comp comp_def)
qed

lemma fromhex_hex [simp]: "fromhex (hex bs) = Some bs"
  using fromhex_hex_append [of bs "[]"] by simp

lemma hex_inj [simp]: "hex a = hex b \<longleftrightarrow> a = b"
  by (metis fromhex_hex option.inject)

end
