(* ===== verification/Canonical.thy ===== *)
theory Canonical
  imports Sha256 "HOL-Library.List_Lexorder" "HOL-Library.Multiset"
begin

text \<open>
  The RFC 8785 canonical JSON encoder of \<open>domain/audit/canonical.py\<close>. A \<open>dict\<close> is an
  association list with distinct keys (\<open>wf_json\<close>); a finite \<open>float\<close> is the shortest
  decimal that \<open>repr\<close> prints for it, which is all the encoder reads of it.
  The lemmas show that the text does not depend on the order of the keys, and that on
  float-free values it determines the value (equal texts come from equal values), which is
  what every hash of the system rests on.
\<close>

section \<open>Values\<close>

datatype pyfloat = FNaN | FInf | FZero | FFin bool "nat list" int

datatype json =
    JNull
  | JBool bool
  | JInt int
  | JFloat pyfloat
  | JStr string
  | JList "json list"
  | JObj "(string \<times> json) list"

section \<open>Integers and strings as text\<close>

definition dec_digit :: "nat \<Rightarrow> char" where
  "dec_digit n = char_of (48 + n)"

fun show_nat :: "nat \<Rightarrow> string" where
  "show_nat n = (if n < 10 then [dec_digit n] else show_nat (n div 10) @ [dec_digit (n mod 10)])"

declare show_nat.simps [simp del]

definition show_int :: "int \<Rightarrow> string" where
  "show_int i = (if i < 0 then CHR ''-'' # show_nat (nat (- i)) else show_nat (nat i))"

definition is_dec :: "char \<Rightarrow> bool" where
  "is_dec c = (let n = of_char c :: nat in 48 \<le> n \<and> n \<le> 57)"

lemma dec_digit_eq [simp]: "a < 10 \<Longrightarrow> b < 10 \<Longrightarrow> dec_digit a = dec_digit b \<longleftrightarrow> a = b"
  by (auto simp: dec_digit_def dest: arg_cong [where f = "of_char :: char \<Rightarrow> nat"])

lemma is_dec_digit [simp]: "n < 10 \<Longrightarrow> is_dec (dec_digit n)"
  by (simp add: is_dec_def dec_digit_def)

lemma show_nat_neq_Nil [simp]: "show_nat n \<noteq> []"
  by (subst show_nat.simps) simp

lemma Nil_neq_show_nat [simp]: "[] \<noteq> show_nat n"
  using show_nat_neq_Nil [of n] by metis

lemma show_nat_dec: "c \<in> set (show_nat n) \<Longrightarrow> is_dec c"
proof (induction n rule: show_nat.induct)
  case (1 n)
  show ?case
    using "1.prems" "1.IH" by (subst (asm) show_nat.simps) (auto split: if_splits)
qed

lemma show_nat_inj: "show_nat m = show_nat n \<Longrightarrow> m = n"
proof (induction m arbitrary: n rule: show_nat.induct)
  case (1 m)
  show ?case
  proof (cases "m < 10")
    case True
    with "1.prems" show ?thesis
      by (subst (asm) (1 2) show_nat.simps) (auto split: if_splits)
  next
    case False
    from "1.prems" False have n: "\<not> n < 10"
      by (subst (asm) (1 2) show_nat.simps) (auto split: if_splits)
    from "1.prems" False n
    have "show_nat (m div 10) = show_nat (n div 10)" and "dec_digit (m mod 10) = dec_digit (n mod 10)"
      by (subst (asm) (1 2) show_nat.simps, simp)+
    then have "m div 10 = n div 10" and "m mod 10 = n mod 10"
      using "1.IH" [OF False] by auto
    then show ?thesis by (metis mult_div_mod_eq)
  qed
qed

lemma show_int_inj: "show_int i = show_int j \<Longrightarrow> i = j"
proof -
  assume a: "show_int i = show_int j"
  have neg: "CHR ''-'' # xs \<noteq> show_nat n" for xs n
  proof
    assume "CHR ''-'' # xs = show_nat n"
    then have "is_dec (CHR ''-'')" by (metis list.set_intros(1) show_nat_dec)
    then show False by (simp add: is_dec_def)
  qed
  from a show ?thesis
    by (auto simp: show_int_def neg neg [symmetric] split: if_splits dest!: show_nat_inj)
qed

text \<open>\<open>_ESCAPE_MAP\<close> and the per-character step of \<open>_encode_string\<close>.\<close>

definition escape_map :: "(nat \<times> char) list" where
  "escape_map = [(34, CHR 0x22), (92, CHR 0x5C), (8, CHR ''b''), (12, CHR ''f''), (10, CHR ''n''),
     (13, CHR ''r''), (9, CHR ''t'')]"

definition esc_char :: "char \<Rightarrow> string" where
  "esc_char c =
     (case map_of escape_map (of_char c) of
        Some e \<Rightarrow> [CHR 0x5C, e]
      | None \<Rightarrow>
          (if (of_char c :: nat) < 0x20
           then [CHR 0x5C, CHR ''u'', CHR ''0'', CHR ''0''] @ hex_byte (of_char c)
           else [c]))"

definition encode_string :: "string \<Rightarrow> string" where
  "encode_string s = CHR 0x22 # concat (map esc_char s) @ [CHR 0x22]"

section \<open>UTF-16 sort keys\<close>

fun utf8_decode :: "nat list \<Rightarrow> nat list" where
  "utf8_decode [] = []"
| "utf8_decode (a # as) =
     (if a < 0x80 then a # utf8_decode as
      else if a < 0xE0 then
        (case as of b # bs \<Rightarrow> ((a mod 32) * 64 + b mod 64) # utf8_decode bs | [] \<Rightarrow> [a])
      else if a < 0xF0 then
        (case as of b # c # bs \<Rightarrow> ((a mod 16) * 4096 + (b mod 64) * 64 + c mod 64) # utf8_decode bs
         | _ \<Rightarrow> a # as)
      else
        (case as of
           b # c # d # bs \<Rightarrow>
             ((a mod 8) * 262144 + (b mod 64) * 4096 + (c mod 64) * 64 + d mod 64) # utf8_decode bs
         | _ \<Rightarrow> a # as))"

definition utf16_unit :: "nat \<Rightarrow> nat list" where
  "utf16_unit p =
     (if p < 0x10000 then [p]
      else [0xD800 + (p - 0x10000) div 1024, 0xDC00 + (p - 0x10000) mod 1024])"

definition utf16_key :: "string \<Rightarrow> nat list" where
  "utf16_key s = concat (map utf16_unit (utf8_decode (map of_char s)))"

section \<open>Floating-point numbers\<close>

definition encode_number :: "pyfloat \<Rightarrow> string result" where
  "encode_number x =
     (case x of
        FNaN \<Rightarrow> Inl (ValueError ''not representable in JSON'')
      | FInf \<Rightarrow> Inl (ValueError ''not representable in JSON'')
      | FZero \<Rightarrow> Inr ''0''
      | FFin neg digits exponent \<Rightarrow>
          (let sign = (if neg then ''-'' else '''');
               digit_str = concat (map show_nat digits);
               k = int (length digit_str);
               n = exponent + k;
               body =
                 (if k \<le> n \<and> n \<le> 21 then digit_str @ replicate (nat (n - k)) (CHR ''0'')
                  else if 0 < n \<and> n \<le> 21 then take (nat n) digit_str @ ''.'' @ drop (nat n) digit_str
                  else if - 6 < n \<and> n \<le> 0 then ''0.'' @ replicate (nat (- n)) (CHR ''0'') @ digit_str
                  else
                    (let mantissa = (if k = 1 then digit_str else take 1 digit_str @ ''.'' @ drop 1 digit_str);
                         e = n - 1
                     in mantissa @ ''e'' @ (if e \<ge> 0 then ''+'' else ''-'') @ show_nat (nat \<bar>e\<bar>)))
           in Inr (sign @ body)))"

section \<open>The encoder\<close>

fun join :: "string \<Rightarrow> string list \<Rightarrow> string" where
  "join sep [] = []"
| "join sep [x] = x"
| "join sep (x # y # xs) = x @ sep @ join sep (y # xs)"

fun rseq :: "'a result list \<Rightarrow> 'a list result" where
  "rseq [] = Inr []"
| "rseq (r # rs) = rbind r (\<lambda>x. rbind (rseq rs) (\<lambda>xs. Inr (x # xs)))"

definition rmap :: "('a \<Rightarrow> 'b) \<Rightarrow> 'a result \<Rightarrow> 'b result" where
  "rmap f r = rbind r (\<lambda>x. Inr (f x))"

definition sort_items :: "(string \<times> 'a) list \<Rightarrow> (string \<times> 'a) list" where
  "sort_items kvs = sort_key (\<lambda>kv. utf16_key (fst kv)) kvs"

definition encode_items :: "(string \<times> string) list \<Rightarrow> string" where
  "encode_items kvs = ''{'' @ join '','' (map (\<lambda>(k, v). encode_string k @ '':'' @ v) kvs) @ ''}''"

fun jcs :: "json \<Rightarrow> string result" where
  "jcs JNull = Inr ''null''"
| "jcs (JBool b) = Inr (if b then ''true'' else ''false'')"
| "jcs (JStr s) = Inr (encode_string s)"
| "jcs (JInt i) = Inr (show_int i)"
| "jcs (JFloat x) = encode_number x"
| "jcs (JObj kvs) =
     rmap (\<lambda>items. encode_items (sort_items items))
       (rseq (map (\<lambda>(k, v). rmap (\<lambda>t. (k, t)) (jcs v)) kvs))"
| "jcs (JList vs) = rmap (\<lambda>ts. ''['' @ join '','' ts @ '']'') (rseq (map jcs vs))"

section \<open>Well-formed values and their normal form\<close>

fun wf_json :: "json \<Rightarrow> bool" where
  "wf_json (JObj kvs) \<longleftrightarrow>
     distinct (map (\<lambda>kv. utf16_key (fst kv)) kvs) \<and> list_all (\<lambda>(k, v). wf_json v) kvs"
| "wf_json (JList vs) \<longleftrightarrow> list_all wf_json vs"
| "wf_json _ \<longleftrightarrow> True"

fun no_floats :: "json \<Rightarrow> bool" where
  "no_floats (JFloat x) \<longleftrightarrow> False"
| "no_floats (JObj kvs) \<longleftrightarrow> list_all (\<lambda>(k, v). no_floats v) kvs"
| "no_floats (JList vs) \<longleftrightarrow> list_all no_floats vs"
| "no_floats _ \<longleftrightarrow> True"

text \<open>The normal form sorts the items of every object; \<open>render\<close> prints without sorting.\<close>

fun norm :: "json \<Rightarrow> json" where
  "norm (JObj kvs) = JObj (sort_items (map (\<lambda>(k, v). (k, norm v)) kvs))"
| "norm (JList vs) = JList (map norm vs)"
| "norm v = v"

fun render :: "json \<Rightarrow> string" where
  "render JNull = ''null''"
| "render (JBool b) = (if b then ''true'' else ''false'')"
| "render (JStr s) = encode_string s"
| "render (JInt i) = show_int i"
| "render (JFloat x) = []"
| "render (JObj kvs) = encode_items (map (\<lambda>(k, v). (k, render v)) kvs)"
| "render (JList vs) = ''['' @ join '','' (map render vs) @ '']''"

lemma rmap_simps [simp]: "rmap f (Inr x) = Inr (f x)" "rmap f (Inl e) = Inl e"
  by (simp_all add: rmap_def)

lemma rseq_map_Inr: "(\<And>x. x \<in> set xs \<Longrightarrow> f x = Inr (g x)) \<Longrightarrow> rseq (map f xs) = Inr (map g xs)"
  by (induction xs) simp_all

lemma insort_key_map:
  "insort_key f (h x) (map h xs) = map h (insort_key (\<lambda>y. f (h y)) x xs)"
  by (induction xs) auto

lemma sort_key_map: "sort_key f (map h xs) = map h (sort_key (\<lambda>y. f (h y)) xs)"
  by (induction xs) (simp_all add: sort_key_def insort_key_map)

lemma sort_items_map_value:
  "sort_items (map (\<lambda>(k, v). (k, f v)) kvs) = map (\<lambda>(k, v). (k, f v)) (sort_items kvs)"
  by (simp add: sort_items_def sort_key_map case_prod_beta)

lemma set_sort_items [simp]: "set (sort_items kvs) = set kvs"
  by (simp add: sort_items_def)

lemma mset_sort_items [simp]: "mset (sort_items kvs) = mset kvs"
  by (simp add: sort_items_def)

lemma jcs_render: "no_floats v \<Longrightarrow> jcs v = Inr (render (norm v))"
proof (induction v)
  case (JList vs)
  then have "rseq (map jcs vs) = Inr (map (\<lambda>v. render (norm v)) vs)"
    by (intro rseq_map_Inr) (simp add: list_all_iff)
  then show ?case by (simp add: comp_def)
next
  case (JObj kvs)
  then have "rseq (map (\<lambda>(k, v). rmap (\<lambda>t. (k, t)) (jcs v)) kvs) =
      Inr (map (\<lambda>(k, v). (k, render (norm v))) kvs)"
    by (intro rseq_map_Inr) (fastforce simp: list_all_iff)
  moreover have "sort_items (map (\<lambda>(k, v). (k, render (norm v))) kvs) =
      map (\<lambda>(k, v). (k, render v)) (sort_items (map (\<lambda>(k, v). (k, norm v)) kvs))"
    using sort_items_map_value [of "\<lambda>v. render (norm v)" kvs] sort_items_map_value [of norm kvs]
    by (simp add: comp_def split_def)
  ultimately show ?case by simp
qed simp_all

section \<open>The text does not depend on the order of keys\<close>

lemma sort_items_cong:
  assumes "mset xs = mset ys" and "distinct (map (\<lambda>kv. utf16_key (fst kv)) xs)"
  shows "sort_items xs = sort_items ys"
proof -
  have "inj_on (\<lambda>kv. utf16_key (fst kv)) (set xs)"
    using assms(2) by (simp add: distinct_map)
  then show ?thesis
    unfolding sort_items_def using assms(1)
    by (intro sort_key_inj_key_eq) simp_all
qed

section \<open>The text determines the value\<close>

text \<open>A decoder for one escaped character, as a left inverse of \<open>esc_char\<close>.\<close>

definition unescape_map :: "(char \<times> nat) list" where
  "unescape_map = map (\<lambda>(n, c). (c, n)) escape_map"

definition esc_shape :: "char \<Rightarrow> bool" where
  "esc_shape c =
     (case esc_char c of
        [x] \<Rightarrow> x = c \<and> x \<noteq> CHR 0x5C \<and> x \<noteq> CHR 0x22
      | [b, e] \<Rightarrow> b = CHR 0x5C \<and> e \<noteq> CHR ''u'' \<and> map_of unescape_map e = Some (of_char c)
      | [b, u, z1, z2, h, l] \<Rightarrow>
          b = CHR 0x5C \<and> u = CHR ''u'' \<and> fromhex [h, l] = Some [of_char c]
      | _ \<Rightarrow> False)"

lemma esc_shape_all: "esc_shape c"
proof -
  let ?n = "of_char c :: nat"
  consider "?n < 32" | "?n = 34" | "?n = 92" | "\<not> ?n < 32" "?n \<noteq> 34" "?n \<noteq> 92" by blast
  then show ?thesis
  proof cases
    case 1
    have "\<forall>n \<in> set [0..<32]. esc_shape (char_of n)"
      by code_simp
    moreover have "?n \<in> set [0..<32]" using 1 by simp
    ultimately have "esc_shape (char_of ?n)" by (rule bspec)
    then show ?thesis by simp
  next
    case 2
    then have "c = char_of (34::nat)" by (metis char_of_char)
    moreover have "esc_shape (char_of (34::nat))" by code_simp
    ultimately show ?thesis by simp
  next
    case 3
    then have "c = char_of (92::nat)" by (metis char_of_char)
    moreover have "esc_shape (char_of (92::nat))" by code_simp
    ultimately show ?thesis by simp
  next
    case 4
    then have "map_of escape_map ?n = None"
      by (auto simp: escape_map_def)
    with 4 have "esc_char c = [c]"
      by (simp add: esc_char_def)
    moreover have "c \<noteq> CHR 0x5C" "c \<noteq> CHR 0x22"
      using 4 by auto
    ultimately show ?thesis by (simp add: esc_shape_def)
  qed
qed

lemma esc_char_cases:
  obtains (plain) "esc_char c = [c]" "c \<noteq> CHR 0x5C" "c \<noteq> CHR 0x22"
  | (short) e where "esc_char c = [CHR 0x5C, e]" "e \<noteq> CHR ''u''" "map_of unescape_map e = Some (of_char c)"
  | (long) z1 z2 h l where "esc_char c = [CHR 0x5C, CHR ''u'', z1, z2, h, l]"
      "fromhex [h, l] = Some [of_char c]"
  using esc_shape_all [of c] unfolding esc_shape_def
  by (auto split: list.splits)

lemma esc_char_prefix: "esc_char c @ r = esc_char d @ s \<Longrightarrow> c = d \<and> r = s"
  by (cases c rule: esc_char_cases; cases d rule: esc_char_cases)
    (auto simp: of_char_byte_inj)

lemma hd_esc_char: "hd (esc_char c) \<noteq> CHR 0x22" and esc_char_neq_Nil [simp]: "esc_char c \<noteq> []"
  by (cases c rule: esc_char_cases; simp)+

lemma quote_neq_esc [simp]:
  "CHR 0x22 # r \<noteq> esc_char a @ t" "esc_char a @ t \<noteq> CHR 0x22 # r"
  using hd_esc_char [of a] by (cases "esc_char a"; auto)+

lemma encode_string_prefix:
  "encode_string a @ r = encode_string b @ s \<Longrightarrow> a = b \<and> r = s"
proof -
  have "concat (map esc_char a) @ CHR 0x22 # r = concat (map esc_char b) @ CHR 0x22 # s \<Longrightarrow> a = b \<and> r = s"
  proof (induction a arbitrary: b)
    case Nil
    then show ?case by (cases b) auto
  next
    case (Cons c a)
    then obtain d b' where b: "b = d # b'"
      by (cases b) auto
    from Cons.prems b have "c = d \<and> concat (map esc_char a) @ CHR 0x22 # r = concat (map esc_char b') @ CHR 0x22 # s"
      by (auto dest: esc_char_prefix)
    with Cons.IH b show ?case by blast
  qed
  then show "encode_string a @ r = encode_string b @ s \<Longrightarrow> a = b \<and> r = s"
    by (simp add: encode_string_def)
qed

text \<open>What may follow a value inside a document; it never continues a number.\<close>

definition delim :: "string \<Rightarrow> bool" where
  "delim r \<longleftrightarrow> r = [] \<or> hd r \<in> {CHR '','', CHR '']'', CHR ''}''}"

lemma delim_simps [simp]: "delim (CHR '','' # r)" "delim (CHR '']'' # r)" "delim (CHR ''}'' # r)"
  by (simp_all add: delim_def)

lemma delim_not_dec: "delim (c # r) \<Longrightarrow> \<not> is_dec c"
  by (auto simp: delim_def is_dec_def)

lemma digits_prefix:
  "\<lbrakk>\<forall>c\<in>set xs. is_dec c; \<forall>c\<in>set ys. is_dec c; delim r; delim s; xs @ r = ys @ s\<rbrakk> \<Longrightarrow> xs = ys \<and> r = s"
proof (induction xs arbitrary: ys)
  case Nil
  then show ?case by (cases ys) (auto dest: delim_not_dec)
next
  case (Cons x xs)
  then show ?case by (cases ys) (auto dest: delim_not_dec)
qed

lemma show_nat_not_minus [simp]:
  "CHR ''-'' # xs \<noteq> show_nat n @ ys" "show_nat n @ ys \<noteq> CHR ''-'' # xs"
proof -
  have "hd (show_nat n @ ys) \<noteq> CHR ''-''"
    using show_nat_dec [of "hd (show_nat n)" n] by (auto simp: is_dec_def)
  then show "CHR ''-'' # xs \<noteq> show_nat n @ ys" "show_nat n @ ys \<noteq> CHR ''-'' # xs"
    by (metis list.sel(1))+
qed

lemma show_int_prefix:
  assumes "delim r" "delim s" "show_int i @ r = show_int j @ s"
  shows "i = j \<and> r = s"
proof -
  have nat: "m = n \<and> r = s" if "show_nat m @ r = show_nat n @ s" for m n
    using digits_prefix [of "show_nat m" "show_nat n" r s] that assms(1,2)
    by (auto dest: show_nat_dec show_nat_inj)
  show ?thesis
    using assms(3) by (auto simp: show_int_def split: if_splits dest!: nat)
qed

text \<open>The first character of a rendered value tells its constructor.\<close>

definition json_tag :: "json \<Rightarrow> nat" where
  "json_tag v = (case v of JNull \<Rightarrow> 0 | JBool b \<Rightarrow> 1 | JInt i \<Rightarrow> 2 | JFloat x \<Rightarrow> 3 | JStr s \<Rightarrow> 4
     | JList vs \<Rightarrow> 5 | JObj kvs \<Rightarrow> 6)"

definition char_tag :: "char \<Rightarrow> nat" where
  "char_tag c =
     (if c = CHR ''n'' then 0 else if c = CHR ''t'' \<or> c = CHR ''f'' then 1
      else if is_dec c \<or> c = CHR ''-'' then 2 else if c = CHR 0x22 then 4
      else if c = CHR ''['' then 5 else if c = CHR ''{'' then 6 else 7)"

lemma char_tag_dec: "is_dec c \<Longrightarrow> char_tag c = 2"
  by (auto simp: char_tag_def is_dec_def)

lemma char_tag_show_int: "char_tag (hd (show_int i @ r)) = 2"
proof -
  have "char_tag (hd (show_nat n @ r)) = 2" for n
    using show_nat_dec [of "hd (show_nat n)" n] by (simp add: char_tag_dec)
  moreover have "char_tag (CHR ''-'') = 2" by code_simp
  ultimately show ?thesis
    by (simp add: show_int_def)
qed

lemma render_tag: "no_floats v \<Longrightarrow> char_tag (hd (render v @ r)) = json_tag v"
  by (cases v) (auto simp: json_tag_def char_tag_show_int, auto simp: char_tag_def is_dec_def
      encode_string_def encode_items_def)

lemma render_neq_Nil: "no_floats v \<Longrightarrow> render v \<noteq> []"
  by (cases v) (auto simp: show_int_def encode_string_def encode_items_def)

lemma join_Cons: "join sep (x # xs) = x @ (if xs = [] then [] else sep @ join sep xs)"
  by (cases xs) auto

lemma join_list_prefix:
  assumes IH: "\<And>v w r s. \<lbrakk>v \<in> set vs; P w; delim r; delim s; f v @ r = g w @ s\<rbrakk> \<Longrightarrow> v = w \<and> r = s"
    and all: "list_all P ws"
    and open_close: "\<And>v r. v \<in> set vs \<Longrightarrow> hd (f v @ r) \<noteq> z \<and> f v \<noteq> []" "\<And>w r. P w \<Longrightarrow> hd (g w @ r) \<noteq> z \<and> g w \<noteq> []"
    and z: "z \<in> {CHR '']'', CHR ''}''}"
    and eq: "join '','' (map f vs) @ z # r = join '','' (map g ws) @ z # s"
  shows "vs = ws \<and> r = s"
  using IH all open_close(1) eq
proof (induction vs arbitrary: ws)
  case Nil
  show ?case
  proof (cases ws)
    case Nil
    with Nil.prems show ?thesis by simp
  next
    case (Cons w ws')
    with Nil.prems open_close(2) [of w] show ?thesis
      by (auto simp: join_Cons split: if_splits) (metis append_is_Nil_conv list.sel(1) append_assoc hd_append2)+
  qed
next
  case (Cons v vs)
  show ?case
  proof (cases ws)
    case Nil
    with Cons.prems(4) Cons.prems(3) [of v] show ?thesis
      by (auto simp: join_Cons split: if_splits) (metis append_is_Nil_conv list.sel(1) append_assoc hd_append2)+
  next
    case ws: (Cons w ws')
    define r1 where "r1 = (if vs = [] then [] else CHR '','' # join '','' (map f vs)) @ z # r"
    define s1 where "s1 = (if ws' = [] then [] else CHR '','' # join '','' (map g ws')) @ z # s"
    have d: "delim r1" "delim s1"
      using z by (auto simp: r1_def s1_def delim_def)
    have "f v @ r1 = g w @ s1"
      using Cons.prems(4) ws by (auto simp: join_Cons r1_def s1_def)
    then have vw: "v = w" and rs: "r1 = s1"
      using Cons.prems(1) [of v w r1 s1] Cons.prems(2) ws d by auto
    from rs z have "vs = [] \<longleftrightarrow> ws' = []"
      by (auto simp: r1_def s1_def split: if_splits)
    with rs have "join '','' (map f vs) @ z # r = join '','' (map g ws') @ z # s"
      by (auto simp: r1_def s1_def split: if_splits)
    note tl_eq = this
    have "vs = ws' \<and> r = s"
    proof (rule Cons.IH)
      show "a = b \<and> r' = s'"
        if "a \<in> set vs" "P b" "delim r'" "delim s'" "f a @ r' = g b @ s'" for a b r' s'
        using that by (intro Cons.prems(1)) auto
      show "hd (f a @ r') \<noteq> z \<and> f a \<noteq> []" if "a \<in> set vs" for a r'
        using that by (intro Cons.prems(3)) auto
    qed (use Cons.prems(2) ws tl_eq in simp_all)
    with vw ws show ?thesis by simp
  qed
qed

lemma item_prefix:
  "\<lbrakk>encode_string k @ CHR '':'' # t @ r = encode_string k' @ CHR '':'' # t' @ s\<rbrakk>
   \<Longrightarrow> k = k' \<and> t @ r = t' @ s"
  by (drule encode_string_prefix) simp

lemma render_same_tag:
  "\<lbrakk>no_floats v; no_floats w; render v @ r = render w @ s\<rbrakk> \<Longrightarrow> json_tag v = json_tag w"
  by (metis render_tag)

lemma render_not_close:
  assumes "no_floats v"
  shows "hd (render v @ r) \<noteq> CHR '']''" "hd (render v @ r) \<noteq> CHR ''}''"
proof -
  have "json_tag v \<noteq> 7" by (simp add: json_tag_def split: json.splits)
  moreover have "char_tag (CHR '']'') = 7" "char_tag (CHR ''}'') = 7" by code_simp+
  ultimately show "hd (render v @ r) \<noteq> CHR '']''" "hd (render v @ r) \<noteq> CHR ''}''"
    using render_tag [OF assms] by metis+
qed

lemma JList_prefix:
  assumes "\<And>v w r s. \<lbrakk>v \<in> set vs; no_floats w; delim r; delim s; render v @ r = render w @ s\<rbrakk> \<Longrightarrow> v = w \<and> r = s"
    and "list_all no_floats vs" "list_all no_floats ws"
    and "render (JList vs) @ r = render (JList ws) @ s"
  shows "vs = ws \<and> r = s"
  using assms
  by (intro join_list_prefix [where f = render and g = render and P = no_floats and z = "CHR '']''"])
    (auto simp: list_all_iff render_not_close render_neq_Nil simp del: hd_append2)

lemma JObj_prefix:
  assumes IH: "\<And>k v w r s. \<lbrakk>(k, v) \<in> set kvs; no_floats w; delim r; delim s; render v @ r = render w @ s\<rbrakk> \<Longrightarrow> v = w \<and> r = s"
    and nf: "list_all (\<lambda>(k, v). no_floats v) kvs" "list_all (\<lambda>(k, v). no_floats v) kws"
    and eq: "render (JObj kvs) @ r = render (JObj kws) @ s"
  shows "kvs = kws \<and> r = s"
proof -
  let ?f = "\<lambda>(k, v). encode_string k @ '':'' @ render v"
  have "kv = kw \<and> r = s"
    if "kv \<in> set kvs" "case kw of (k, v) \<Rightarrow> no_floats v" "delim r" "delim s" "?f kv @ r = ?f kw @ s" for kv kw r s
  proof -
    obtain k v where kv: "kv = (k, v)" by (cases kv)
    obtain k' w where kw: "kw = (k', w)" by (cases kw)
    have "k = k' \<and> render v @ r = render w @ s"
      using that(5) kv kw by (intro item_prefix) simp
    then show ?thesis using IH [of k v w r s] that kv kw by auto
  qed
  then show ?thesis
    using nf eq
    by (intro join_list_prefix [where f = ?f and g = ?f and P = "\<lambda>(k, v). no_floats v" and z = "CHR ''}''"])
      (auto simp: encode_items_def encode_string_def comp_def case_prod_unfold)
qed

lemma render_prefix:
  "\<lbrakk>no_floats v; no_floats w; delim r; delim s; render v @ r = render w @ s\<rbrakk> \<Longrightarrow> v = w \<and> r = s"
proof (induction v arbitrary: w r s)
  case (JList vs)
  from render_same_tag [OF JList.prems(1,2,5)] obtain ws where w: "w = JList ws"
    by (cases w) (auto simp: json_tag_def)
  with JList show ?case
    using JList_prefix [of vs ws r s] by (auto simp: list_all_iff)
next
  case (JObj kvs)
  from render_same_tag [OF JObj.prems(1,2,5)] obtain kws where w: "w = JObj kws"
    by (cases w) (auto simp: json_tag_def)
  have "kvs = kws \<and> r = s"
  proof (rule JObj_prefix)
    show "v = w' \<and> r' = s'"
      if "(k, v) \<in> set kvs" "no_floats w'" "delim r'" "delim s'" "render v @ r' = render w' @ s'" for k v w' r' s'
      using that JObj.IH [of "(k, v)" v w' r' s'] JObj.prems(1) by (auto simp: list_all_iff)
  qed (use JObj.prems w in auto)
  with w show ?case by simp
next
  case (JStr x)
  from render_same_tag [OF JStr.prems(1,2,5)] JStr.prems(5) show ?case
    by (cases w) (auto simp: json_tag_def dest: encode_string_prefix)
next
  case (JInt x)
  from render_same_tag [OF JInt.prems(1,2,5)] JInt.prems(3,4,5) show ?case
    by (cases w) (auto simp: json_tag_def dest: show_int_prefix)
next
  case (JBool x)
  from render_same_tag [OF JBool.prems(1,2,5)] JBool.prems(5) show ?case
    by (cases w) (auto simp: json_tag_def split: if_splits)
next
  case JNull
  from render_same_tag [OF JNull.prems(1,2,5)] JNull.prems(5) show ?case
    by (cases w) (auto simp: json_tag_def)
qed simp

lemma no_floats_norm [simp]: "no_floats (norm v) = no_floats v"
  by (induction v) (fastforce simp: list_all_iff)+

text \<open>Equal canonical texts come from values that differ at most in the order of keys.\<close>

lemma jcs_inj:
  assumes "no_floats v" "no_floats w" "jcs v = jcs w"
  shows "norm v = norm w"
  using assms render_prefix [of "norm v" "norm w" "[]" "[]"]
  by (simp add: jcs_render delim_def)

text \<open>The reverse direction, one level deep: items in any order give the same text.\<close>

lemma norm_JObj_cong:
  assumes "mset kvs = mset kws" and "distinct (map (\<lambda>kv. utf16_key (fst kv)) kvs)"
  shows "norm (JObj kvs) = norm (JObj kws)"
proof -
  have "map (\<lambda>kv. utf16_key (fst kv)) (map (\<lambda>(k, v). (k, norm v)) kvs) = map (\<lambda>kv. utf16_key (fst kv)) kvs"
    by auto
  with assms have "sort_items (map (\<lambda>(k, v). (k, norm v)) kvs) = sort_items (map (\<lambda>(k, v). (k, norm v)) kws)"
    by (intro sort_items_cong) (simp_all only: mset_map)
  then show ?thesis by simp
qed

lemma map_of_norm_JObj:
  assumes eq: "norm (JObj kvs) = norm (JObj kws)" and d: "distinct (map fst kvs)" "distinct (map fst kws)"
  shows "map_option norm (map_of kvs k) = map_option norm (map_of kws k)"
proof -
  let ?h = "\<lambda>kvs. map (\<lambda>(k, v). (k, norm v)) kvs"
  have "sort_items (?h kvs) = sort_items (?h kws)" using eq by simp
  then have "mset (?h kvs) = mset (?h kws)" by (metis mset_sort_items)
  then have "set (?h kvs) = set (?h kws)" by (rule mset_eq_setD)
  moreover have "distinct (map fst (?h kvs))" "distinct (map fst (?h kws))"
    using d by (simp_all add: comp_def split_def)
  ultimately have "map_of (?h kvs) = map_of (?h kws)"
    by (metis map_of_inject_set)
  then have "map_of (?h kvs) k = map_of (?h kws) k" by simp
  then show ?thesis by (simp add: map_of_map)
qed

text \<open>Objects with the same keys in the same order: the values agree one by one.\<close>

lemma norm_JObj_fields:
  assumes eq: "norm (JObj kvs) = norm (JObj kws)" and keys: "map fst kvs = map fst kws"
    and d: "distinct (map fst kvs)"
  shows "map (\<lambda>kv. norm (snd kv)) kvs = map (\<lambda>kv. norm (snd kv)) kws"
proof (rule nth_equalityI)
  show len: "length (map (\<lambda>kv. norm (snd kv)) kvs) = length (map (\<lambda>kv. norm (snd kv)) kws)"
    using keys by (metis length_map)
  fix i assume "i < length (map (\<lambda>kv. norm (snd kv)) kvs)"
  then have i: "i < length kvs" "i < length kws" using len by simp_all
  have k: "fst (kvs ! i) = fst (kws ! i)" using i keys by (metis nth_map)
  have "map_of kvs (fst (kvs ! i)) = Some (snd (kvs ! i))"
    using d i by (simp add: map_of_eq_Some_iff)
  moreover have "map_of kws (fst (kws ! i)) = Some (snd (kws ! i))"
    using d i keys by (simp add: map_of_eq_Some_iff)
  ultimately have "norm (snd (kvs ! i)) = norm (snd (kws ! i))"
    using map_of_norm_JObj [OF eq, of "fst (kvs ! i)"] d keys k by simp
  then show "map (\<lambda>kv. norm (snd kv)) kvs ! i = map (\<lambda>kv. norm (snd kv)) kws ! i"
    using i by simp
qed

lemma map_JStr_eq [simp]: "map JStr xs = map JStr ys \<longleftrightarrow> xs = ys"
  by (simp add: inj_map_eq_map inj_def)

lemma map_norm_JStr [simp]: "map (norm \<circ> JStr) xs = map JStr xs"
  by simp

definition jopt :: "('a \<Rightarrow> json) \<Rightarrow> 'a option \<Rightarrow> json" where
  "jopt f x = (case x of None \<Rightarrow> JNull | Some y \<Rightarrow> f y)"

lemma jopt_simps [simp]: "jopt f None = JNull" "jopt f (Some y) = f y"
  by (simp_all add: jopt_def)

lemma no_floats_jopt [simp]: "no_floats (jopt f x) \<longleftrightarrow> (case x of None \<Rightarrow> True | Some y \<Rightarrow> no_floats (f y))"
  by (cases x) simp_all

declare jcs.simps(6,7) [simp del]
declare norm.simps(1) [simp del]

section \<open>Canonicity\<close>

text \<open>
  \<open>jcs\<close> is canonical on values without floats (the only ones that are hashed): it never
  raises, and two values have the same text exactly when they differ at most in the order of
  object keys, at any depth.
\<close>

theorem jcs_canonical:
  assumes "no_floats v" "no_floats w"
  shows "(\<exists>t. jcs v = Inr t) \<and> (jcs v = jcs w \<longleftrightarrow> norm v = norm w)"
  using assms jcs_inj [of v w] by (auto simp: jcs_render)

theorem jcs_canonical_witness:
  "no_floats (JList [JInt (- 5), JStr ''a'']) \<and> no_floats (JStr ''a'') \<and>
   jcs (JList [JInt (- 5), JStr ''a'']) \<noteq> jcs (JStr ''a'')"
  using jcs_canonical [of "JList [JInt (- 5), JStr ''a'']" "JStr ''a''"] by simp

text \<open>
  Key order is not meaningful: an object whose items are listed in another order has the same
  canonical text, provided no two of its keys have the same UTF-16 form.
\<close>

theorem jcs_key_order:
  assumes "mset kvs = mset kws" "distinct (map (\<lambda>kv. utf16_key (fst kv)) kvs)" "no_floats (JObj kvs)"
  shows "jcs (JObj kvs) = jcs (JObj kws)"
proof -
  have "no_floats (JObj kws)"
    using assms(3) mset_eq_setD [OF assms(1)] by (simp add: list_all_iff)
  then show ?thesis
    using assms(3) norm_JObj_cong [OF assms(1,2)] by (simp add: jcs_render)
qed

theorem jcs_key_order_witness:
  "let kvs = [(''b'', JInt 2), (''a'', JObj [])]; kws = [(''a'', JObj []), (''b'', JInt 2)]
   in jcs (JObj kvs) = jcs (JObj kws)"
  unfolding Let_def by (rule jcs_key_order) (simp_all add: utf16_key_def utf16_unit_def)

end
