(* ===== verification/Platform.thy ===== *)
theory Platform
  imports Exec Canonical
begin

text \<open>
  The platform layer: the circuit breaker (\<open>platform/breaker.py\<close>), Crockford ids
  (\<open>platform/ids.py\<close>) and log redaction (\<open>platform/redaction.py\<close>); \<open>retry.py\<close> is in
  \<open>Exec\<close>. The breaker is split where the awaited call happens: \<open>breaker_begin\<close> is
  everything before \<open>await fn()\<close>, \<open>breaker_finish\<close> everything after it, so that calls in
  flight at the same time are interleavings of begin and finish events.
\<close>

section \<open>breaker.py\<close>

datatype breaker_state = CLOSED | OPEN | HALF_OPEN

record breaker =
  b_name :: string
  failure_threshold :: int
  recovery_timeout :: int
  b_state :: breaker_state
  consecutive_failures :: int
  opened_at :: "datetime option"
  trial_in_flight :: bool

definition new_breaker :: "string \<Rightarrow> int \<Rightarrow> int \<Rightarrow> breaker" where
  "new_breaker nm threshold timeout =
     \<lparr>b_name = nm, failure_threshold = threshold, recovery_timeout = timeout, b_state = CLOSED,
      consecutive_failures = 0, opened_at = None, trial_in_flight = False\<rparr>"

text \<open>The \<open>state\<close> property.\<close>

definition effective_state :: "breaker \<Rightarrow> datetime \<Rightarrow> breaker_state" where
  "effective_state b now =
     (case opened_at b of
        Some t \<Rightarrow> if b_state b = OPEN \<and> now - t \<ge> recovery_timeout b then HALF_OPEN else b_state b
      | None \<Rightarrow> b_state b)"

definition quoted :: "string \<Rightarrow> string" where
  "quoted s = CHR 0x27 # s @ [CHR 0x27]"

definition breaker_begin :: "breaker \<Rightarrow> datetime \<Rightarrow> breaker result" where
  "breaker_begin b now =
     (case effective_state b now of
        OPEN \<Rightarrow> Inl (CircuitOpenError (''circuit '' @ quoted (b_name b) @ '' is open''))
      | HALF_OPEN \<Rightarrow>
          if trial_in_flight b then Inl (CircuitOpenError (''circuit '' @ quoted (b_name b) @ '' is half-open (trial in flight)''))
          else Inr (b\<lparr>trial_in_flight := True\<rparr>)
      | CLOSED \<Rightarrow> Inr b)"

definition on_success :: "breaker \<Rightarrow> breaker" where
  "on_success b = b\<lparr>consecutive_failures := 0, b_state := CLOSED, opened_at := None\<rparr>"

definition on_failure :: "breaker \<Rightarrow> datetime \<Rightarrow> breaker" where
  "on_failure b now =
     (let b1 = b\<lparr>consecutive_failures := consecutive_failures b + 1\<rparr> in
      if consecutive_failures b1 \<ge> failure_threshold b1 \<or> b_state b1 = OPEN
      then b1\<lparr>b_state := OPEN, opened_at := Some now\<rparr> else b1)"

definition breaker_finish :: "breaker \<Rightarrow> datetime \<Rightarrow> bool \<Rightarrow> breaker" where
  "breaker_finish b now ok =
     (if ok then on_success b else on_failure b now)\<lparr>trial_in_flight := False\<rparr>"

lemmas breaker_defs =
  effective_state_def breaker_begin_def on_success_def on_failure_def breaker_finish_def

text \<open>
  Runs of one breaker. An event is the start or the end of a call; \<open>Begin\<close> of a refused call
  changes nothing. \<open>inflight\<close> counts the calls that are waiting on their dependency.
\<close>

datatype breaker_event = Begin datetime | Finish datetime bool

inductive breaker_step :: "breaker \<times> nat \<Rightarrow> breaker_event \<Rightarrow> breaker \<times> nat \<Rightarrow> bool" where
  admitted: "breaker_begin b now = Inr b' \<Longrightarrow> breaker_step (b, n) (Begin now) (b', Suc n)"
| refused: "breaker_begin b now = Inl e \<Longrightarrow> breaker_step (b, n) (Begin now) (b, n)"
| finished: "breaker_step (b, Suc n) (Finish now ok) (breaker_finish b now ok, n)"

inductive breaker_run :: "breaker \<times> nat \<Rightarrow> breaker_event list \<Rightarrow> breaker \<times> nat \<Rightarrow> bool" where
  run_refl: "breaker_run s [] s"
| run_step: "breaker_step s e s' \<Longrightarrow> breaker_run s' es s'' \<Longrightarrow> breaker_run s (e # es) s''"

inductive_cases breaker_stepE: "breaker_step (b, n) e s"
inductive_simps breaker_run_Nil: "breaker_run s [] s'"
inductive_simps breaker_run_Cons: "breaker_run s (e # es) s'"

definition breaker_ok :: "breaker \<Rightarrow> bool" where
  "breaker_ok b \<longleftrightarrow>
     b_state b \<noteq> HALF_OPEN \<and> 0 \<le> consecutive_failures b \<and>
     (b_state b = CLOSED \<longrightarrow> consecutive_failures b < failure_threshold b \<and> opened_at b = None) \<and>
     (b_state b = OPEN \<longrightarrow> opened_at b \<noteq> None)"

lemma breaker_step_ok: "breaker_step (b, n) e (b', n') \<Longrightarrow> breaker_ok b \<Longrightarrow> 0 < failure_threshold b \<Longrightarrow> breaker_ok b'"
  by (erule breaker_stepE)
    (auto simp: breaker_ok_def breaker_defs Let_def split: breaker_state.splits option.splits if_splits)

lemma breaker_step_const:
  "breaker_step (b, n) e (b', n') \<Longrightarrow>
   failure_threshold b' = failure_threshold b \<and> recovery_timeout b' = recovery_timeout b"
  by (erule breaker_stepE)
    (auto simp: breaker_defs Let_def split: breaker_state.splits option.splits if_splits)

lemma breaker_run_ok:
  assumes "breaker_run s es s'" "breaker_ok (fst s)" "0 < failure_threshold (fst s)"
  shows "breaker_ok (fst s') \<and> failure_threshold (fst s') = failure_threshold (fst s) \<and>
         recovery_timeout (fst s') = recovery_timeout (fst s)"
  using assms
proof (induction rule: breaker_run.induct)
  case (run_step s e s' es s'')
  obtain b n b' n' where [simp]: "s = (b, n)" "s' = (b', n')" by (metis prod.exhaust)
  show ?case
    using run_step breaker_step_ok [of b n e b' n'] breaker_step_const [of b n e b' n'] by simp
qed simp

text \<open>While the circuit is open every call is refused without being made.\<close>

lemma open_refuses:
  "\<lbrakk>breaker_ok b; b_state b = OPEN; opened_at b = Some t; now - t < recovery_timeout b\<rbrakk> \<Longrightarrow>
   \<exists>e. breaker_begin b now = Inl e"
  by (simp add: breaker_defs)

text \<open>
  The circuit breaker, on every interleaving of calls: its stored state is never HALF\_OPEN, a
  closed breaker has fewer than \<open>failure_threshold\<close> consecutive failures behind it, and once open
  it refuses every call (without making it) until \<open>recovery_timeout\<close> has passed since it opened.
\<close>

theorem breaker_trips_and_refuses:
  assumes "breaker_run (new_breaker nm threshold timeout, 0) es (b, n)" "0 < threshold"
  shows "b_state b \<noteq> HALF_OPEN \<and>
    (b_state b = CLOSED \<longrightarrow> consecutive_failures b < threshold) \<and>
    (b_state b = OPEN \<longrightarrow> (\<exists>t. opened_at b = Some t \<and>
       (\<forall>now. now - t < timeout \<longrightarrow> breaker_begin b now = Inl (CircuitOpenError (''circuit '' @ quoted (b_name b) @ '' is open'')))))"
proof -
  have "breaker_ok (new_breaker nm threshold timeout)"
    using assms(2) by (simp add: breaker_ok_def new_breaker_def)
  then have ok: "breaker_ok b" "failure_threshold b = threshold" "recovery_timeout b = timeout"
    using breaker_run_ok [OF assms(1)] assms(2) by (simp_all add: new_breaker_def)
  then show ?thesis by (auto simp: breaker_ok_def breaker_defs)
qed

theorem breaker_trips_and_refuses_witness:
  "let b0 = new_breaker ''razorpay'' 1 30; b1 = breaker_finish b0 100 False in
   breaker_run (b0, 0) [Begin 100, Finish 100 False] (b1, 0) \<and> b_state b1 = OPEN \<and>
   breaker_begin b1 120 = Inl (CircuitOpenError (''circuit '' @ quoted (b_name b1) @ '' is open''))"
proof -
  let ?b0 = "new_breaker ''razorpay'' 1 30"
  let ?b1 = "breaker_finish ?b0 100 False"
  have "breaker_begin ?b0 100 = Inr ?b0" by (simp add: breaker_defs new_breaker_def)
  then have run: "breaker_run (?b0, 0) [Begin 100, Finish 100 False] (?b1, 0)"
    using admitted [of ?b0 100 ?b0 0] finished [of ?b0 0 100 False]
    by (auto intro: breaker_run.intros)
  moreover have "b_state ?b1 = OPEN \<and> opened_at ?b1 = Some 100"
    by (simp add: breaker_defs new_breaker_def Let_def)
  ultimately show ?thesis
    using breaker_trips_and_refuses [OF run] by (simp add: Let_def)
qed

text \<open>
  Several trials at once: the comment on the breaker promises that a half-open circuit allows
  exactly one trial call. A call that was admitted while the circuit was still closed and is slow to
  finish clears the trial flag when it ends, so a second trial can start while the first is still
  waiting: two calls are admitted in HALF\_OPEN, both in flight.
\<close>

theorem half_open_two_trials:
  "let b0 = new_breaker ''razorpay'' 1 30;
       b1 = breaker_finish b0 100 False;
       b2 = b1\<lparr>trial_in_flight := True\<rparr>;
       b3 = breaker_finish b2 131 False
   in breaker_run (b0, 0) [Begin 99, Begin 99, Finish 100 False, Begin 130] (b2, 2) \<and>
      effective_state b1 130 = HALF_OPEN \<and>
      breaker_run (b2, 2) [Finish 131 False, Begin 161] (b3\<lparr>trial_in_flight := True\<rparr>, 2) \<and>
      effective_state b3 161 = HALF_OPEN"
proof -
  let ?b0 = "new_breaker ''razorpay'' 1 30"
  let ?b1 = "breaker_finish ?b0 100 False"
  let ?b2 = "?b1\<lparr>trial_in_flight := True\<rparr>"
  let ?b3 = "breaker_finish ?b2 131 False"
  have run_Begin: "breaker_run (b, n) (Begin t # es) s"
    if "breaker_begin b t = Inr b'" "breaker_run (b', Suc n) es s" for b b' n t es s
    using that admitted run_step by blast
  have run_Finish: "breaker_run (b, Suc n) (Finish t ok # es) s"
    if "breaker_run (breaker_finish b t ok, n) es s" for b n t ok es s
    using that finished run_step by blast
  have 1: "breaker_begin ?b0 99 = Inr ?b0" and 2: "breaker_begin ?b1 130 = Inr ?b2"
    and 3: "breaker_begin ?b3 161 = Inr (?b3\<lparr>trial_in_flight := True\<rparr>)"
    and h: "effective_state ?b1 130 = HALF_OPEN" "effective_state ?b3 161 = HALF_OPEN"
    by (simp_all add: breaker_defs new_breaker_def Let_def)
  have "breaker_run (?b0, 0) [Begin 99, Begin 99, Finish 100 False, Begin 130] (?b2, Suc (Suc 0))"
    by (rule run_Begin [OF 1] run_Begin [OF 2] run_Finish run_refl)+
  moreover have "breaker_run (?b2, Suc (Suc 0)) [Finish 131 False, Begin 161]
      (?b3\<lparr>trial_in_flight := True\<rparr>, Suc (Suc 0))"
    by (rule run_Begin [OF 3] run_Finish run_refl)+
  ultimately show ?thesis using h by (simp add: Let_def numeral_2_eq_2)
qed

section \<open>ids.py\<close>

definition crockford_alphabet :: string where
  "crockford_alphabet = ''0123456789ABCDEFGHJKMNPQRSTVWXYZ''"

fun encode_crockford :: "int \<Rightarrow> nat \<Rightarrow> string" where
  "encode_crockford v 0 = []"
| "encode_crockford v (Suc n) = encode_crockford (v div 32) n @ [crockford_alphabet ! nat (v mod 32)]"

fun index_of :: "char list \<Rightarrow> char \<Rightarrow> nat option" where
  "index_of [] c = None"
| "index_of (x # xs) c = (if x = c then Some 0 else map_option Suc (index_of xs c))"

definition crockford_step :: "int result \<Rightarrow> char \<Rightarrow> int result" where
  "crockford_step r c =
     rbind r (\<lambda>v. case index_of crockford_alphabet c of
        None \<Rightarrow> Inl (ValueError ''substring not found'')
      | Some i \<Rightarrow> Inr (v * 32 + int i))"

definition crockford_decode :: "string \<Rightarrow> int result" where
  "crockford_decode s = foldl crockford_step (Inr 0) s"

lemma index_of_nth: "distinct xs \<Longrightarrow> i < length xs \<Longrightarrow> index_of xs (xs ! i) = Some i"
  by (induction xs arbitrary: i) (auto simp: nth_Cons split: nat.splits)

lemma index_of_Some: "index_of xs c = Some i \<Longrightarrow> i < length xs \<and> xs ! i = c"
  by (induction xs arbitrary: i) (auto split: if_splits)

lemma crockford_alphabet_ok: "distinct crockford_alphabet" "length crockford_alphabet = 32"
  by (simp_all add: crockford_alphabet_def)

lemma crockford_decode_snoc: "crockford_decode (s @ [c]) = crockford_step (crockford_decode s) c"
  by (simp add: crockford_decode_def)

lemma length_encode_crockford [simp]: "length (encode_crockford v n) = n"
  by (induction n arbitrary: v) simp_all

lemma crockford_decode_encode: "crockford_decode (encode_crockford v n) = Inr (v mod 32 ^ n)"
proof (induction n arbitrary: v)
  case (Suc n)
  have "nat (v mod 32) < 32" by (simp add: nat_less_iff)
  then have "index_of crockford_alphabet (crockford_alphabet ! nat (v mod 32)) = Some (nat (v mod 32))"
    using crockford_alphabet_ok by (simp add: index_of_nth)
  then have "crockford_decode (encode_crockford v (Suc n)) = Inr ((v div 32) mod 32 ^ n * 32 + v mod 32)"
    using Suc.IH [of "v div 32"] by (simp add: crockford_decode_snoc crockford_step_def)
  moreover have "v mod (32 * 32 ^ n) = 32 * (v div 32 mod 32 ^ n) + v mod 32"
    by (rule zmod_zmult2_eq) simp
  ultimately show ?case by simp
qed (simp add: crockford_decode_def)

lemma crockford_encode_decode: "crockford_decode s = Inr v \<Longrightarrow> encode_crockford v (length s) = s \<and> 0 \<le> v"
proof (induction s arbitrary: v rule: rev_induct)
  case (snoc c s)
  then obtain u i where u: "crockford_decode s = Inr u" "index_of crockford_alphabet c = Some i"
    "v = u * 32 + int i"
    by (auto simp: crockford_decode_snoc crockford_step_def rbind_eq_Inr split: option.splits)
  then have "i < 32" "crockford_alphabet ! i = c"
    using index_of_Some [of crockford_alphabet c i] crockford_alphabet_ok by auto
  then have "v div 32 = u" "nat (v mod 32) = i" using u(3) by simp_all
  then show ?case using snoc.IH [OF u(1)] \<open>crockford_alphabet ! i = c\<close> u(3) by simp
qed (simp add: crockford_decode_def)

text \<open>
  Crockford encoding and decoding are exact inverses on 26-character ids of 128-bit values, in
  both directions, so a \<open>trace_id\<close> and its 128-bit number are the same value in two encodings.
\<close>

theorem crockford_roundtrip:
  assumes "0 \<le> v" "v < 2 ^ 128"
  shows "crockford_decode (encode_crockford v 26) = Inr v \<and>
         (crockford_decode s = Inr u \<longrightarrow> encode_crockford u (length s) = s)"
proof -
  have "v < 32 ^ 26" using assms(2) by simp
  then show ?thesis
    using assms(1) by (simp add: crockford_decode_encode crockford_encode_decode)
qed

theorem crockford_roundtrip_witness:
  "(0::int) \<le> 123456789 \<and> (123456789::int) < 2 ^ 128 \<and>
   crockford_decode (encode_crockford 123456789 26) = Inr 123456789"
  using crockford_roundtrip [of 123456789] by simp

text \<open>
  \<open>ulid\<close> in deterministic mode: call number \<open>counter\<close> (counted from 1) of a process seeded
  with \<open>seed\<close>. \<open>int.from_bytes(..., "big")\<close> is the fold over the bytes.
\<close>

definition from_bytes_big :: "bytes \<Rightarrow> int" where
  "from_bytes_big bs = foldl (\<lambda>acc b. acc * 256 + uint b) 0 bs"

definition ulid_deterministic :: "string \<Rightarrow> nat \<Rightarrow> string" where
  "ulid_deterministic seed counter =
     (let digest = sha256 (encode_utf8 (seed @ '':'' @ show_nat counter))
      in encode_crockford (from_bytes_big (take 17 digest) mod 2 ^ 128) 26)"

section \<open>redaction.py\<close>

definition redacted :: string where
  "redacted = ''***REDACTED***''"

definition sensitive_key_markers :: "string list" where
  "sensitive_key_markers =
     [''secret'', ''password'', ''token'', ''authorization'', ''api_key'', ''apikey'', ''private_key'',
      ''signature'']"

definition lower_char :: "char \<Rightarrow> char" where
  "lower_char c = (let n = of_char c :: nat in if 65 \<le> n \<and> n \<le> 90 then char_of (n + 32) else c)"

fun is_prefix :: "'a list \<Rightarrow> 'a list \<Rightarrow> bool" where
  "is_prefix [] ys = True"
| "is_prefix (x # xs) [] = False"
| "is_prefix (x # xs) (y # ys) = (x = y \<and> is_prefix xs ys)"

fun contains_str :: "'a list \<Rightarrow> 'a list \<Rightarrow> bool" where
  "contains_str m [] = (m = [])"
| "contains_str m (x # xs) = (is_prefix m (x # xs) \<or> contains_str m xs)"

definition looks_sensitive :: "string \<Rightarrow> bool" where
  "looks_sensitive key = list_ex (\<lambda>m. contains_str m (map lower_char key)) sensitive_key_markers"

fun redact :: "json \<Rightarrow> json" where
  "redact (JObj kvs) = JObj (map (\<lambda>(k, v). (k, if looks_sensitive k then JStr redacted else redact v)) kvs)"
| "redact (JList vs) = JList (map redact vs)"
| "redact v = v"

text \<open>No sensitive key, at any depth below objects and lists, has a value other than the marker.\<close>

fun no_secrets :: "json \<Rightarrow> bool" where
  "no_secrets (JObj kvs) = list_all (\<lambda>(k, v). (looks_sensitive k \<longrightarrow> v = JStr redacted) \<and> no_secrets v) kvs"
| "no_secrets (JList vs) = list_all no_secrets vs"
| "no_secrets v = True"

fun json_keys :: "json \<Rightarrow> string list" where
  "json_keys (JObj kvs) = map fst kvs"
| "json_keys v = []"

lemma no_secrets_redact: "no_secrets (redact v)"
  by (induction v) (fastforce simp: list_all_iff)+

lemma redact_no_secrets: "no_secrets v \<Longrightarrow> redact v = v"
proof (induction v)
  case (JList vs)
  then show ?case by (simp add: list_all_iff map_idI)
next
  case (JObj kvs)
  have "(\<lambda>(k, v). (k, if looks_sensitive k then JStr redacted else redact v)) kv = kv" if "kv \<in> set kvs" for kv
    using JObj that by (cases kv) (fastforce simp: list_all_iff)
  then show ?case by (simp add: map_idI)
qed simp_all

text \<open>
  Redaction is complete and minimal: after it, no key that looks sensitive keeps its value at any
  depth; a value without secrets is left exactly as it is, so redacting twice is redacting once; and
  the keys of an event are all still there.
\<close>

theorem redact_complete:
  "no_secrets (redact v) \<and> (no_secrets v \<longleftrightarrow> redact v = v) \<and> redact (redact v) = redact v \<and>
   json_keys (redact v) = json_keys v"
proof -
  have "json_keys (redact v) = json_keys v" by (cases v) (auto simp: comp_def split: prod.splits)
  then show ?thesis using no_secrets_redact redact_no_secrets by metis
qed

end
