(* ===== verification/Hash_Chain.thy ===== *)
theory Hash_Chain
  imports Canonical
begin

text \<open>
  The hash chain (\<open>domain/audit/chain.py\<close>) and the RFC 6962 Merkle tree
  (\<open>domain/audit/merkle.py\<close>). SHA-256 is the real function, so tamper evidence is stated
  the only way it can be true of a hash with a 32-byte digest: two different histories with
  the same head, or two different segments with the same root, exhibit a collision of
  SHA-256 (\<open>sha256_collision\<close>, a pair of different byte strings with equal digests).
\<close>

section \<open>chain.py\<close>

definition genesis_prev_hash :: bytes where
  "genesis_prev_hash = replicate 32 0"

definition hex_prefix :: string where
  "hex_prefix = ''sha256:''"

definition payload_hash :: "json \<Rightarrow> bytes result" where
  "payload_hash payload = rmap (\<lambda>t. sha256 (encode_utf8 t)) (jcs payload)"

definition compute_entry_hash :: "bytes \<Rightarrow> json \<Rightarrow> bytes result" where
  "compute_entry_hash prev_hash payload =
     (if length prev_hash \<noteq> 32 then Inl (ValueError ''prev_hash must be 32 bytes'')
      else rmap (\<lambda>h. sha256 (prev_hash @ h)) (payload_hash payload))"

definition hex_prefixed :: "bytes \<Rightarrow> string" where
  "hex_prefixed digest = hex_prefix @ hex digest"

definition parse_hex_prefixed :: "string \<Rightarrow> bytes result" where
  "parse_hex_prefixed value =
     (if take (length hex_prefix) value \<noteq> hex_prefix then Inl (ValueError ''expected a prefixed hash'')
      else (case fromhex (drop (length hex_prefix) value) of
              None \<Rightarrow> Inl (ValueError ''non-hexadecimal number found'')
            | Some digest \<Rightarrow>
                if length digest \<noteq> 32 then Inl (ValueError ''expected a 32-byte sha256 digest'')
                else Inr digest))"

lemma length_genesis_prev_hash [simp]: "length genesis_prev_hash = 32"
  by (simp add: genesis_prev_hash_def)

lemma hex_prefixed_inj [simp]: "hex_prefixed a = hex_prefixed b \<longleftrightarrow> a = b"
  by (simp add: hex_prefixed_def)

lemma parse_hex_prefixed_hex_prefixed:
  "parse_hex_prefixed (hex_prefixed d) =
     (if length d = 32 then Inr d else Inl (ValueError ''expected a 32-byte sha256 digest''))"
  by (simp add: parse_hex_prefixed_def hex_prefixed_def)

lemma parse_hex_prefixed_length: "parse_hex_prefixed s = Inr d \<Longrightarrow> length d = 32"
  by (auto simp: parse_hex_prefixed_def split: if_splits option.splits)

lemma compute_entry_hash_length: "compute_entry_hash p v = Inr h \<Longrightarrow> length h = 32"
  by (auto simp: compute_entry_hash_def payload_hash_def rmap_def rbind_eq_Inr split: if_splits)

section \<open>Collisions\<close>

text \<open>
  \<open>collision_in A B\<close>: one of the byte strings \<open>A\<close> and one of \<open>B\<close> differ and
  have the same digest. A and B are always the finite lists of inputs that two runs of the code
  gave to SHA-256, so this is a concrete event, not the existence of some collision somewhere.
\<close>

definition collision_in :: "bytes list \<Rightarrow> bytes list \<Rightarrow> bool" where
  "collision_in A B \<longleftrightarrow> list_ex (\<lambda>a. list_ex (\<lambda>b. a \<noteq> b \<and> sha256 a = sha256 b) B) A"

lemma collision_in_iff: "collision_in A B \<longleftrightarrow> (\<exists>a\<in>set A. \<exists>b\<in>set B. a \<noteq> b \<and> sha256 a = sha256 b)"
  by (simp add: collision_in_def list_ex_iff)

lemma collision_in_extend:
  "collision_in A B \<Longrightarrow> collision_in (A' @ A) (B' @ B)"
  "collision_in A B \<Longrightarrow> collision_in (A @ A') (B @ B')"
  "collision_in A B \<Longrightarrow> collision_in (a # A) (b # B)"
  unfolding collision_in_iff by auto

lemma sha256_eqD: "\<lbrakk>sha256 a = sha256 b; a \<in> set A; b \<in> set B\<rbrakk> \<Longrightarrow> a = b \<or> collision_in A B"
  unfolding collision_in_iff by blast

text \<open>The byte string a JSON value is hashed as.\<close>

definition jcs_bytes :: "json \<Rightarrow> bytes" where
  "jcs_bytes v = (case jcs v of Inl e \<Rightarrow> [] | Inr t \<Rightarrow> encode_utf8 t)"

lemma jcs_bytes_render: "no_floats v \<Longrightarrow> jcs_bytes v = encode_utf8 (render (norm v))"
  by (simp add: jcs_bytes_def jcs_render)

lemma jcs_bytes_inj: "\<lbrakk>no_floats v; no_floats w; jcs_bytes v = jcs_bytes w\<rbrakk> \<Longrightarrow> norm v = norm w"
  using jcs_inj [of v w] by (simp add: jcs_bytes_render jcs_render)

lemma jcs_bytes_norm: "norm v = norm w \<Longrightarrow> no_floats v \<Longrightarrow> no_floats w \<Longrightarrow> jcs_bytes v = jcs_bytes w"
  by (simp add: jcs_bytes_render)

text \<open>
  The prefixed digest of a canonical text, which \<open>spec_hash\<close>, \<open>intent_hash\<close>,
  \<open>quote_hash\<close> and \<open>inputs_digest\<close> all are.
\<close>

definition sha256_jcs :: "json \<Rightarrow> string result" where
  "sha256_jcs v = rmap (\<lambda>t. ''sha256:'' @ hex (sha256 (encode_utf8 t))) (jcs v)"

lemma sha256_jcs_Inr: "no_floats v \<Longrightarrow> \<exists>h. sha256_jcs v = Inr h"
  by (simp add: sha256_jcs_def jcs_render)

lemma sha256_jcs_cong: "norm v = norm w \<Longrightarrow> no_floats v \<Longrightarrow> no_floats w \<Longrightarrow> sha256_jcs v = sha256_jcs w"
  by (simp add: sha256_jcs_def jcs_render)

lemma sha256_jcs_eqD:
  assumes "no_floats v" "no_floats w" "sha256_jcs v = sha256_jcs w"
  shows "norm v = norm w \<or> collision_in [jcs_bytes v] [jcs_bytes w]"
proof -
  have "sha256 (jcs_bytes v) = sha256 (jcs_bytes w)"
    using assms by (simp add: sha256_jcs_def jcs_render jcs_bytes_render)
  then have "jcs_bytes v = jcs_bytes w \<or> collision_in [jcs_bytes v] [jcs_bytes w]"
    by (rule sha256_eqD) simp_all
  then show ?thesis using jcs_bytes_inj assms(1,2) by blast
qed

text \<open>
  The head hash of a chain of payloads (what the last row's \<open>entry_hash\<close> is), and the byte
  strings hashed on the way there.
\<close>

fun chain_head :: "bytes \<Rightarrow> json list \<Rightarrow> bytes result" where
  "chain_head p [] = Inr p"
| "chain_head p (v # vs) = rbind (compute_entry_hash p v) (\<lambda>h. chain_head h vs)"

definition entry_inputs :: "bytes \<Rightarrow> json \<Rightarrow> bytes list" where
  "entry_inputs p v = [jcs_bytes v, p @ sha256 (jcs_bytes v)]"

fun chain_inputs :: "bytes \<Rightarrow> json list \<Rightarrow> bytes list" where
  "chain_inputs p [] = []"
| "chain_inputs p (v # vs) =
     entry_inputs p v @ (case compute_entry_hash p v of Inl e \<Rightarrow> [] | Inr h \<Rightarrow> chain_inputs h vs)"

lemma compute_entry_hash_no_floats:
  "no_floats v \<Longrightarrow> length p = 32 \<Longrightarrow> compute_entry_hash p v = Inr (sha256 (p @ sha256 (jcs_bytes v)))"
  by (simp add: compute_entry_hash_def payload_hash_def jcs_render jcs_bytes_render)

lemma chain_head_snoc: "chain_head p (vs @ [v]) = rbind (chain_head p vs) (\<lambda>h. compute_entry_hash h v)"
proof (induction vs arbitrary: p)
  case Nil
  then show ?case by (cases "compute_entry_hash p v") auto
next
  case (Cons w vs)
  then show ?case by (cases "compute_entry_hash p w") auto
qed

lemma chain_inputs_snoc:
  "chain_head p vs = Inr h \<Longrightarrow> chain_inputs p (vs @ [v]) = chain_inputs p vs @ entry_inputs h v"
proof (induction vs arbitrary: p)
  case Nil
  then show ?case by (cases "compute_entry_hash h v") auto
next
  case (Cons w vs)
  then show ?case by (cases "compute_entry_hash p w") auto
qed

lemma chain_head_length: "length p = 32 \<Longrightarrow> chain_head p vs = Inr h \<Longrightarrow> length h = 32"
proof (induction vs arbitrary: p)
  case (Cons v vs)
  then show ?case
    by (auto simp: rbind_eq_Inr dest: compute_entry_hash_length)
qed simp

lemma chain_head_Inr: "length p = 32 \<Longrightarrow> list_all no_floats vs \<Longrightarrow> \<exists>h. chain_head p vs = Inr h"
  by (induction vs arbitrary: p) (simp_all add: compute_entry_hash_no_floats)

lemma compute_entry_hash_eqD:
  assumes "no_floats v" "no_floats w" "length p = 32" "length q = 32"
    and "compute_entry_hash p v = compute_entry_hash q w"
  shows "(p = q \<and> norm v = norm w) \<or> collision_in (entry_inputs p v) (entry_inputs q w)"
proof -
  let ?C = "collision_in (entry_inputs p v) (entry_inputs q w)"
  have "sha256 (p @ sha256 (jcs_bytes v)) = sha256 (q @ sha256 (jcs_bytes w))"
    using assms by (simp add: compute_entry_hash_no_floats)
  then have "p @ sha256 (jcs_bytes v) = q @ sha256 (jcs_bytes w) \<or> ?C"
    by (rule sha256_eqD) (simp_all add: entry_inputs_def)
  then have "(p = q \<and> sha256 (jcs_bytes v) = sha256 (jcs_bytes w)) \<or> ?C"
    using assms(3,4) by auto
  moreover have "jcs_bytes v = jcs_bytes w \<or> ?C" if "sha256 (jcs_bytes v) = sha256 (jcs_bytes w)"
    using that by (rule sha256_eqD) (simp_all add: entry_inputs_def)
  ultimately show ?thesis
    using jcs_bytes_inj [OF assms(1,2)] by blast
qed

lemma chain_head_eqD:
  assumes "length vs = length ws" "list_all no_floats vs" "list_all no_floats ws"
    and "length p = 32" "length q = 32" "chain_head p vs = Inr h" "chain_head q ws = Inr h"
  shows "(p = q \<and> map norm vs = map norm ws) \<or> collision_in (chain_inputs p vs) (chain_inputs q ws)"
  using assms
proof (induction vs arbitrary: ws h rule: rev_induct)
  case Nil
  then show ?case by simp
next
  case (snoc v vs)
  from snoc.prems(1) obtain ws' w where ws: "ws = ws' @ [w]" and len: "length vs = length ws'"
    by (cases ws rule: rev_cases) auto
  from snoc.prems ws obtain a b where
    a: "chain_head p vs = Inr a" "compute_entry_hash a v = Inr h" and
    b: "chain_head q ws' = Inr b" "compute_entry_hash b w = Inr h"
    by (auto simp: chain_head_snoc rbind_eq_Inr)
  let ?C = "collision_in (chain_inputs p (vs @ [v])) (chain_inputs q ws)"
  have inputs: "chain_inputs p (vs @ [v]) = chain_inputs p vs @ entry_inputs a v"
    "chain_inputs q ws = chain_inputs q ws' @ entry_inputs b w"
    using a b ws by (simp_all add: chain_inputs_snoc)
  have l: "length a = 32" "length b = 32"
    using a b chain_head_length snoc.prems(4,5) by auto
  from compute_entry_hash_eqD [of v w a b] a b l snoc.prems(2,3) ws
  have "(a = b \<and> norm v = norm w) \<or> ?C"
    unfolding inputs by (auto intro: collision_in_extend)
  moreover have "(p = q \<and> map norm vs = map norm ws') \<or> ?C" if "a = b"
    using snoc.IH [OF len, of a] snoc.prems a b ws that
    unfolding inputs by (auto intro: collision_in_extend)
  ultimately show ?case using ws by auto
qed

section \<open>merkle.py\<close>

definition leaf_hash :: "bytes \<Rightarrow> bytes" where
  "leaf_hash entry_hash = sha256 (0 # entry_hash)"

definition node_hash :: "bytes \<Rightarrow> bytes \<Rightarrow> bytes" where
  "node_hash left right = sha256 (1 # left @ right)"

text \<open>The inner \<open>while i < len(level)\<close> loop: one level of the tree.\<close>

fun next_level :: "bytes list \<Rightarrow> bytes list" where
  "next_level (l # r # hs) = node_hash l r # next_level hs"
| "next_level hs = hs"

lemma length_next_level: "length (next_level hs) = (length hs + 1) div 2"
  by (induction hs rule: next_level.induct) simp_all

function merkle_levels :: "bytes list \<Rightarrow> bytes list" where
  "merkle_levels level = (if length level > 1 then merkle_levels (next_level level) else level)"
  by pat_completeness auto
termination
  by (relation "measure length") (auto simp: length_next_level)

declare merkle_levels.simps [simp del]

definition merkle_root :: "bytes list \<Rightarrow> bytes result" where
  "merkle_root entry_hashes =
     (if entry_hashes = [] then Inl (ValueError ''cannot compute a Merkle root over zero entries'')
      else Inr (hd (merkle_levels (map leaf_hash entry_hashes))))"

text \<open>
  Two segments of the same length whose trees have the same root hold the same entries.
  Every level is a list of 32-byte digests, so a node's preimage splits in one way only.
\<close>

abbreviation digests :: "bytes list \<Rightarrow> bool" where
  "digests hs \<equiv> list_all (\<lambda>h. length h = 32) hs"

fun level_inputs :: "bytes list \<Rightarrow> bytes list" where
  "level_inputs (l # r # hs) = (1 # l @ r) # level_inputs hs"
| "level_inputs hs = []"

function node_inputs :: "bytes list \<Rightarrow> bytes list" where
  "node_inputs level =
     (if length level > 1 then level_inputs level @ node_inputs (next_level level) else [])"
  by pat_completeness auto
termination
  by (relation "measure length") (auto simp: length_next_level)

declare node_inputs.simps [simp del]

definition merkle_inputs :: "bytes list \<Rightarrow> bytes list" where
  "merkle_inputs es = map ((#) 0) es @ node_inputs (map leaf_hash es)"

lemma length_node_hash [simp]: "length (node_hash l r) = 32"
  by (simp add: node_hash_def)

lemma length_leaf_hash [simp]: "length (leaf_hash e) = 32"
  by (simp add: leaf_hash_def)

lemma digests_next_level: "digests hs \<Longrightarrow> digests (next_level hs)"
  by (induction hs rule: next_level.induct) simp_all

lemma digests_leaves [simp]: "digests (map leaf_hash es)"
  by (simp add: list_all_iff)

lemma next_level_single: "Suc 0 = length hs \<Longrightarrow> next_level hs = hs"
  by (cases hs) auto

lemma next_level_eqD:
  assumes "length hs = length gs" "digests hs" "digests gs" "next_level hs = next_level gs"
  shows "hs = gs \<or> collision_in (level_inputs hs) (level_inputs gs)"
  using assms
proof (induction hs arbitrary: gs rule: next_level.induct)
  case (1 l r hs)
  then obtain l' r' gs' where gs: "gs = l' # r' # gs'"
    by (metis Suc_length_conv length_Cons)
  let ?C = "collision_in (level_inputs (l # r # hs)) (level_inputs gs)"
  have "sha256 (1 # l @ r) = sha256 (1 # l' @ r')" and eq: "next_level hs = next_level gs'"
    using 1 gs by (simp_all add: node_hash_def)
  then have "1 # l @ r = 1 # l' @ r' \<or> ?C"
    by (intro sha256_eqD) (simp_all add: gs)
  moreover have "hs = gs' \<or> ?C"
    using "1.IH" [of gs'] "1.prems" gs eq by (auto intro: collision_in_extend)
  ultimately show ?case using 1 gs by auto
qed (auto simp: next_level_single)

lemma length_merkle_levels: "hs \<noteq> [] \<Longrightarrow> length (merkle_levels hs) = 1"
proof (induction hs rule: merkle_levels.induct)
  case (1 hs)
  show ?case
  proof (cases "length hs > 1")
    case True
    then have "length (next_level hs) \<ge> 1" by (simp add: length_next_level)
    then have "next_level hs \<noteq> []" by auto
    with 1 True show ?thesis by (simp add: merkle_levels.simps [of hs])
  next
    case False
    with 1 have "length hs = 1" by (cases hs) auto
    then show ?thesis by (simp add: merkle_levels.simps [of hs])
  qed
qed

lemma merkle_levels_eqD:
  assumes "length hs = length gs" "digests hs" "digests gs" "merkle_levels hs = merkle_levels gs"
  shows "hs = gs \<or> collision_in (node_inputs hs) (node_inputs gs)"
  using assms
proof (induction hs arbitrary: gs rule: merkle_levels.induct)
  case (1 hs)
  show ?case
  proof (cases "length hs > 1")
    case True
    then have t: "merkle_levels (next_level hs) = merkle_levels (next_level gs)"
      "node_inputs hs = level_inputs hs @ node_inputs (next_level hs)"
      "node_inputs gs = level_inputs gs @ node_inputs (next_level gs)"
      using "1.prems"
      by (simp_all add: merkle_levels.simps [of hs] merkle_levels.simps [of gs]
        node_inputs.simps [of hs] node_inputs.simps [of gs])
    have "next_level hs = next_level gs \<or> collision_in (node_inputs hs) (node_inputs gs)"
      using "1.IH" [OF True, of "next_level gs"] "1.prems" t
      by (auto simp: length_next_level digests_next_level intro: collision_in_extend)
    moreover have "hs = gs \<or> collision_in (node_inputs hs) (node_inputs gs)"
      if "next_level hs = next_level gs"
      using next_level_eqD [of hs gs] "1.prems" t that by (auto intro: collision_in_extend)
    ultimately show ?thesis by blast
  next
    case False
    then show ?thesis
      using "1.prems" by (simp add: merkle_levels.simps [of hs] merkle_levels.simps [of gs])
  qed
qed

lemma map_leaf_hash_eqD:
  "map leaf_hash es = map leaf_hash fs \<Longrightarrow> es = fs \<or> collision_in (map ((#) 0) es) (map ((#) 0) fs)"
proof (induction es arbitrary: fs)
  case (Cons e es)
  then obtain f fs' where fs: "fs = f # fs'" by (cases fs) auto
  let ?C = "collision_in (map ((#) 0) (e # es)) (map ((#) 0) fs)"
  have "sha256 (0 # e) = sha256 (0 # f)" using Cons.prems fs by (simp add: leaf_hash_def)
  then have "0 # e = 0 # f \<or> ?C" by (rule sha256_eqD) (simp_all add: fs)
  moreover have "es = fs' \<or> ?C" using Cons.IH [of fs'] Cons.prems fs by (auto intro: collision_in_extend)
  ultimately show ?case using fs by auto
qed simp

lemma merkle_root_eqD:
  assumes len: "length es = length fs" and es: "es \<noteq> []"
    and root: "merkle_root es = merkle_root fs"
  shows "es = fs \<or> collision_in (merkle_inputs es) (merkle_inputs fs)"
proof -
  let ?m = "\<lambda>es. merkle_levels (map leaf_hash es)"
  let ?C = "collision_in (merkle_inputs es) (merkle_inputs fs)"
  from es len have fs: "fs \<noteq> []" by auto
  have one: "length (?m es) = 1" "length (?m fs) = 1"
    using es fs by (simp_all add: length_merkle_levels)
  have "hd (?m es) = hd (?m fs)" using root es fs by (simp add: merkle_root_def)
  with one have "?m es = ?m fs"
    by (metis length_0_conv length_Suc_conv list.sel(1) One_nat_def)
  then have "map leaf_hash es = map leaf_hash fs \<or> ?C"
    using merkle_levels_eqD [of "map leaf_hash es" "map leaf_hash fs"] len
    by (auto simp: merkle_inputs_def intro: collision_in_extend)
  moreover have "es = fs \<or> ?C" if "map leaf_hash es = map leaf_hash fs"
    using map_leaf_hash_eqD [OF that] by (auto simp: merkle_inputs_def intro: collision_in_extend)
  ultimately show ?thesis by blast
qed

section \<open>Tamper evidence\<close>

text \<open>
  Tamper evidence of the hash chain: two histories of the same length whose chains end in the
  same head hash hold the same payloads (up to the order of object keys), unless two of the byte
  strings hashed while building them are a SHA-256 collision.
\<close>

theorem chain_tamper_evident:
  assumes "length vs = length ws" "list_all no_floats vs" "list_all no_floats ws"
    and "chain_head genesis_prev_hash vs = chain_head genesis_prev_hash ws"
  shows "map norm vs = map norm ws \<or>
         collision_in (chain_inputs genesis_prev_hash vs) (chain_inputs genesis_prev_hash ws)"
proof -
  obtain h where "chain_head genesis_prev_hash vs = Inr h"
    using chain_head_Inr [OF length_genesis_prev_hash assms(2)] by blast
  then show ?thesis
    using chain_head_eqD [of vs ws genesis_prev_hash genesis_prev_hash h] assms by simp
qed

theorem chain_tamper_evident_witness:
  "let vs = [JObj [(''seq'', JInt 1), (''act'', JStr ''mandate.locked'')], JInt 7];
       ws = [JObj [(''act'', JStr ''mandate.locked''), (''seq'', JInt 1)], JInt 7]
   in chain_head genesis_prev_hash vs = chain_head genesis_prev_hash ws \<and>
      (map norm vs = map norm ws \<or>
       collision_in (chain_inputs genesis_prev_hash vs) (chain_inputs genesis_prev_hash ws))"
proof -
  let ?v = "JObj [(''seq'', JInt 1), (''act'', JStr ''mandate.locked'')]"
  let ?w = "JObj [(''act'', JStr ''mandate.locked''), (''seq'', JInt 1)]"
  have "norm ?v = norm ?w"
    by (rule norm_JObj_cong) (simp_all add: utf16_key_def utf16_unit_def)
  then have "jcs_bytes ?v = jcs_bytes ?w" by (rule jcs_bytes_norm) simp_all
  then have eq: "chain_head genesis_prev_hash [?v, JInt 7] = chain_head genesis_prev_hash [?w, JInt 7]"
    by (simp add: compute_entry_hash_no_floats)
  show ?thesis
    using chain_tamper_evident [of "[?v, JInt 7]" "[?w, JInt 7]"] eq by (simp add: Let_def)
qed

text \<open>
  Tamper evidence of a checkpoint: two segments of the same length with the same Merkle root
  are equal, unless two of the leaf or node preimages of the two trees are a SHA-256 collision.
\<close>

theorem merkle_tamper_evident:
  assumes "length es = length fs" "es \<noteq> []" "merkle_root es = merkle_root fs"
  shows "es = fs \<or> collision_in (merkle_inputs es) (merkle_inputs fs)"
  using assms by (rule merkle_root_eqD)

theorem merkle_tamper_evident_witness:
  "let es = [genesis_prev_hash, [1], [2]] in
   es \<noteq> [] \<and> merkle_root es = merkle_root es \<and> (es = es \<or> collision_in (merkle_inputs es) (merkle_inputs es))"
  using merkle_tamper_evident [of "[genesis_prev_hash, [1], [2]]" "[genesis_prev_hash, [1], [2]]"]
  by (simp add: Let_def)

text \<open>
  The on-disk form of a digest round-trips: a 32-byte digest printed by \<open>hex_prefixed\<close> is read
  back by \<open>parse_hex_prefixed\<close>, and whatever \<open>parse_hex_prefixed\<close> accepts is a 32-byte
  digest that prints to a text with the same digest.
\<close>

theorem hex_prefixed_roundtrip:
  assumes "length d = 32"
  shows "parse_hex_prefixed (hex_prefixed d) = Inr d \<and>
         (parse_hex_prefixed s = Inr e \<longrightarrow>
            length e = 32 \<and> parse_hex_prefixed (hex_prefixed e) = parse_hex_prefixed s)"
  using assms parse_hex_prefixed_length by (auto simp: parse_hex_prefixed_hex_prefixed)

theorem hex_prefixed_roundtrip_witness:
  "length genesis_prev_hash = 32 \<and>
   parse_hex_prefixed (hex_prefixed genesis_prev_hash) = Inr genesis_prev_hash"
  using hex_prefixed_roundtrip [of genesis_prev_hash] by simp

end
