(* ===== verification/Mandate.thy ===== *)
theory Mandate
  imports Hash_Chain
begin

text \<open>
  The mandate (\<open>domain/mandate\<close>): the signed, hashed, expiring grant of authority, and
  its life cycle. The models of \<open>models.py\<close> are records; \<open>model_dump(mode="json")\<close>
  is pydantic's, which writes every field under its name (or alias), in order; how it writes
  a \<open>datetime\<close> is a parameter \<open>dump_dt\<close> of every definition that needs it.
\<close>

section \<open>models.py\<close>

record principal =
  principal_type :: string
  principal_id :: string

record delegate =
  delegate_type :: string
  delegate_id :: string
  delegate_key_id :: string

record mandate_intent =
  intent_category :: string
  intent_location :: string
  intent_check_in :: string
  intent_nights :: int
  intent_rooms :: int

record mandate_bounds =
  bounds_currency :: string
  max_total_minor :: int
  max_unit_minor :: int
  max_transactions :: int
  allowed_categories :: "string list"
  blocked_merchants :: "string list"
  require_refundable :: bool
  max_price_delta_bps :: int

record mandate_temporal =
  not_before :: datetime
  expires_at :: datetime
  temporal_quote_ttl_s :: int

record mandate_controls =
  human_confirm_required :: bool
  revocable :: bool

record mandate_signature =
  sig_alg :: string
  sig_key_id :: string
  sig_value :: string

record mandate =
  mandate_id :: string
  version :: int
  m_principal :: principal
  m_delegate :: delegate
  m_intent :: mandate_intent
  bounds :: mandate_bounds
  temporal :: mandate_temporal
  controls :: mandate_controls
  spec_hash :: "string option"
  signature :: "mandate_signature option"

definition mandate_schema :: string where
  "mandate_schema = ''actl.mandate/v1''"

section \<open>hashing.py\<close>

definition principal_json :: "principal \<Rightarrow> json" where
  "principal_json p = JObj [(''type'', JStr (principal_type p)), (''id'', JStr (principal_id p))]"

definition delegate_json :: "delegate \<Rightarrow> json" where
  "delegate_json d =
     JObj [(''type'', JStr (delegate_type d)), (''id'', JStr (delegate_id d)),
           (''key_id'', JStr (delegate_key_id d))]"

definition mandate_intent_json :: "mandate_intent \<Rightarrow> json" where
  "mandate_intent_json i =
     JObj [(''category'', JStr (intent_category i)), (''location'', JStr (intent_location i)),
           (''check_in'', JStr (intent_check_in i)), (''nights'', JInt (intent_nights i)),
           (''rooms'', JInt (intent_rooms i))]"

definition bounds_json :: "mandate_bounds \<Rightarrow> json" where
  "bounds_json b =
     JObj [(''currency'', JStr (bounds_currency b)), (''max_total_minor'', JInt (max_total_minor b)),
           (''max_unit_minor'', JInt (max_unit_minor b)), (''max_transactions'', JInt (max_transactions b)),
           (''allowed_categories'', JList (map JStr (allowed_categories b))),
           (''blocked_merchants'', JList (map JStr (blocked_merchants b))),
           (''require_refundable'', JBool (require_refundable b)),
           (''max_price_delta_bps'', JInt (max_price_delta_bps b))]"

definition temporal_json :: "(datetime \<Rightarrow> string) \<Rightarrow> mandate_temporal \<Rightarrow> json" where
  "temporal_json dump_dt t =
     JObj [(''not_before'', JStr (dump_dt (not_before t))), (''expires_at'', JStr (dump_dt (expires_at t))),
           (''quote_ttl_s'', JInt (temporal_quote_ttl_s t))]"

definition controls_json :: "mandate_controls \<Rightarrow> json" where
  "controls_json c =
     JObj [(''human_confirm_required'', JBool (human_confirm_required c)), (''revocable'', JBool (revocable c))]"

definition signature_json :: "mandate_signature \<Rightarrow> json" where
  "signature_json s =
     JObj [(''alg'', JStr (sig_alg s)), (''key_id'', JStr (sig_key_id s)), (''value'', JStr (sig_value s))]"

text \<open>The dump without \<open>spec_hash\<close> and \<open>signature\<close>, and the whole dump.\<close>

definition mandate_items :: "(datetime \<Rightarrow> string) \<Rightarrow> mandate \<Rightarrow> (string \<times> json) list" where
  "mandate_items dump_dt m =
     [(''schema'', JStr mandate_schema), (''mandate_id'', JStr (mandate_id m)), (''version'', JInt (version m)),
      (''principal'', principal_json (m_principal m)), (''delegate'', delegate_json (m_delegate m)),
      (''intent'', mandate_intent_json (m_intent m)), (''bounds'', bounds_json (bounds m)),
      (''temporal'', temporal_json dump_dt (temporal m)), (''controls'', controls_json (controls m))]"

definition mandate_json :: "(datetime \<Rightarrow> string) \<Rightarrow> mandate \<Rightarrow> json" where
  "mandate_json dump_dt m =
     JObj (mandate_items dump_dt m @
       [(''spec_hash'', jopt JStr (spec_hash m)), (''signature'', jopt signature_json (signature m))])"

definition compute_spec_hash :: "(datetime \<Rightarrow> string) \<Rightarrow> mandate \<Rightarrow> string result" where
  "compute_spec_hash dump_dt m =
     sha256_jcs (JObj (mandate_items dump_dt m))"

definition verify_spec_hash :: "(datetime \<Rightarrow> string) \<Rightarrow> mandate \<Rightarrow> bool result" where
  "verify_spec_hash dump_dt m = rmap (\<lambda>h. spec_hash m = Some h) (compute_spec_hash dump_dt m)"

lemmas mandate_json_defs =
  principal_json_def delegate_json_def mandate_intent_json_def bounds_json_def temporal_json_def
  controls_json_def signature_json_def

lemma no_floats_mandate_parts [simp]:
  "no_floats (principal_json p)" "no_floats (delegate_json d)" "no_floats (mandate_intent_json i)"
  "no_floats (bounds_json b)" "no_floats (temporal_json dump_dt t)" "no_floats (controls_json c)"
  "no_floats (signature_json s)"
  by (simp_all add: mandate_json_defs list_all_iff)

lemma no_floats_mandate_items [simp]: "list_all (\<lambda>(k, v). no_floats v) (mandate_items dump_dt m)"
  by (simp add: mandate_items_def)

lemma no_floats_mandate_json [simp]: "no_floats (mandate_json dump_dt m)"
  by (simp add: mandate_json_def split: option.split)

lemma compute_spec_hash_Inr: "\<exists>h. compute_spec_hash dump_dt m = Inr h"
  by (simp add: compute_spec_hash_def sha256_jcs_Inr)

text \<open>Each part of the dump determines the part it was written from.\<close>

lemma norm_parts_inj:
  "norm (principal_json p) = norm (principal_json p') \<Longrightarrow> p = p'"
  "norm (delegate_json d) = norm (delegate_json d') \<Longrightarrow> d = d'"
  "norm (mandate_intent_json i) = norm (mandate_intent_json i') \<Longrightarrow> i = i'"
  "norm (bounds_json b) = norm (bounds_json b') \<Longrightarrow> b = b'"
  "inj dump_dt \<Longrightarrow> norm (temporal_json dump_dt t) = norm (temporal_json dump_dt t') \<Longrightarrow> t = t'"
  "norm (controls_json c) = norm (controls_json c') \<Longrightarrow> c = c'"
  unfolding mandate_json_defs by (drule norm_JObj_fields; simp add: inj_eq)+

text \<open>The fields that \<open>spec_hash\<close> covers: everything but the hash and the seal.\<close>

definition same_spec :: "mandate \<Rightarrow> mandate \<Rightarrow> bool" where
  "same_spec m m' \<longleftrightarrow>
     m' \<lparr>spec_hash := spec_hash m, signature := signature m\<rparr> = m"

lemma mandate_items_inj:
  assumes "inj dump_dt" "norm (JObj (mandate_items dump_dt m)) = norm (JObj (mandate_items dump_dt m'))"
  shows "same_spec m m'"
proof -
  have "map (\<lambda>kv. norm (snd kv)) (mandate_items dump_dt m) = map (\<lambda>kv. norm (snd kv)) (mandate_items dump_dt m')"
    by (rule norm_JObj_fields [OF assms(2)]) (simp_all add: mandate_items_def)
  then show ?thesis
    using norm_parts_inj assms(1)
    by (auto simp: mandate_items_def same_spec_def intro!: mandate.equality)
qed

lemma compute_spec_hash_eqD:
  assumes "inj dump_dt" "compute_spec_hash dump_dt m = compute_spec_hash dump_dt m'"
  shows "same_spec m m' \<or>
     collision_in [jcs_bytes (JObj (mandate_items dump_dt m))] [jcs_bytes (JObj (mandate_items dump_dt m'))]"
    (is "_ \<or> ?C")
proof -
  have "norm (JObj (mandate_items dump_dt m)) = norm (JObj (mandate_items dump_dt m')) \<or> ?C"
    using assms(2) by (intro sha256_jcs_eqD) (simp_all add: compute_spec_hash_def)
  then show ?thesis using mandate_items_inj assms(1) by blast
qed

lemma verify_spec_hash_iff:
  "verify_spec_hash dump_dt m = Inr b \<longleftrightarrow>
     (\<exists>h. compute_spec_hash dump_dt m = Inr h \<and> b = (spec_hash m = Some h))"
  by (auto simp: verify_spec_hash_def rmap_def rbind_eq_Inr)

section \<open>signing.py\<close>

definition sign_spec_hash :: "string \<Rightarrow> bytes \<Rightarrow> string" where
  "sign_spec_hash h key = hex (hmac_sha256 key (encode_utf8 h))"

definition verify_signature :: "string \<Rightarrow> bytes \<Rightarrow> string \<Rightarrow> bool result" where
  "verify_signature h key signature_value = compare_digest (sign_spec_hash h key) signature_value"

section \<open>state_machine.py\<close>

datatype mandate_status =
  DRAFT | PENDING_CONFIRM | LOCKED | EXECUTING | SETTLED | COMPENSATED | REVOKED | EXPIRED

fun status_value :: "mandate_status \<Rightarrow> string" where
  "status_value DRAFT = ''DRAFT''"
| "status_value PENDING_CONFIRM = ''PENDING_CONFIRM''"
| "status_value LOCKED = ''LOCKED''"
| "status_value EXECUTING = ''EXECUTING''"
| "status_value SETTLED = ''SETTLED''"
| "status_value COMPENSATED = ''COMPENSATED''"
| "status_value REVOKED = ''REVOKED''"
| "status_value EXPIRED = ''EXPIRED''"

record guard_context =
  gc_now :: "datetime option"
  gc_expires_at :: "datetime option"
  gc_txn_count :: int
  gc_max_transactions :: int
  gc_reserved_minor :: int
  gc_captured_minor :: int
  gc_all_compensations_confirmed :: bool
  gc_confirmation_matches_draft_hash :: bool
  gc_all_required_bounds_present :: bool

text \<open>\<open>TransitionGuardContext()\<close> with its defaults.\<close>

definition default_guard_context :: guard_context where
  "default_guard_context =
     \<lparr>gc_now = None, gc_expires_at = None, gc_txn_count = 0, gc_max_transactions = 1,
      gc_reserved_minor = 0, gc_captured_minor = 0, gc_all_compensations_confirmed = True,
      gc_confirmation_matches_draft_hash = True, gc_all_required_bounds_present = True\<rparr>"

definition guard_draft_ok :: "guard_context \<Rightarrow> bool" where
  "guard_draft_ok ctx = gc_all_required_bounds_present ctx"

definition guard_confirm :: "guard_context \<Rightarrow> bool" where
  "guard_confirm ctx = gc_confirmation_matches_draft_hash ctx"

definition guard_propose :: "guard_context \<Rightarrow> bool" where
  "guard_propose ctx =
     (case (gc_now ctx, gc_expires_at ctx) of
        (Some now, Some exp) \<Rightarrow> now < exp \<and> gc_txn_count ctx < gc_max_transactions ctx
      | _ \<Rightarrow> False)"

definition guard_captured :: "guard_context \<Rightarrow> bool" where
  "guard_captured ctx \<longleftrightarrow> gc_reserved_minor ctx = gc_captured_minor ctx"

definition guard_failure :: "guard_context \<Rightarrow> bool" where
  "guard_failure ctx = gc_all_compensations_confirmed ctx"

record transition_row =
  from_status :: "mandate_status option"
  trigger :: string
  to_status :: mandate_status
  guard :: "(guard_context \<Rightarrow> bool) option"

definition transition_rows :: "transition_row list" where
  "transition_rows =
     [\<lparr>from_status = Some DRAFT, trigger = ''draft_ok'', to_status = PENDING_CONFIRM, guard = Some guard_draft_ok\<rparr>,
      \<lparr>from_status = Some PENDING_CONFIRM, trigger = ''confirm'', to_status = LOCKED, guard = Some guard_confirm\<rparr>,
      \<lparr>from_status = Some LOCKED, trigger = ''propose'', to_status = EXECUTING, guard = Some guard_propose\<rparr>,
      \<lparr>from_status = Some EXECUTING, trigger = ''captured'', to_status = SETTLED, guard = Some guard_captured\<rparr>,
      \<lparr>from_status = Some EXECUTING, trigger = ''failure'', to_status = COMPENSATED, guard = Some guard_failure\<rparr>,
      \<lparr>from_status = None, trigger = ''revoke'', to_status = REVOKED, guard = None\<rparr>,
      \<lparr>from_status = Some PENDING_CONFIRM, trigger = ''ttl'', to_status = EXPIRED, guard = None\<rparr>]"

text \<open>The loop of \<open>transition\<close> over the table.\<close>

fun find_transition ::
  "transition_row list \<Rightarrow> mandate_status \<Rightarrow> string \<Rightarrow> guard_context \<Rightarrow> mandate_status result" where
  "find_transition [] current trig ctx = Inl (InvalidTransition (status_value current) trig)"
| "find_transition (t # ts) current trig ctx =
     (if trigger t \<noteq> trig then find_transition ts current trig ctx
      else if from_status t \<noteq> None \<and> from_status t \<noteq> Some current then find_transition ts current trig ctx
      else if (case guard t of None \<Rightarrow> False | Some g \<Rightarrow> \<not> g ctx)
        then Inl (GuardRejected (status_value current) trig)
      else Inr (to_status t))"

definition transition ::
  "mandate_status \<Rightarrow> string \<Rightarrow> guard_context option \<Rightarrow> mandate_status result" where
  "transition current trig ctx =
     find_transition transition_rows current trig
       (case ctx of None \<Rightarrow> default_guard_context | Some c \<Rightarrow> c)"

lemma find_transition_unknown:
  "trig \<notin> {''draft_ok'', ''confirm'', ''propose'', ''captured'', ''failure'', ''revoke'', ''ttl''} \<Longrightarrow>
   find_transition transition_rows s trig c = Inl (InvalidTransition (status_value s) trig)"
  unfolding transition_rows_def by (simp add: eq_commute)

lemma transition_by_trigger:
  fixes ctx defines "c \<equiv> (case ctx of None \<Rightarrow> default_guard_context | Some c \<Rightarrow> c)"
  shows
  "transition s ''draft_ok'' ctx = Inr s' \<longleftrightarrow> s = DRAFT \<and> s' = PENDING_CONFIRM \<and> guard_draft_ok c"
  "transition s ''confirm'' ctx = Inr s' \<longleftrightarrow> s = PENDING_CONFIRM \<and> s' = LOCKED \<and> guard_confirm c"
  "transition s ''propose'' ctx = Inr s' \<longleftrightarrow> s = LOCKED \<and> s' = EXECUTING \<and> guard_propose c"
  "transition s ''captured'' ctx = Inr s' \<longleftrightarrow> s = EXECUTING \<and> s' = SETTLED \<and> guard_captured c"
  "transition s ''failure'' ctx = Inr s' \<longleftrightarrow> s = EXECUTING \<and> s' = COMPENSATED \<and> guard_failure c"
  "transition s ''revoke'' ctx = Inr s' \<longleftrightarrow> s' = REVOKED"
  "transition s ''ttl'' ctx = Inr s' \<longleftrightarrow> s = PENDING_CONFIRM \<and> s' = EXPIRED"
  unfolding transition_def transition_rows_def c_def [symmetric]
  by (cases s; auto)+

lemma transition_Inr_iff:
  "transition s trig ctx = Inr s' \<longleftrightarrow>
     (let c = (case ctx of None \<Rightarrow> default_guard_context | Some c \<Rightarrow> c) in
      s = DRAFT \<and> trig = ''draft_ok'' \<and> s' = PENDING_CONFIRM \<and> guard_draft_ok c \<or>
      s = PENDING_CONFIRM \<and> trig = ''confirm'' \<and> s' = LOCKED \<and> guard_confirm c \<or>
      s = LOCKED \<and> trig = ''propose'' \<and> s' = EXECUTING \<and> guard_propose c \<or>
      s = EXECUTING \<and> trig = ''captured'' \<and> s' = SETTLED \<and> guard_captured c \<or>
      s = EXECUTING \<and> trig = ''failure'' \<and> s' = COMPENSATED \<and> guard_failure c \<or>
      trig = ''revoke'' \<and> s' = REVOKED \<or>
      s = PENDING_CONFIRM \<and> trig = ''ttl'' \<and> s' = EXPIRED)"
proof (cases "trig \<in> {''draft_ok'', ''confirm'', ''propose'', ''captured'', ''failure'', ''revoke'', ''ttl''}")
  case True
  then consider "trig = ''draft_ok''" | "trig = ''confirm''" | "trig = ''propose''" | "trig = ''captured''"
    | "trig = ''failure''" | "trig = ''revoke''" | "trig = ''ttl''"
    unfolding insert_iff empty_iff by meson
  then show ?thesis
    by cases (simp_all add: transition_by_trigger)
next
  case False
  then show ?thesis
    unfolding transition_def Let_def by (simp add: find_transition_unknown)
qed

text \<open>
  Runs of the life cycle: a history of triggers with their guard contexts, each of which the
  machine accepted. \<open>stage\<close> orders the states by how far a mandate has come.
\<close>

inductive lifecycle :: "mandate_status \<Rightarrow> (string \<times> guard_context) list \<Rightarrow> mandate_status \<Rightarrow> bool" where
  lifecycle_refl: "lifecycle s [] s"
| lifecycle_step: "transition s trig (Some c) = Inr s' \<Longrightarrow> lifecycle s' ts s'' \<Longrightarrow>
     lifecycle s ((trig, c) # ts) s''"

inductive_cases lifecycle_ConsE: "lifecycle s (t # ts) s'"

fun stage :: "mandate_status \<Rightarrow> nat" where
  "stage DRAFT = 0"
| "stage PENDING_CONFIRM = 1"
| "stage LOCKED = 2"
| "stage EXECUTING = 3"
| "stage SETTLED = 4"
| "stage COMPENSATED = 4"
| "stage EXPIRED = 4"
| "stage REVOKED = 5"

lemma transition_stage:
  "transition s trig ctx = Inr s' \<Longrightarrow> stage s < stage s' \<or> s = REVOKED \<and> s' = REVOKED \<and> trig = ''revoke''"
  by (cases s; auto simp: transition_Inr_iff Let_def)

lemma transition_from_REVOKED: "transition REVOKED trig ctx = Inr s' \<longleftrightarrow> s' = REVOKED \<and> trig = ''revoke''"
  by (auto simp: transition_Inr_iff Let_def)

lemma lifecycle_from_late:
  assumes "lifecycle s ts s'" "stage s \<ge> 3"
  shows "''propose'' \<notin> fst ` set ts"
  using assms
proof (induction rule: lifecycle.induct)
  case (lifecycle_step s trig c s' ts s'')
  then have "trig \<noteq> ''propose''" "stage s' \<ge> 3"
    using transition_stage [of s trig "Some c" s'] by (auto simp: transition_Inr_iff Let_def)
  with lifecycle_step.IH show ?case by simp
qed simp

lemma lifecycle_from_REVOKED:
  assumes "lifecycle s ts s'" "s = REVOKED"
  shows "s' = REVOKED \<and> fst ` set ts \<subseteq> {''revoke''}"
  using assms
proof (induction rule: lifecycle.induct)
  case (lifecycle_step s trig c s' ts s'')
  then show ?case by (auto simp: transition_from_REVOKED)
qed simp

lemma lifecycle_dead:
  assumes "lifecycle s ts s'" "s \<in> {REVOKED, EXPIRED}"
  shows "s' \<in> {REVOKED, EXPIRED}"
  using assms
proof (induction rule: lifecycle.induct)
  case (lifecycle_step s trig c s' ts s'')
  then have "s' = REVOKED" by (auto simp: transition_Inr_iff Let_def)
  then show ?case using lifecycle_step.IH by simp
qed simp

lemma lifecycle_propose_once:
  assumes "lifecycle s ts s'"
  shows "length (filter (\<lambda>t. fst t = ''propose'') ts) \<le> 1"
  using assms
proof (induction rule: lifecycle.induct)
  case (lifecycle_step s trig c s' ts s'')
  show ?case
  proof (cases "trig = ''propose''")
    case True
    then have "stage s' = 3" using lifecycle_step.hyps(1) by (auto simp: transition_Inr_iff Let_def)
    then have "''propose'' \<notin> fst ` set ts"
      using lifecycle_from_late lifecycle_step.hyps(2) by simp
    then show ?thesis using True by (auto simp: filter_empty_conv image_iff)
  next
    case False
    then show ?thesis using lifecycle_step.IH by simp
  qed
qed simp

text \<open>A mandate that got to EXECUTING from a draft was confirmed by a human on the way there.\<close>

lemma lifecycle_trace:
  assumes "lifecycle s ts s'" "s' \<in> {EXECUTING, SETTLED, COMPENSATED}"
  shows "(stage s \<le> 1 \<longrightarrow> (\<exists>c. (''confirm'', c) \<in> set ts \<and> gc_confirmation_matches_draft_hash c)) \<and>
         (stage s \<le> 2 \<longrightarrow> (\<exists>c. (''propose'', c) \<in> set ts \<and> guard_propose c))"
  using assms
proof (induction rule: lifecycle.induct)
  case (lifecycle_refl s)
  then show ?case by auto
next
  case (lifecycle_step s trig c s' ts s'')
  have "s' \<noteq> REVOKED" "s' \<noteq> EXPIRED"
    using lifecycle_dead [OF lifecycle_step.hyps(2)] lifecycle_step.prems by auto
  then show ?case
    using lifecycle_step.hyps(1) lifecycle_step.IH lifecycle_step.prems
    by (auto simp: transition_Inr_iff Let_def guard_confirm_def)
qed

section \<open>Properties of the mandate\<close>

text \<open>A mandate for three nights in Goa, to run the definitions on.\<close>

definition goa_mandate :: mandate where
  "goa_mandate =
     \<lparr>mandate_id = ''mdt_1'', version = 1,
      m_principal = \<lparr>principal_type = ''human'', principal_id = ''usr_1''\<rparr>,
      m_delegate = \<lparr>delegate_type = ''agent'', delegate_id = ''agt_buyer'', delegate_key_id = ''k1''\<rparr>,
      m_intent = \<lparr>intent_category = ''travel.hotel'', intent_location = ''Goa, IN'',
        intent_check_in = ''2026-09-01'', intent_nights = 3, intent_rooms = 1\<rparr>,
      bounds = \<lparr>bounds_currency = ''INR'', max_total_minor = 1800000, max_unit_minor = 600000,
        max_transactions = 1, allowed_categories = [''travel.hotel''], blocked_merchants = [],
        require_refundable = True, max_price_delta_bps = 0\<rparr>,
      temporal = \<lparr>not_before = 0, expires_at = 1000000000, temporal_quote_ttl_s = 120\<rparr>,
      controls = \<lparr>human_confirm_required = True, revocable = True\<rparr>,
      spec_hash = None, signature = None\<rparr>"

text \<open>Sealing computes the hash and the HMAC over it; the sealed mandate verifies.\<close>

definition seal :: "(datetime \<Rightarrow> string) \<Rightarrow> bytes \<Rightarrow> mandate \<Rightarrow> mandate" where
  "seal dump_dt key m =
     (case compute_spec_hash dump_dt m of
        Inl e \<Rightarrow> m
      | Inr h \<Rightarrow> m\<lparr>spec_hash := Some h,
          signature := Some \<lparr>sig_alg = ''HMAC-SHA256'', sig_key_id = ''k'', sig_value = sign_spec_hash h key\<rparr>\<rparr>)"

lemma mandate_items_seal [simp]:
  "mandate_items dump_dt (m\<lparr>spec_hash := h\<rparr>) = mandate_items dump_dt m"
  "mandate_items dump_dt (m\<lparr>signature := s\<rparr>) = mandate_items dump_dt m"
  by (simp_all add: mandate_items_def)

lemma verify_seal: "verify_spec_hash dump_dt (seal dump_dt key m) = Inr True"
proof -
  obtain h where "compute_spec_hash dump_dt m = Inr h" using compute_spec_hash_Inr by blast
  then show ?thesis by (simp add: seal_def verify_spec_hash_def compute_spec_hash_def)
qed

lemma inj_show_int: "inj show_int"
  by (rule injI) (rule show_int_inj)

text \<open>
  Binding: two mandates that both pass \<open>verify_spec_hash\<close> with the same stored
  \<open>spec_hash\<close> grant exactly the same authority: they agree on every field but the seal, unless
  their canonical texts are a SHA-256 collision. \<open>dump_dt\<close>, pydantic's JSON form of a datetime,
  is assumed to be injective.
\<close>

theorem spec_hash_binds_mandate:
  assumes "inj dump_dt"
    and "verify_spec_hash dump_dt m = Inr True" "verify_spec_hash dump_dt m' = Inr True"
    and "spec_hash m = spec_hash m'"
  shows "same_spec m m' \<or>
     collision_in [jcs_bytes (JObj (mandate_items dump_dt m))] [jcs_bytes (JObj (mandate_items dump_dt m'))]"
  using assms compute_spec_hash_eqD [of dump_dt m m'] by (auto simp: verify_spec_hash_iff)

theorem spec_hash_binds_mandate_witness:
  "let m = seal show_int [1, 2, 3] goa_mandate in
   verify_spec_hash show_int m = Inr True \<and>
   (same_spec m m \<or>
    collision_in [jcs_bytes (JObj (mandate_items show_int m))] [jcs_bytes (JObj (mandate_items show_int m))])"
  unfolding Let_def
  using spec_hash_binds_mandate [OF inj_show_int verify_seal verify_seal refl] verify_seal by blast

text \<open>
  REVOKED is a sink: whatever happens to a revoked mandate, it stays revoked. The only trigger
  that does not raise is another \<open>revoke\<close>; every other one raises \<open>InvalidTransition\<close>.
\<close>

theorem revoked_is_a_sink:
  "transition REVOKED trig ctx =
     (if trig = ''revoke'' then Inr REVOKED else Inl (InvalidTransition ''REVOKED'' trig)) \<and>
   (lifecycle REVOKED ts s \<longrightarrow> s = REVOKED)"
proof
  show "transition REVOKED trig ctx =
     (if trig = ''revoke'' then Inr REVOKED else Inl (InvalidTransition ''REVOKED'' trig))"
    unfolding transition_def transition_rows_def by simp
  show "lifecycle REVOKED ts s \<longrightarrow> s = REVOKED"
    using lifecycle_from_REVOKED by blast
qed

theorem revoked_is_a_sink_witness:
  "lifecycle REVOKED [(''revoke'', default_guard_context)] REVOKED \<and> REVOKED = REVOKED"
proof -
  have l: "lifecycle REVOKED [(''revoke'', default_guard_context)] REVOKED"
    by (rule lifecycle_step [OF _ lifecycle_refl]) (simp add: transition_by_trigger)
  then show ?thesis
    using revoked_is_a_sink [of "''revoke''" None "[(''revoke'', default_guard_context)]" REVOKED] by simp
qed

text \<open>
  C21. Over the whole life of a mandate, from its draft on, authority to spend is opened at most
  once: \<open>propose\<close> (LOCKED to EXECUTING) succeeds at most one time; and a mandate that is, or
  has been, executing was confirmed by a human against the hash of the draft they saw, and proposed
  strictly before its expiry.
\<close>

theorem mandate_executes_once:
  assumes "lifecycle DRAFT ts s"
  shows "length (filter (\<lambda>t. fst t = ''propose'') ts) \<le> 1 \<and>
         (s \<in> {EXECUTING, SETTLED, COMPENSATED} \<longrightarrow>
            (\<exists>c. (''confirm'', c) \<in> set ts \<and> gc_confirmation_matches_draft_hash c) \<and>
            (\<exists>c now exp. (''propose'', c) \<in> set ts \<and> gc_now c = Some now \<and> gc_expires_at c = Some exp \<and>
                now < exp \<and> gc_txn_count c < gc_max_transactions c))"
proof (intro conjI impI)
  show "length (filter (\<lambda>t. fst t = ''propose'') ts) \<le> 1"
    using assms by (rule lifecycle_propose_once)
next
  assume "s \<in> {EXECUTING, SETTLED, COMPENSATED}"
  note trace = lifecycle_trace [OF assms this]
  then show "\<exists>c. (''confirm'', c) \<in> set ts \<and> gc_confirmation_matches_draft_hash c" by simp
  from trace obtain c where "(''propose'', c) \<in> set ts" "guard_propose c" by auto
  then show "\<exists>c now exp. (''propose'', c) \<in> set ts \<and> gc_now c = Some now \<and> gc_expires_at c = Some exp \<and>
      now < exp \<and> gc_txn_count c < gc_max_transactions c"
    by (auto simp: guard_propose_def split: option.splits)
qed

theorem mandate_executes_once_witness:
  "let c = default_guard_context\<lparr>gc_now := Some 5, gc_expires_at := Some 9\<rparr>;
       ts = [(''draft_ok'', c), (''confirm'', c), (''propose'', c)]
   in lifecycle DRAFT ts EXECUTING \<and> length (filter (\<lambda>t. fst t = ''propose'') ts) \<le> 1 \<and>
      (\<exists>c. (''confirm'', c) \<in> set ts \<and> gc_confirmation_matches_draft_hash c)"
proof -
  define c where "c = default_guard_context\<lparr>gc_now := Some 5, gc_expires_at := Some 9\<rparr>"
  have l: "lifecycle DRAFT [(''draft_ok'', c), (''confirm'', c), (''propose'', c)] EXECUTING"
    by (rule lifecycle_step [of _ _ _ PENDING_CONFIRM] lifecycle_step [of _ _ _ LOCKED]
        lifecycle_step [of _ _ _ EXECUTING] lifecycle_refl |
        simp add: transition_by_trigger guard_draft_ok_def guard_confirm_def guard_propose_def
          c_def default_guard_context_def)+
  then show ?thesis
    using mandate_executes_once [OF l] unfolding Let_def c_def [symmetric] by simp
qed

end
