(* ===== verification/Datetime.thy ===== *)
theory Datetime
  imports Canonical
begin

text \<open>
  The part of Python's \<open>datetime\<close> the code prints with: \<open>isoformat()\<close> of an
  aware UTC instant. Instants are microseconds since 1970-01-01T00:00:00Z, the calendar is the
  proleptic Gregorian one, computed from the day number.
\<close>

definition usec_per_day :: int where
  "usec_per_day = 86400000000"

definition civil_from_days :: "int \<Rightarrow> int \<times> int \<times> int" where
  "civil_from_days days =
     (let z = days + 719468;
          era = z div 146097;
          doe = z mod 146097;
          yoe = (doe - doe div 1460 + doe div 36524 - doe div 146096) div 365;
          doy = doe - (365 * yoe + yoe div 4 - yoe div 100);
          mp = (5 * doy + 2) div 153;
          d = doy - (153 * mp + 2) div 5 + 1;
          m = (if mp < 10 then mp + 3 else mp - 9)
      in (yoe + era * 400 + (if m \<le> 2 then 1 else 0), m, d))"

definition pad :: "nat \<Rightarrow> int \<Rightarrow> string" where
  "pad w i = (let t = show_int i in replicate (w - length t) (CHR ''0'') @ t)"

definition isoformat :: "datetime \<Rightarrow> string" where
  "isoformat t =
     (let (y, m, d) = civil_from_days (t div usec_per_day);
          u = t mod usec_per_day;
          us = u mod 1000000;
          s = u div 1000000
      in pad 4 y @ ''-'' @ pad 2 m @ ''-'' @ pad 2 d @ ''T'' @
         pad 2 (s div 3600) @ '':'' @ pad 2 (s div 60 mod 60) @ '':'' @ pad 2 (s mod 60) @
         (if us = 0 then [] else ''.'' @ pad 6 us) @ ''+00:00'')"

end
