(* ===== verification/Policy.thy ===== *)
theory Policy
  imports Mandate Datetime
begin

text \<open>
  The policy engine (\<open>domain/policy\<close>): the closed registry of reason codes, the twelve
  rules in their fixed order, and \<open>evaluate\<close>, which runs all of them and turns their
  outcomes into a decision record.
\<close>

section \<open>reason\_codes.py\<close>

datatype reason_code =
    OK | CURRENCY_MISMATCH | CATEGORY_NOT_ALLOWED | MERCHANT_BLOCKED | MANDATE_EXPIRED
  | MANDATE_NOT_YET_VALID | UNIT_CAP_EXCEEDED | BUDGET_EXCEEDED | TXN_LIMIT_EXCEEDED
  | QUANTITY_MISMATCH | REFUND_POLICY_VIOLATION | PRICE_DRIFT | STALE_PRICE | INTENT_MISMATCH
  | MANDATE_INVALID | MANDATE_TAMPERED | MANDATE_UNSIGNED | MANDATE_REVOKED | DECISION_STALE
  | QUOTE_EXPIRED | DUPLICATE_SUPPRESSED | AUDIT_UNAVAILABLE | MALFORMED_REQUEST
  | PROVIDER_TRANSIENT | PROVIDER_TERMINAL | PROVIDER_DECLINED | INTERNAL_ERROR
  | REPLAYED_MESSAGE | SIGNATURE_INVALID | CLOCK_SKEW | UNKNOWN_PROTOCOL_VERSION
  | UNKNOWN_ALGORITHM | IDENTITY_UNKNOWN | IDENTITY_REVOKED | IDENTITY_EXPIRED
  | REPLAY_CHECK_UNAVAILABLE | ORDER_NOT_FOUND | ORDER_NOT_SETTLED

text \<open>The value of the enum member, which is its name.\<close>

primrec reason_value :: "reason_code \<Rightarrow> string" where
  "reason_value OK = ''OK''"
| "reason_value CURRENCY_MISMATCH = ''CURRENCY_MISMATCH''"
| "reason_value CATEGORY_NOT_ALLOWED = ''CATEGORY_NOT_ALLOWED''"
| "reason_value MERCHANT_BLOCKED = ''MERCHANT_BLOCKED''"
| "reason_value MANDATE_EXPIRED = ''MANDATE_EXPIRED''"
| "reason_value MANDATE_NOT_YET_VALID = ''MANDATE_NOT_YET_VALID''"
| "reason_value UNIT_CAP_EXCEEDED = ''UNIT_CAP_EXCEEDED''"
| "reason_value BUDGET_EXCEEDED = ''BUDGET_EXCEEDED''"
| "reason_value TXN_LIMIT_EXCEEDED = ''TXN_LIMIT_EXCEEDED''"
| "reason_value QUANTITY_MISMATCH = ''QUANTITY_MISMATCH''"
| "reason_value REFUND_POLICY_VIOLATION = ''REFUND_POLICY_VIOLATION''"
| "reason_value PRICE_DRIFT = ''PRICE_DRIFT''"
| "reason_value STALE_PRICE = ''STALE_PRICE''"
| "reason_value INTENT_MISMATCH = ''INTENT_MISMATCH''"
| "reason_value MANDATE_INVALID = ''MANDATE_INVALID''"
| "reason_value MANDATE_TAMPERED = ''MANDATE_TAMPERED''"
| "reason_value MANDATE_UNSIGNED = ''MANDATE_UNSIGNED''"
| "reason_value MANDATE_REVOKED = ''MANDATE_REVOKED''"
| "reason_value DECISION_STALE = ''DECISION_STALE''"
| "reason_value QUOTE_EXPIRED = ''QUOTE_EXPIRED''"
| "reason_value DUPLICATE_SUPPRESSED = ''DUPLICATE_SUPPRESSED''"
| "reason_value AUDIT_UNAVAILABLE = ''AUDIT_UNAVAILABLE''"
| "reason_value MALFORMED_REQUEST = ''MALFORMED_REQUEST''"
| "reason_value PROVIDER_TRANSIENT = ''PROVIDER_TRANSIENT''"
| "reason_value PROVIDER_TERMINAL = ''PROVIDER_TERMINAL''"
| "reason_value PROVIDER_DECLINED = ''PROVIDER_DECLINED''"
| "reason_value INTERNAL_ERROR = ''INTERNAL_ERROR''"
| "reason_value REPLAYED_MESSAGE = ''REPLAYED_MESSAGE''"
| "reason_value SIGNATURE_INVALID = ''SIGNATURE_INVALID''"
| "reason_value CLOCK_SKEW = ''CLOCK_SKEW''"
| "reason_value UNKNOWN_PROTOCOL_VERSION = ''UNKNOWN_PROTOCOL_VERSION''"
| "reason_value UNKNOWN_ALGORITHM = ''UNKNOWN_ALGORITHM''"
| "reason_value IDENTITY_UNKNOWN = ''IDENTITY_UNKNOWN''"
| "reason_value IDENTITY_REVOKED = ''IDENTITY_REVOKED''"
| "reason_value IDENTITY_EXPIRED = ''IDENTITY_EXPIRED''"
| "reason_value REPLAY_CHECK_UNAVAILABLE = ''REPLAY_CHECK_UNAVAILABLE''"
| "reason_value ORDER_NOT_FOUND = ''ORDER_NOT_FOUND''"
| "reason_value ORDER_NOT_SETTLED = ''ORDER_NOT_SETTLED''"

section \<open>rules.py\<close>

record purchase_intent =
  pi_currency :: string
  pi_category :: string
  pi_merchant :: string
  pi_unit_price_minor :: int
  pi_total_minor :: int
  pi_nights :: int
  pi_rooms :: int
  pi_refundable :: bool
  pi_quoted_total_minor :: int
  pi_current_total_minor :: int
  pi_catalog_version :: int
  pi_mandate_spec_hash :: string
  pi_intent_hash :: string

record policy_context =
  pc_now :: datetime
  pc_reserved_minor :: int
  pc_txn_count :: int
  pc_catalog_version :: int
  pc_decision_id :: string
  pc_decision_ttl_s :: int

definition intent_items :: "purchase_intent \<Rightarrow> (string \<times> json) list" where
  "intent_items i =
     [(''currency'', JStr (pi_currency i)), (''category'', JStr (pi_category i)),
      (''merchant'', JStr (pi_merchant i)), (''unit_price_minor'', JInt (pi_unit_price_minor i)),
      (''total_minor'', JInt (pi_total_minor i)), (''nights'', JInt (pi_nights i)),
      (''rooms'', JInt (pi_rooms i)), (''refundable'', JBool (pi_refundable i)),
      (''quoted_total_minor'', JInt (pi_quoted_total_minor i)),
      (''current_total_minor'', JInt (pi_current_total_minor i)),
      (''catalog_version'', JInt (pi_catalog_version i)),
      (''mandate_spec_hash'', JStr (pi_mandate_spec_hash i))]"

definition compute_intent_hash :: "purchase_intent \<Rightarrow> string result" where
  "compute_intent_hash i = sha256_jcs (JObj (intent_items i))"

datatype rule_result = Pass | Fail

record rule_outcome =
  ro_rule :: string
  ro_input :: json
  ro_result :: rule_result
  ro_reason_code :: reason_code

definition outcome :: "string \<Rightarrow> json \<Rightarrow> bool \<Rightarrow> reason_code \<Rightarrow> rule_outcome" where
  "outcome rule trace_input ok fail_code =
     \<lparr>ro_rule = rule, ro_input = trace_input, ro_result = (if ok then Pass else Fail),
      ro_reason_code = (if ok then OK else fail_code)\<rparr>"

definition currency_match :: "mandate \<Rightarrow> purchase_intent \<Rightarrow> policy_context \<Rightarrow> rule_outcome" where
  "currency_match m i ctx =
     (let ok = (pi_currency i = bounds_currency (bounds m)) in
      outcome ''currency.match''
        (JObj [(''mandate'', JStr (bounds_currency (bounds m))), (''intent'', JStr (pi_currency i))])
        ok CURRENCY_MISMATCH)"

definition category_allow :: "mandate \<Rightarrow> purchase_intent \<Rightarrow> policy_context \<Rightarrow> rule_outcome" where
  "category_allow m i ctx =
     (let ok = (pi_category i \<in> set (allowed_categories (bounds m))) in
      outcome ''category.allow''
        (JObj [(''requested'', JStr (pi_category i)),
               (''allowed'', JList (map JStr (allowed_categories (bounds m))))])
        ok CATEGORY_NOT_ALLOWED)"

definition merchant_block :: "mandate \<Rightarrow> purchase_intent \<Rightarrow> policy_context \<Rightarrow> rule_outcome" where
  "merchant_block m i ctx =
     (let ok = (pi_merchant i \<notin> set (blocked_merchants (bounds m))) in
      outcome ''merchant.block''
        (JObj [(''merchant'', JStr (pi_merchant i)),
               (''blocked'', JList (map JStr (blocked_merchants (bounds m))))])
        ok MERCHANT_BLOCKED)"

definition temporal_window :: "mandate \<Rightarrow> purchase_intent \<Rightarrow> policy_context \<Rightarrow> rule_outcome" where
  "temporal_window m i ctx =
     (let trace_input =
            JObj [(''now'', JStr (isoformat (pc_now ctx))),
                  (''not_before'', JStr (isoformat (not_before (temporal m)))),
                  (''expires_at'', JStr (isoformat (expires_at (temporal m))))]
      in if pc_now ctx < not_before (temporal m)
           then outcome ''temporal.window'' trace_input False MANDATE_NOT_YET_VALID
         else if pc_now ctx \<ge> expires_at (temporal m)
           then outcome ''temporal.window'' trace_input False MANDATE_EXPIRED
         else \<lparr>ro_rule = ''temporal.window'', ro_input = trace_input, ro_result = Pass, ro_reason_code = OK\<rparr>)"

definition cap_unit :: "mandate \<Rightarrow> purchase_intent \<Rightarrow> policy_context \<Rightarrow> rule_outcome" where
  "cap_unit m i ctx =
     (let ok = (pi_unit_price_minor i \<le> max_unit_minor (bounds m)) in
      outcome ''cap.unit''
        (JObj [(''unit'', JInt (pi_unit_price_minor i)), (''limit'', JInt (max_unit_minor (bounds m)))])
        ok UNIT_CAP_EXCEEDED)"

definition cap_total :: "mandate \<Rightarrow> purchase_intent \<Rightarrow> policy_context \<Rightarrow> rule_outcome" where
  "cap_total m i ctx =
     (let ok = (pc_reserved_minor ctx + pi_total_minor i \<le> max_total_minor (bounds m)) in
      outcome ''cap.total''
        (JObj [(''requested'', JInt (pi_total_minor i)), (''reserved'', JInt (pc_reserved_minor ctx)),
               (''cap'', JInt (max_total_minor (bounds m)))])
        ok BUDGET_EXCEEDED)"

definition cap_count :: "mandate \<Rightarrow> purchase_intent \<Rightarrow> policy_context \<Rightarrow> rule_outcome" where
  "cap_count m i ctx =
     (let ok = (pc_txn_count ctx < max_transactions (bounds m)) in
      outcome ''cap.count''
        (JObj [(''used'', JInt (pc_txn_count ctx)), (''limit'', JInt (max_transactions (bounds m)))])
        ok TXN_LIMIT_EXCEEDED)"

definition quantity_match :: "mandate \<Rightarrow> purchase_intent \<Rightarrow> policy_context \<Rightarrow> rule_outcome" where
  "quantity_match m i ctx =
     (let ok = (pi_nights i = intent_nights (m_intent m) \<and> pi_rooms i = intent_rooms (m_intent m)) in
      outcome ''quantity.match''
        (JObj [(''nights'', JObj [(''intent'', JInt (pi_nights i)), (''mandate'', JInt (intent_nights (m_intent m)))]),
               (''rooms'', JObj [(''intent'', JInt (pi_rooms i)), (''mandate'', JInt (intent_rooms (m_intent m)))])])
        ok QUANTITY_MISMATCH)"

definition policy_refundable :: "mandate \<Rightarrow> purchase_intent \<Rightarrow> policy_context \<Rightarrow> rule_outcome" where
  "policy_refundable m i ctx =
     (let ok = (\<not> require_refundable (bounds m) \<or> pi_refundable i) in
      outcome ''policy.refundable''
        (JObj [(''item_refundable'', JBool (pi_refundable i)),
               (''required'', JBool (require_refundable (bounds m)))])
        ok REFUND_POLICY_VIOLATION)"

definition price_delta_bps :: "int \<Rightarrow> int \<Rightarrow> int" where
  "price_delta_bps quoted current =
     (if quoted = 0 then (if current = 0 then 0 else 10000)
      else \<bar>current - quoted\<bar> * 10000 div quoted)"

definition price_delta :: "mandate \<Rightarrow> purchase_intent \<Rightarrow> policy_context \<Rightarrow> rule_outcome" where
  "price_delta m i ctx =
     (let delta_bps = price_delta_bps (pi_quoted_total_minor i) (pi_current_total_minor i);
          ok = (delta_bps \<le> max_price_delta_bps (bounds m)) in
      outcome ''price.delta''
        (JObj [(''quoted'', JInt (pi_quoted_total_minor i)), (''current'', JInt (pi_current_total_minor i)),
               (''bps'', JInt delta_bps)])
        ok PRICE_DRIFT)"

definition catalog_freshness :: "mandate \<Rightarrow> purchase_intent \<Rightarrow> policy_context \<Rightarrow> rule_outcome" where
  "catalog_freshness m i ctx =
     (let ok = (pi_catalog_version i = pc_catalog_version ctx) in
      outcome ''catalog.freshness''
        (JObj [(''quote'', JInt (pi_catalog_version i)), (''ctx'', JInt (pc_catalog_version ctx))])
        ok STALE_PRICE)"

definition or_empty :: "string option \<Rightarrow> string" where
  "or_empty x = (case x of None \<Rightarrow> [] | Some s \<Rightarrow> s)"

text \<open>The one rule that hashes, and so the one that could raise.\<close>

definition integrity_binding ::
  "mandate \<Rightarrow> purchase_intent \<Rightarrow> policy_context \<Rightarrow> rule_outcome result" where
  "integrity_binding m i ctx =
     (let spec_hash_ok = (pi_mandate_spec_hash i = or_empty (spec_hash m)) in
      rbind (compute_intent_hash i) (\<lambda>h.
        let intent_hash_ok = (pi_intent_hash i = h);
            ok = (spec_hash_ok \<and> intent_hash_ok)
        in Inr (outcome ''integrity.binding''
             (JObj [(''mandate_spec_hash_match'', JBool spec_hash_ok),
                    (''intent_hash_match'', JBool intent_hash_ok)])
             ok INTENT_MISMATCH)))"

type_synonym rule_fn = "mandate \<Rightarrow> purchase_intent \<Rightarrow> policy_context \<Rightarrow> rule_outcome result"

definition rules :: "rule_fn list" where
  "rules =
     map (\<lambda>r m i ctx. Inr (r m i ctx))
       [currency_match, category_allow, merchant_block, temporal_window, cap_unit, cap_total,
        cap_count, quantity_match, policy_refundable, price_delta, catalog_freshness]
     @ [integrity_binding]"

section \<open>decision.py and engine.py\<close>

record rule_trace_entry =
  rt_rule :: string
  rt_input :: json
  rt_result :: rule_result

datatype verdict = ALLOW | DENY

record decision_record =
  dr_decision_id :: string
  dr_engine_version :: string
  dr_mandate_id :: string
  dr_mandate_spec_hash :: string
  dr_intent_hash :: string
  dr_verdict :: verdict
  dr_reason_codes :: "reason_code list"
  dr_rule_trace :: "rule_trace_entry list"
  dr_evaluated_at :: datetime
  dr_ttl_s :: int
  dr_inputs_digest :: string

definition engine_version :: string where
  "engine_version = ''policy/1.0.0''"

definition intent_json :: "purchase_intent \<Rightarrow> json" where
  "intent_json i = JObj (intent_items i @ [(''intent_hash'', JStr (pi_intent_hash i))])"

definition context_json :: "(datetime \<Rightarrow> string) \<Rightarrow> policy_context \<Rightarrow> json" where
  "context_json dump_dt c =
     JObj [(''now'', JStr (dump_dt (pc_now c))), (''reserved_minor'', JInt (pc_reserved_minor c)),
           (''txn_count'', JInt (pc_txn_count c)), (''catalog_version'', JInt (pc_catalog_version c)),
           (''decision_id'', JStr (pc_decision_id c)), (''decision_ttl_s'', JInt (pc_decision_ttl_s c))]"

definition inputs_digest ::
  "(datetime \<Rightarrow> string) \<Rightarrow> mandate \<Rightarrow> purchase_intent \<Rightarrow> policy_context \<Rightarrow> string result" where
  "inputs_digest dump_dt m i ctx =
     sha256_jcs (JObj [(''mandate'', mandate_json dump_dt m), (''intent'', intent_json i),
                       (''ctx'', context_json dump_dt ctx)])"

text \<open>The loop over \<open>RULES\<close>: every rule runs, the two accumulators grow at their ends.\<close>

fun run_rules ::
  "rule_fn list \<Rightarrow> mandate \<Rightarrow> purchase_intent \<Rightarrow> policy_context \<Rightarrow>
   rule_trace_entry list \<Rightarrow> reason_code list \<Rightarrow> (rule_trace_entry list \<times> reason_code list) result" where
  "run_rules [] m i ctx trace reasons = Inr (trace, reasons)"
| "run_rules (r # rs) m i ctx trace reasons =
     rbind (r m i ctx) (\<lambda>out.
       run_rules rs m i ctx
         (trace @ [\<lparr>rt_rule = ro_rule out, rt_input = ro_input out, rt_result = ro_result out\<rparr>])
         (if ro_result out = Fail then reasons @ [ro_reason_code out] else reasons))"

definition evaluate ::
  "(datetime \<Rightarrow> string) \<Rightarrow> mandate \<Rightarrow> purchase_intent \<Rightarrow> policy_context \<Rightarrow> decision_record result" where
  "evaluate dump_dt m i ctx =
     rbind (run_rules rules m i ctx [] []) (\<lambda>(trace, reasons).
     rbind (inputs_digest dump_dt m i ctx) (\<lambda>digest.
     Inr \<lparr>dr_decision_id = pc_decision_id ctx, dr_engine_version = engine_version,
          dr_mandate_id = mandate_id m, dr_mandate_spec_hash = or_empty (spec_hash m),
          dr_intent_hash = pi_intent_hash i,
          dr_verdict = (if reasons \<noteq> [] then DENY else ALLOW),
          dr_reason_codes = (if reasons \<noteq> [] then reasons else [OK]),
          dr_rule_trace = trace, dr_evaluated_at = pc_now ctx, dr_ttl_s = pc_decision_ttl_s ctx,
          dr_inputs_digest = digest\<rparr>))"

section \<open>What a decision says\<close>

lemma no_floats_intent_items [simp]: "list_all (\<lambda>(k, v). no_floats v) (intent_items i)"
  by (simp add: intent_items_def)

lemma no_floats_inputs [simp]: "no_floats (intent_json i)" "no_floats (context_json dump_dt c)"
  by (simp_all add: intent_json_def context_json_def)

lemma compute_intent_hash_Inr: "\<exists>h. compute_intent_hash i = Inr h"
  by (simp add: compute_intent_hash_def sha256_jcs_Inr)

lemma inputs_digest_Inr: "\<exists>h. inputs_digest dump_dt m i ctx = Inr h"
  by (simp add: inputs_digest_def sha256_jcs_Inr)

lemma intent_items_inj:
  assumes "norm (JObj (intent_items i)) = norm (JObj (intent_items j))"
  shows "i\<lparr>pi_intent_hash := h\<rparr> = j\<lparr>pi_intent_hash := h\<rparr>"
proof -
  have "map (\<lambda>kv. norm (snd kv)) (intent_items i) = map (\<lambda>kv. norm (snd kv)) (intent_items j)"
    by (rule norm_JObj_fields [OF assms]) (simp_all add: intent_items_def)
  then show ?thesis by (simp add: intent_items_def)
qed

lemma compute_intent_hash_eqD:
  assumes "compute_intent_hash i = compute_intent_hash j"
  shows "i\<lparr>pi_intent_hash := h\<rparr> = j\<lparr>pi_intent_hash := h\<rparr> \<or>
     collision_in [jcs_bytes (JObj (intent_items i))] [jcs_bytes (JObj (intent_items j))]"
    (is "_ \<or> ?C")
proof -
  have "norm (JObj (intent_items i)) = norm (JObj (intent_items j)) \<or> ?C"
    using assms by (intro sha256_jcs_eqD) (simp_all add: compute_intent_hash_def)
  then show ?thesis using intent_items_inj by blast
qed

text \<open>A plain specification of the twelve checks, rule by rule, with the code a failure reports.\<close>

definition intent_bound :: "mandate \<Rightarrow> purchase_intent \<Rightarrow> bool" where
  "intent_bound m i \<longleftrightarrow>
     pi_mandate_spec_hash i = or_empty (spec_hash m) \<and> compute_intent_hash i = Inr (pi_intent_hash i)"

definition checks :: "mandate \<Rightarrow> purchase_intent \<Rightarrow> policy_context \<Rightarrow> (bool \<times> reason_code) list" where
  "checks m i ctx =
     [(pi_currency i = bounds_currency (bounds m), CURRENCY_MISMATCH),
      (pi_category i \<in> set (allowed_categories (bounds m)), CATEGORY_NOT_ALLOWED),
      (pi_merchant i \<notin> set (blocked_merchants (bounds m)), MERCHANT_BLOCKED),
      (not_before (temporal m) \<le> pc_now ctx \<and> pc_now ctx < expires_at (temporal m),
       if pc_now ctx < not_before (temporal m) then MANDATE_NOT_YET_VALID else MANDATE_EXPIRED),
      (pi_unit_price_minor i \<le> max_unit_minor (bounds m), UNIT_CAP_EXCEEDED),
      (pc_reserved_minor ctx + pi_total_minor i \<le> max_total_minor (bounds m), BUDGET_EXCEEDED),
      (pc_txn_count ctx < max_transactions (bounds m), TXN_LIMIT_EXCEEDED),
      (pi_nights i = intent_nights (m_intent m) \<and> pi_rooms i = intent_rooms (m_intent m), QUANTITY_MISMATCH),
      (require_refundable (bounds m) \<longrightarrow> pi_refundable i, REFUND_POLICY_VIOLATION),
      (price_delta_bps (pi_quoted_total_minor i) (pi_current_total_minor i) \<le> max_price_delta_bps (bounds m),
       PRICE_DRIFT),
      (pi_catalog_version i = pc_catalog_version ctx, STALE_PRICE),
      (intent_bound m i, INTENT_MISMATCH)]"

definition failed :: "(bool \<times> reason_code) list \<Rightarrow> reason_code list" where
  "failed cs = map snd (filter (\<lambda>c. \<not> fst c) cs)"

lemmas rule_defs =
  currency_match_def category_allow_def merchant_block_def temporal_window_def cap_unit_def
  cap_total_def cap_count_def quantity_match_def policy_refundable_def price_delta_def
  catalog_freshness_def

text \<open>Running the rules agrees with the specification, one rule at a time.\<close>

definition agrees :: "rule_outcome \<Rightarrow> bool \<times> reason_code \<Rightarrow> bool" where
  "agrees out c \<longleftrightarrow> (ro_result out = Pass) = fst c \<and> (\<not> fst c \<longrightarrow> ro_reason_code out = snd c)"

lemma rules_agree:
  "list_all2 (\<lambda>r c. \<exists>out. r m i ctx = Inr out \<and> agrees out c) rules (checks m i ctx)"
proof -
  obtain h where h: "compute_intent_hash i = Inr h" using compute_intent_hash_Inr by blast
  show ?thesis
    unfolding rules_def checks_def
    by (auto simp: rule_defs integrity_binding_def outcome_def agrees_def intent_bound_def h Let_def)
qed

lemma run_rules_agree:
  assumes "list_all2 (\<lambda>r c. \<exists>out. r m i ctx = Inr out \<and> agrees out c) rs cs"
  shows "\<exists>tr. run_rules rs m i ctx trace reasons = Inr (trace @ tr, reasons @ failed cs) \<and>
              map (\<lambda>e. rt_result e = Pass) tr = map fst cs"
  using assms
proof (induction rs cs arbitrary: trace reasons rule: list_all2_induct)
  case Nil
  then show ?case by (simp add: failed_def)
next
  case (Cons r rs c cs)
  then obtain out where out: "r m i ctx = Inr out" "agrees out c" by blast
  let ?e = "\<lparr>rt_rule = ro_rule out, rt_input = ro_input out, rt_result = ro_result out\<rparr>"
  let ?reasons = "if ro_result out = Fail then reasons @ [ro_reason_code out] else reasons"
  obtain tr where tr:
    "run_rules rs m i ctx (trace @ [?e]) ?reasons = Inr ((trace @ [?e]) @ tr, ?reasons @ failed cs)"
    "map (\<lambda>e. rt_result e = Pass) tr = map fst cs"
    using Cons.IH by blast
  have "?reasons @ failed cs = reasons @ failed (c # cs)"
    using out(2) by (cases "ro_result out") (auto simp: agrees_def failed_def)
  with out tr show ?case
    by (intro exI [of _ "?e # tr"]) (simp add: agrees_def)
qed

lemma evaluate_spec:
  "\<exists>d. evaluate dump_dt m i ctx = Inr d \<and>
       map (\<lambda>e. rt_result e = Pass) (dr_rule_trace d) = map fst (checks m i ctx) \<and>
       dr_verdict d = (if failed (checks m i ctx) = [] then ALLOW else DENY) \<and>
       dr_reason_codes d = (if failed (checks m i ctx) = [] then [OK] else failed (checks m i ctx)) \<and>
       dr_decision_id d = pc_decision_id ctx \<and> dr_mandate_id d = mandate_id m \<and>
       dr_mandate_spec_hash d = or_empty (spec_hash m) \<and> dr_intent_hash d = pi_intent_hash i \<and>
       dr_evaluated_at d = pc_now ctx \<and> dr_ttl_s d = pc_decision_ttl_s ctx"
proof -
  obtain g where g: "inputs_digest dump_dt m i ctx = Inr g" using inputs_digest_Inr by blast
  obtain tr where "run_rules rules m i ctx [] [] = Inr (tr, failed (checks m i ctx))"
    "map (\<lambda>e. rt_result e = Pass) tr = map fst (checks m i ctx)"
    using run_rules_agree [OF rules_agree, of m i ctx "[]" "[]"] by auto
  with g show ?thesis by (simp add: evaluate_def)
qed

lemma floor_div_bound:
  fixes a b q :: int
  assumes "0 < q" "a div q < b + 1"
  shows "a < (b + 1) * q"
proof -
  have "(a div q) * q \<le> b * q" using assms by (intro mult_right_mono) simp_all
  moreover have "a mod q < q" using assms(1) by simp
  ultimately have "(a div q) * q + a mod q < b * q + q" by linarith
  then show ?thesis by (simp add: distrib_right)
qed

lemma failed_Nil_iff: "failed cs = [] \<longleftrightarrow> list_all fst cs"
  by (induction cs) (auto simp: failed_def)

section \<open>Properties of the engine\<close>

text \<open>
  C20. \<open>evaluate\<close> is total and explains itself completely: on every input it returns a record
  (nothing escapes as an exception), the trace has exactly the twelve rules, each passed exactly
  when its condition holds, the verdict is ALLOW exactly when all twelve conditions hold, and the
  reason codes of a DENY are the codes of all failed rules, in rule order (\<open>[OK]\<close> otherwise).
\<close>

theorem evaluate_complete:
  "\<exists>d. evaluate dump_dt m i ctx = Inr d \<and>
       length (dr_rule_trace d) = 12 \<and>
       map (\<lambda>e. rt_result e = Pass) (dr_rule_trace d) = map fst (checks m i ctx) \<and>
       (dr_verdict d = ALLOW \<longleftrightarrow> list_all fst (checks m i ctx)) \<and>
       dr_reason_codes d =
         (if dr_verdict d = ALLOW then [OK] else map snd (filter (\<lambda>c. \<not> fst c) (checks m i ctx)))"
proof -
  obtain d where d: "evaluate dump_dt m i ctx = Inr d"
    "map (\<lambda>e. rt_result e = Pass) (dr_rule_trace d) = map fst (checks m i ctx)"
    "dr_verdict d = (if failed (checks m i ctx) = [] then ALLOW else DENY)"
    "dr_reason_codes d = (if failed (checks m i ctx) = [] then [OK] else failed (checks m i ctx))"
    using evaluate_spec by blast
  have "length (dr_rule_trace d) = length (checks m i ctx)"
    using arg_cong [OF d(2), of length] by simp
  then have "length (dr_rule_trace d) = 12" by (simp add: checks_def)
  with d show ?thesis by (simp add: failed_Nil_iff) (simp add: failed_def)
qed

text \<open>
  C19. What an ALLOW guarantees about money: the amount fits under the cap together with what is
  already reserved, the unit price is under its cap, the instant lies in the mandate's window, the
  drift from the quoted price is at most the allowed basis points, and the decision is bound to the
  mandate's hash and to the hash of this very intent.
\<close>

theorem allow_within_bounds:
  assumes "evaluate dump_dt m i ctx = Inr d" "dr_verdict d = ALLOW" "0 < pi_quoted_total_minor i"
  shows "pc_reserved_minor ctx + pi_total_minor i \<le> max_total_minor (bounds m) \<and>
    pi_unit_price_minor i \<le> max_unit_minor (bounds m) \<and>
    not_before (temporal m) \<le> pc_now ctx \<and> pc_now ctx < expires_at (temporal m) \<and>
    \<bar>pi_current_total_minor i - pi_quoted_total_minor i\<bar> * 10000
      < (max_price_delta_bps (bounds m) + 1) * pi_quoted_total_minor i \<and>
    dr_mandate_spec_hash d = pi_mandate_spec_hash i \<and> compute_intent_hash i = Inr (dr_intent_hash d)"
proof -
  obtain e where e: "evaluate dump_dt m i ctx = Inr e"
    "dr_verdict e = (if failed (checks m i ctx) = [] then ALLOW else DENY)"
    "dr_mandate_spec_hash e = or_empty (spec_hash m)" "dr_intent_hash e = pi_intent_hash i"
    using evaluate_spec by blast
  with assms have all: "list_all fst (checks m i ctx)"
    by (simp add: failed_Nil_iff split: if_splits)
  then have "\<bar>pi_current_total_minor i - pi_quoted_total_minor i\<bar> * 10000 div pi_quoted_total_minor i
      < max_price_delta_bps (bounds m) + 1"
    using assms(3) by (simp add: checks_def price_delta_bps_def)
  then have "\<bar>pi_current_total_minor i - pi_quoted_total_minor i\<bar> * 10000
           < (max_price_delta_bps (bounds m) + 1) * pi_quoted_total_minor i"
    using assms(3) by (intro floor_div_bound) simp_all
  then show ?thesis
    using all assms(1) e by (simp add: checks_def intent_bound_def)
qed

text \<open>An intent that the Goa mandate admits.\<close>

definition goa_intent0 :: purchase_intent where
  "goa_intent0 =
     \<lparr>pi_currency = ''INR'', pi_category = ''travel.hotel'', pi_merchant = ''mrc_1'',
      pi_unit_price_minor = 500000, pi_total_minor = 1500000, pi_nights = 3, pi_rooms = 1,
      pi_refundable = True, pi_quoted_total_minor = 1500000, pi_current_total_minor = 1500000,
      pi_catalog_version = 7, pi_mandate_spec_hash = [], pi_intent_hash = []\<rparr>"

definition bind_intent :: "purchase_intent \<Rightarrow> purchase_intent" where
  "bind_intent i = (case compute_intent_hash i of Inl e \<Rightarrow> i | Inr h \<Rightarrow> i\<lparr>pi_intent_hash := h\<rparr>)"

definition goa_context :: policy_context where
  "goa_context =
     \<lparr>pc_now = 100, pc_reserved_minor = 0, pc_txn_count = 0, pc_catalog_version = 7,
      pc_decision_id = ''dec_1'', pc_decision_ttl_s = 30\<rparr>"

lemma bind_intent_fields [simp]:
  "pi_currency (bind_intent i) = pi_currency i" "pi_category (bind_intent i) = pi_category i"
  "pi_merchant (bind_intent i) = pi_merchant i" "pi_unit_price_minor (bind_intent i) = pi_unit_price_minor i"
  "pi_total_minor (bind_intent i) = pi_total_minor i" "pi_nights (bind_intent i) = pi_nights i"
  "pi_rooms (bind_intent i) = pi_rooms i" "pi_refundable (bind_intent i) = pi_refundable i"
  "pi_quoted_total_minor (bind_intent i) = pi_quoted_total_minor i"
  "pi_current_total_minor (bind_intent i) = pi_current_total_minor i"
  "pi_catalog_version (bind_intent i) = pi_catalog_version i"
  "pi_mandate_spec_hash (bind_intent i) = pi_mandate_spec_hash i"
  by (simp_all add: bind_intent_def split: sum.split)

lemma compute_intent_hash_bind: "compute_intent_hash (bind_intent i) = Inr (pi_intent_hash (bind_intent i))"
proof -
  obtain h where h: "compute_intent_hash i = Inr h" using compute_intent_hash_Inr by blast
  have "compute_intent_hash (i\<lparr>pi_intent_hash := h\<rparr>) = compute_intent_hash i"
    by (simp add: compute_intent_hash_def intent_items_def)
  then show ?thesis by (simp add: bind_intent_def h)
qed

lemma goa_allowed:
  "\<exists>d. evaluate dump_dt goa_mandate (bind_intent goa_intent0) goa_context = Inr d \<and> dr_verdict d = ALLOW \<and>
       dr_intent_hash d = pi_intent_hash (bind_intent goa_intent0)"
proof -
  have "failed (checks goa_mandate (bind_intent goa_intent0) goa_context) = []"
    unfolding failed_Nil_iff
    by (simp add: checks_def goa_mandate_def goa_context_def intent_bound_def compute_intent_hash_bind)
      (simp add: goa_intent0_def price_delta_bps_def or_empty_def)
  then show ?thesis
    using evaluate_spec [of dump_dt goa_mandate "bind_intent goa_intent0" goa_context] by auto
qed

theorem allow_within_bounds_witness:
  "\<exists>d. evaluate show_int goa_mandate (bind_intent goa_intent0) goa_context = Inr d \<and> dr_verdict d = ALLOW \<and>
       pc_reserved_minor goa_context + pi_total_minor (bind_intent goa_intent0) \<le> max_total_minor (bounds goa_mandate)"
proof -
  obtain d where d: "evaluate show_int goa_mandate (bind_intent goa_intent0) goa_context = Inr d"
    "dr_verdict d = ALLOW" using goa_allowed by blast
  have "0 < pi_quoted_total_minor (bind_intent goa_intent0)" by (simp add: goa_intent0_def)
  from allow_within_bounds [OF d this] d show ?thesis by blast
qed

text \<open>
  A decision authorises one intent only: if two ALLOW decisions, for whatever mandates and at
  whatever times, carry the same \<open>intent_hash\<close>, they were made for the same purchase (same
  merchant, amounts, quantities, quote and mandate hash), unless the canonical texts of the two
  intents are a SHA-256 collision.
\<close>

theorem decision_binds_intent:
  assumes "evaluate dump_dt m i ctx = Inr d" "dr_verdict d = ALLOW"
    and "evaluate dump_dt m' j ctx' = Inr d'" "dr_verdict d' = ALLOW"
    and "dr_intent_hash d = dr_intent_hash d'"
  shows "i = j \<or> collision_in [jcs_bytes (JObj (intent_items i))] [jcs_bytes (JObj (intent_items j))]"
proof -
  have bound: "compute_intent_hash i = Inr (pi_intent_hash i) \<and> dr_intent_hash d = pi_intent_hash i"
    if "evaluate dump_dt m i ctx = Inr d" "dr_verdict d = ALLOW" for m i ctx d
    using evaluate_spec [of dump_dt m i ctx] that
    by (auto simp: failed_Nil_iff checks_def intent_bound_def split: if_splits)
  have "pi_intent_hash i = pi_intent_hash j" "compute_intent_hash i = compute_intent_hash j"
    using bound [OF assms(1,2)] bound [OF assms(3,4)] assms(5) by simp_all
  then show ?thesis
    using compute_intent_hash_eqD [of i j "pi_intent_hash i"] by (cases i, cases j) auto
qed

theorem decision_binds_intent_witness:
  "let i = bind_intent goa_intent0; c = goa_context\<lparr>pc_now := 200, pc_decision_id := ''dec_2''\<rparr> in
   (\<exists>d. evaluate show_int goa_mandate i goa_context = Inr d \<and> dr_verdict d = ALLOW) \<and>
   (i = i \<or> collision_in [jcs_bytes (JObj (intent_items i))] [jcs_bytes (JObj (intent_items i))])"
proof -
  obtain d where d: "evaluate show_int goa_mandate (bind_intent goa_intent0) goa_context = Inr d"
    "dr_verdict d = ALLOW" using goa_allowed by blast
  from decision_binds_intent [OF d d refl] d show ?thesis by (auto simp: Let_def)
qed

end
