(* ===== verification/Catalog.thy ===== *)
theory Catalog
  imports Mandate Platform "HOL-Library.Product_Lexorder" "HOL-Library.Multiset"
begin

text \<open>
  The catalog item and the price-locked quote (\<open>domain/catalog\<close>) and the buyer agent's handling
  of candidates (\<open>domain/agent/buyer.py\<close>). An item is the flat record the repository has, since
  the nested feed model only regroups its fields. A rating is a finite float, kept as the integer
  multiple of \<open>2 powr -1074\<close> that it is, so that the order of floats is the order of integers.
\<close>

section \<open>models.py\<close>

record catalog_item =
  ci_sku :: string
  ci_category :: string
  ci_merchant_id :: string
  ci_unit :: string
  ci_unit_price_minor :: int
  ci_available_units :: int
  ci_location_city :: string
  ci_location_country :: string
  ci_rating :: int
  ci_sea_facing :: bool
  ci_breakfast_included :: bool
  ci_refundable :: bool
  ci_cancellation_window_h :: int
  ci_instant_confirm :: bool
  ci_taxes_included :: bool
  ci_quote_required :: bool
  ci_version :: int
  ci_is_buyer_listable :: bool

section \<open>quote.py\<close>

record quote =
  q_quote_id :: string
  q_sku :: string
  q_mandate_id :: string
  q_unit_price_minor :: int
  q_nights :: int
  q_total_minor :: int
  q_currency :: string
  q_catalog_version :: int
  q_refundable :: bool
  q_expires_at :: datetime
  q_quote_token :: "string option"
  q_quote_hash :: "string option"

definition hashable_payload :: "(datetime \<Rightarrow> string) \<Rightarrow> quote \<Rightarrow> json" where
  "hashable_payload dump_dt q =
     JObj [(''schema'', JStr ''actl.quote/v1''), (''quote_id'', JStr (q_quote_id q)), (''sku'', JStr (q_sku q)),
           (''mandate_id'', JStr (q_mandate_id q)), (''unit_price_minor'', JInt (q_unit_price_minor q)),
           (''nights'', JInt (q_nights q)), (''total_minor'', JInt (q_total_minor q)),
           (''currency'', JStr (q_currency q)), (''catalog_version'', JInt (q_catalog_version q)),
           (''refundable'', JBool (q_refundable q)), (''expires_at'', JStr (dump_dt (q_expires_at q)))]"

definition compute_quote_hash :: "(datetime \<Rightarrow> string) \<Rightarrow> quote \<Rightarrow> string result" where
  "compute_quote_hash dump_dt q = sha256_jcs (hashable_payload dump_dt q)"

text \<open>\<open>base64.urlsafe_b64encode\<close>, and the same with the padding stripped.\<close>

definition b64_alphabet :: string where
  "b64_alphabet = ''ABCDEFGHIJKLMNOPQRSTUVWXYZabcdefghijklmnopqrstuvwxyz0123456789-_''"

definition b64_char :: "nat \<Rightarrow> char" where
  "b64_char n = b64_alphabet ! (n mod 64)"

fun urlsafe_b64encode_nopad :: "bytes \<Rightarrow> string" where
  "urlsafe_b64encode_nopad (a # b # c # bs) =
     (let n = unat a * 65536 + unat b * 256 + unat c in
      [b64_char (n div 262144), b64_char (n div 4096), b64_char (n div 64), b64_char n]
      @ urlsafe_b64encode_nopad bs)"
| "urlsafe_b64encode_nopad [a, b] =
     (let n = unat a * 65536 + unat b * 256 in
      [b64_char (n div 262144), b64_char (n div 4096), b64_char (n div 64)])"
| "urlsafe_b64encode_nopad [a] =
     (let n = unat a * 65536 in [b64_char (n div 262144), b64_char (n div 4096)])"
| "urlsafe_b64encode_nopad [] = []"

definition quote_token_prefix :: string where
  "quote_token_prefix = ''qt_v1''"

definition build_quote_token :: "(datetime \<Rightarrow> string) \<Rightarrow> quote \<Rightarrow> string \<Rightarrow> bytes \<Rightarrow> string result" where
  "build_quote_token dump_dt q quote_hash key =
     rbind (jcs (hashable_payload dump_dt q)) (\<lambda>canonical.
       let payload_b64 = urlsafe_b64encode_nopad (encode_utf8 canonical);
           sig = sign_spec_hash quote_hash key
       in Inr (quote_token_prefix @ ''.'' @ payload_b64 @ ''.'' @ sig))"

lemma no_floats_hashable_payload [simp]: "no_floats (hashable_payload dump_dt q)"
  by (simp add: hashable_payload_def)

lemma compute_quote_hash_Inr: "\<exists>h. compute_quote_hash dump_dt q = Inr h"
  by (simp add: compute_quote_hash_def sha256_jcs_Inr)

lemma build_quote_token_Inr: "\<exists>t. build_quote_token dump_dt q h key = Inr t"
  by (simp add: build_quote_token_def jcs_render Let_def)

text \<open>The terms a quote pins: all fields but its own hash and token.\<close>

definition same_terms :: "quote \<Rightarrow> quote \<Rightarrow> bool" where
  "same_terms q r \<longleftrightarrow> r\<lparr>q_quote_token := q_quote_token q, q_quote_hash := q_quote_hash q\<rparr> = q"

lemma hashable_payload_inj:
  assumes "inj dump_dt" "norm (hashable_payload dump_dt q) = norm (hashable_payload dump_dt r)"
  shows "same_terms q r"
proof -
  have "map (\<lambda>kv. norm (snd kv)) (case hashable_payload dump_dt q of JObj kvs \<Rightarrow> kvs | _ \<Rightarrow> []) =
        map (\<lambda>kv. norm (snd kv)) (case hashable_payload dump_dt r of JObj kvs \<Rightarrow> kvs | _ \<Rightarrow> [])"
    unfolding hashable_payload_def json.case
    by (rule norm_JObj_fields [OF assms(2) [unfolded hashable_payload_def]]) simp_all
  then show ?thesis
    using assms(1) by (auto simp: hashable_payload_def same_terms_def inj_eq intro!: quote.equality)
qed

lemma compute_quote_hash_eqD:
  assumes "inj dump_dt" "compute_quote_hash dump_dt q = compute_quote_hash dump_dt r"
  shows "same_terms q r \<or>
         collision_in [jcs_bytes (hashable_payload dump_dt q)] [jcs_bytes (hashable_payload dump_dt r)]"
    (is "_ \<or> ?C")
proof -
  have "norm (hashable_payload dump_dt q) = norm (hashable_payload dump_dt r) \<or> ?C"
    using assms(2) by (intro sha256_jcs_eqD) (simp_all add: compute_quote_hash_def)
  then show ?thesis using hashable_payload_inj assms(1) by blast
qed

section \<open>buyer.py\<close>

text \<open>\<open>str.split(",")[0]\<close>, \<open>strip()\<close> and \<open>lower()\<close> on ASCII text.\<close>

definition is_space :: "char \<Rightarrow> bool" where
  "is_space c = (let n = of_char c :: nat in 9 \<le> n \<and> n \<le> 13 \<or> 28 \<le> n \<and> n \<le> 32)"

definition strip :: "string \<Rightarrow> string" where
  "strip s = rev (dropWhile is_space (rev (dropWhile is_space s)))"

definition before_comma :: "string \<Rightarrow> string" where
  "before_comma s = takeWhile (\<lambda>c. c \<noteq> CHR '','') s"

definition lower_str :: "string \<Rightarrow> string" where
  "lower_str s = map lower_char s"

definition is_feasible :: "catalog_item \<Rightarrow> mandate \<Rightarrow> bool" where
  "is_feasible item m =
     (if ci_category item \<notin> set (allowed_categories (bounds m)) then False
      else if ci_merchant_id item \<in> set (blocked_merchants (bounds m)) then False
      else if ci_unit_price_minor item > max_unit_minor (bounds m) then False
      else if ci_available_units item \<le> 0 then False
      else if require_refundable (bounds m) \<and> \<not> ci_refundable item then False
      else lower_str (ci_location_city item) = lower_str (strip (before_comma (intent_location (m_intent m)))))"

definition filter_candidates :: "catalog_item list \<Rightarrow> mandate \<Rightarrow> catalog_item list" where
  "filter_candidates items m = filter (\<lambda>item. is_feasible item m) items"

definition buyer_sort_key :: "catalog_item \<Rightarrow> int \<times> int \<times> nat list" where
  "buyer_sort_key item = (ci_unit_price_minor item, - ci_rating item, utf8_decode (map of_char (ci_sku item)))"

definition rank :: "catalog_item list \<Rightarrow> catalog_item list" where
  "rank items = sort_key buyer_sort_key items"

definition filter_and_rank :: "catalog_item list \<Rightarrow> mandate \<Rightarrow> catalog_item list" where
  "filter_and_rank items m = rank (filter_candidates items m)"

text \<open>\<open>by_sku\<close>: of two items with one sku the later one is kept, as a dict comprehension does.\<close>

definition by_sku :: "catalog_item list \<Rightarrow> string \<Rightarrow> catalog_item option" where
  "by_sku candidates = map_of (rev (map (\<lambda>i. (ci_sku i, i)) candidates))"

definition apply_llm_ranking :: "catalog_item list \<Rightarrow> string list \<Rightarrow> catalog_item list option" where
  "apply_llm_ranking candidates ranked_skus =
     (if length ranked_skus \<noteq> length candidates then None
      else if length (remdups ranked_skus) \<noteq> length ranked_skus then None
      else if \<not> list_all (\<lambda>s. by_sku candidates s \<noteq> None) ranked_skus then None
      else Some (map (\<lambda>s. the (by_sku candidates s)) ranked_skus))"

lemma by_sku_Some: "by_sku cs s = Some i \<Longrightarrow> i \<in> set cs \<and> ci_sku i = s"
  by (auto simp: by_sku_def dest!: map_of_SomeD)

lemma apply_llm_ranking_Some:
  assumes "apply_llm_ranking cs skus = Some r"
  shows "map ci_sku r = skus \<and> mset r = mset cs"
proof -
  have len: "length skus = length cs" and d: "distinct skus"
    and known: "\<And>s. s \<in> set skus \<Longrightarrow> by_sku cs s \<noteq> None"
    and r: "r = map (\<lambda>s. the (by_sku cs s)) skus"
    using assms by (auto simp: apply_llm_ranking_def list_all_iff split: if_splits)
      (metis card_distinct length_remdups_card_conv)
  have one: "the (by_sku cs s) \<in> set cs \<and> ci_sku (the (by_sku cs s)) = s" if "s \<in> set skus" for s
    using known [OF that] by_sku_Some [of cs s] by auto
  then have skus: "map ci_sku r = skus" unfolding r by (simp add: map_idI)
  then have dr: "distinct r" using d distinct_map by metis
  have sub: "set r \<subseteq> set cs" using one r by auto
  have "length r = length cs" using r len by simp
  then have "card (set r) = length cs" using dr by (metis distinct_card)
  moreover have "card (set cs) \<le> length cs" by (rule card_length)
  ultimately have eq: "set r = set cs" "card (set cs) = length cs"
    using sub by (metis List.finite_set card_mono card_subset_eq le_antisym)+
  then have "distinct cs" by (metis card_distinct)
  then have "mset r = mset cs" using dr eq(1) by (simp add: set_eq_iff_mset_eq_distinct)
  with skus show ?thesis by simp
qed

text \<open>
  The deterministic ranking is exactly the feasible candidates, every one as often as it was
  offered, ordered by price, then by falling rating, then by sku.
\<close>

theorem filter_and_rank_correct:
  "mset (filter_and_rank items m) = mset (filter (\<lambda>i. is_feasible i m) items) \<and>
   sorted (map buyer_sort_key (filter_and_rank items m)) \<and>
   (\<forall>i \<in> set (filter_and_rank items m).
      ci_category i \<in> set (allowed_categories (bounds m)) \<and> ci_merchant_id i \<notin> set (blocked_merchants (bounds m)) \<and>
      ci_unit_price_minor i \<le> max_unit_minor (bounds m) \<and> 0 < ci_available_units i \<and>
      (require_refundable (bounds m) \<longrightarrow> ci_refundable i))"
  by (auto simp: filter_and_rank_def rank_def filter_candidates_def is_feasible_def split: if_splits)

definition sea_view :: catalog_item where
  "sea_view =
     \<lparr>ci_sku = ''HTL-1'', ci_category = ''travel.hotel'', ci_merchant_id = ''mrc_1'', ci_unit = ''night'',
      ci_unit_price_minor = 500000, ci_available_units = 4, ci_location_city = ''Goa'',
      ci_location_country = ''IN'', ci_rating = 9, ci_sea_facing = True, ci_breakfast_included = True,
      ci_refundable = True, ci_cancellation_window_h = 24, ci_instant_confirm = True,
      ci_taxes_included = True, ci_quote_required = True, ci_version = 7, ci_is_buyer_listable = True\<rparr>"

theorem filter_and_rank_correct_witness:
  "let r = filter_and_rank [sea_view] goa_mandate in
   r = [sea_view] \<and> (\<forall>i \<in> set r. ci_unit_price_minor i \<le> max_unit_minor (bounds goa_mandate))"
proof -
  have "filter_and_rank [sea_view] goa_mandate = [sea_view]"
    by (simp add: filter_and_rank_def rank_def filter_candidates_def is_feasible_def sea_view_def goa_mandate_def
      strip_def before_comma_def lower_str_def lower_char_def is_space_def)
  then show ?thesis using filter_and_rank_correct [of "[sea_view]" goa_mandate] by (simp add: Let_def)
qed

text \<open>
  An answer of the language model can only reorder: if \<open>apply_llm_ranking\<close> accepts it, the
  result is the same collection of items (no item added, dropped, repeated or altered), in the order
  of the skus named; and an answer that names an unknown sku, repeats one, or has another length is
  rejected.
\<close>

theorem llm_ranking_only_reorders:
  "(apply_llm_ranking cs skus = Some r \<longrightarrow> mset r = mset cs \<and> map ci_sku r = skus) \<and>
   (length skus \<noteq> length cs \<or> \<not> distinct skus \<or> \<not> set skus \<subseteq> ci_sku ` set cs \<longrightarrow>
      apply_llm_ranking cs skus = None)"
proof (intro conjI impI)
  show "mset r = mset cs" "map ci_sku r = skus" if "apply_llm_ranking cs skus = Some r"
    using apply_llm_ranking_Some [OF that] by simp_all
  show "apply_llm_ranking cs skus = None"
    if bad: "length skus \<noteq> length cs \<or> \<not> distinct skus \<or> \<not> set skus \<subseteq> ci_sku ` set cs"
  proof (cases "apply_llm_ranking cs skus")
    case (Some r)
    then have "mset r = mset cs" "map ci_sku r = skus" using apply_llm_ranking_Some by auto
    moreover have "set r = set cs" "length r = length cs"
      using calculation(1) by (metis set_mset_mset, metis size_mset)
    moreover have "distinct skus"
      using Some by (auto simp: apply_llm_ranking_def split: if_splits)
        (metis card_distinct length_remdups_card_conv)
    ultimately have False using bad by (metis dual_order.refl length_map list.set_map)
    then show ?thesis ..
  qed
qed

theorem llm_ranking_only_reorders_witness:
  "let b = sea_view\<lparr>ci_sku := ''HTL-2''\<rparr> in
   apply_llm_ranking [sea_view, b] [''HTL-2'', ''HTL-1''] = Some [b, sea_view] \<and>
   mset [b, sea_view] = mset [sea_view, b] \<and> apply_llm_ranking [sea_view, b] [''HTL-2'', ''HTL-9''] = None"
proof -
  let ?b = "sea_view\<lparr>ci_sku := ''HTL-2''\<rparr>"
  have ok: "apply_llm_ranking [sea_view, ?b] [''HTL-2'', ''HTL-1''] = Some [?b, sea_view]"
    by (simp add: apply_llm_ranking_def by_sku_def sea_view_def)
  have bad: "\<not> set [''HTL-2'', ''HTL-9''] \<subseteq> ci_sku ` set [sea_view, ?b]"
    by (simp add: sea_view_def)
  have "mset [?b, sea_view] = mset [sea_view, ?b]"
    using llm_ranking_only_reorders [THEN conjunct1, THEN mp, OF ok] by (rule conjunct1)
  moreover have "apply_llm_ranking [sea_view, ?b] [''HTL-2'', ''HTL-9''] = None"
    by (rule llm_ranking_only_reorders [THEN conjunct2, THEN mp]) (use bad in simp)
  ultimately show ?thesis using ok unfolding Let_def by (intro conjI)
qed

text \<open>
  A quote's hash pins its terms: two quotes with the same \<open>quote_hash\<close> agree on sku, mandate,
  unit price, nights, total, currency, catalog version, refundability and deadline, unless their
  canonical texts are a SHA-256 collision; and hash and token can always be computed.
\<close>

theorem quote_hash_binds_terms:
  assumes "inj dump_dt" "compute_quote_hash dump_dt q = compute_quote_hash dump_dt r"
  shows "(same_terms q r \<or>
          collision_in [jcs_bytes (hashable_payload dump_dt q)] [jcs_bytes (hashable_payload dump_dt r)]) \<and>
         (\<exists>h. compute_quote_hash dump_dt q = Inr h) \<and> (\<exists>t. build_quote_token dump_dt q h key = Inr t)"
  using compute_quote_hash_eqD [OF assms] compute_quote_hash_Inr build_quote_token_Inr by blast

definition goa_quote :: quote where
  "goa_quote =
     \<lparr>q_quote_id = ''qte_1'', q_sku = ''HTL-1'', q_mandate_id = ''mdt_1'', q_unit_price_minor = 500000,
      q_nights = 3, q_total_minor = 1500000, q_currency = ''INR'', q_catalog_version = 7,
      q_refundable = True, q_expires_at = 900, q_quote_token = None, q_quote_hash = None\<rparr>"

theorem quote_hash_binds_terms_witness:
  "let r = goa_quote\<lparr>q_quote_hash := Some ''x''\<rparr>
   in compute_quote_hash show_int goa_quote = compute_quote_hash show_int r \<and>
      (\<exists>h. compute_quote_hash show_int goa_quote = Inr h)"
proof -
  let ?r = "goa_quote\<lparr>q_quote_hash := Some ''x''\<rparr>"
  have eq: "compute_quote_hash show_int goa_quote = compute_quote_hash show_int ?r"
    by (simp add: compute_quote_hash_def hashable_payload_def)
  show ?thesis using quote_hash_binds_terms [OF inj_show_int eq] eq by (simp add: Let_def)
qed

end
