(* ===== verification/Db.thy ===== *)
theory Db
  imports Exec Platform Policy Catalog
begin

text \<open>
  The database (\<open>infrastructure/db\<close>) and the world the application runs in. The tables are fields
  of a record; the repositories' methods are functions of the table contents, run through
  \<open>db_call\<close>, where any statement may fail with \<open>DBAPIError\<close>. A UnitOfWork is one
  transaction: it works on \<open>session\<close>, a private view that starts from the committed state
  \<open>durable\<close>; \<open>commit\<close> publishes it, leaving the block drops what was not committed.
  Transactions of other processes are steps of \<open>others\<close>, taken when a transaction begins;
  the row lock and the advisory lock, which the code takes before it reads what it decides on, are
  what lets a transaction be treated as running without interference once begun.
\<close>

section \<open>Rows (models.py and the repositories' records)\<close>

record order =
  or_id :: string
  or_mandate_id :: string
  or_decision_id :: string
  or_quote_id :: string
  or_status :: string
  or_amount_minor :: int
  or_currency :: string
  or_attempt_no :: int
  or_idempotency_key :: string
  or_provider_order_id :: "string option"
  or_provider_payment_id :: "string option"
  or_decline_reason :: "string option"
  or_source :: "string option"
  or_created_at :: datetime

definition terminal_statuses :: "string list" where
  "terminal_statuses = [''CAPTURED'', ''FAILED'', ''COMPENSATED'']"

record ledger_entry =
  le_account :: string
  le_direction :: string
  le_amount_minor :: int
  le_ref_type :: string
  le_ref_id :: string
  le_created_at :: datetime

record audit_row =
  al_seq :: int
  al_trace_id :: string
  al_actor_type :: string
  al_actor_id :: string
  al_action :: string
  al_subject :: json
  al_payload :: json
  al_payload_hash :: string
  al_prev_hash :: string
  al_entry_hash :: string
  al_narration :: "string option"

record audit_checkpoint =
  ac_from_seq :: int
  ac_to_seq :: int
  ac_merkle_root :: string
  ac_anchor_tx :: "string option"
  ac_anchor_status :: string
  ac_anchor_chain_id :: "int option"
  ac_anchor_contract_address :: "string option"
  ac_anchor_attempts :: int
  ac_anchor_last_error :: "string option"
  ac_anchored_at :: "datetime option"

record idempotency_key =
  ik_key :: string
  ik_request_hash :: string
  ik_state :: string
  ik_expires_at :: datetime
  ik_response :: "json option"

record saga =
  sg_id :: string
  sg_mandate_id :: string
  sg_decision_id :: string
  sg_quote_id :: string
  sg_amount_minor :: int
  sg_currency :: string
  sg_step :: string
  sg_status :: string
  sg_order_id :: "string option"

record webhook_event =
  we_provider_event_id :: string
  we_event_type :: string
  we_signature_valid :: bool
  we_payload :: json
  we_processed_at :: "datetime option"

record agent_identity =
  ai_agent_id :: string
  ai_key_id :: string
  ai_alg :: string
  ai_not_before :: datetime
  ai_expires_at :: datetime
  ai_status :: string
  ai_public_key_hex :: "string option"
  ai_hmac_secret :: "string option"
  ai_revoked_at :: "datetime option"

record addon_purchase =
  ap_id :: string
  ap_base_order_id :: string
  ap_offer_sku :: string
  ap_status :: string
  ap_addon_mandate_id :: "string option"
  ap_addon_order_id :: "string option"
  ap_price_minor :: int
  ap_currency :: string

record outbox_event =
  ob_aggregate :: string
  ob_aggregate_id :: string
  ob_event_type :: string
  ob_payload :: json
  ob_published_at :: "datetime option"

record integrity_halt =
  ih_halted :: bool
  ih_reason :: "string option"
  ih_tripped_at :: "datetime option"
  ih_tripped_seq :: "int option"

record db =
  mandates :: "string \<Rightarrow> (mandate \<times> mandate_status) option"
  decisions :: "string \<Rightarrow> decision_record option"
  quotes :: "string \<Rightarrow> quote option"
  catalog_meta :: "int option"
  catalog_items :: "catalog_item list"
  orders :: "order list"
  ledger_entries :: "ledger_entry list"
  audit_log :: "audit_row list"
  audit_checkpoints :: "audit_checkpoint list"
  idempotency_keys :: "string \<Rightarrow> idempotency_key option"
  sagas :: "string \<Rightarrow> saga option"
  webhook_events :: "webhook_event list"
  agent_identities :: "agent_identity list"
  addon_purchases :: "addon_purchase list"
  outbox :: "outbox_event list"
  halt_row :: "integrity_halt option"

section \<open>The world\<close>

text \<open>The settings (\<open>config.py\<close>) that the modelled code reads, and their defaults.\<close>

record settings =
  razorpay_key_id :: string
  payment_provider :: string
  reconcile_after_s :: int
  quote_ttl_s :: int
  decision_ttl_s :: int
  reservation_ttl_s :: int
  max_retry_attempts :: nat
  quote_signing_key :: string
  mandate_signing_key :: string
  merchant_agent_id :: string
  merchant_key_id :: string
  merchant_private_key_hex :: string
  agent_envelope_hmac_test_only :: bool
  mandate_default_ttl_s :: int
  admin_token :: string
  read_token :: string
  llm_enabled :: bool
  app_env :: string
  anchor_provider :: string

definition default_settings :: settings where
  "default_settings =
     \<lparr>razorpay_key_id = ''rzp_test_placeholder000000'', payment_provider = ''razorpay'', reconcile_after_s = 45, quote_ttl_s = 120, decision_ttl_s = 30,
      reservation_ttl_s = 300, max_retry_attempts = 3,
      quote_signing_key = ''demo-quote-signing-key-change-me'',
      mandate_signing_key = ''demo-mandate-signing-key-change-me'',
      merchant_agent_id = ''agt_merchant_01'', merchant_key_id = ''ed25519:merchant-demo'',
      merchant_private_key_hex = ''3d0881a8072b0d907fe5e29ca3b01932c9114613d64d06613c8ce6a0e3f49871'',
      agent_envelope_hmac_test_only = False, mandate_default_ttl_s = 1800,
      admin_token = ''demo-admin-token-change-me'', read_token = ''demo-read-token-change-me'', llm_enabled = True,
      app_env = ''local'', anchor_provider = ''noop''\<rparr>"

text \<open>
  What the code reads from outside: the clock, fresh ids, whether a statement fails, what other
  processes commit. Each is a stream with a counter. \<open>provider\<close> is the state behind the payment
  provider port; \<open>provider_calls\<close> records each call made to it, with the committed state of the
  database at the time of the call. \<open>json_datetime\<close> is pydantic's JSON form of a datetime.
\<close>

record 'p world =
  session :: db
  durable :: db
  clock :: "nat \<Rightarrow> datetime"
  clock_reads :: nat
  ulids :: "nat \<Rightarrow> string"
  ids_minted :: nat
  faults :: "nat \<Rightarrow> bool"
  statements :: nat
  others :: "nat \<Rightarrow> db \<Rightarrow> db"
  transactions :: nat
  circuit :: breaker
  provider :: 'p
  provider_calls :: "(string \<times> db) list"
  config :: settings
  json_datetime :: "datetime \<Rightarrow> string"

type_synonym ('p, 'a) app = "('p world, 'a) comp"

definition clock_now :: "('p, datetime) app" where
  "clock_now = (\<lambda>w. (Inr (clock w (clock_reads w)), w\<lparr>clock_reads := Suc (clock_reads w)\<rparr>))"

definition new_id :: "string \<Rightarrow> ('p, string) app" where
  "new_id prefix = (\<lambda>w. (Inr (prefix @ ''_'' @ ulids w (ids_minted w)), w\<lparr>ids_minted := Suc (ids_minted w)\<rparr>))"

definition db_call :: "(db \<Rightarrow> 'a result \<times> db) \<Rightarrow> ('p, 'a) app" where
  "db_call f = (\<lambda>w.
     let w' = w\<lparr>statements := Suc (statements w)\<rparr> in
     if faults w (statements w) then (Inl DBAPIError, w')
     else (case f (session w) of (r, d) \<Rightarrow> (r, w'\<lparr>session := d\<rparr>)))"

definition db_read :: "(db \<Rightarrow> 'a) \<Rightarrow> ('p, 'a) app" where
  "db_read f = db_call (\<lambda>d. (Inr (f d), d))"

definition db_write :: "(db \<Rightarrow> db) \<Rightarrow> ('p, unit) app" where
  "db_write f = db_call (\<lambda>d. (Inr (), f d))"

text \<open>An insert that violates a constraint of the table raises and inserts nothing.\<close>

definition db_insert :: "(db \<Rightarrow> bool) \<Rightarrow> (db \<Rightarrow> db) \<Rightarrow> ('p, unit) app" where
  "db_insert constraint f = db_call (\<lambda>d. if constraint d then (Inr (), f d) else (Inl DBAPIError, d))"

text \<open>\<open>UnitOfWork.commit\<close> and \<open>async with UnitOfWork(...)\<close>.\<close>

definition commit :: "('p, unit) app" where
  "commit = (\<lambda>w.
     let w' = w\<lparr>statements := Suc (statements w)\<rparr> in
     if faults w (statements w) then (Inl DBAPIError, w') else (Inr (), w'\<lparr>durable := session w\<rparr>))"

definition with_uow :: "('p, 'a) app \<Rightarrow> ('p, 'a) app" where
  "with_uow body = (\<lambda>w.
     let d = others w (transactions w) (durable w);
         w1 = w\<lparr>durable := d, session := d, transactions := Suc (transactions w)\<rparr>
     in case body w1 of (r, w2) \<Rightarrow> (r, w2\<lparr>session := session w\<rparr>))"

section \<open>Weakest preconditions of the primitives\<close>

lemma wp_clock_now [simp]:
  "wp clock_now Q E w \<longleftrightarrow> Q (clock w (clock_reads w)) (w\<lparr>clock_reads := Suc (clock_reads w)\<rparr>)"
  by (simp add: wp_def clock_now_def)

lemma wp_new_id [simp]:
  "wp (new_id p) Q E w \<longleftrightarrow> Q (p @ ''_'' @ ulids w (ids_minted w)) (w\<lparr>ids_minted := Suc (ids_minted w)\<rparr>)"
  by (simp add: wp_def new_id_def)

abbreviation tick :: "'p world \<Rightarrow> 'p world" where
  "tick w \<equiv> w\<lparr>statements := Suc (statements w)\<rparr>"

lemma wp_db_read [simp]:
  "wp (db_read f) Q E w \<longleftrightarrow>
     (if faults w (statements w) then E DBAPIError (tick w) else Q (f (session w)) (tick w))"
  by (simp add: wp_def db_read_def db_call_def Let_def)

lemma wp_db_write [simp]:
  "wp (db_write f) Q E w \<longleftrightarrow>
     (if faults w (statements w) then E DBAPIError (tick w) else Q () ((tick w)\<lparr>session := f (session w)\<rparr>))"
  by (simp add: wp_def db_write_def db_call_def Let_def)

lemma wp_db_insert [simp]:
  "wp (db_insert c f) Q E w \<longleftrightarrow>
     (if faults w (statements w) \<or> \<not> c (session w) then E DBAPIError (tick w)
      else Q () ((tick w)\<lparr>session := f (session w)\<rparr>))"
  by (simp add: wp_def db_insert_def db_call_def Let_def)

lemma wp_commit [simp]:
  "wp commit Q E w \<longleftrightarrow>
     (if faults w (statements w) then E DBAPIError (tick w) else Q () ((tick w)\<lparr>durable := session w\<rparr>))"
  by (simp add: wp_def commit_def Let_def)

lemma wp_db_call:
  "wp (db_call f) Q E w \<longleftrightarrow>
     (if faults w (statements w) then E DBAPIError (tick w)
      else (case f (session w) of
              (Inl e, d) \<Rightarrow> E e ((tick w)\<lparr>session := d\<rparr>)
            | (Inr x, d) \<Rightarrow> Q x ((tick w)\<lparr>session := d\<rparr>)))"
  by (simp add: wp_def db_call_def Let_def split: prod.split sum.split)

lemma wp_with_uow:
  "wp (with_uow body) Q E w \<longleftrightarrow>
     wp body (\<lambda>x w2. Q x (w2\<lparr>session := session w\<rparr>)) (\<lambda>e w2. E e (w2\<lparr>session := session w\<rparr>))
       (w\<lparr>durable := others w (transactions w) (durable w), session := others w (transactions w) (durable w),
          transactions := Suc (transactions w)\<rparr>)"
  by (simp add: wp_def with_uow_def Let_def split: prod.split sum.split)

text \<open>
  Computations inside one transaction: they move the private session, read the clock and mint ids,
  but commit nothing, start no transaction and call no provider.
\<close>

definition local_step :: "'p world \<Rightarrow> 'p world \<Rightarrow> bool" where
  "local_step w w' \<longleftrightarrow>
     durable w' = durable w \<and> clock w' = clock w \<and> ulids w' = ulids w \<and> faults w' = faults w \<and>
     others w' = others w \<and> transactions w' = transactions w \<and> circuit w' = circuit w \<and>
     provider w' = provider w \<and> provider_calls w' = provider_calls w \<and> config w' = config w \<and>
     json_datetime w' = json_datetime w"

definition local :: "('p, 'a) app \<Rightarrow> bool" where
  "local m \<longleftrightarrow> (\<forall>w. local_step w (snd (m w)))"

named_theorems local_rules

lemma local_step_refl [simp]: "local_step w w"
  by (simp add: local_step_def)

lemma local_step_trans: "local_step w w' \<Longrightarrow> local_step w' w'' \<Longrightarrow> local_step w w''"
  by (simp add: local_step_def)

lemma local_step_fields:
  assumes "local_step w w'"
  shows "durable w' = durable w" "clock w' = clock w" "ulids w' = ulids w" "faults w' = faults w"
    "others w' = others w" "transactions w' = transactions w" "circuit w' = circuit w"
    "provider w' = provider w" "provider_calls w' = provider_calls w" "config w' = config w"
    "json_datetime w' = json_datetime w"
  using assms by (simp_all add: local_step_def)

lemma localI: "(\<And>w. local_step w (snd (m w))) \<Longrightarrow> local m"
  by (simp add: local_def)

lemma local_basic [local_rules]:
  "local (return x)" "local (raise e)" "local (gets f)" "local (lift_result r)" "local (assert_that b)"
  by (simp_all add: local_def assert_that_def run_simps)

lemma local_primitives [local_rules]:
  "local clock_now" "local (new_id p)" "local (db_call f)" "local (db_read g)" "local (db_write h)"
  "local (db_insert c h)"
  by (simp_all add: local_def local_step_def clock_now_def new_id_def db_read_def db_write_def db_insert_def
    db_call_def Let_def split: prod.split)

lemma local_bind [local_rules]:
  assumes "local m" "\<And>x. local (f x)"
  shows "local (bind m f)"
proof (rule localI)
  fix w
  obtain r w' where m: "m w = (r, w')" by (metis prod.exhaust)
  then have "local_step w w'" using assms(1) by (metis local_def snd_conv)
  moreover have "local_step w' (snd (f x w'))" for x using assms(2) by (simp add: local_def)
  ultimately show "local_step w (snd (bind m f w))"
    using m by (cases r) (auto simp: bind_def intro: local_step_trans)
qed

lemma local_handle [local_rules]:
  assumes "local m" "\<And>e. local (h e)"
  shows "local (handle m h)"
proof (rule localI)
  fix w
  obtain r w' where m: "m w = (r, w')" by (metis prod.exhaust)
  then have "local_step w w'" using assms(1) by (metis local_def snd_conv)
  moreover have "local_step w' (snd (h e w'))" for e using assms(2) by (simp add: local_def)
  ultimately show "local_step w (snd (handle m h w))"
    using m by (cases r) (auto simp: handle_def intro: local_step_trans)
qed

lemma local_if [local_rules]: "local m \<Longrightarrow> local n \<Longrightarrow> local (if b then m else n)"
  by simp

lemma local_option [local_rules]:
  "local m \<Longrightarrow> (\<And>x. local (f x)) \<Longrightarrow> local (case v of None \<Rightarrow> m | Some x \<Rightarrow> f x)"
  by (simp split: option.split)

lemma local_prod [local_rules]: "(\<And>x y. local (f x y)) \<Longrightarrow> local (case v of (x, y) \<Rightarrow> f x y)"
  by (simp split: prod.split)

lemma local_Let [local_rules]: "(\<And>x. local (f x)) \<Longrightarrow> local (let x = t in f x)"
  by (simp add: Let_def)

lemma local_for_each [local_rules]: "(\<And>x. local (f x)) \<Longrightarrow> local (for_each xs f)"
  by (induction xs) (auto intro!: local_rules)

lemma local_wp: "local m \<Longrightarrow> wp m (\<lambda>x. local_step w) (\<lambda>e. local_step w) w"
  by (simp add: wp_def local_def split: prod.split sum.split) (metis snd_conv)

text \<open>Computations that leave a part of the session as it is, whatever they return.\<close>

definition preserves :: "(db \<Rightarrow> 'b) \<Rightarrow> ('p, 'a) app \<Rightarrow> bool" where
  "preserves f m \<longleftrightarrow> (\<forall>w. f (session (snd (m w))) = f (session w))"

named_theorems preserves_rules

lemma preserves_basic [preserves_rules]:
  "preserves f (return x)" "preserves f (raise e)" "preserves f (gets g)" "preserves f (lift_result r)"
  "preserves f (assert_that b)" "preserves f clock_now" "preserves f (new_id p)" "preserves f (db_read h)"
  by (simp_all add: preserves_def assert_that_def run_simps clock_now_def new_id_def db_read_def db_call_def Let_def)

lemma preserves_db_call: "(\<And>d. f (snd (g d)) = f d) \<Longrightarrow> preserves f (db_call g)"
  unfolding preserves_def db_call_def Let_def by (auto split: prod.split) (metis snd_conv)

lemma preserves_db_write: "(\<And>d. f (g d) = f d) \<Longrightarrow> preserves f (db_write g)"
  by (simp add: db_write_def preserves_db_call)

lemma preserves_db_insert: "(\<And>d. f (g d) = f d) \<Longrightarrow> preserves f (db_insert c g)"
  by (simp add: db_insert_def preserves_db_call)

lemma preserves_bind [preserves_rules]:
  "preserves f m \<Longrightarrow> (\<And>x. preserves f (k x)) \<Longrightarrow> preserves f (bind m k)"
  unfolding preserves_def bind_def by (auto split: prod.split sum.split) (metis snd_conv)+

lemma preserves_handle [preserves_rules]:
  "preserves f m \<Longrightarrow> (\<And>e. preserves f (h e)) \<Longrightarrow> preserves f (handle m h)"
  unfolding preserves_def handle_def by (auto split: prod.split sum.split) (metis snd_conv)+

lemma preserves_cases [preserves_rules]:
  "preserves f m \<Longrightarrow> preserves f n \<Longrightarrow> preserves f (if b then m else n)"
  "preserves f m \<Longrightarrow> (\<And>x. preserves f (g x)) \<Longrightarrow> preserves f (case v of None \<Rightarrow> m | Some x \<Rightarrow> g x)"
  "(\<And>x y. preserves f (h x y)) \<Longrightarrow> preserves f (case u of (x, y) \<Rightarrow> h x y)"
  "(\<And>x. preserves f (k x)) \<Longrightarrow> preserves f (let x = t in k x)"
  by (simp_all split: option.split prod.split)

lemma preserves_wp: "preserves f m \<Longrightarrow> wp m (\<lambda>x w'. f (session w') = f (session w)) (\<lambda>e w'. f (session w') = f (session w)) w"
  by (simp add: wp_def preserves_def split: prod.split sum.split) (metis snd_conv)

text \<open>What a local computation does to a transaction that ends without a commit: nothing durable.\<close>

definition began :: "'p world \<Rightarrow> db" where
  "began w = others w (transactions w) (durable w)"

lemma with_uow_local:
  assumes "local body" "with_uow body w = (r, w')"
  shows "durable w' = began w" "session w' = session w" "provider_calls w' = provider_calls w"
    "transactions w' = Suc (transactions w)" "others w' = others w" "clock w' = clock w"
    "faults w' = faults w" "provider w' = provider w" "circuit w' = circuit w"
proof -
  let ?w1 = "w\<lparr>durable := began w, session := began w, transactions := Suc (transactions w)\<rparr>"
  obtain w2 where w2: "body ?w1 = (r, w2)" "w' = w2\<lparr>session := session w\<rparr>"
    using assms(2) by (auto simp: with_uow_def began_def Let_def split: prod.splits)
  have "local_step ?w1 w2" using assms(1) w2(1) by (metis local_def snd_conv)
  from local_step_fields [OF this] w2(2)
  show "durable w' = began w" "session w' = session w" "provider_calls w' = provider_calls w"
    "transactions w' = Suc (transactions w)" "others w' = others w" "clock w' = clock w"
    "faults w' = faults w" "provider w' = provider w" "circuit w' = circuit w"
    by simp_all
qed

section \<open>Invariants of committed states\<close>

text \<open>
  A history of transactions, each of them some steps followed by a commit, with whatever other
  processes commit in between. \<open>transactional\<close> is the interface of a component whose steps keep
  an invariant of the database inside a transaction: then every committed state satisfies it, for
  the operations that are \<open>allowed\<close>, also when steps raise or statements fail, provided that the other processes keep it as well.
\<close>

definition transaction :: "('o \<Rightarrow> ('p, 'a) app) \<Rightarrow> 'o list \<Rightarrow> ('p, unit) app" where
  "transaction step ops = with_uow (bind (for_each ops step) (\<lambda>_. commit))"

fun history :: "('o \<Rightarrow> ('p, 'a) app) \<Rightarrow> 'o list list \<Rightarrow> 'p world \<Rightarrow> 'p world" where
  "history step [] w = w"
| "history step (ops # txs) w = history step txs (snd (transaction step ops w))"

locale transactional =
  fixes J :: "db \<Rightarrow> bool" and step :: "'o \<Rightarrow> ('p, 'a) app" and allowed :: "'o \<Rightarrow> bool"
  assumes step_local: "local (step x)"
    and step_keeps: "allowed x \<Longrightarrow> J (session w) \<Longrightarrow> wp (step x) (\<lambda>r w'. J (session w')) (\<lambda>e w'. True) w"
begin

lemma for_each_keeps:
  "list_all allowed ops \<Longrightarrow> J (session w) \<Longrightarrow> wp (for_each ops step) (\<lambda>r w'. J (session w')) (\<lambda>e w'. True) w"
proof (induction ops arbitrary: w)
  case (Cons x ops)
  have rest: "wp (bind (for_each ops step) (\<lambda>ys. return (y # ys))) (\<lambda>r w'. J (session w')) (\<lambda>e w'. True) u"
    if "J (session u)" for y u
    unfolding wp_bind by (rule wp_mono [OF Cons.IH [OF _ that]]) (use Cons.prems in simp_all)
  show ?case unfolding for_each.simps wp_bind [of "step x"]
    by (rule wp_mono [OF step_keeps]) (use Cons.prems in \<open>simp_all only: rest list.pred_inject\<close>)
qed simp

lemma body_keeps:
  assumes "J (session w)" "J (durable w)" "list_all allowed ops"
  shows "wp (bind (for_each ops step) (\<lambda>_. commit)) (\<lambda>r w'. J (durable w') \<and> others w' = others w)
    (\<lambda>e w'. J (durable w') \<and> others w' = others w) w"
proof -
  have "local (for_each ops step)" using step_local by (auto intro: local_rules)
  from local_wp [OF this] have
    "wp (for_each ops step) (\<lambda>r w'. local_step w w' \<and> J (session w')) (\<lambda>e w'. local_step w w' \<and> True) w"
    using for_each_keeps [OF assms(3,1)] by (rule wp_conj)
  then have "wp (for_each ops step) (\<lambda>r. wp commit (\<lambda>r w'. J (durable w') \<and> others w' = others w)
      (\<lambda>e w'. J (durable w') \<and> others w' = others w)) (\<lambda>e w'. J (durable w') \<and> others w' = others w) w"
    by (rule wp_mono) (use assms(2) in \<open>auto simp: local_step_def\<close>)
  then show ?thesis by simp
qed

lemma transaction_keeps:
  assumes "J (began w)" "list_all allowed ops"
  shows "J (durable (snd (transaction step ops w))) \<and> others (snd (transaction step ops w)) = others w"
proof -
  let ?w1 = "w\<lparr>durable := began w, session := began w, transactions := Suc (transactions w)\<rparr>"
  have "wp (bind (for_each ops step) (\<lambda>_. commit)) (\<lambda>r w'. J (durable w') \<and> others w' = others w)
    (\<lambda>e w'. J (durable w') \<and> others w' = others w) ?w1"
    using body_keeps [of ?w1 ops] assms by simp
  then have "wp (transaction step ops) (\<lambda>r w'. J (durable w') \<and> others w' = others w)
    (\<lambda>e w'. J (durable w') \<and> others w' = others w) w"
    by (simp add: transaction_def wp_with_uow began_def)
  then show ?thesis by (auto simp: wp_def split: prod.splits sum.splits)
qed

lemma history_keeps:
  assumes "J (durable w)" "\<And>n d. J d \<Longrightarrow> J (others w n d)" "list_all (list_all allowed) txs"
  shows "J (durable (history step txs w))"
  using assms
proof (induction txs arbitrary: w)
  case (Cons ops txs)
  then have "J (began w)" by (simp add: began_def)
  from transaction_keeps [OF this] Cons show ?case by simp
qed simp

end

section \<open>Table constraints (models.py)\<close>

text \<open>
  Primary keys, foreign keys, unique and check constraints of the tables that rows are inserted
  into or updated in. Constraints on the representation of a column (the range of a BIGINT, the
  width of a CHAR) are not written out; such an error is one of the failures of a statement.
\<close>

definition mandate_row_ok :: "db \<Rightarrow> mandate \<Rightarrow> mandate_status \<Rightarrow> bool" where
  "mandate_row_ok d m status \<longleftrightarrow>
     0 < max_total_minor (bounds m) \<and> 0 < max_unit_minor (bounds m) \<and> (status = LOCKED \<longrightarrow> signature m \<noteq> None)"

definition decision_row_ok :: "db \<Rightarrow> decision_record \<Rightarrow> bool" where
  "decision_row_ok d dr \<longleftrightarrow> decisions d (dr_decision_id dr) = None \<and> mandates d (dr_mandate_id dr) \<noteq> None"

definition quote_row_ok :: "db \<Rightarrow> quote \<Rightarrow> bool" where
  "quote_row_ok d q \<longleftrightarrow> quotes d (q_quote_id q) = None \<and> mandates d (q_mandate_id q) \<noteq> None \<and>
     0 < q_unit_price_minor q \<and> 0 < q_total_minor q"

definition catalog_item_row_ok :: "catalog_item \<Rightarrow> bool" where
  "catalog_item_row_ok i \<longleftrightarrow> 0 < ci_unit_price_minor i \<and> 0 \<le> ci_available_units i"

definition order_source_ok :: "string option \<Rightarrow> bool" where
  "order_source_ok src \<longleftrightarrow> src \<in> {None, Some ''demo_lab'', Some ''growth_simulation''}"

definition find_order :: "string \<Rightarrow> order list \<Rightarrow> order option" where
  "find_order oid os = find (\<lambda>x. or_id x = oid) os"

definition order_row_ok :: "db \<Rightarrow> order \<Rightarrow> bool" where
  "order_row_ok d x \<longleftrightarrow>
     find_order (or_id x) (orders d) = None \<and>
     list_all (\<lambda>y. or_idempotency_key y \<noteq> or_idempotency_key x) (orders d) \<and>
     mandates d (or_mandate_id x) \<noteq> None \<and> decisions d (or_decision_id x) \<noteq> None \<and>
     quotes d (or_quote_id x) \<noteq> None \<and> 0 < or_amount_minor x \<and> order_source_ok (or_source x)"

definition addon_statuses :: "string list" where
  "addon_statuses = [''offered'', ''pending'', ''settled'', ''failed'', ''declined'']"

definition addon_row_ok :: "db \<Rightarrow> addon_purchase \<Rightarrow> bool" where
  "addon_row_ok d x \<longleftrightarrow>
     list_all (\<lambda>y. ap_id y \<noteq> ap_id x) (addon_purchases d) \<and>
     find_order (ap_base_order_id x) (orders d) \<noteq> None \<and>
     (case ap_addon_order_id x of None \<Rightarrow> True | Some oid \<Rightarrow> find_order oid (orders d) \<noteq> None) \<and>
     0 < ap_price_minor x \<and> ap_status x \<in> set addon_statuses"

definition ledger_row_ok :: "ledger_entry \<Rightarrow> bool" where
  "ledger_row_ok e \<longleftrightarrow> (le_direction e = ''debit'' \<or> le_direction e = ''credit'') \<and> 0 < le_amount_minor e"

definition saga_statuses :: "string list" where
  "saga_statuses =
     [''RUNNING'', ''AWAITING_AUTHORIZATION'', ''COMPLETED'', ''COMPENSATING'', ''COMPENSATED'', ''FAILED'']"

definition saga_row_ok :: "db \<Rightarrow> saga \<Rightarrow> bool" where
  "saga_row_ok d s \<longleftrightarrow>
     mandates d (sg_mandate_id s) \<noteq> None \<and> decisions d (sg_decision_id s) \<noteq> None \<and>
     quotes d (sg_quote_id s) \<noteq> None \<and> 0 < sg_amount_minor s \<and> sg_status s \<in> set saga_statuses"

definition audit_row_ok :: "db \<Rightarrow> audit_row \<Rightarrow> bool" where
  "audit_row_ok d r \<longleftrightarrow> list_all (\<lambda>x. al_seq x \<noteq> al_seq r \<and> al_entry_hash x \<noteq> al_entry_hash r) (audit_log d)"

definition idempotency_states :: "string list" where
  "idempotency_states = [''IN_FLIGHT'', ''COMPLETED'', ''FAILED'']"

definition identity_row_ok :: "db \<Rightarrow> agent_identity \<Rightarrow> bool" where
  "identity_row_ok d i \<longleftrightarrow>
     list_all (\<lambda>x. ai_agent_id x \<noteq> ai_agent_id i \<and> ai_key_id x \<noteq> ai_key_id i) (agent_identities d) \<and>
     ai_status i \<in> {''ACTIVE'', ''REVOKED''} \<and>
     (ai_alg i = ''Ed25519'' \<and> ai_public_key_hex i \<noteq> None \<or> ai_alg i = ''HMAC-SHA256'' \<and> ai_hmac_secret i \<noteq> None)"

section \<open>Repositories\<close>

subsection \<open>mandates.py\<close>

definition mandates_add :: "mandate \<Rightarrow> mandate_status \<Rightarrow> ('p, unit) app" where
  "mandates_add m status =
     (if spec_hash m = None then raise (ValueError ''cannot persist a mandate with no spec_hash'')
      else db_insert (\<lambda>d. mandates d (mandate_id m) = None \<and> mandate_row_ok d m status)
        (\<lambda>d. d\<lparr>mandates := (mandates d)(mandate_id m \<mapsto> (m, status))\<rparr>))"

definition mandates_get :: "string \<Rightarrow> ('p, (mandate \<times> mandate_status) option) app" where
  "mandates_get mid = db_read (\<lambda>d. mandates d mid)"

definition mandates_get_for_update :: "string \<Rightarrow> ('p, (mandate \<times> mandate_status) option) app" where
  "mandates_get_for_update mid = db_read (\<lambda>d. mandates d mid)"

definition mandates_update_status :: "string \<Rightarrow> mandate_status \<Rightarrow> ('p, unit) app" where
  "mandates_update_status mid status =
     db_call (\<lambda>d. case mandates d mid of
       None \<Rightarrow> (Inl (KeyError mid), d)
     | Some (m, old) \<Rightarrow>
         if mandate_row_ok d m status then (Inr (), d\<lparr>mandates := (mandates d)(mid \<mapsto> (m, status))\<rparr>)
         else (Inl DBAPIError, d))"

subsection \<open>decisions.py and quotes.py\<close>

definition decisions_add :: "decision_record \<Rightarrow> ('p, unit) app" where
  "decisions_add dr =
     db_insert (\<lambda>d. decision_row_ok d dr) (\<lambda>d. d\<lparr>decisions := (decisions d)(dr_decision_id dr \<mapsto> dr)\<rparr>)"

definition decisions_get :: "string \<Rightarrow> ('p, decision_record option) app" where
  "decisions_get did = db_read (\<lambda>d. decisions d did)"

definition quotes_add :: "quote \<Rightarrow> ('p, unit) app" where
  "quotes_add q =
     db_insert (\<lambda>d. quote_row_ok d q) (\<lambda>d. d\<lparr>quotes := (quotes d)(q_quote_id q \<mapsto> q)\<rparr>)"

definition quotes_get :: "string \<Rightarrow> ('p, quote option) app" where
  "quotes_get qid = db_read (\<lambda>d. quotes d qid)"

subsection \<open>catalog.py\<close>

definition find_item :: "string \<Rightarrow> catalog_item list \<Rightarrow> catalog_item option" where
  "find_item sku items = find (\<lambda>i. ci_sku i = sku) items"

definition catalog_upsert_item :: "catalog_item \<Rightarrow> ('p, unit) app" where
  "catalog_upsert_item i =
     db_insert (\<lambda>d. catalog_item_row_ok i)
       (\<lambda>d. d\<lparr>catalog_items :=
          (if find_item (ci_sku i) (catalog_items d) = None then catalog_items d @ [i]
           else map (\<lambda>j. if ci_sku j = ci_sku i then i else j) (catalog_items d))\<rparr>)"

definition catalog_get_item :: "string \<Rightarrow> ('p, catalog_item option) app" where
  "catalog_get_item sku = db_read (\<lambda>d. find_item sku (catalog_items d))"

definition catalog_current_version :: "('p, int) app" where
  "catalog_current_version =
     db_call (\<lambda>d. case catalog_meta d of
       None \<Rightarrow> (Inl (RuntimeError ''catalog_meta has no default row''), d)
     | Some v \<Rightarrow> (Inr v, d))"

definition catalog_mutate_price :: "string \<Rightarrow> int \<Rightarrow> ('p, catalog_item) app" where
  "catalog_mutate_price sku price =
     db_call (\<lambda>d. case (find_item sku (catalog_items d), catalog_meta d) of
       (None, _) \<Rightarrow> (Inl (KeyError sku), d)
     | (Some i, None) \<Rightarrow> (Inl (RuntimeError ''No row was found when one was required''), d)
     | (Some i, Some v) \<Rightarrow>
         (let i' = i\<lparr>ci_unit_price_minor := price, ci_version := v + 1\<rparr> in
          if catalog_item_row_ok i' then
            (Inr i', d\<lparr>catalog_meta := Some (v + 1),
               catalog_items := map (\<lambda>j. if ci_sku j = sku then i' else j) (catalog_items d)\<rparr>)
          else (Inl DBAPIError, d)))"

subsection \<open>orders.py and payments.py\<close>

definition map_order :: "string \<Rightarrow> (order \<Rightarrow> order) \<Rightarrow> order list \<Rightarrow> order list" where
  "map_order oid f os = map (\<lambda>x. if or_id x = oid then f x else x) os"

definition orders_add :: "order \<Rightarrow> ('p, unit) app" where
  "orders_add x =
     (let row = x\<lparr>or_provider_payment_id := None, or_decline_reason := None, or_source := None\<rparr> in
      db_insert (\<lambda>d. order_row_ok d row) (\<lambda>d. d\<lparr>orders := orders d @ [row]\<rparr>))"

definition orders_get :: "string \<Rightarrow> ('p, order option) app" where
  "orders_get oid = db_read (\<lambda>d. find_order oid (orders d))"

definition orders_get_by_idempotency_key :: "string \<Rightarrow> ('p, order option) app" where
  "orders_get_by_idempotency_key key = db_read (\<lambda>d. find (\<lambda>x. or_idempotency_key x = key) (orders d))"

definition orders_set_provider_order_id :: "string \<Rightarrow> string \<Rightarrow> ('p, unit) app" where
  "orders_set_provider_order_id oid pid =
     db_call (\<lambda>d. if find_order oid (orders d) = None then (Inl (KeyError oid), d)
       else (Inr (), d\<lparr>orders := map_order oid (\<lambda>x. x\<lparr>or_provider_order_id := Some pid\<rparr>) (orders d)\<rparr>))"

definition orders_list_non_terminal_older_than :: "datetime \<Rightarrow> ('p, order list) app" where
  "orders_list_non_terminal_older_than cutoff =
     db_read (\<lambda>d. filter (\<lambda>x. or_status x \<notin> set terminal_statuses \<and> or_created_at x < cutoff) (orders d))"

definition orders_set_source :: "string \<Rightarrow> string \<Rightarrow> ('p, unit) app" where
  "orders_set_source oid src =
     db_call (\<lambda>d. if find_order oid (orders d) = None then (Inl (KeyError oid), d)
       else if \<not> order_source_ok (Some src) then (Inl DBAPIError, d)
       else (Inr (), d\<lparr>orders := map_order oid (\<lambda>x. x\<lparr>or_source := Some src\<rparr>) (orders d)\<rparr>))"

definition orders_count_and_sum_captured :: "bool \<Rightarrow> ('p, int \<times> int) app" where
  "orders_count_and_sum_captured organic_only =
     db_read (\<lambda>d.
       let rows = filter (\<lambda>x. or_status x = ''CAPTURED'' \<and> (organic_only \<longrightarrow> or_source x = None)) (orders d)
       in (int (length rows), sum_list (map or_amount_minor rows)))"

definition payments_get_by_provider_order_id :: "string \<Rightarrow> ('p, order option) app" where
  "payments_get_by_provider_order_id pid =
     db_call (\<lambda>d. case filter (\<lambda>x. or_provider_order_id x = Some pid) (orders d) of
       [] \<Rightarrow> (Inr None, d) | [x] \<Rightarrow> (Inr (Some x), d)
     | _ \<Rightarrow> (Inl (RuntimeError ''Multiple rows were found when one or none was required''), d))"

definition payments_transition_status ::
  "string \<Rightarrow> string \<Rightarrow> string option \<Rightarrow> string option \<Rightarrow> ('p, unit) app" where
  "payments_transition_status oid status payment_id decline_reason =
     db_call (\<lambda>d. if find_order oid (orders d) = None then (Inl (KeyError oid), d)
       else (Inr (), d\<lparr>orders := map_order oid (\<lambda>x. x\<lparr>
               or_status := status,
               or_provider_payment_id := (if payment_id \<noteq> None then payment_id else or_provider_payment_id x),
               or_decline_reason := (if decline_reason \<noteq> None then decline_reason else or_decline_reason x)\<rparr>)
             (orders d)\<rparr>))"

subsection \<open>ledger\_entries.py\<close>

definition ledger_add :: "ledger_entry \<Rightarrow> ('p, unit) app" where
  "ledger_add e =
     db_insert (\<lambda>d. ledger_row_ok e) (\<lambda>d. d\<lparr>ledger_entries := ledger_entries d @ [e]\<rparr>)"

definition ledger_list_for_account :: "string \<Rightarrow> ('p, ledger_entry list) app" where
  "ledger_list_for_account acct = db_read (\<lambda>d. filter (\<lambda>e. le_account e = acct) (ledger_entries d))"

definition ledger_list_for_ref_id :: "string \<Rightarrow> ('p, ledger_entry list) app" where
  "ledger_list_for_ref_id ref = db_read (\<lambda>d. filter (\<lambda>e. le_ref_id e = ref) (ledger_entries d))"

definition ledger_list_reservations_older_than :: "datetime \<Rightarrow> ('p, string list) app" where
  "ledger_list_reservations_older_than cutoff =
     db_read (\<lambda>d. remdups (map le_ref_id
       (filter (\<lambda>e. le_ref_type e = ''reservation'' \<and> le_created_at e < cutoff) (ledger_entries d))))"

subsection \<open>audit\_log.py and audit\_checkpoints.py\<close>

definition audit_acquire_chain_lock :: "string \<Rightarrow> ('p, unit) app" where
  "audit_acquire_chain_lock chain_id = db_write (\<lambda>d. d)"

text \<open>\<open>ORDER BY seq DESC LIMIT 1\<close>: the row with the largest seq.\<close>

fun max_seq_row :: "audit_row list \<Rightarrow> audit_row option" where
  "max_seq_row [] = None"
| "max_seq_row (r # rs) =
     (case max_seq_row rs of None \<Rightarrow> Some r | Some m \<Rightarrow> if al_seq r > al_seq m then Some r else Some m)"

definition audit_get_tail :: "('p, (int \<times> string) option) app" where
  "audit_get_tail = db_read (\<lambda>d. map_option (\<lambda>r. (al_seq r, al_entry_hash r)) (max_seq_row (audit_log d)))"

definition audit_add_at_seq :: "int \<Rightarrow> audit_row \<Rightarrow> ('p, unit) app" where
  "audit_add_at_seq seq r =
     (let row = r\<lparr>al_seq := seq\<rparr> in
      db_insert (\<lambda>d. audit_row_ok d row) (\<lambda>d. d\<lparr>audit_log := audit_log d @ [row]\<rparr>))"

definition audit_list_range :: "int \<Rightarrow> int \<Rightarrow> ('p, audit_row list) app" where
  "audit_list_range lo hi =
     db_read (\<lambda>d. sort_key al_seq (filter (\<lambda>r. lo \<le> al_seq r \<and> al_seq r \<le> hi) (audit_log d)))"

definition audit_get_by_seq :: "int \<Rightarrow> ('p, audit_row option) app" where
  "audit_get_by_seq seq = db_read (\<lambda>d. find (\<lambda>r. al_seq r = seq) (audit_log d))"

definition audit_get_by_trace_id :: "string \<Rightarrow> ('p, audit_row list) app" where
  "audit_get_by_trace_id t = db_read (\<lambda>d. sort_key al_seq (filter (\<lambda>r. al_trace_id r = t) (audit_log d)))"

definition audit_update_narration :: "int \<Rightarrow> string \<Rightarrow> ('p, unit) app" where
  "audit_update_narration seq narration =
     db_write (\<lambda>d. d\<lparr>audit_log :=
       map (\<lambda>r. if al_seq r = seq then r\<lparr>al_narration := Some narration\<rparr> else r) (audit_log d)\<rparr>)"

definition new_checkpoint :: "int \<Rightarrow> int \<Rightarrow> string \<Rightarrow> string option \<Rightarrow> audit_checkpoint" where
  "new_checkpoint from_seq to_seq root anchor_tx =
     \<lparr>ac_from_seq = from_seq, ac_to_seq = to_seq, ac_merkle_root = root, ac_anchor_tx = anchor_tx,
      ac_anchor_status = ''unanchored'', ac_anchor_chain_id = None, ac_anchor_contract_address = None,
      ac_anchor_attempts = 0, ac_anchor_last_error = None, ac_anchored_at = None\<rparr>"

definition checkpoints_add :: "audit_checkpoint \<Rightarrow> ('p, unit) app" where
  "checkpoints_add c =
     db_write (\<lambda>d. d\<lparr>audit_checkpoints := audit_checkpoints d @
       [new_checkpoint (ac_from_seq c) (ac_to_seq c) (ac_merkle_root c) (ac_anchor_tx c)]\<rparr>)"

definition checkpoints_list_unanchored :: "('p, audit_checkpoint list) app" where
  "checkpoints_list_unanchored =
     db_read (\<lambda>d. sort_key ac_to_seq (filter (\<lambda>c. ac_anchor_status c = ''unanchored'') (audit_checkpoints d)))"

definition checkpoints_update :: "int \<Rightarrow> (audit_checkpoint \<Rightarrow> audit_checkpoint) \<Rightarrow> ('p, unit) app" where
  "checkpoints_update to_seq f =
     db_call (\<lambda>d. if list_all (\<lambda>c. ac_to_seq c \<noteq> to_seq) (audit_checkpoints d)
       then (Inl (ValueError ''no checkpoint with to_seq''), d)
       else (Inr (), d\<lparr>audit_checkpoints :=
               map (\<lambda>c. if ac_to_seq c = to_seq then f c else c) (audit_checkpoints d)\<rparr>))"

definition checkpoints_mark_anchored :: "int \<Rightarrow> string option \<Rightarrow> int \<Rightarrow> string \<Rightarrow> datetime \<Rightarrow> ('p, unit) app" where
  "checkpoints_mark_anchored to_seq tx_hash chain_id contract_address at =
     checkpoints_update to_seq (\<lambda>c. c\<lparr>ac_anchor_status := ''anchored'', ac_anchor_tx := tx_hash,
       ac_anchor_chain_id := Some chain_id, ac_anchor_contract_address := Some contract_address,
       ac_anchored_at := Some at, ac_anchor_last_error := None\<rparr>)"

definition checkpoints_mark_conflict :: "int \<Rightarrow> string \<Rightarrow> ('p, unit) app" where
  "checkpoints_mark_conflict to_seq err =
     checkpoints_update to_seq (\<lambda>c. c\<lparr>ac_anchor_status := ''conflict'', ac_anchor_last_error := Some err\<rparr>)"

definition checkpoints_record_attempt_failure :: "int \<Rightarrow> string \<Rightarrow> ('p, unit) app" where
  "checkpoints_record_attempt_failure to_seq err =
     checkpoints_update to_seq
       (\<lambda>c. c\<lparr>ac_anchor_attempts := ac_anchor_attempts c + 1, ac_anchor_last_error := Some err\<rparr>)"

definition checkpoints_get_by_to_seq :: "int \<Rightarrow> ('p, audit_checkpoint option) app" where
  "checkpoints_get_by_to_seq to_seq = db_read (\<lambda>d. find (\<lambda>c. ac_to_seq c = to_seq) (audit_checkpoints d))"

definition checkpoints_list_all :: "('p, audit_checkpoint list) app" where
  "checkpoints_list_all = db_read (\<lambda>d. sort_key ac_to_seq (audit_checkpoints d))"

subsection \<open>idempotency\_keys.py\<close>

definition idempotency_get :: "string \<Rightarrow> ('p, idempotency_key option) app" where
  "idempotency_get key = db_read (\<lambda>d. idempotency_keys d key)"

definition idempotency_claim :: "idempotency_key \<Rightarrow> ('p, bool) app" where
  "idempotency_claim r =
     db_call (\<lambda>d. case idempotency_keys d (ik_key r) of
       Some old \<Rightarrow> (Inr False, d)
     | None \<Rightarrow> if ik_state r \<notin> set idempotency_states then (Inl DBAPIError, d)
         else (Inr True, d\<lparr>idempotency_keys := (idempotency_keys d)(ik_key r \<mapsto> r)\<rparr>))"

definition idempotency_complete :: "string \<Rightarrow> string \<Rightarrow> json \<Rightarrow> ('p, unit) app" where
  "idempotency_complete key state response =
     db_call (\<lambda>d. case idempotency_keys d key of
       None \<Rightarrow> (Inl (KeyError key), d)
     | Some r \<Rightarrow>
         if state \<in> set idempotency_states then
           (Inr (), d\<lparr>idempotency_keys :=
             (idempotency_keys d)(key \<mapsto> r\<lparr>ik_state := state, ik_response := Some response\<rparr>)\<rparr>)
         else (Inl DBAPIError, d))"

subsection \<open>sagas.py\<close>

definition sagas_add :: "saga \<Rightarrow> ('p, unit) app" where
  "sagas_add s =
     db_insert (\<lambda>d. sagas d (sg_id s) = None \<and> saga_row_ok d s) (\<lambda>d. d\<lparr>sagas := (sagas d)(sg_id s \<mapsto> s)\<rparr>)"

definition sagas_get :: "string \<Rightarrow> ('p, saga option) app" where
  "sagas_get sid = db_read (\<lambda>d. sagas d sid)"

definition sagas_update_row :: "string \<Rightarrow> string \<Rightarrow> string \<Rightarrow> string option \<Rightarrow> ('p, unit) app" where
  "sagas_update_row sid step status order_id =
     db_call (\<lambda>d. case sagas d sid of
       None \<Rightarrow> (Inl (KeyError sid), d)
     | Some s \<Rightarrow>
         let s' = s\<lparr>sg_step := step, sg_status := status,
                    sg_order_id := (if order_id \<noteq> None then order_id else sg_order_id s)\<rparr> in
         if saga_row_ok d s' then (Inr (), d\<lparr>sagas := (sagas d)(sid \<mapsto> s')\<rparr>) else (Inl DBAPIError, d))"

subsection \<open>webhook\_events.py\<close>

definition webhooks_claim :: "webhook_event \<Rightarrow> ('p, bool) app" where
  "webhooks_claim e =
     db_call (\<lambda>d. if list_ex (\<lambda>x. we_provider_event_id x = we_provider_event_id e) (webhook_events d)
       then (Inr False, d)
       else (Inr True, d\<lparr>webhook_events := webhook_events d @ [e\<lparr>we_processed_at := None\<rparr>]\<rparr>))"

definition webhooks_list_unprocessed :: "('p, webhook_event list) app" where
  "webhooks_list_unprocessed =
     db_read (\<lambda>d. filter (\<lambda>e. we_processed_at e = None \<and> we_signature_valid e) (webhook_events d))"

definition webhooks_mark_processed :: "string \<Rightarrow> datetime \<Rightarrow> ('p, unit) app" where
  "webhooks_mark_processed eid now =
     db_call (\<lambda>d. if \<not> list_ex (\<lambda>x. we_provider_event_id x = eid) (webhook_events d) then (Inl (KeyError eid), d)
       else (Inr (), d\<lparr>webhook_events := map (\<lambda>x. if we_provider_event_id x = eid
               then x\<lparr>we_processed_at := Some now\<rparr> else x) (webhook_events d)\<rparr>))"

subsection \<open>agent\_identities.py\<close>

definition identities_get_by_key_id :: "string \<Rightarrow> ('p, agent_identity option) app" where
  "identities_get_by_key_id key_id = db_read (\<lambda>d. find (\<lambda>i. ai_key_id i = key_id) (agent_identities d))"

definition identities_add :: "agent_identity \<Rightarrow> ('p, unit) app" where
  "identities_add i =
     db_insert (\<lambda>d. identity_row_ok d i) (\<lambda>d. d\<lparr>agent_identities := agent_identities d @ [i]\<rparr>)"

definition identities_revoke :: "string \<Rightarrow> datetime \<Rightarrow> ('p, unit) app" where
  "identities_revoke agent_id at =
     db_call (\<lambda>d. if list_all (\<lambda>i. ai_agent_id i \<noteq> agent_id) (agent_identities d) then (Inl (KeyError agent_id), d)
       else (Inr (), d\<lparr>agent_identities := map (\<lambda>i. if ai_agent_id i = agent_id
               then i\<lparr>ai_status := ''REVOKED'', ai_revoked_at := Some at\<rparr> else i) (agent_identities d)\<rparr>))"

subsection \<open>outbox.py and addon\_purchases.py\<close>

definition outbox_add :: "outbox_event \<Rightarrow> ('p, unit) app" where
  "outbox_add e = db_write (\<lambda>d. d\<lparr>outbox := outbox d @ [e\<lparr>ob_published_at := None\<rparr>]\<rparr>)"

definition outbox_list_unpublished :: "('p, outbox_event list) app" where
  "outbox_list_unpublished = db_read (\<lambda>d. filter (\<lambda>e. ob_published_at e = None) (outbox d))"

definition is_addon :: "string \<Rightarrow> string \<Rightarrow> addon_purchase \<Rightarrow> bool" where
  "is_addon oid sku x \<longleftrightarrow> ap_base_order_id x = oid \<and> ap_offer_sku x = sku"

definition addon_record_offered :: "string \<Rightarrow> string \<Rightarrow> string \<Rightarrow> int \<Rightarrow> string \<Rightarrow> ('p, unit) app" where
  "addon_record_offered aid oid sku price currency =
     db_call (\<lambda>d.
       let row = \<lparr>ap_id = aid, ap_base_order_id = oid, ap_offer_sku = sku, ap_status = ''offered'',
                  ap_addon_mandate_id = None, ap_addon_order_id = None, ap_price_minor = price, ap_currency = currency\<rparr> in
       if \<not> addon_row_ok d row then (Inl DBAPIError, d)
       else if list_ex (is_addon oid sku) (addon_purchases d) then (Inr (), d)
       else (Inr (), d\<lparr>addon_purchases := addon_purchases d @ [row]\<rparr>))"

definition addon_get :: "string \<Rightarrow> string \<Rightarrow> ('p, addon_purchase option) app" where
  "addon_get oid sku = db_read (\<lambda>d. find (is_addon oid sku) (addon_purchases d))"

definition addon_try_mark_pending ::
  "string \<Rightarrow> string \<Rightarrow> string \<Rightarrow> string \<Rightarrow> int \<Rightarrow> string \<Rightarrow> ('p, bool) app" where
  "addon_try_mark_pending aid oid sku mandate price currency =
     db_call (\<lambda>d.
       let row = \<lparr>ap_id = aid, ap_base_order_id = oid, ap_offer_sku = sku, ap_status = ''pending'',
                  ap_addon_mandate_id = Some mandate, ap_addon_order_id = None, ap_price_minor = price,
                  ap_currency = currency\<rparr> in
       if \<not> addon_row_ok d row then (Inl DBAPIError, d)
       else if \<not> list_ex (is_addon oid sku) (addon_purchases d) then
         (Inr True, d\<lparr>addon_purchases := addon_purchases d @ [row]\<rparr>)
       else if list_ex (\<lambda>x. is_addon oid sku x \<and> ap_status x = ''offered'') (addon_purchases d) then
         (Inr True, d\<lparr>addon_purchases := map (\<lambda>x. if is_addon oid sku x \<and> ap_status x = ''offered''
            then x\<lparr>ap_status := ''pending'', ap_addon_mandate_id := Some mandate\<rparr> else x) (addon_purchases d)\<rparr>)
       else (Inr False, d))"

definition addon_mark_settled :: "string \<Rightarrow> string \<Rightarrow> string \<Rightarrow> ('p, unit) app" where
  "addon_mark_settled oid sku addon_order =
     db_call (\<lambda>d.
       if list_ex (is_addon oid sku) (addon_purchases d) \<and> find_order addon_order (orders d) = None then (Inl DBAPIError, d)
       else (Inr (), d\<lparr>addon_purchases := map (\<lambda>x. if is_addon oid sku x
               then x\<lparr>ap_status := ''settled'', ap_addon_order_id := Some addon_order\<rparr> else x) (addon_purchases d)\<rparr>))"

definition addon_mark_failed :: "string \<Rightarrow> string \<Rightarrow> ('p, unit) app" where
  "addon_mark_failed oid sku =
     db_write (\<lambda>d. d\<lparr>addon_purchases := map (\<lambda>x. if is_addon oid sku x
       then x\<lparr>ap_status := ''failed''\<rparr> else x) (addon_purchases d)\<rparr>)"

definition addon_decline_all_offered :: "string \<Rightarrow> ('p, unit) app" where
  "addon_decline_all_offered oid =
     db_write (\<lambda>d. d\<lparr>addon_purchases := map (\<lambda>x. if ap_base_order_id x = oid \<and> ap_status x = ''offered''
       then x\<lparr>ap_status := ''declined''\<rparr> else x) (addon_purchases d)\<rparr>)"

definition addon_list_for_base_order :: "string \<Rightarrow> ('p, addon_purchase list) app" where
  "addon_list_for_base_order oid = db_read (\<lambda>d. filter (\<lambda>x. ap_base_order_id x = oid) (addon_purchases d))"

subsection \<open>integrity.py\<close>

definition integrity_get_state :: "('p, integrity_halt) app" where
  "integrity_get_state =
     db_call (\<lambda>d. case halt_row d of
       None \<Rightarrow> (Inl (RuntimeError ''integrity_halt has no default row''), d)
     | Some h \<Rightarrow> (Inr h, d))"

definition integrity_trip :: "string \<Rightarrow> int option \<Rightarrow> datetime \<Rightarrow> ('p, unit) app" where
  "integrity_trip reason tripped_seq now =
     db_write (\<lambda>d. case halt_row d of
       None \<Rightarrow> d
     | Some h \<Rightarrow> if ih_halted h then d
         else d\<lparr>halt_row := Some \<lparr>ih_halted = True, ih_reason = Some reason, ih_tripped_at = Some now,
                ih_tripped_seq = tripped_seq\<rparr>\<rparr>)"

section \<open>integrity.py (application)\<close>

definition raise_if_halted :: "('p, unit) app" where
  "raise_if_halted =
     bind integrity_get_state (\<lambda>st.
       if ih_halted st then raise (IntegrityHalted (case ih_reason st of None \<Rightarrow> ''unknown'' | Some r \<Rightarrow> if r = [] then ''unknown'' else r))
       else return ())"

lemma local_repositories [local_rules]:
  "local (mandates_add a1 b1)"
  "local (mandates_get a2)"
  "local (mandates_get_for_update a3)"
  "local (mandates_update_status a4 b4)"
  "local (decisions_add a5)"
  "local (decisions_get a6)"
  "local (quotes_add a7)"
  "local (quotes_get a8)"
  "local (catalog_get_item a9)"
  "local (catalog_current_version)"
  "local (catalog_mutate_price a11 b11)"
  "local (orders_add a12)"
  "local (orders_get a13)"
  "local (orders_get_by_idempotency_key a14)"
  "local (orders_set_provider_order_id a15 b15)"
  "local (orders_list_non_terminal_older_than a16)"
  "local (payments_get_by_provider_order_id a17)"
  "local (payments_transition_status a18 b18 c18 d18)"
  "local (ledger_add a19)"
  "local (ledger_list_for_account a20)"
  "local (ledger_list_for_ref_id a21)"
  "local (ledger_list_reservations_older_than a22)"
  "local (audit_acquire_chain_lock a23)"
  "local (audit_get_tail)"
  "local (audit_add_at_seq a25 b25)"
  "local (audit_list_range a26 b26)"
  "local (audit_get_by_seq a27)"
  "local (checkpoints_add a28)"
  "local (checkpoints_get_by_to_seq a29)"
  "local (checkpoints_list_all)"
  "local (idempotency_get a31)"
  "local (idempotency_claim a32)"
  "local (idempotency_complete a33 b33 c33)"
  "local (sagas_add a34)"
  "local (sagas_get a35)"
  "local (sagas_update_row a36 b36 c36 d36)"
  "local (webhooks_claim a37)"
  "local (webhooks_list_unprocessed)"
  "local (webhooks_mark_processed a39 b39)"
  "local (identities_get_by_key_id a40)"
  "local (integrity_get_state)"
  "local (integrity_trip a42 b42 c42)"
  "local (raise_if_halted)"
  "local (catalog_upsert_item x1)"
  "local (orders_set_source x2 y2)"
  "local (orders_count_and_sum_captured x3)"
  "local (audit_get_by_trace_id x4)"
  "local (audit_update_narration x5 y5)"
  "local (checkpoints_list_unanchored)"
  "local (checkpoints_mark_anchored x6 y6 z6 u6 v6)"
  "local (checkpoints_mark_conflict x7 y7)"
  "local (checkpoints_record_attempt_failure x8 y8)"
  "local (identities_add x9)"
  "local (identities_revoke x10 y10)"
  "local (outbox_add x11)"
  "local (outbox_list_unpublished)"
  "local (addon_record_offered x12 y12 z12 u12 v12)"
  "local (addon_get x13 y13)"
  "local (addon_try_mark_pending x14 y14 z14 u14 v14 t14)"
  "local (addon_mark_settled x15 y15 z15)"
  "local (addon_mark_failed x16 y16)"
  "local (addon_decline_all_offered x17)"
  "local (addon_list_for_base_order x18)"
  unfolding mandates_add_def mandates_get_def mandates_get_for_update_def mandates_update_status_def
    decisions_add_def decisions_get_def quotes_add_def quotes_get_def
    catalog_get_item_def catalog_current_version_def catalog_mutate_price_def orders_add_def
    orders_get_def orders_get_by_idempotency_key_def orders_set_provider_order_id_def orders_list_non_terminal_older_than_def
    payments_get_by_provider_order_id_def payments_transition_status_def ledger_add_def ledger_list_for_account_def
    ledger_list_for_ref_id_def ledger_list_reservations_older_than_def audit_acquire_chain_lock_def audit_get_tail_def
    audit_add_at_seq_def audit_list_range_def audit_get_by_seq_def checkpoints_add_def
    checkpoints_get_by_to_seq_def checkpoints_list_all_def idempotency_get_def idempotency_claim_def
    idempotency_complete_def sagas_add_def sagas_get_def sagas_update_row_def
    webhooks_claim_def webhooks_list_unprocessed_def webhooks_mark_processed_def identities_get_by_key_id_def
    integrity_get_state_def integrity_trip_def raise_if_halted_def
    catalog_upsert_item_def orders_set_source_def orders_count_and_sum_captured_def
    audit_get_by_trace_id_def audit_update_narration_def checkpoints_list_unanchored_def
    checkpoints_mark_anchored_def checkpoints_mark_conflict_def checkpoints_record_attempt_failure_def
    identities_add_def identities_revoke_def outbox_add_def
    outbox_list_unpublished_def addon_record_offered_def addon_get_def
    addon_try_mark_pending_def addon_mark_settled_def addon_mark_failed_def
    addon_decline_all_offered_def addon_list_for_base_order_def checkpoints_update_def Let_def
  by (auto intro!: local_rules)

section \<open>A quiet world\<close>

text \<open>
  Nothing fails, nobody else commits, the clock advances by a second with every reading: the world
  the examples run in.
\<close>

definition empty_db :: db where
  "empty_db =
     \<lparr>mandates = Map.empty, decisions = Map.empty, quotes = Map.empty, catalog_meta = Some 1, catalog_items = [],
      orders = [], ledger_entries = [], audit_log = [], audit_checkpoints = [], idempotency_keys = Map.empty,
      sagas = Map.empty, webhook_events = [], agent_identities = [], addon_purchases = [], outbox = [],
      halt_row = Some \<lparr>ih_halted = False, ih_reason = None, ih_tripped_at = None, ih_tripped_seq = None\<rparr>\<rparr>"

lemma empty_db_simps [simp]:
  "mandates empty_db = Map.empty" "orders empty_db = []" "ledger_entries empty_db = []" "audit_log empty_db = []"
  "audit_checkpoints empty_db = []" "idempotency_keys empty_db = Map.empty" "catalog_meta empty_db = Some 1"
  "decisions empty_db = Map.empty" "quotes empty_db = Map.empty" "sagas empty_db = Map.empty"
  "webhook_events empty_db = []"
  "halt_row empty_db = Some \<lparr>ih_halted = False, ih_reason = None, ih_tripped_at = None, ih_tripped_seq = None\<rparr>"
  by (simp_all add: empty_db_def)

definition quiet_world :: "datetime \<Rightarrow> 'p \<Rightarrow> db \<Rightarrow> 'p world" where
  "quiet_world start p d =
     \<lparr>session = d, durable = d, clock = (\<lambda>n. start + timedelta_s (int n)), clock_reads = 0,
      ulids = (\<lambda>n. show_int (int n)), ids_minted = 0, faults = (\<lambda>n. False), statements = 0,
      others = (\<lambda>n d. d), transactions = 0, circuit = new_breaker ''razorpay'' 5 (timedelta_s 30), provider = p,
      provider_calls = [], config = default_settings, json_datetime = show_int\<rparr>"

lemma quiet_world_simps [simp]:
  "session (quiet_world t p d) = d" "durable (quiet_world t p d) = d" "faults (quiet_world t p d) n = False"
  "others (quiet_world t p d) n = (\<lambda>d. d)" "provider (quiet_world t p d) = p"
  "provider_calls (quiet_world t p d) = []" "statements (quiet_world t p d) = 0"
  "transactions (quiet_world t p d) = 0"
  "circuit (quiet_world t p d) = new_breaker ''razorpay'' 5 (timedelta_s 30)"
  "config (quiet_world t p d) = default_settings" "json_datetime (quiet_world t p d) = show_int"
  "(quiet_world t p d)\<lparr>session := d\<rparr> = quiet_world t p d"
  by (simp_all add: quiet_world_def)

end
