(* ===== verification/Audit_Service.thy ===== *)
theory Audit_Service
  imports Db
begin

text \<open>
  The append service and the verifier (\<open>application/audit_service.py\<close>, the action registry of
  \<open>domain/audit/events.py\<close>). \<open>chain_from\<close> says what a valid chain of rows is; appending
  keeps it, and \<open>verify_chain\<close> decides it.
\<close>

section \<open>events.py and the settings\<close>

datatype audit_action =
    MANDATE_LOCKED | MANDATE_REVOKED_EVENT | CATALOG_QUERIED | CATALOG_PRICE_MUTATED | QUOTE_ISSUED
  | ORDER_PROPOSED | POLICY_DECISION | BUDGET_RESERVED | PAYMENT_INTENT | PAYMENT_RESULT
  | WEBHOOK_RECEIVED | COMPENSATION_APPLIED | SETTLEMENT_CLOSED | RESERVATION_RELEASED
  | RESERVATION_EXPIRED | MANDATE_EXECUTING

fun action_value :: "audit_action \<Rightarrow> string" where
  "action_value MANDATE_LOCKED = ''mandate.locked''"
| "action_value MANDATE_REVOKED_EVENT = ''mandate.revoked''"
| "action_value CATALOG_QUERIED = ''catalog.queried''"
| "action_value CATALOG_PRICE_MUTATED = ''catalog.price_mutated''"
| "action_value QUOTE_ISSUED = ''quote.issued''"
| "action_value ORDER_PROPOSED = ''order.proposed''"
| "action_value POLICY_DECISION = ''policy.decision''"
| "action_value BUDGET_RESERVED = ''budget.reserved''"
| "action_value PAYMENT_INTENT = ''payment.intent''"
| "action_value PAYMENT_RESULT = ''payment.result''"
| "action_value WEBHOOK_RECEIVED = ''webhook.received''"
| "action_value COMPENSATION_APPLIED = ''compensation.applied''"
| "action_value SETTLEMENT_CLOSED = ''settlement.closed''"
| "action_value RESERVATION_RELEASED = ''reservation.released''"
| "action_value RESERVATION_EXPIRED = ''reservation.expired''"
| "action_value MANDATE_EXECUTING = ''mandate.executing''"

definition audit_checkpoint_every :: nat where
  "audit_checkpoint_every = 64"

definition default_chain_id :: string where
  "default_chain_id = ''actl.audit_log''"

section \<open>Appending\<close>

text \<open>\<open>anchor\<close> is the \<open>Anchor\<close> port, or \<open>None\<close>.\<close>

definition write_checkpoint :: "(string \<Rightarrow> ('p, string option) app) option \<Rightarrow> int \<Rightarrow> ('p, unit) app" where
  "write_checkpoint anchor to_seq =
     bind (checkpoints_get_by_to_seq to_seq) (\<lambda>existing.
     if existing \<noteq> None then return ()
     else
       let from_seq = to_seq - int audit_checkpoint_every + 1 in
       bind (audit_list_range from_seq to_seq) (\<lambda>entries.
       if length entries \<noteq> audit_checkpoint_every
       then raise (RuntimeError ''checkpoint segment has the wrong number of entries'')
       else
         bind (lift_result (rseq (map (\<lambda>e. parse_hex_prefixed (al_entry_hash e)) entries))) (\<lambda>leaf_hashes.
         bind (lift_result (merkle_root leaf_hashes)) (\<lambda>root.
         let root_hex = hex_prefixed root in
         bind (case anchor of None \<Rightarrow> return None | Some anchor_root \<Rightarrow> anchor_root root_hex) (\<lambda>anchor_tx.
         checkpoints_add (new_checkpoint from_seq to_seq root_hex anchor_tx))))))"

definition checkpoint_if_due :: "(string \<Rightarrow> ('p, string option) app) option \<Rightarrow> int \<Rightarrow> ('p, unit) app" where
  "checkpoint_if_due anchor seq =
     (if seq mod int audit_checkpoint_every = 0 then write_checkpoint anchor seq else return ())"

text \<open>The seq and the \<open>prev_hash\<close> of the next entry, from the tail of the chain.\<close>

definition next_link :: "(int \<times> string) option \<Rightarrow> ('p, int \<times> bytes) app" where
  "next_link tail =
     (case tail of
        None \<Rightarrow> return (1, genesis_prev_hash)
      | Some (prev_seq, prev_hex) \<Rightarrow>
          bind (lift_result (parse_hex_prefixed prev_hex)) (\<lambda>prev. return (prev_seq + 1, prev)))"

definition append_entry_with ::
  "(string \<Rightarrow> ('p, string option) app) option \<Rightarrow> string \<Rightarrow> string \<Rightarrow> string \<Rightarrow> audit_action \<Rightarrow> json \<Rightarrow> json \<Rightarrow>
   ('p, audit_row) app" where
  "append_entry_with anchor trace_id actor_type actor_id action subject payload =
     bind (audit_acquire_chain_lock default_chain_id) (\<lambda>_.
     bind audit_get_tail (\<lambda>tail.
     bind (next_link tail) (\<lambda>(seq, prev_hash).
     bind (lift_result (compute_entry_hash prev_hash payload)) (\<lambda>entry_hash.
     bind (lift_result (payload_hash payload)) (\<lambda>ph.
     let r = \<lparr>al_seq = seq, al_trace_id = trace_id, al_actor_type = actor_type, al_actor_id = actor_id,
              al_action = action_value action, al_subject = subject, al_payload = payload,
              al_payload_hash = hex_prefixed ph, al_prev_hash = hex_prefixed prev_hash,
              al_entry_hash = hex_prefixed entry_hash, al_narration = None\<rparr> in
     bind (audit_add_at_seq seq r) (\<lambda>_.
     bind (checkpoint_if_due anchor seq) (\<lambda>_.
     return r)))))))"

text \<open>Every caller in the application leaves the anchor out.\<close>

definition append_entry ::
  "string \<Rightarrow> string \<Rightarrow> string \<Rightarrow> audit_action \<Rightarrow> json \<Rightarrow> json \<Rightarrow> ('p, audit_row) app" where
  "append_entry trace_id actor_type actor_id action subject payload =
     append_entry_with None trace_id actor_type actor_id action subject payload"

section \<open>Verifying\<close>

record chain_break =
  cb_seq :: int
  cb_expected_entry_hash :: string
  cb_computed_entry_hash :: string
  cb_reason :: string

record chain_verification =
  cv_ok :: bool
  cv_from_seq :: int
  cv_to_seq :: int
  cv_entries_verified :: nat
  cv_checkpoints_matched :: "int list"
  cv_head_entry_hash :: "string option"
  cv_break :: "chain_break option"

definition chain_failure :: "int \<Rightarrow> int \<Rightarrow> nat \<Rightarrow> int list \<Rightarrow> int \<Rightarrow> string \<Rightarrow> string \<Rightarrow> string \<Rightarrow> chain_verification" where
  "chain_failure from_seq to_seq verified matched seq expected computed reason =
     \<lparr>cv_ok = False, cv_from_seq = from_seq, cv_to_seq = to_seq, cv_entries_verified = verified,
      cv_checkpoints_matched = matched, cv_head_entry_hash = None,
      cv_break = Some \<lparr>cb_seq = seq, cb_expected_entry_hash = expected, cb_computed_entry_hash = computed,
                       cb_reason = reason\<rparr>\<rparr>"

text \<open>The body of the \<open>for entry in entries\<close> loop up to the checkpoint check, and that check.\<close>

definition check_checkpoint ::
  "(int \<Rightarrow> audit_checkpoint option) \<Rightarrow> int \<Rightarrow> int \<Rightarrow> bytes list \<Rightarrow> (string \<times> string) option result" where
  "check_checkpoint cps from_seq seq segment_hashes =
     (if seq mod int audit_checkpoint_every = 0 \<and> seq - int audit_checkpoint_every + 1 \<ge> from_seq then
        (case cps seq of
           None \<Rightarrow> Inr None
         | Some c \<Rightarrow>
             rbind (merkle_root (drop (length segment_hashes - audit_checkpoint_every) segment_hashes)) (\<lambda>root.
               Inr (Some (ac_merkle_root c, hex_prefixed root))))
      else Inr None)"

fun verify_entries ::
  "(int \<Rightarrow> audit_checkpoint option) \<Rightarrow> int \<Rightarrow> int \<Rightarrow> audit_row list \<Rightarrow> bytes \<Rightarrow> int \<Rightarrow> nat \<Rightarrow> int list \<Rightarrow>
   bytes list \<Rightarrow> bool \<Rightarrow> chain_verification result" where
  "verify_entries cps from_seq to_seq [] prev expected_seq verified matched segment any =
     Inr \<lparr>cv_ok = True, cv_from_seq = from_seq, cv_to_seq = to_seq, cv_entries_verified = verified,
          cv_checkpoints_matched = matched,
          cv_head_entry_hash = (if any then Some (hex_prefixed prev) else None), cv_break = None\<rparr>"
| "verify_entries cps from_seq to_seq (entry # entries) prev expected_seq verified matched segment any =
     (if al_seq entry \<noteq> expected_seq then
        Inr (chain_failure from_seq to_seq verified matched expected_seq ''<row present>'' ''<row missing>''
          (''sequence gap: expected seq='' @ show_int expected_seq @ '', found seq='' @ show_int (al_seq entry)))
      else
        rbind (compute_entry_hash prev (al_payload entry)) (\<lambda>recomputed.
        if al_prev_hash entry \<noteq> hex_prefixed prev \<or> al_entry_hash entry \<noteq> hex_prefixed recomputed then
          Inr (chain_failure from_seq to_seq verified matched (al_seq entry) (al_entry_hash entry)
            (hex_prefixed recomputed) ''payload hash does not match the recorded entry_hash'')
        else
          let segment' = segment @ [recomputed] in
          rbind (check_checkpoint cps from_seq (al_seq entry) segment') (\<lambda>cp.
          case cp of
            Some (stored, root) \<Rightarrow>
              if root \<noteq> stored then
                Inr (chain_failure from_seq to_seq (verified + 1) matched (al_seq entry) stored root
                  (''merkle root mismatch for checkpoint ending at seq='' @ show_int (al_seq entry)))
              else verify_entries cps from_seq to_seq entries recomputed (expected_seq + 1) (verified + 1)
                     (matched @ [al_seq entry]) segment' True
          | None \<Rightarrow> verify_entries cps from_seq to_seq entries recomputed (expected_seq + 1) (verified + 1)
                     matched segment' True)))"

definition checkpoints_by_to_seq :: "audit_checkpoint list \<Rightarrow> int \<Rightarrow> audit_checkpoint option" where
  "checkpoints_by_to_seq cps = map_of (rev (map (\<lambda>c. (ac_to_seq c, c)) cps))"

definition verify_chain :: "int \<Rightarrow> int \<Rightarrow> ('p, chain_verification) app" where
  "verify_chain from_seq to_seq =
     bind (audit_list_range from_seq to_seq) (\<lambda>entries.
     bind checkpoints_list_all (\<lambda>cps.
     let by_to = checkpoints_by_to_seq cps in
     if from_seq = 1 then
       lift_result (verify_entries by_to from_seq to_seq entries genesis_prev_hash from_seq 0 [] [] False)
     else
       bind (audit_get_by_seq (from_seq - 1)) (\<lambda>prior.
       case prior of
         None \<Rightarrow> return (chain_failure from_seq to_seq 0 [] (from_seq - 1) ''<a preceding entry>'' ''<not found>''
           (''cannot verify from seq='' @ show_int from_seq @ '': seq='' @ show_int (from_seq - 1) @ '' is missing''))
       | Some r \<Rightarrow>
           bind (lift_result (parse_hex_prefixed (al_entry_hash r))) (\<lambda>prev.
             lift_result (verify_entries by_to from_seq to_seq entries prev from_seq 0 [] [] False)))))"

definition verify_chain_and_halt_on_failure :: "int \<Rightarrow> int \<Rightarrow> ('p, chain_verification) app" where
  "verify_chain_and_halt_on_failure from_seq to_seq =
     bind (verify_chain from_seq to_seq) (\<lambda>result.
     if \<not> cv_ok result then
       bind clock_now (\<lambda>now.
       bind (integrity_trip
               (case cv_break result of Some b \<Rightarrow> cb_reason b | None \<Rightarrow> ''audit chain verification failed'')
               (map_option cb_seq (cv_break result)) now) (\<lambda>_.
       return result))
     else return result)"

section \<open>Valid chains\<close>

fun chain_from :: "int \<Rightarrow> bytes \<Rightarrow> audit_row list \<Rightarrow> bool" where
  "chain_from seq prev [] \<longleftrightarrow> True"
| "chain_from seq prev (r # rs) \<longleftrightarrow>
     al_seq r = seq \<and> al_prev_hash r = hex_prefixed prev \<and>
     (case compute_entry_hash prev (al_payload r) of
        Inl e \<Rightarrow> False
      | Inr h \<Rightarrow> al_entry_hash r = hex_prefixed h \<and> chain_from (seq + 1) h rs)"

fun chain_hashes :: "bytes \<Rightarrow> audit_row list \<Rightarrow> bytes list" where
  "chain_hashes prev [] = []"
| "chain_hashes prev (r # rs) =
     (case compute_entry_hash prev (al_payload r) of Inl e \<Rightarrow> [] | Inr h \<Rightarrow> h # chain_hashes h rs)"

fun last_hash :: "bytes \<Rightarrow> bytes list \<Rightarrow> bytes" where
  "last_hash prev [] = prev"
| "last_hash prev (h # hs) = last_hash h hs"

lemma last_hash_snoc [simp]: "last_hash prev (hs @ [h]) = h"
  by (induction hs arbitrary: prev) simp_all

lemma chain_hashes_length: "chain_from seq prev rs \<Longrightarrow> length (chain_hashes prev rs) = length rs"
  by (induction rs arbitrary: seq prev) (auto split: sum.splits)

lemma chain_hashes_digests: "h \<in> set (chain_hashes prev rs) \<Longrightarrow> length h = 32"
  by (induction rs arbitrary: prev) (auto split: sum.splits dest: compute_entry_hash_length [OF sym])

lemma last_hash_length: "length (last_hash genesis_prev_hash (chain_hashes genesis_prev_hash rs)) = 32"
proof -
  have "length (last_hash p hs) = 32" if "length p = 32" "\<forall>h\<in>set hs. length h = 32" for p hs
    using that by (induction hs arbitrary: p) auto
  then show ?thesis using chain_hashes_digests by auto
qed

lemma chain_from_append:
  "chain_from seq prev (rs @ [r]) \<longleftrightarrow>
     chain_from seq prev rs \<and> chain_from (seq + int (length rs)) (last_hash prev (chain_hashes prev rs)) [r]"
  by (induction rs arbitrary: seq prev) (auto split: sum.splits simp: algebra_simps)

lemma chain_hashes_append:
  "chain_from seq prev rs \<Longrightarrow>
   chain_hashes prev (rs @ [r]) = chain_hashes prev rs @ chain_hashes (last_hash prev (chain_hashes prev rs)) [r]"
  by (induction rs arbitrary: seq prev) (auto split: sum.splits)

lemma chain_from_seqs: "chain_from seq prev rs \<Longrightarrow> map al_seq rs = map (\<lambda>i. seq + int i) [0..<length rs]"
proof (induction rs arbitrary: seq prev)
  case (Cons r rs)
  then obtain h where "chain_from (seq + 1) h rs" "al_seq r = seq" by (auto split: sum.splits)
  then have "map al_seq (r # rs) = seq # map (\<lambda>i. (seq + 1) + int i) [0..<length rs]" using Cons.IH by simp
  also have "\<dots> = map (\<lambda>i. seq + int i) [0..<length (r # rs)]"
    by (simp add: upt_conv_Cons map_Suc_upt [symmetric] comp_def del: upt_Suc)
  finally show ?case .
qed simp

lemma chain_from_seq_in: "chain_from seq prev rs \<Longrightarrow> r \<in> set rs \<Longrightarrow> seq \<le> al_seq r \<and> al_seq r < seq + int (length rs)"
proof -
  assume c: "chain_from seq prev rs" and r: "r \<in> set rs"
  then have "al_seq r \<in> set (map al_seq rs)" by simp
  then show ?thesis unfolding chain_from_seqs [OF c] by auto
qed

lemma chain_from_sorted: "chain_from seq prev rs \<Longrightarrow> sorted (map al_seq rs) \<and> distinct (map al_seq rs)"
  by (simp add: chain_from_seqs distinct_map inj_on_def sorted_iff_nth_mono)

lemma chain_from_entry_hash:
  "chain_from seq prev rs \<Longrightarrow> map al_entry_hash rs = map hex_prefixed (chain_hashes prev rs)"
  by (induction rs arbitrary: seq prev) (auto split: sum.splits)

lemma max_seq_row_chain:
  "chain_from seq prev rs \<Longrightarrow> rs \<noteq> [] \<Longrightarrow> max_seq_row rs = Some (last rs)"
proof (induction rs arbitrary: seq prev)
  case (Cons r rs)
  then obtain h where h: "chain_from (seq + 1) h rs" "al_seq r = seq" by (auto split: sum.splits)
  show ?case
  proof (cases "rs = []")
    case False
    then have "max_seq_row rs = Some (last rs)" using Cons.IH h by blast
    moreover have "seq + 1 \<le> al_seq (last rs)" using chain_from_seq_in [OF h(1)] False by simp
    ultimately show ?thesis using h(2) False by simp
  qed simp
qed simp

text \<open>A list range of a valid chain is the corresponding slice.\<close>

lemma list_range_slice:
  assumes c: "chain_from 1 prev rs" and hi: "hi \<le> length rs" and lo: "lo \<le> hi"
  shows "sort_key al_seq (filter (\<lambda>r. int lo + 1 \<le> al_seq r \<and> al_seq r \<le> int hi) rs) = drop lo (take hi rs)"
proof -
  let ?P = "\<lambda>r. int lo + 1 \<le> al_seq r \<and> al_seq r \<le> int hi"
  have seq: "al_seq (rs ! i) = 1 + int i" if "i < length rs" for i
    using chain_from_seqs [OF c] that by (metis (no_types, lifting) add_0 diff_zero length_map length_upt nth_map nth_upt)
  have len: "lo \<le> length rs" using lo hi by simp
  have "filter ?P (take lo rs) = []"
    using seq len by (auto simp: filter_empty_conv in_set_conv_nth)
  moreover have "filter ?P (drop hi rs) = []"
    using seq by (auto simp: filter_empty_conv in_set_conv_nth)
  moreover have "filter ?P (drop lo (take hi rs)) = drop lo (take hi rs)"
    using seq hi by (auto simp: filter_id_conv in_set_conv_nth)
  moreover have "rs = take lo rs @ drop lo (take hi rs) @ drop hi rs"
    using lo hi by (metis append_assoc append_take_drop_id min.absorb1 take_take)
  ultimately have "filter ?P rs = drop lo (take hi rs)"
    by (metis (no_types, lifting) append.right_neutral append_Nil filter_append)
  moreover have "sorted (map al_seq (drop lo (take hi rs)))"
    using chain_from_sorted [OF c] by (simp add: drop_map [symmetric] take_map [symmetric] sorted_wrt_drop sorted_wrt_take)
  ultimately show ?thesis by (simp add: sort_key_id_if_sorted)
qed

section \<open>Appending keeps the chain valid\<close>

definition checkpoint_ok :: "audit_row list \<Rightarrow> audit_checkpoint \<Rightarrow> bool" where
  "checkpoint_ok rows c \<longleftrightarrow>
     (let k = nat (ac_to_seq c) in
      ac_to_seq c = int k \<and> audit_checkpoint_every \<le> k \<and> k \<le> length rows \<and>
      ac_from_seq c = int k - int audit_checkpoint_every + 1 \<and>
      (case merkle_root (drop (k - audit_checkpoint_every) (take k (chain_hashes genesis_prev_hash rows))) of
         Inl e \<Rightarrow> False | Inr root \<Rightarrow> ac_merkle_root c = hex_prefixed root))"

definition audit_ok :: "db \<Rightarrow> bool" where
  "audit_ok d \<longleftrightarrow> chain_from 1 genesis_prev_hash (audit_log d) \<and>
     list_all (checkpoint_ok (audit_log d)) (audit_checkpoints d)"

lemma local_append_entry [local_rules]: "local (append_entry t y a act subj pay)"
  unfolding append_entry_def append_entry_with_def next_link_def checkpoint_if_due_def write_checkpoint_def Let_def option.case
  by (auto intro!: local_rules)

lemma preserves_append_entry [preserves_rules]:
  assumes "\<And>d a. f (d\<lparr>audit_log := a\<rparr>) = f d" "\<And>d c. f (d\<lparr>audit_checkpoints := c\<rparr>) = f d"
  shows "preserves f (append_entry t y a act subj pay)"
  unfolding append_entry_def append_entry_with_def next_link_def checkpoint_if_due_def write_checkpoint_def Let_def
    audit_acquire_chain_lock_def audit_get_tail_def audit_add_at_seq_def checkpoints_get_by_to_seq_def
    audit_list_range_def checkpoints_add_def option.case
  by (auto intro!: preserves_rules preserves_db_write preserves_db_insert simp: assms)

lemma checkpoint_fields:
  "new_checkpoint (ac_from_seq (new_checkpoint a b r t)) (ac_to_seq (new_checkpoint a b r t))
     (ac_merkle_root (new_checkpoint a b r t)) (ac_anchor_tx (new_checkpoint a b r t)) = new_checkpoint a b r t"
  by (simp add: new_checkpoint_def)

lemma checkpoint_ok_snoc:
  assumes "chain_from 1 genesis_prev_hash rows" "checkpoint_ok rows c"
  shows "checkpoint_ok (rows @ [r]) c"
proof -
  have "take (nat (ac_to_seq c)) (chain_hashes genesis_prev_hash (rows @ [r])) =
        take (nat (ac_to_seq c)) (chain_hashes genesis_prev_hash rows)"
    using assms chain_hashes_append [OF assms(1)] chain_hashes_length [OF assms(1)]
    by (simp add: checkpoint_ok_def Let_def)
  then show ?thesis using assms(2) by (simp add: checkpoint_ok_def Let_def)
qed

lemma chain_tail:
  assumes "chain_from 1 genesis_prev_hash rows"
  shows "(case map_option (\<lambda>r. (al_seq r, al_entry_hash r)) (max_seq_row rows) of
            None \<Rightarrow> rows = []
          | Some (s, h) \<Rightarrow> rows \<noteq> [] \<and> s = int (length rows) \<and>
              parse_hex_prefixed h = Inr (last_hash genesis_prev_hash (chain_hashes genesis_prev_hash rows)))"
proof (cases rows rule: rev_cases)
  case (snoc rs r)
  let ?hs = "chain_hashes genesis_prev_hash rows"
  have c: "chain_from 1 genesis_prev_hash rs"
    "chain_from (1 + int (length rs)) (last_hash genesis_prev_hash (chain_hashes genesis_prev_hash rs)) [r]"
    using assms snoc by (simp_all add: chain_from_append)
  then obtain h where h: "?hs = chain_hashes genesis_prev_hash rs @ [h]" "al_entry_hash r = hex_prefixed h"
    "al_seq r = 1 + int (length rs)"
    using chain_hashes_append [OF c(1), of r] snoc by (auto split: sum.splits)
  then have "length h = 32" using chain_hashes_digests [of h genesis_prev_hash rows] by simp
  then show ?thesis
    using max_seq_row_chain [OF assms] snoc h by (simp add: parse_hex_prefixed_hex_prefixed)
qed simp

lemma rseq_Inr: "rseq (map Inr xs) = Inr xs"
  by (induction xs) simp_all

lemma segment_leaves:
  assumes "chain_from 1 genesis_prev_hash rows"
  shows "rseq (map (\<lambda>e. parse_hex_prefixed (al_entry_hash e)) (drop lo (take hi rows))) =
         Inr (drop lo (take hi (chain_hashes genesis_prev_hash rows)))"
proof -
  let ?hs = "chain_hashes genesis_prev_hash rows"
  have "map (\<lambda>e. parse_hex_prefixed (al_entry_hash e)) rows = map parse_hex_prefixed (map al_entry_hash rows)"
    by simp
  also have "\<dots> = map Inr ?hs"
    unfolding chain_from_entry_hash [OF assms]
    using chain_hashes_digests by (auto simp: parse_hex_prefixed_hex_prefixed)
  finally have m: "map (\<lambda>e. parse_hex_prefixed (al_entry_hash e)) rows = map Inr ?hs" .
  have "map (\<lambda>e. parse_hex_prefixed (al_entry_hash e)) (drop lo (take hi rows)) =
      drop lo (take hi (map (\<lambda>e. parse_hex_prefixed (al_entry_hash e)) rows))"
    by (simp only: drop_map take_map)
  also have "\<dots> = map Inr (drop lo (take hi ?hs))" unfolding m by (simp only: drop_map take_map)
  finally show ?thesis by (simp only: rseq_Inr)
qed

lemma merkle_root_Inr: "hs \<noteq> [] \<Longrightarrow> \<exists>root. merkle_root hs = Inr root"
  by (simp add: merkle_root_def)

lemma write_checkpoint_ok:
  assumes ok: "audit_ok (session w)" and n: "n = length (audit_log (session w))" "n mod audit_checkpoint_every = 0" "0 < n"
  shows "wp (write_checkpoint None (int n))
    (\<lambda>_ w'. audit_ok (session w') \<and> audit_log (session w') = audit_log (session w))
    (\<lambda>e w'. e = DBAPIError) w"
proof -
  let ?rows = "audit_log (session w)"
  let ?hs = "chain_hashes genesis_prev_hash ?rows"
  have c: "chain_from 1 genesis_prev_hash ?rows" using ok by (simp add: audit_ok_def)
  have every: "audit_checkpoint_every \<le> n" using n(2,3) by (cases "n < audit_checkpoint_every") auto
  let ?lo = "n - audit_checkpoint_every"
  have range: "sort_key al_seq (filter (\<lambda>r. int n - int audit_checkpoint_every + 1 \<le> al_seq r \<and> al_seq r \<le> int n) ?rows) =
      drop ?lo (take n ?rows)"
    using list_range_slice [OF c, of n ?lo] n(1) every by (simp add: of_nat_diff)
  have len: "length (drop ?lo (take n ?rows)) = audit_checkpoint_every" using n(1) every by simp
  have "drop ?lo (take n ?hs) \<noteq> []"
    using every chain_hashes_length [OF c] n by (simp add: audit_checkpoint_every_def)
  then obtain root where root: "merkle_root (drop ?lo (take n ?hs)) = Inr root" using merkle_root_Inr by blast
  let ?c = "new_checkpoint (int n - int audit_checkpoint_every + 1) (int n) (hex_prefixed root) None"
  have "checkpoint_ok ?rows ?c" using root every n(1) by (simp add: checkpoint_ok_def new_checkpoint_def)
  then have ok': "audit_ok ((session w)\<lparr>audit_checkpoints := audit_checkpoints (session w) @ [?c]\<rparr>)"
    using ok by (simp add: audit_ok_def)
  show ?thesis
    unfolding write_checkpoint_def checkpoints_get_by_to_seq_def audit_list_range_def checkpoints_add_def Let_def
    by (simp add: range len segment_leaves [OF c] root ok ok' new_checkpoint_def [symmetric] checkpoint_fields del: length_drop length_take)
qed

lemma append_entry_ok:
  fixes w :: "'p world"
  assumes ok: "audit_ok (session w)"
  shows "wp (append_entry t y a act subj pay)
    (\<lambda>r w'. audit_ok (session w') \<and> audit_log (session w') = audit_log (session w) @ [r] \<and>
       al_seq r = int (length (audit_log (session w))) + 1 \<and> al_trace_id r = t \<and> al_actor_id r = a \<and>
       al_action r = action_value act \<and> al_subject r = subj \<and> al_payload r = pay)
    (\<lambda>e w'. no_floats pay \<longrightarrow> e = DBAPIError) w"
proof -
  let ?rows = "audit_log (session w)"
  let ?n = "length ?rows"
  let ?prev = "last_hash genesis_prev_hash (chain_hashes genesis_prev_hash ?rows)"
  have c: "chain_from 1 genesis_prev_hash ?rows" using ok by (simp add: audit_ok_def)
  let ?tail = "map_option (\<lambda>r. (al_seq r, al_entry_hash r)) (max_seq_row ?rows)"
  have tail: "next_link ?tail = (return (int ?n + 1, ?prev) :: ('p, int \<times> bytes) app)"
    using chain_tail [OF c] by (auto simp: next_link_def split: option.splits)
  have wc: "wp (checkpoint_if_due None (int ?n + 1))
      (\<lambda>_ w''. audit_ok (session w'') \<and> audit_log (session w'') = audit_log (session w')) (\<lambda>e w''. e = DBAPIError) w'"
    if "audit_ok (session w')" "length (audit_log (session w')) = ?n + 1" for w'
  proof (cases "(int ?n + 1) mod int audit_checkpoint_every = 0")
    case True
    then have "(?n + 1) mod audit_checkpoint_every = 0" by (metis of_nat_1 of_nat_add of_nat_eq_0_iff of_nat_mod)
    then show ?thesis
      using write_checkpoint_ok [of w' "?n + 1"] that True
      by (simp add: checkpoint_if_due_def add.commute)
  qed (use that in \<open>simp add: checkpoint_if_due_def\<close>)
  show ?thesis
  proof (cases "compute_entry_hash ?prev pay")
    case (Inl e)
    have "\<not> no_floats pay"
      using Inl compute_entry_hash_no_floats [of pay ?prev] last_hash_length by fastforce
    with Inl show ?thesis
      unfolding append_entry_def append_entry_with_def audit_acquire_chain_lock_def audit_get_tail_def
      by (simp add: tail)
  next
    case (Inr h)
    obtain ph where ph: "payload_hash pay = Inr ph"
      using Inr by (auto simp: compute_entry_hash_def rmap_def rbind_eq_Inr split: if_splits)
    define r where "r = \<lparr>al_seq = int ?n + 1, al_trace_id = t, al_actor_type = y, al_actor_id = a,
      al_action = action_value act, al_subject = subj, al_payload = pay, al_payload_hash = hex_prefixed ph,
      al_prev_hash = hex_prefixed ?prev, al_entry_hash = hex_prefixed h, al_narration = None\<rparr>"
    have "chain_from 1 genesis_prev_hash (?rows @ [r])"
      using c Inr by (simp add: chain_from_append r_def)
    then have ok1: "audit_ok ((session w)\<lparr>audit_log := ?rows @ [r]\<rparr>)"
      using ok checkpoint_ok_snoc [OF c] by (auto simp: audit_ok_def list_all_iff)
    let ?w1 = "\<lambda>n. w\<lparr>statements := n, session := (session w)\<lparr>audit_log := ?rows @ [r]\<rparr>\<rparr>"
    have step: "wp (checkpoint_if_due None (int ?n + 1))
      (\<lambda>_ w'. audit_ok (session w') \<and> audit_log (session w') = ?rows @ [r]) (\<lambda>e w'. e = DBAPIError) (?w1 n)" for n
      using wc [of "?w1 n"] ok1 by simp
    have upd: "r\<lparr>al_seq := int ?n + 1\<rparr> = r" by (simp add: r_def)
    show ?thesis
      unfolding append_entry_def append_entry_with_def audit_acquire_chain_lock_def audit_get_tail_def
        audit_add_at_seq_def audit_row_ok_def Let_def
      by (simp add: tail Inr ph upd r_def [symmetric], intro impI wp_mono [OF step])
        (simp_all add: r_def)
  qed
qed

section \<open>The verifier decides validity\<close>

lemma chain_failure_not_ok [simp]: "\<not> cv_ok (chain_failure lo hi n m q x y z)"
  by (simp add: chain_failure_def)

lemma verify_entries_sound:
  assumes "verify_entries cps lo hi es prev exp n m seg any = Inr v" "cv_ok v"
  shows "chain_from exp prev es \<and> cv_entries_verified v = n + length es \<and>
    cv_head_entry_hash v =
      (if any \<or> es \<noteq> [] then Some (hex_prefixed (last_hash prev (chain_hashes prev es))) else None) \<and>
    cv_break v = None"
  using assms
proof (induction es arbitrary: prev exp n m seg any)
  case (Cons e es)
  then obtain h where h: "compute_entry_hash prev (al_payload e) = Inr h" "al_seq e = exp"
    "al_prev_hash e = hex_prefixed prev" "al_entry_hash e = hex_prefixed h"
    by (auto simp: rbind_eq_Inr split: if_splits)
  with Cons.prems obtain cp where cp: "check_checkpoint cps lo exp (seg @ [h]) = Inr cp"
    by (auto simp: rbind_eq_Inr Let_def)
  then obtain m' where "verify_entries cps lo hi es h (exp + 1) (n + 1) m' (seg @ [h]) True = Inr v"
    using Cons.prems h by (cases cp) (auto simp: Let_def split: if_splits)
  from Cons.IH [OF this Cons.prems(2)] h show ?case by simp
qed (auto split: if_splits)

lemma check_checkpoint_ok:
  assumes c: "chain_from 1 genesis_prev_hash (dn @ e # es)"
    and cps: "list_all (checkpoint_ok (dn @ e # es @ rest)) cps"
    and long: "chain_from 1 genesis_prev_hash (dn @ e # es @ rest)"
    and seg: "seg = chain_hashes genesis_prev_hash (dn @ [e])"
  shows "(\<exists>x. check_checkpoint (checkpoints_by_to_seq cps) 1 (al_seq e) seg = Inr (Some (x, x))) \<or>
         check_checkpoint (checkpoints_by_to_seq cps) 1 (al_seq e) seg = Inr None"
proof -
  let ?rows = "dn @ e # es @ rest"
  let ?k = "length dn + 1"
  have cd: "chain_from 1 genesis_prev_hash (dn @ [e])"
    using c by (induction es rule: rev_induct) (simp, metis append_Cons append_assoc chain_from_append)
  have seq: "al_seq e = int ?k" using cd by (simp add: chain_from_append)
  have len: "length seg = ?k" using chain_hashes_length [OF cd] seg by simp
  have take: "take ?k (chain_hashes genesis_prev_hash (dn @ [e] @ zs)) = seg"
    if "chain_from 1 genesis_prev_hash (dn @ [e] @ zs)" for zs
    using that
  proof (induction zs rule: rev_induct)
    case Nil
    then show ?case using len seg by simp
  next
    case (snoc z zs)
    then have "chain_from 1 genesis_prev_hash (dn @ [e] @ zs)" by (metis append_assoc chain_from_append)
    then show ?case
      using snoc chain_hashes_append [of 1 genesis_prev_hash "dn @ [e] @ zs" z]
        chain_hashes_length [of 1 genesis_prev_hash "dn @ [e] @ zs"] by simp
  qed
  have hs: "take ?k (chain_hashes genesis_prev_hash ?rows) = seg"
    using take [of "es @ rest"] long by simp
  show ?thesis
  proof (cases "checkpoints_by_to_seq cps (al_seq e)")
    case None
    then show ?thesis by (simp add: check_checkpoint_def)
  next
    case (Some cp)
    then have "cp \<in> set cps" "ac_to_seq cp = int ?k"
      using seq by (auto simp: checkpoints_by_to_seq_def dest!: map_of_SomeD)
    then have "checkpoint_ok ?rows cp" "nat (ac_to_seq cp) = ?k" using cps by (simp_all add: list_all_iff)
    then obtain root where "merkle_root (drop (?k - audit_checkpoint_every) seg) = Inr root"
      "ac_merkle_root cp = hex_prefixed root"
      using hs by (auto simp: checkpoint_ok_def Let_def split: sum.splits)
    then show ?thesis using Some len by (simp add: check_checkpoint_def)
  qed
qed

lemma verify_entries_complete:
  assumes "chain_from 1 genesis_prev_hash (dn @ es)" "chain_from 1 genesis_prev_hash (dn @ es @ rest)"
    and "list_all (checkpoint_ok (dn @ es @ rest)) cps"
  shows "\<exists>v. verify_entries (checkpoints_by_to_seq cps) 1 hi es
      (last_hash genesis_prev_hash (chain_hashes genesis_prev_hash dn)) (1 + int (length dn)) n m
      (chain_hashes genesis_prev_hash dn) any = Inr v \<and> cv_ok v"
  using assms
proof (induction es arbitrary: dn n m any)
  case (Cons e es)
  let ?prev = "last_hash genesis_prev_hash (chain_hashes genesis_prev_hash dn)"
  have ce: "chain_from 1 genesis_prev_hash (dn @ [e])"
    using Cons.prems(1) by (induction es rule: rev_induct) (simp, metis append_Cons append_assoc chain_from_append)
  then obtain h where h: "compute_entry_hash ?prev (al_payload e) = Inr h" "al_entry_hash e = hex_prefixed h"
    "al_seq e = 1 + int (length dn)" "al_prev_hash e = hex_prefixed ?prev" "chain_from 1 genesis_prev_hash dn"
    by (auto simp: chain_from_append split: sum.splits)
  have seg: "chain_hashes genesis_prev_hash (dn @ [e]) = chain_hashes genesis_prev_hash dn @ [h]"
    using chain_hashes_append [OF h(5), of e] h(1) by simp
  have "(\<exists>x. check_checkpoint (checkpoints_by_to_seq cps) 1 (al_seq e) (chain_hashes genesis_prev_hash dn @ [h]) = Inr (Some (x, x))) \<or>
        check_checkpoint (checkpoints_by_to_seq cps) 1 (al_seq e) (chain_hashes genesis_prev_hash dn @ [h]) = Inr None"
    using check_checkpoint_ok [of dn e es rest cps] Cons.prems seg by simp
  moreover have "\<exists>v. verify_entries (checkpoints_by_to_seq cps) 1 hi es h (1 + int (length dn) + 1) n' m'
      (chain_hashes genesis_prev_hash dn @ [h]) True = Inr v \<and> cv_ok v" for n' m'
    using Cons.IH [of "dn @ [e]" n' m' True] Cons.prems seg by (simp add: algebra_simps)
  ultimately show ?case using h by (auto simp: Let_def)
qed simp

text \<open>What the verifier reads of a row; everything else of it is not covered by the chain.\<close>

definition same_evidence :: "audit_row \<Rightarrow> audit_row \<Rightarrow> bool" where
  "same_evidence r r' \<longleftrightarrow> al_seq r' = al_seq r \<and> al_payload r' = al_payload r \<and>
     al_prev_hash r' = al_prev_hash r \<and> al_entry_hash r' = al_entry_hash r"

lemma verify_entries_blind:
  "list_all2 same_evidence es es' \<Longrightarrow>
   verify_entries cps lo hi es' prev exp n m seg any = verify_entries cps lo hi es prev exp n m seg any"
proof (induction es es' arbitrary: prev exp n m seg any rule: list_all2_induct)
  case (Cons e es e' es')
  have "al_seq e' = al_seq e" "al_payload e' = al_payload e" "al_prev_hash e' = al_prev_hash e"
    "al_entry_hash e' = al_entry_hash e"
    using Cons.hyps(1) by (simp_all add: same_evidence_def)
  then show ?case by (simp only: verify_entries.simps Cons.IH)
qed simp

lemma chain_from_payloads:
  "chain_from seq prev rs \<Longrightarrow> chain_head prev (map al_payload rs) = Inr (last_hash prev (chain_hashes prev rs))"
  by (induction rs arbitrary: seq prev) (auto split: sum.splits)

lemma same_evidence_chain_from:
  "list_all2 same_evidence rs rs' \<Longrightarrow> chain_from seq prev rs' \<longleftrightarrow> chain_from seq prev rs"
proof (induction rs rs' arbitrary: seq prev rule: list_all2_induct)
  case (Cons r rs r' rs')
  then show ?case by (simp add: same_evidence_def split: sum.splits)
qed simp

lemma chain_from_take: "chain_from seq prev rs \<Longrightarrow> chain_from seq prev (take k rs)"
  by (induction rs arbitrary: seq prev k) (auto simp: take_Cons' split: sum.splits)

lemma list_range_all:
  assumes c: "chain_from 1 prev rs" and hi: "int (length rs) \<le> hi"
  shows "sort_key al_seq (filter (\<lambda>r. 1 \<le> al_seq r \<and> al_seq r \<le> hi) rs) = rs"
proof -
  have "filter (\<lambda>r. 1 \<le> al_seq r \<and> al_seq r \<le> hi) rs = rs"
    using chain_from_seq_in [OF c] hi by (force simp: filter_id_conv)
  then show ?thesis using chain_from_sorted [OF c] by (simp add: sort_key_id_if_sorted)
qed

lemma chain_from_last_hash:
  "chain_from seq prev rs \<Longrightarrow> rs \<noteq> [] \<Longrightarrow> hex_prefixed (last_hash prev (chain_hashes prev rs)) = al_entry_hash (last rs)"
  by (induction rs arbitrary: seq prev) (auto split: sum.splits)

lemma verify_chain_prefix:
  assumes ok: "audit_ok (session w)" and same: "list_all2 same_evidence (take k (audit_log (session w))) rows"
    and k: "k \<le> length (audit_log (session w))" and hi: "int k \<le> hi"
  shows "wp (verify_chain 1 hi)
    (\<lambda>v w'. cv_ok v \<and> cv_entries_verified v = k \<and> cv_break v = None \<and>
       (rows \<noteq> [] \<longrightarrow> cv_head_entry_hash v = Some (al_entry_hash (last rows))))
    (\<lambda>e w'. e = DBAPIError \<and> (\<exists>n. faults w n)) (w\<lparr>session := (session w)\<lparr>audit_log := rows\<rparr>\<rparr>)"
proof -
  let ?all = "audit_log (session w)"
  let ?cps = "sort_key ac_to_seq (audit_checkpoints (session w))"
  have c: "chain_from 1 genesis_prev_hash ?all" and cps: "list_all (checkpoint_ok ?all) ?cps"
    using ok by (simp_all add: audit_ok_def list_all_iff)
  note ck = chain_from_take [OF c, of k]
  have cr: "chain_from 1 genesis_prev_hash rows" using ck same_evidence_chain_from [OF same] by simp
  have len: "length rows = k" using list_all2_lengthD [OF same] k by simp
  have range: "sort_key al_seq (filter (\<lambda>r. 1 \<le> al_seq r \<and> al_seq r \<le> hi) rows) = rows"
    using list_range_all [OF cr] len hi by simp
  obtain v where v: "verify_entries (checkpoints_by_to_seq ?cps) 1 hi (take k ?all) genesis_prev_hash 1 0 [] [] False = Inr v"
    "cv_ok v"
    using verify_entries_complete [of "[]" "take k ?all" "drop k ?all" ?cps hi 0 "[]" False] ck c cps by auto
  then have v': "verify_entries (checkpoints_by_to_seq ?cps) 1 hi rows genesis_prev_hash 1 0 [] [] False = Inr v"
    using verify_entries_blind [OF same] by simp
  have "cv_entries_verified v = k" "cv_break v = None"
    "rows \<noteq> [] \<longrightarrow> cv_head_entry_hash v = Some (al_entry_hash (last rows))"
    using verify_entries_sound [OF v' v(2)] len chain_from_last_hash [OF cr] by simp_all
  then show ?thesis using v(2) v' range
    unfolding verify_chain_def audit_list_range_def checkpoints_list_all_def Let_def by auto
qed

text \<open>A log of one entry, for the examples; its hash stays symbolic.\<close>

definition one_entry :: "json \<Rightarrow> audit_row" where
  "one_entry pay =
     \<lparr>al_seq = 1, al_trace_id = ''trc_1'', al_actor_type = ''agent'', al_actor_id = ''merchant'', al_action = ''payment.result'',
      al_subject = JObj [], al_payload = pay, al_payload_hash = [], al_prev_hash = hex_prefixed genesis_prev_hash,
      al_entry_hash = (case compute_entry_hash genesis_prev_hash pay of Inl e \<Rightarrow> [] | Inr h \<Rightarrow> hex_prefixed h),
      al_narration = None\<rparr>"

definition one_entry_db :: "json \<Rightarrow> db" where
  "one_entry_db pay = empty_db\<lparr>audit_log := [one_entry pay]\<rparr>"

lemma one_entry_db_simps [simp]:
  "audit_log (one_entry_db pay) = [one_entry pay]"
  "(one_entry_db pay)\<lparr>audit_log := [one_entry pay]\<rparr> = one_entry_db pay"
  "halt_row (one_entry_db pay) =
     Some \<lparr>ih_halted = False, ih_reason = None, ih_tripped_at = None, ih_tripped_seq = None\<rparr>"
  by (simp_all add: one_entry_db_def empty_db_def)

lemma audit_ok_one_entry [simp]:
  assumes "no_floats pay" shows "audit_ok (one_entry_db pay)"
proof -
  obtain h where "compute_entry_hash genesis_prev_hash pay = Inr h"
    using compute_entry_hash_no_floats [of pay genesis_prev_hash] assms last_hash_length [of "[]"] by auto
  then show ?thesis by (simp add: audit_ok_def one_entry_db_def one_entry_def empty_db_def)
qed

section \<open>Properties of the audit service\<close>

text \<open>The two operations the application performs on the log, as steps of a transaction.\<close>

datatype audit_op =
    Append string string string audit_action json json
  | Narrate int string

primrec audit_step :: "audit_op \<Rightarrow> ('p, unit) app" where
  "audit_step (Append t y a act subj pay) = bind (append_entry t y a act subj pay) (\<lambda>_. return ())"
| "audit_step (Narrate seq narration) = audit_update_narration seq narration"

lemma narration_ok:
  assumes "audit_ok d"
  shows "audit_ok (d\<lparr>audit_log := map (\<lambda>r. if al_seq r = seq then r\<lparr>al_narration := n\<rparr> else r) (audit_log d)\<rparr>)"
    (is "audit_ok (d\<lparr>audit_log := map ?f _\<rparr>)")
proof -
  have same: "list_all2 same_evidence (audit_log d) (map ?f (audit_log d))"
    by (simp add: list_all2_conv_all_nth same_evidence_def)
  have "chain_hashes prev (map ?f rs) = chain_hashes prev rs" for prev rs
    by (induction rs arbitrary: prev) (auto split: sum.splits)
  then have "checkpoint_ok (map ?f (audit_log d)) c = checkpoint_ok (audit_log d) c" for c
    by (simp add: checkpoint_ok_def)
  with assms same_evidence_chain_from [OF same] show ?thesis
    by (simp add: audit_ok_def list_all_iff)
qed

interpretation audit_tx: transactional audit_ok audit_step "\<lambda>x. True"
proof
  show "local (audit_step x)" for x by (cases x) (auto intro!: local_rules)
  show "audit_ok (session w) \<Longrightarrow> wp (audit_step x) (\<lambda>r w'. audit_ok (session w')) (\<lambda>e w'. True) w" for w x
  proof (cases x)
    case (Append t y a act subj pay)
    assume "audit_ok (session w)"
    from append_entry_ok [OF this] show ?thesis unfolding Append audit_step.simps wp_bind by (rule wp_mono) simp_all
  qed (simp add: audit_update_narration_def narration_ok)
qed

text \<open>
  Appending extends the chain by exactly one row: on a valid log, \<open>append_entry\<close> adds one row
  at the end, with the next sequence number (no gap) and the given payload, and the log with its
  checkpoints stays valid; nothing is committed by it. With a payload without floats the only way it
  can fail is an error of the database.
\<close>

theorem append_entry_extends_chain:
  assumes "audit_ok (session w)" "no_floats pay"
  shows "wp (append_entry t y a act subj pay)
    (\<lambda>r w'. audit_ok (session w') \<and> audit_log (session w') = audit_log (session w) @ [r] \<and>
       al_seq r = int (length (audit_log (session w))) + 1 \<and> al_payload r = pay \<and> durable w' = durable w)
    (\<lambda>e w'. e = DBAPIError \<and> durable w' = durable w) w"
  by (rule wp_mono [OF wp_conj [OF append_entry_ok [OF assms(1)] local_wp [OF local_append_entry]]])
    (use assms(2) in \<open>auto simp: local_step_def\<close>)

theorem append_entry_extends_chain_witness:
  "wp (append_entry ''trc_1'' ''agent'' ''merchant'' PAYMENT_RESULT (JObj []) (JStr ''captured''))
    (\<lambda>r w'. audit_ok (session w') \<and> audit_log (session w') = [one_entry (JStr ''paid''), r] \<and>
       al_seq r = 2 \<and> al_payload r = JStr ''captured'' \<and> durable w' = one_entry_db (JStr ''paid''))
    (\<lambda>e w'. e = DBAPIError \<and> durable w' = one_entry_db (JStr ''paid''))
    (quiet_world 0 () (one_entry_db (JStr ''paid'')))"
  using append_entry_extends_chain [of "quiet_world 0 () (one_entry_db (JStr ''paid''))" "JStr ''captured''"
      "''trc_1''" "''agent''" "''merchant''" PAYMENT_RESULT "JObj []"] by simp

text \<open>
  Whatever transactions run, whatever they append or narrate, however they fail, and whatever else happens
  in between that keeps the log valid: the committed audit log is always a valid, gapless chain
  from the genesis hash, with correct checkpoints.
\<close>

theorem audit_log_always_valid:
  assumes "audit_ok (durable w)" "\<And>n d. audit_ok d \<Longrightarrow> audit_ok (others w n d)"
  shows "audit_ok (durable (history audit_step txs w))"
  by (rule audit_tx.history_keeps [OF assms]) (simp_all add: list.pred_True)

definition sample_append :: audit_op where
  "sample_append = Append ''trc_1'' ''system'' ''saga'' SETTLEMENT_CLOSED (JObj []) (JObj [(''amount_minor'', JInt 500)])"

theorem audit_log_always_valid_witness:
  "audit_ok (durable (history audit_step [[sample_append], [Narrate 1 ''paid in full''], [sample_append, sample_append]]
     (quiet_world 0 () (one_entry_db (JStr ''paid'')))))"
  by (rule audit_log_always_valid) simp_all

text \<open>
  The verifier accepts every valid log: on a log that satisfies the invariant, verifying from 1
  to the last entry reports success, with every entry verified and no break.
\<close>

theorem verify_chain_accepts_valid:
  assumes "audit_ok (session w)" "n = length (audit_log (session w))"
  shows "wp (verify_chain 1 (int n))
    (\<lambda>v w'. cv_ok v \<and> cv_entries_verified v = n \<and> cv_break v = None)
    (\<lambda>e w'. e = DBAPIError) w"
  by (rule wp_mono [OF verify_chain_prefix [OF assms(1), of n "audit_log (session w)" "int n", simplified]])
    (simp_all add: list_all2_refl same_evidence_def assms(2))

theorem verify_chain_accepts_valid_witness:
  "wp (verify_chain 1 (int 1)) (\<lambda>v w'. cv_ok v \<and> cv_entries_verified v = 1 \<and> cv_break v = None)
     (\<lambda>e w'. e = DBAPIError) (quiet_world 0 () (one_entry_db (JStr ''paid'')))"
  by (rule verify_chain_accepts_valid) simp_all

text \<open>
  C32. What a success of the verifier does not say. Let the log be valid, cut it after any number
  \<open>k\<close> of entries, and rewrite in the remaining rows everything that \<open>same_evidence\<close> leaves
  free: the action, the actor, the subject, the trace id, the stored payload hash and the narration.
  Verifying the result from 1 up to any number beyond still reports success.
\<close>

theorem verify_chain_blind_spots:
  assumes "audit_ok (session w)" "k \<le> length (audit_log (session w))" "int k \<le> hi"
    and "list_all2 same_evidence (take k (audit_log (session w))) rows"
  shows "wp (verify_chain 1 hi) (\<lambda>v w'. cv_ok v \<and> cv_break v = None) (\<lambda>e w'. e = DBAPIError)
    (w\<lparr>session := (session w)\<lparr>audit_log := rows\<rparr>\<rparr>)"
  by (rule wp_mono [OF verify_chain_prefix [OF assms(1,4,2,3)]]) simp_all

theorem verify_chain_blind_spots_witness:
  "let w = quiet_world 0 () (one_entry_db (JStr ''paid''));
       r = (one_entry (JStr ''paid''))\<lparr>al_actor_id := ''someone else''\<rparr>
   in r \<noteq> one_entry (JStr ''paid'') \<and>
      wp (verify_chain 1 1) (\<lambda>v w'. cv_ok v \<and> cv_break v = None) (\<lambda>e w'. e = DBAPIError)
        (w\<lparr>session := (session w)\<lparr>audit_log := [r]\<rparr>\<rparr>)"
proof -
  have "(one_entry (JStr ''paid''))\<lparr>al_actor_id := ''someone else''\<rparr> \<noteq> one_entry (JStr ''paid'')"
    by (simp add: one_entry_def)
  then show ?thesis
    unfolding Let_def
    by (intro conjI verify_chain_blind_spots [of _ 1]) (simp_all add: same_evidence_def)
qed

text \<open>
  C22. What a success of the verifier is worth: if two states of the log both verify from 1 to the
  same number of entries with the same head hash, their payloads are the same, entry by entry,
  unless two of the byte strings hashed on the way are a SHA-256 collision.
\<close>

theorem verified_chain_tamper_evident:
  assumes "verify_chain 1 hi w = (Inr v, w1)" "cv_ok v" "verify_chain 1 hi' u = (Inr v', u1)" "cv_ok v'"
    and "cv_entries_verified v = cv_entries_verified v'" "cv_head_entry_hash v = cv_head_entry_hash v'"
    and "rows = sort_key al_seq (filter (\<lambda>r. 1 \<le> al_seq r \<and> al_seq r \<le> hi) (audit_log (session w)))"
    and "rows' = sort_key al_seq (filter (\<lambda>r. 1 \<le> al_seq r \<and> al_seq r \<le> hi') (audit_log (session u)))"
    and "list_all (\<lambda>r. no_floats (al_payload r)) rows" "list_all (\<lambda>r. no_floats (al_payload r)) rows'"
  shows "map (\<lambda>r. norm (al_payload r)) rows = map (\<lambda>r. norm (al_payload r)) rows' \<or>
    collision_in (chain_inputs genesis_prev_hash (map al_payload rows))
                 (chain_inputs genesis_prev_hash (map al_payload rows'))"
proof -
  have run: "\<exists>cps. verify_entries cps 1 h (sort_key al_seq (filter (\<lambda>r. 1 \<le> al_seq r \<and> al_seq r \<le> h) (audit_log (session x))))
      genesis_prev_hash 1 0 [] [] False = Inr y"
    if "verify_chain 1 h x = (Inr y, x1)" for h y and x x1 :: "'p world"
    using that unfolding verify_chain_def audit_list_range_def checkpoints_list_all_def db_read_def db_call_def bind_def
    by (auto simp: Let_def lift_result_def split: if_splits)
  have run': "\<exists>cps. verify_entries cps 1 h (sort_key al_seq (filter (\<lambda>r. 1 \<le> al_seq r \<and> al_seq r \<le> h) (audit_log (session x))))
      genesis_prev_hash 1 0 [] [] False = Inr y"
    if "verify_chain 1 h x = (Inr y, x1)" for h y and x x1 :: "'q world"
    using that unfolding verify_chain_def audit_list_range_def checkpoints_list_all_def db_read_def db_call_def bind_def
    by (auto simp: Let_def lift_result_def split: if_splits)
  note s = verify_entries_sound
  obtain cps cps' where
    v: "verify_entries cps 1 hi rows genesis_prev_hash 1 0 [] [] False = Inr v" and
    v': "verify_entries cps' 1 hi' rows' genesis_prev_hash 1 0 [] [] False = Inr v'"
    using run [OF assms(1)] run' [OF assms(3)] assms(7,8) by blast
  have c: "chain_from 1 genesis_prev_hash rows" "chain_from 1 genesis_prev_hash rows'"
    and len: "length rows = length rows'"
    and head: "rows \<noteq> [] \<Longrightarrow> last_hash genesis_prev_hash (chain_hashes genesis_prev_hash rows) =
          last_hash genesis_prev_hash (chain_hashes genesis_prev_hash rows')"
    using s [OF v assms(2)] s [OF v' assms(4)] assms(5,6) by (auto split: if_splits)
  have "chain_head genesis_prev_hash (map al_payload rows) = chain_head genesis_prev_hash (map al_payload rows')"
    using chain_from_payloads [OF c(1)] chain_from_payloads [OF c(2)] head len by (cases rows) auto
  then show ?thesis
    using chain_head_eqD [of "map al_payload rows" "map al_payload rows'" genesis_prev_hash genesis_prev_hash]
      chain_head_Inr [of genesis_prev_hash "map al_payload rows"] assms(9,10) len
    by (auto simp: list_all_iff comp_def)
qed

theorem verified_chain_tamper_evident_witness:
  "let w = quiet_world 0 () (one_entry_db (JObj [(''b'', JInt 1), (''a'', JInt 2)]));
       u = quiet_world 0 () (one_entry_db (JObj [(''a'', JInt 2), (''b'', JInt 1)]))
   in norm (JObj [(''b'', JInt 1), (''a'', JInt 2)]) = norm (JObj [(''a'', JInt 2), (''b'', JInt 1)]) \<or>
    collision_in (chain_inputs genesis_prev_hash (map al_payload (audit_log (session w))))
                 (chain_inputs genesis_prev_hash (map al_payload (audit_log (session u))))"
proof -
  let ?p = "JObj [(''b'', JInt 1), (''a'', JInt 2)]" and ?q = "JObj [(''a'', JInt 2), (''b'', JInt 1)]"
  let ?w = "quiet_world 0 () (one_entry_db ?p)" and ?u = "quiet_world 0 () (one_entry_db ?q)"
  have run: "\<exists>v w1. verify_chain 1 1 (quiet_world 0 () (one_entry_db pay)) = (Inr v, w1) \<and> cv_ok v \<and>
      cv_entries_verified v = 1 \<and> cv_head_entry_hash v = Some (al_entry_hash (one_entry pay))"
    if "no_floats pay" for pay
    using verify_chain_prefix [of "quiet_world 0 () (one_entry_db pay)" 1 "[one_entry pay]" 1] that
    by (auto simp: wp_def same_evidence_def split: prod.splits sum.splits)
  obtain v w1 v' u1 where v: "verify_chain 1 1 ?w = (Inr v, w1)" "cv_ok v" "cv_entries_verified v = 1"
      "cv_head_entry_hash v = Some (al_entry_hash (one_entry ?p))"
    and v': "verify_chain 1 1 ?u = (Inr v', u1)" "cv_ok v'" "cv_entries_verified v' = 1"
      "cv_head_entry_hash v' = Some (al_entry_hash (one_entry ?q))"
    using run [of ?p] run [of ?q] by auto
  have "norm ?p = norm ?q" by (rule norm_JObj_cong) (simp_all add: utf16_key_def utf16_unit_def)
  then have "jcs_bytes ?p = jcs_bytes ?q" by (rule jcs_bytes_norm) simp_all
  then have head: "al_entry_hash (one_entry ?p) = al_entry_hash (one_entry ?q)"
    by (simp add: one_entry_def compute_entry_hash_no_floats)
  show ?thesis
    using verified_chain_tamper_evident [OF v(1,2) v'(1,2) _ _ refl refl] v v' head
    by (simp add: Let_def one_entry_def)
qed

text \<open>
  A failed verification stops the program's money operations: whenever
  \<open>verify_chain_and_halt_on_failure\<close> returns a failure, the halt row is set in the session it
  leaves, with the position of the break if it was not set before, and from then on
  \<open>raise_if_halted\<close> cannot return. A success changes nothing.
\<close>

theorem broken_chain_halts:
  assumes "halt_row (session w) = Some h"
  shows "wp (verify_chain_and_halt_on_failure lo hi)
    (\<lambda>v w'. if cv_ok v then session w' = session w
       else (\<exists>h'. halt_row (session w') = Some h' \<and> ih_halted h' \<and>
               (\<not> ih_halted h \<longrightarrow> ih_tripped_seq h' = map_option cb_seq (cv_break v))) \<and>
            wp raise_if_halted (\<lambda>_ _. False) (\<lambda>e _. e = DBAPIError \<or> (\<exists>r. e = IntegrityHalted r)) w')
    (\<lambda>e w'. session w' = session w) w"
proof -
  have v: "wp (verify_chain lo hi) (\<lambda>v w'. session w' = session w) (\<lambda>e w'. session w' = session w) w"
    by (rule preserves_wp [of "\<lambda>d. d", simplified])
      (auto simp: verify_chain_def audit_list_range_def checkpoints_list_all_def audit_get_by_seq_def intro!: preserves_rules)
  show ?thesis
    unfolding verify_chain_and_halt_on_failure_def wp_bind
    by (rule wp_mono [OF v])
      (use assms in \<open>auto simp: integrity_trip_def raise_if_halted_def integrity_get_state_def wp_db_call\<close>)
qed

theorem broken_chain_halts_witness:
  "wp (verify_chain_and_halt_on_failure 1 9)
    (\<lambda>v w'. if cv_ok v then session w' = one_entry_db (JStr ''paid'')
       else (\<exists>h'. halt_row (session w') = Some h' \<and> ih_halted h' \<and> ih_tripped_seq h' = map_option cb_seq (cv_break v)) \<and>
            wp raise_if_halted (\<lambda>_ _. False) (\<lambda>e _. e = DBAPIError \<or> (\<exists>r. e = IntegrityHalted r)) w')
    (\<lambda>e w'. session w' = one_entry_db (JStr ''paid'')) (quiet_world 0 () (one_entry_db (JStr ''paid'')))"
  using broken_chain_halts [of "quiet_world 0 () (one_entry_db (JStr ''paid''))"
      "\<lparr>ih_halted = False, ih_reason = None, ih_tripped_at = None, ih_tripped_seq = None\<rparr>" 1 9]
  by (simp cong: if_cong)

end
