(* ===== verification/Ledger.thy ===== *)
theory Ledger
  imports Audit_Service
begin

text \<open>
  The budget ledger: the pure part (\<open>domain/ledger/model.py\<close>) and the service
  (\<open>application/ledger_service.py\<close>). Every movement is two entries; a reference (\<open>ref_id\<close>)
  goes through the stages of \<open>stage\<close>. The invariant \<open>ledger_ok\<close> says that the entries
  of each reference are exactly the trail of its stage, which makes the balances the code computes
  equal to the sum of the live reservations.
\<close>

section \<open>model.py\<close>

definition account :: "string \<Rightarrow> string \<Rightarrow> string" where
  "account mid bucket = ''mandate:'' @ mid @ '':'' @ bucket"

datatype reservation_state = RES_HELD | RES_CAPTURED | RES_RELEASED | RES_EXPIRED

record ledger_movement =
  mv_account :: string
  mv_direction :: string
  mv_amount_minor :: int

definition reserve_movements :: "string \<Rightarrow> int \<Rightarrow> ledger_movement list" where
  "reserve_movements mid amount_minor =
     [\<lparr>mv_account = account mid ''available'', mv_direction = ''credit'', mv_amount_minor = amount_minor\<rparr>,
      \<lparr>mv_account = account mid ''reserved'', mv_direction = ''debit'', mv_amount_minor = amount_minor\<rparr>]"

definition capture_movements :: "string \<Rightarrow> int \<Rightarrow> ledger_movement list" where
  "capture_movements mid amount_minor =
     [\<lparr>mv_account = account mid ''reserved'', mv_direction = ''credit'', mv_amount_minor = amount_minor\<rparr>,
      \<lparr>mv_account = account mid ''settled'', mv_direction = ''debit'', mv_amount_minor = amount_minor\<rparr>]"

definition release_movements :: "string \<Rightarrow> int \<Rightarrow> ledger_movement list" where
  "release_movements mid amount_minor =
     [\<lparr>mv_account = account mid ''reserved'', mv_direction = ''credit'', mv_amount_minor = amount_minor\<rparr>,
      \<lparr>mv_account = account mid ''available'', mv_direction = ''debit'', mv_amount_minor = amount_minor\<rparr>]"

definition reverse_movements :: "string \<Rightarrow> int \<Rightarrow> ledger_movement list" where
  "reverse_movements mid amount_minor =
     [\<lparr>mv_account = account mid ''settled'', mv_direction = ''credit'', mv_amount_minor = amount_minor\<rparr>,
      \<lparr>mv_account = account mid ''available'', mv_direction = ''debit'', mv_amount_minor = amount_minor\<rparr>]"

definition net_balance :: "(string \<times> int) list \<Rightarrow> int" where
  "net_balance entries =
     foldl (\<lambda>total (direction, amount). total + (if direction = ''debit'' then amount else - amount)) 0 entries"

section \<open>ledger\_service.py\<close>

record reservation =
  rv_ref_id :: string
  rv_mandate_id :: string
  rv_amount_minor :: int

definition remove_prefix :: "string \<Rightarrow> string \<Rightarrow> string" where
  "remove_prefix pre s = (if is_prefix pre s then drop (length pre) s else s)"

definition mandate_id_from_account :: "string \<Rightarrow> string" where
  "mandate_id_from_account acct = takeWhile (\<lambda>c. c \<noteq> CHR '':'') (remove_prefix ''mandate:'' acct)"

definition state_of :: "ledger_entry list \<Rightarrow> reservation_state option" where
  "state_of entries =
     (let ref_types = map le_ref_type entries in
      if ''expire'' \<in> set ref_types then Some RES_EXPIRED
      else if ''release'' \<in> set ref_types then Some RES_RELEASED
      else if ''capture'' \<in> set ref_types then Some RES_CAPTURED
      else if ''reservation'' \<in> set ref_types then Some RES_HELD
      else None)"

definition movement_entry :: "ledger_movement \<Rightarrow> string \<Rightarrow> string \<Rightarrow> datetime \<Rightarrow> ledger_entry" where
  "movement_entry mv ref_type ref_id now =
     \<lparr>le_account = mv_account mv, le_direction = mv_direction mv, le_amount_minor = mv_amount_minor mv,
      le_ref_type = ref_type, le_ref_id = ref_id, le_created_at = now\<rparr>"

definition add_movements :: "ledger_movement list \<Rightarrow> string \<Rightarrow> string \<Rightarrow> ('p, unit) app" where
  "add_movements movements ref_type ref_id =
     bind (for_each movements (\<lambda>mv. bind clock_now (\<lambda>now. ledger_add (movement_entry mv ref_type ref_id now))))
       (\<lambda>_. return ())"

definition balance_of :: "ledger_entry list \<Rightarrow> int" where
  "balance_of entries = net_balance (map (\<lambda>e. (le_direction e, le_amount_minor e)) entries)"

definition committed_total :: "string \<Rightarrow> ('p, int) app" where
  "committed_total mid =
     bind (ledger_list_for_account (account mid ''reserved'')) (\<lambda>reserved_entries.
     bind (ledger_list_for_account (account mid ''settled'')) (\<lambda>settled_entries.
     return (balance_of reserved_entries + balance_of settled_entries)))"

definition reserve :: "string \<Rightarrow> int \<Rightarrow> int \<Rightarrow> string \<Rightarrow> ('p, reservation option) app" where
  "reserve mid amount_minor max_total ref_id =
     (let the_reservation =
            \<lparr>rv_ref_id = ref_id, rv_mandate_id = mid, rv_amount_minor = amount_minor\<rparr> in
      bind (mandates_get_for_update mid) (\<lambda>row.
      if row = None then return None
      else
        bind (ledger_list_for_ref_id ref_id) (\<lambda>existing.
        if existing \<noteq> [] then return (Some the_reservation)
        else
          bind (ledger_list_for_account (account mid ''reserved'')) (\<lambda>reserved_entries.
          bind (ledger_list_for_account (account mid ''settled'')) (\<lambda>settled_entries.
          if balance_of reserved_entries + balance_of settled_entries + amount_minor > max_total then return None
          else
            bind (add_movements (reserve_movements mid amount_minor) ''reservation'' ref_id) (\<lambda>_.
            return (Some the_reservation)))))))"

definition capture :: "string \<Rightarrow> int \<Rightarrow> string \<Rightarrow> ('p, bool) app" where
  "capture mid amount_minor ref_id =
     bind (mandates_get_for_update mid) (\<lambda>row.
     if row = None then return False
     else
       bind (ledger_list_for_ref_id ref_id) (\<lambda>entries.
       let state = state_of entries in
       if state = Some RES_CAPTURED then return True
       else if state \<noteq> Some RES_HELD then return False
       else
         bind (add_movements (capture_movements mid amount_minor) ''capture'' ref_id) (\<lambda>_. return True)))"

definition reverse_settlement :: "string \<Rightarrow> int \<Rightarrow> string \<Rightarrow> ('p, bool) app" where
  "reverse_settlement mid amount_minor ref_id =
     bind (mandates_get_for_update mid) (\<lambda>row.
     if row = None then return False
     else
       bind (ledger_list_for_ref_id ref_id) (\<lambda>entries.
       let ref_types = map le_ref_type entries in
       if ''reverse'' \<in> set ref_types then return True
       else if ''capture'' \<notin> set ref_types then return False
       else
         bind (add_movements (reverse_movements mid amount_minor) ''reverse'' ref_id) (\<lambda>_. return True)))"

definition release :: "string \<Rightarrow> int \<Rightarrow> string \<Rightarrow> ('p, bool) app" where
  "release mid amount_minor ref_id =
     bind (mandates_get_for_update mid) (\<lambda>row.
     if row = None then return False
     else
       bind (ledger_list_for_ref_id ref_id) (\<lambda>entries.
       let state = state_of entries in
       if state = Some RES_RELEASED then return True
       else if state \<noteq> Some RES_HELD then return False
       else
         bind (add_movements (release_movements mid amount_minor) ''release'' ref_id) (\<lambda>_. return True)))"

text \<open>
  The body of the sweeper's loop for one reference; it returns the reference when it was swept.
  \<open>next(...)\<close> on an empty generator inside a coroutine surfaces as a \<open>RuntimeError\<close>.
\<close>

definition sweep_one :: "string \<Rightarrow> ('p, string option) app" where
  "sweep_one ref_id =
     bind (ledger_list_for_ref_id ref_id) (\<lambda>entries.
     if state_of entries \<noteq> Some RES_HELD then return None
     else
       (case find (\<lambda>e. le_ref_type e = ''reservation'' \<and> le_direction e = ''debit'') entries of
          None \<Rightarrow> raise (RuntimeError ''coroutine raised StopIteration'')
        | Some reservation_entry \<Rightarrow>
            let mid = mandate_id_from_account (le_account reservation_entry);
                amount_minor = le_amount_minor reservation_entry in
            bind (mandates_get_for_update mid) (\<lambda>row.
            if row = None then return None
            else
              bind (ledger_list_for_ref_id ref_id) (\<lambda>entries.
              if state_of entries \<noteq> Some RES_HELD then return None
              else
                bind (new_id ''trc'') (\<lambda>trace_id.
                bind (add_movements (release_movements mid amount_minor) ''expire'' ref_id) (\<lambda>_.
                bind (append_entry trace_id ''system'' ''sweeper'' RESERVATION_EXPIRED
                   (JObj [(''mandate_id'', JStr mid), (''ref_id'', JStr ref_id)])
                   (JObj [(''mandate_id'', JStr mid), (''ref_id'', JStr ref_id),
                          (''amount_minor'', JInt amount_minor)])) (\<lambda>_.
                return (Some ref_id))))))))"

definition somes :: "'a option list \<Rightarrow> 'a list" where
  "somes xs = [x. Some x \<leftarrow> xs]"

definition sweep :: "int \<Rightarrow> ('p, string list) app" where
  "sweep ttl_s =
     bind raise_if_halted (\<lambda>_.
     bind clock_now (\<lambda>now.
     bind (ledger_list_reservations_older_than (now - timedelta_s ttl_s)) (\<lambda>refs.
     bind (for_each refs sweep_one) (\<lambda>swept. return (somes swept)))))"

section \<open>Balances\<close>

definition signed :: "ledger_entry \<Rightarrow> int" where
  "signed e = (if le_direction e = ''debit'' then le_amount_minor e else - le_amount_minor e)"

lemma balance_of_sum: "balance_of es = sum_list (map signed es)"
proof -
  have "foldl (\<lambda>total (direction, amount). total + (if direction = ''debit'' then amount else - amount)) n
      (map (\<lambda>e. (le_direction e, le_amount_minor e)) es) = n + sum_list (map signed es)" for n
    by (induction es arbitrary: n) (simp_all add: signed_def)
  then show ?thesis by (simp add: balance_of_def net_balance_def)
qed

lemma account_inject [simp]:
  "account m ''reserved'' = account n ''reserved'' \<longleftrightarrow> m = n"
  "account m ''settled'' = account n ''settled'' \<longleftrightarrow> m = n"
  by (simp_all add: account_def)

lemma account_distinct [simp]:
  "account m ''reserved'' \<noteq> account n ''settled''" "account n ''settled'' \<noteq> account m ''reserved''"
  "account m ''available'' \<noteq> account n ''settled''" "account m ''available'' \<noteq> account n ''reserved''"
proof -
  have tails: "take 3 (rev (account m b)) = take 3 (rev b)" if "3 \<le> length b" for m b
    using that by (simp add: account_def)
  have "account m b \<noteq> account n c" if "take 3 (rev b) \<noteq> take 3 (rev c)" "3 \<le> length b" "3 \<le> length c" for m n b c
    using that tails by metis
  then show "account m ''reserved'' \<noteq> account n ''settled''" "account n ''settled'' \<noteq> account m ''reserved''"
    "account m ''available'' \<noteq> account n ''settled''" "account m ''available'' \<noteq> account n ''reserved''"
    by simp_all
qed

lemma mandate_id_from_account [simp]:
  "CHR '':'' \<notin> set m \<Longrightarrow> mandate_id_from_account (account m b) = m"
proof -
  assume m: "CHR '':'' \<notin> set m"
  have "mandate_id_from_account (account m b) = takeWhile (\<lambda>c. c \<noteq> CHR '':'') (m @ CHR '':'' # b)"
    by (simp add: mandate_id_from_account_def remove_prefix_def account_def)
  also have "\<dots> = m" using m by (subst takeWhile_append2) auto
  finally show ?thesis .
qed

definition committed :: "string \<Rightarrow> ledger_entry list \<Rightarrow> int" where
  "committed m es =
     balance_of (filter (\<lambda>e. le_account e = account m ''reserved'') es) +
     balance_of (filter (\<lambda>e. le_account e = account m ''settled'') es)"

definition weight :: "string \<Rightarrow> ledger_entry \<Rightarrow> int" where
  "weight m e =
     (if le_account e = account m ''reserved'' \<or> le_account e = account m ''settled'' then signed e else 0)"

lemma committed_weight: "committed m es = sum_list (map (weight m) es)"
  by (induction es) (auto simp: committed_def balance_of_sum weight_def)

lemma sum_by_ref:
  assumes "finite R" "le_ref_id ` set es \<subseteq> R"
  shows "sum_list (map f es) = (\<Sum>r\<in>R. sum_list (map f (filter (\<lambda>e. le_ref_id e = r) es)))"
  using assms(2)
proof (induction es)
  case (Cons e es)
  have "(\<Sum>r\<in>R. sum_list (map f (filter (\<lambda>e. le_ref_id e = r) (e # es)))) =
        (\<Sum>r\<in>R. (if r = le_ref_id e then f e else 0) + sum_list (map f (filter (\<lambda>e. le_ref_id e = r) es)))"
    by (rule sum.cong) auto
  also have "\<dots> = f e + (\<Sum>r\<in>R. sum_list (map f (filter (\<lambda>e. le_ref_id e = r) es)))"
    using assms(1) Cons.prems by (simp add: sum.distrib)
  finally show ?case using Cons by simp
qed simp

section \<open>The life of a reservation\<close>

datatype stage = Held | Captured | Reversed | Released | Expired

type_synonym entry_key = "string \<times> string \<times> int \<times> string"

definition lk :: "ledger_entry \<Rightarrow> entry_key" where
  "lk e = (le_account e, le_direction e, le_amount_minor e, le_ref_type e)"

definition move :: "ledger_movement list \<Rightarrow> string \<Rightarrow> entry_key list" where
  "move mvs rt = map (\<lambda>mv. (mv_account mv, mv_direction mv, mv_amount_minor mv, rt)) mvs"

fun trail :: "string \<Rightarrow> int \<Rightarrow> stage option \<Rightarrow> entry_key list" where
  "trail m a None = []"
| "trail m a (Some Held) = move (reserve_movements m a) ''reservation''"
| "trail m a (Some Captured) = move (reserve_movements m a) ''reservation'' @ move (capture_movements m a) ''capture''"
| "trail m a (Some Released) = move (reserve_movements m a) ''reservation'' @ move (release_movements m a) ''release''"
| "trail m a (Some Expired) = move (reserve_movements m a) ''reservation'' @ move (release_movements m a) ''expire''"
| "trail m a (Some Reversed) = move (reserve_movements m a) ''reservation'' @ move (capture_movements m a) ''capture'' @
     move (reverse_movements m a) ''reverse''"

definition stage_of :: "ledger_entry list \<Rightarrow> stage option" where
  "stage_of es =
     (let ref_types = map le_ref_type es in
      if ''reverse'' \<in> set ref_types then Some Reversed
      else if ''expire'' \<in> set ref_types then Some Expired
      else if ''release'' \<in> set ref_types then Some Released
      else if ''capture'' \<in> set ref_types then Some Captured
      else if ''reservation'' \<in> set ref_types then Some Held
      else None)"

definition ref_entries :: "string \<Rightarrow> ledger_entry list \<Rightarrow> ledger_entry list" where
  "ref_entries ref es = filter (\<lambda>e. le_ref_id e = ref) es"

abbreviation stage_at :: "string \<Rightarrow> ledger_entry list \<Rightarrow> stage option" where
  "stage_at ref es \<equiv> stage_of (ref_entries ref es)"

lemmas movement_defs = reserve_movements_def capture_movements_def release_movements_def reverse_movements_def move_def

lemma stage_of_Nil [simp]: "stage_of [] = None"
  by (simp add: stage_of_def)

lemma types_of_keys: "map le_ref_type es = map (\<lambda>k. snd (snd (snd k))) (map lk es)"
  by (simp add: lk_def)

lemma trail_stage: "map lk es = trail m a s \<Longrightarrow> stage_of es = s"
  unfolding stage_of_def types_of_keys
  by (cases s; (simp add: movement_defs)?) (rename_tac x, case_tac x; simp add: movement_defs)

text \<open>What the code's \<open>_state_of\<close> sees of a stage: a reversed settlement still reads as captured.\<close>

fun seen :: "stage \<Rightarrow> reservation_state" where
  "seen Held = RES_HELD"
| "seen Captured = RES_CAPTURED"
| "seen Reversed = RES_CAPTURED"
| "seen Released = RES_RELEASED"
| "seen Expired = RES_EXPIRED"

lemma trail_state: "map lk es = trail m a s \<Longrightarrow> state_of es = map_option seen s"
  unfolding state_of_def types_of_keys
  by (cases s; (simp add: movement_defs)?) (rename_tac x, case_tac x; simp add: movement_defs)

type_synonym terms = "string \<Rightarrow> string \<times> int"

text \<open>
  \<open>terms ref\<close> is the mandate and the amount that every call for the reference carries.
\<close>

definition ledger_ok :: "terms \<Rightarrow> ledger_entry list \<Rightarrow> bool" where
  "ledger_ok T es \<longleftrightarrow>
     (\<forall>ref. map lk (ref_entries ref es) = trail (fst (T ref)) (snd (T ref)) (stage_at ref es)) \<and>
     list_all (\<lambda>e. ledger_row_ok e \<and> CHR '':'' \<notin> set (fst (T (le_ref_id e)))) es"

definition live :: "stage option \<Rightarrow> bool" where
  "live s \<longleftrightarrow> s = Some Held \<or> s = Some Captured"

definition active_total :: "terms \<Rightarrow> string \<Rightarrow> ledger_entry list \<Rightarrow> int" where
  "active_total T m es =
     (\<Sum>ref\<in>set (map le_ref_id es). if fst (T ref) = m \<and> live (stage_at ref es) then snd (T ref) else 0)"

lemma trail_weight:
  assumes "map lk es = trail n a s"
  shows "sum_list (map (weight m) es) = (if n = m \<and> live s then a else 0)"
proof -
  define kw where "kw = (\<lambda>(acc, dir, amt :: int, t :: string).
    if acc = account m ''reserved'' \<or> acc = account m ''settled'' then (if dir = ''debit'' then amt else - amt) else 0)"
  have "map (weight m) es = map kw (map lk es)" by (simp add: kw_def weight_def signed_def lk_def)
  also have "\<dots> = map kw (trail n a s)" by (simp add: assms)
  finally show ?thesis
    by (cases s; (simp add: live_def)?) (rename_tac x, case_tac x; simp add: movement_defs kw_def live_def)
qed

text \<open>The balance the code checks against the cap is the sum of the live reservations.\<close>

lemma committed_active:
  assumes "ledger_ok T es"
  shows "committed m es = active_total T m es"
proof -
  let ?R = "set (map le_ref_id es)"
  have "committed m es = (\<Sum>ref\<in>?R. sum_list (map (weight m) (ref_entries ref es)))"
    unfolding committed_weight ref_entries_def by (rule sum_by_ref) auto
  also have "\<dots> = active_total T m es"
    unfolding active_total_def
    by (rule sum.cong [OF refl], rule trail_weight) (use assms in \<open>simp add: ledger_ok_def\<close>)
  finally show ?thesis .
qed

section \<open>What the operations do\<close>

definition moved :: "ledger_movement list \<Rightarrow> string \<Rightarrow> string \<Rightarrow> ledger_entry list \<Rightarrow> ledger_entry list \<Rightarrow> bool" where
  "moved mvs rt ref es es' \<longleftrightarrow>
     (\<exists>new. es' = es @ new \<and> map lk new = move mvs rt \<and> list_all (\<lambda>e. le_ref_id e = ref \<and> ledger_row_ok e) new)"

definition writes_ledger :: "db \<Rightarrow> db \<Rightarrow> bool" where
  "writes_ledger d d' \<longleftrightarrow> d' = d\<lparr>ledger_entries := ledger_entries d'\<rparr>"

lemma writes_ledger_simps [simp]: "writes_ledger d d" "writes_ledger d (d\<lparr>ledger_entries := es\<rparr>)"
  by (simp_all add: writes_ledger_def)

lemma writes_ledgerD: "writes_ledger d d' \<Longrightarrow> mandates d' = mandates d \<and> audit_log d' = audit_log d \<and>
    audit_checkpoints d' = audit_checkpoints d \<and> orders d' = orders d"
  unfolding writes_ledger_def by (metis db.select_convs db.surjective db.update_convs(7))

lemma wp_add_movements:
  "wp (add_movements [mv1, mv2] rt ref)
     (\<lambda>_ w'. moved [mv1, mv2] rt ref (ledger_entries (session w)) (ledger_entries (session w')) \<and>
             writes_ledger (session w) (session w'))
     (\<lambda>e w'. e = DBAPIError) w"
  unfolding add_movements_def ledger_add_def moved_def
  by (simp add: movement_entry_def move_def lk_def)

lemma wp_move:
  assumes "mvs \<in> {reserve_movements m a, capture_movements m a, release_movements m a, reverse_movements m a}"
  shows "wp (add_movements mvs rt ref)
     (\<lambda>_ w'. moved mvs rt ref (ledger_entries (session w)) (ledger_entries (session w')) \<and>
             writes_ledger (session w) (session w'))
     (\<lambda>e w'. e = DBAPIError) w"
  using assms wp_add_movements by (auto simp: reserve_movements_def capture_movements_def release_movements_def reverse_movements_def)

lemmas wp_moves = wp_mono [OF wp_move]

lemma wp_reserve:
  "wp (reserve m a max_total ref)
     (\<lambda>r w'. writes_ledger (session w) (session w') \<and>
        (if mandates (session w) m = None then r = None \<and> session w' = session w
         else if ref_entries ref (ledger_entries (session w)) \<noteq> [] then
           r = Some \<lparr>rv_ref_id = ref, rv_mandate_id = m, rv_amount_minor = a\<rparr> \<and> session w' = session w
         else if committed m (ledger_entries (session w)) + a > max_total then r = None \<and> session w' = session w
         else r = Some \<lparr>rv_ref_id = ref, rv_mandate_id = m, rv_amount_minor = a\<rparr> \<and>
           moved (reserve_movements m a) ''reservation'' ref (ledger_entries (session w)) (ledger_entries (session w'))))
     (\<lambda>e w'. e = DBAPIError) w"
  unfolding reserve_def mandates_get_for_update_def ledger_list_for_ref_id_def ledger_list_for_account_def Let_def
    ref_entries_def committed_def
  by (auto intro!: wp_moves)

lemma wp_capture:
  "wp (capture m a ref)
     (\<lambda>r w'. writes_ledger (session w) (session w') \<and>
        (let s = state_of (ref_entries ref (ledger_entries (session w))); known = (mandates (session w) m \<noteq> None) in
         if known \<and> s = Some RES_HELD then
           r \<and> moved (capture_movements m a) ''capture'' ref (ledger_entries (session w)) (ledger_entries (session w'))
         else session w' = session w \<and> r = (known \<and> s = Some RES_CAPTURED)))
     (\<lambda>e w'. e = DBAPIError) w"
  unfolding capture_def mandates_get_for_update_def ledger_list_for_ref_id_def Let_def ref_entries_def
  by (auto intro!: wp_moves)

lemma wp_release:
  "wp (release m a ref)
     (\<lambda>r w'. writes_ledger (session w) (session w') \<and>
        (let s = state_of (ref_entries ref (ledger_entries (session w))); known = (mandates (session w) m \<noteq> None) in
         if known \<and> s = Some RES_HELD then
           r \<and> moved (release_movements m a) ''release'' ref (ledger_entries (session w)) (ledger_entries (session w'))
         else session w' = session w \<and> r = (known \<and> s = Some RES_RELEASED)))
     (\<lambda>e w'. e = DBAPIError) w"
  unfolding release_def mandates_get_for_update_def ledger_list_for_ref_id_def Let_def ref_entries_def
  by (auto intro!: wp_moves)

lemma wp_reverse_settlement:
  "wp (reverse_settlement m a ref)
     (\<lambda>r w'. writes_ledger (session w) (session w') \<and>
        (let types = le_ref_type ` set (ref_entries ref (ledger_entries (session w)));
             known = (mandates (session w) m \<noteq> None) in
         if known \<and> ''capture'' \<in> types \<and> ''reverse'' \<notin> types then
           r \<and> moved (reverse_movements m a) ''reverse'' ref (ledger_entries (session w)) (ledger_entries (session w'))
         else session w' = session w \<and> r = (known \<and> ''reverse'' \<in> types)))
     (\<lambda>e w'. e = DBAPIError) w"
  unfolding reverse_settlement_def mandates_get_for_update_def ledger_list_for_ref_id_def Let_def ref_entries_def
  by (auto intro!: wp_moves)

lemma wp_committed_total:
  "wp (committed_total m) (\<lambda>r w'. r = committed m (ledger_entries (session w)) \<and> session w' = session w)
     (\<lambda>e w'. e = DBAPIError \<and> session w' = session w) w"
  unfolding committed_total_def ledger_list_for_account_def committed_def by simp

text \<open>A movement that continues the trail of its reference keeps the ledger valid.\<close>

lemma moved_ok:
  assumes ok: "ledger_ok T es" and mv: "moved mvs rt ref es es'" and T: "T ref = (m, a)" and m: "CHR '':'' \<notin> set m"
    and tr: "trail m a (Some s') = trail m a (stage_at ref es) @ move mvs rt"
  shows "ledger_ok T es' \<and> stage_at ref es' = Some s' \<and> (\<forall>r. r \<noteq> ref \<longrightarrow> ref_entries r es' = ref_entries r es)"
proof -
  obtain new where new: "es' = es @ new" "map lk new = move mvs rt"
    "list_all (\<lambda>e. le_ref_id e = ref \<and> ledger_row_ok e) new"
    using mv by (auto simp: moved_def)
  have other: "ref_entries r es' = ref_entries r es" if "r \<noteq> ref" for r
    using new that by (auto simp: ref_entries_def list_all_iff filter_empty_conv)
  have "ref_entries ref es' = ref_entries ref es @ new"
    using new by (auto simp: ref_entries_def list_all_iff filter_id_conv)
  then have keys: "map lk (ref_entries ref es') = trail m a (Some s')"
    using ok T tr new(2) by (simp add: ledger_ok_def)
  then have stage: "stage_at ref es' = Some s'" by (rule trail_stage)
  have "map lk (ref_entries r es') = trail (fst (T r)) (snd (T r)) (stage_at r es')" for r
    using ok T keys stage other by (cases "r = ref") (simp_all add: ledger_ok_def)
  then have "ledger_ok T es'" using ok new T m by (auto simp: ledger_ok_def list_all_iff)
  then show ?thesis using stage other by blast
qed

lemma moved_committed:
  assumes "moved mvs rt ref es es'"
  shows "committed m es' = committed m es +
    sum_list (map (\<lambda>mv. if mv_account mv = account m ''reserved'' \<or> mv_account mv = account m ''settled''
      then (if mv_direction mv = ''debit'' then mv_amount_minor mv else - mv_amount_minor mv) else 0) mvs)"
proof -
  obtain new where new: "es' = es @ new" "map lk new = move mvs rt" using assms by (auto simp: moved_def)
  define kw where "kw = (\<lambda>(acc, dir, amt :: int, t :: string).
    if acc = account m ''reserved'' \<or> acc = account m ''settled'' then (if dir = ''debit'' then amt else - amt) else 0)"
  have "map (weight m) new = map kw (map lk new)" by (simp add: kw_def weight_def signed_def lk_def)
  also have "\<dots> = map (\<lambda>mv. if mv_account mv = account m ''reserved'' \<or> mv_account mv = account m ''settled''
      then (if mv_direction mv = ''debit'' then mv_amount_minor mv else - mv_amount_minor mv) else 0) mvs"
    unfolding new(2) by (simp add: move_def kw_def)
  finally show ?thesis by (simp add: committed_weight new(1))
qed

lemma moved_amount: "moved mvs rt ref es es' \<Longrightarrow> mv \<in> set mvs \<Longrightarrow> 0 < mv_amount_minor mv"
proof -
  assume "moved mvs rt ref es es'" and mv: "mv \<in> set mvs"
  then obtain new where new: "map lk new = move mvs rt" "list_all ledger_row_ok new"
    by (auto simp: moved_def list_all_iff)
  have "(mv_account mv, mv_direction mv, mv_amount_minor mv, rt) \<in> set (map lk new)"
    unfolding new(1) using mv by (auto simp: move_def)
  then show ?thesis using new(2) by (auto simp: lk_def list_all_iff ledger_row_ok_def)
qed

section \<open>Refinement of the reservation life cycle\<close>

datatype ledger_call = Do_capture | Do_release | Do_reverse

definition run_call :: "ledger_call \<Rightarrow> string \<Rightarrow> int \<Rightarrow> string \<Rightarrow> ('p, bool) app" where
  "run_call c m a ref =
     (case c of Do_capture \<Rightarrow> capture m a ref | Do_release \<Rightarrow> release m a ref | Do_reverse \<Rightarrow> reverse_settlement m a ref)"

text \<open>The abstract machine: the answer and the next stage.\<close>

fun lifecycle_step :: "ledger_call \<Rightarrow> stage option \<Rightarrow> bool \<times> stage option" where
  "lifecycle_step Do_capture (Some Held) = (True, Some Captured)"
| "lifecycle_step Do_capture (Some Captured) = (True, Some Captured)"
| "lifecycle_step Do_capture (Some Reversed) = (True, Some Reversed)"
| "lifecycle_step Do_release (Some Held) = (True, Some Released)"
| "lifecycle_step Do_release (Some Released) = (True, Some Released)"
| "lifecycle_step Do_reverse (Some Captured) = (True, Some Reversed)"
| "lifecycle_step Do_reverse (Some Reversed) = (True, Some Reversed)"
| "lifecycle_step c s = (False, s)"

lemma ledger_ok_keys: "ledger_ok T es \<Longrightarrow> T ref = (m, a) \<Longrightarrow> map lk (ref_entries ref es) = trail m a (stage_at ref es)"
  by (simp add: ledger_ok_def)

lemma ledger_ok_no_colon:
  assumes "ledger_ok T es" "T ref = (m, a)" "stage_at ref es \<noteq> None"
  shows "CHR '':'' \<notin> set m"
proof -
  have "ref_entries ref es \<noteq> []" using assms(3) by auto
  then obtain e where "e \<in> set (ref_entries ref es)" by (meson list.set_sel(1))
  then have "e \<in> set es" "le_ref_id e = ref" by (simp_all add: ref_entries_def)
  then show ?thesis using assms(1,2) by (auto simp: ledger_ok_def list_all_iff)
qed

lemma ledger_ok_types:
  assumes "ledger_ok T es" "T ref = (m, a)"
  shows "''reverse'' \<in> le_ref_type ` set (ref_entries ref es) \<longleftrightarrow> stage_at ref es = Some Reversed"
    "''capture'' \<in> le_ref_type ` set (ref_entries ref es) \<longleftrightarrow> stage_at ref es \<in> {Some Captured, Some Reversed}"
proof -
  have "le_ref_type ` set (ref_entries ref es) = set (map (\<lambda>k. snd (snd (snd k))) (trail m a (stage_at ref es)))"
    unfolding ledger_ok_keys [OF assms, symmetric] by (auto simp: lk_def)
  then show "''reverse'' \<in> le_ref_type ` set (ref_entries ref es) \<longleftrightarrow> stage_at ref es = Some Reversed"
    "''capture'' \<in> le_ref_type ` set (ref_entries ref es) \<longleftrightarrow> stage_at ref es \<in> {Some Captured, Some Reversed}"
    by (cases "stage_at ref es"; (simp add: movement_defs)?; (rename_tac x, case_tac x; simp add: movement_defs)?)+
qed

lemma call_refines:
  assumes ok: "ledger_ok T (ledger_entries (session w))" and T: "T ref = (m, a)"
    and known: "mandates (session w) m \<noteq> None"
  shows "wp (run_call c m a ref)
     (\<lambda>r w'. (r, stage_at ref (ledger_entries (session w'))) =
          lifecycle_step c (stage_at ref (ledger_entries (session w))) \<and>
        ledger_ok T (ledger_entries (session w')) \<and> writes_ledger (session w) (session w') \<and>
        (\<forall>x. x \<noteq> ref \<longrightarrow> ref_entries x (ledger_entries (session w')) = ref_entries x (ledger_entries (session w))))
     (\<lambda>e w'. e = DBAPIError) w"
proof -
  let ?es = "ledger_entries (session w)"
  let ?s = "stage_at ref ?es"
  have st: "state_of (ref_entries ref ?es) = map_option seen ?s"
    using trail_state [OF ledger_ok_keys [OF ok T]] .
  note types = ledger_ok_types [OF ok T]
  have cont: "ledger_ok T es' \<and> stage_at ref es' = Some s' \<and> (\<forall>r. r \<noteq> ref \<longrightarrow> ref_entries r es' = ref_entries r ?es)"
    if "moved mvs rt ref ?es es'" "?s = Some s" "trail m a (Some s') = trail m a (Some s) @ move mvs rt" for mvs rt es' s s'
    using moved_ok [OF ok that(1) T ledger_ok_no_colon [OF ok T]] that by auto
  show ?thesis
  proof (cases c)
    case Do_capture
    show ?thesis unfolding Do_capture run_call_def ledger_call.case
    proof (rule wp_mono [OF wp_capture], goal_cases)
      case (1 r w')
      then show ?case using cont [of "capture_movements m a" "''capture''" _ Held Captured] known st ok
        by (cases ?s; (simp add: Let_def)?; (rename_tac x, case_tac x; simp add: Let_def)?)
    qed simp
  next
    case Do_release
    show ?thesis unfolding Do_release run_call_def ledger_call.case
    proof (rule wp_mono [OF wp_release], goal_cases)
      case (1 r w')
      then show ?case using cont [of "release_movements m a" "''release''" _ Held Released] known st ok
        by (cases ?s; (simp add: Let_def)?; (rename_tac x, case_tac x; simp add: Let_def)?)
    qed simp
  next
    case Do_reverse
    show ?thesis unfolding Do_reverse run_call_def ledger_call.case
    proof (rule wp_mono [OF wp_reverse_settlement], goal_cases)
      case (1 r w')
      then show ?case using cont [of "reverse_movements m a" "''reverse''" _ Captured Reversed] known types ok
        by (cases ?s; (simp add: Let_def)?; (rename_tac x, case_tac x; simp add: Let_def)?)
    qed simp
  qed
qed

section \<open>The budget\<close>

definition budget_ok :: "terms \<Rightarrow> (string \<Rightarrow> int) \<Rightarrow> db \<Rightarrow> bool" where
  "budget_ok T M d \<longleftrightarrow> audit_ok d \<and> ledger_ok T (ledger_entries d) \<and>
     (\<forall>m. active_total T m (ledger_entries d) \<le> M m)"

datatype ledger_op =
    Reserve string int int string
  | Call ledger_call string int string
  | Sweep int

definition discard :: "('p, 'a) app \<Rightarrow> ('p, unit) app" where
  "discard m = bind m (\<lambda>_. return ())"

primrec ledger_step :: "ledger_op \<Rightarrow> ('p, unit) app" where
  "ledger_step (Reserve m a max_total ref) = discard (reserve m a max_total ref)"
| "ledger_step (Call c m a ref) = discard (run_call c m a ref)"
| "ledger_step (Sweep ttl) = discard (sweep ttl)"

primrec agreed :: "terms \<Rightarrow> (string \<Rightarrow> int) \<Rightarrow> ledger_op \<Rightarrow> bool" where
  "agreed T M (Reserve m a max_total ref) \<longleftrightarrow> T ref = (m, a) \<and> max_total \<le> M m \<and> CHR '':'' \<notin> set m"
| "agreed T M (Call c m a ref) \<longleftrightarrow> T ref = (m, a)"
| "agreed T M (Sweep ttl) \<longleftrightarrow> True"

lemma audit_ok_ledger: "writes_ledger d d' \<Longrightarrow> audit_ok d \<Longrightarrow> audit_ok d'"
  using writes_ledgerD by (fastforce simp: audit_ok_def)

text \<open>A movement other than a reservation never raises what is committed.\<close>

lemma moved_lowers:
  assumes "moved mvs rt ref es es'"
    and "mvs \<in> {capture_movements n a, release_movements n a, reverse_movements n a}"
  shows "committed m es' \<le> committed m es"
proof -
  have "mvs \<noteq> []" "mv_amount_minor (hd mvs) = a" "hd mvs \<in> set mvs"
    using assms(2) by (auto simp: movement_defs)
  then have "0 < a" using moved_amount [OF assms(1)] by metis
  then show ?thesis
    using assms(2) moved_committed [OF assms(1), of m] by (auto simp: movement_defs)
qed

lemma budget_ok_committed:
  "budget_ok T M d \<longleftrightarrow> audit_ok d \<and> ledger_ok T (ledger_entries d) \<and> (\<forall>m. committed m (ledger_entries d) \<le> M m)"
  by (auto simp: budget_ok_def committed_active)

lemma budget_step:
  assumes "budget_ok T M d" "audit_ok d'" "ledger_ok T (ledger_entries d')"
    and "\<And>m. committed m (ledger_entries d') \<le> committed m (ledger_entries d)"
  shows "budget_ok T M d'"
  using assms by (meson budget_ok_committed order_trans)

lemma reserve_keeps_budget:
  assumes J: "budget_ok T M (session w)" and ag: "agreed T M (Reserve m a max_total ref)"
  shows "wp (reserve m a max_total ref) (\<lambda>r w'. budget_ok T M (session w')) (\<lambda>e w'. True) w"
proof (rule wp_mono [OF wp_reserve], goal_cases)
  case (1 r w')
  let ?es = "ledger_entries (session w)" and ?es' = "ledger_entries (session w')"
  have ok: "ledger_ok T ?es" and cap: "\<And>n. committed n ?es \<le> M n"
    using J by (simp_all add: budget_ok_committed)
  show ?case
  proof (cases "moved (reserve_movements m a) ''reservation'' ref ?es ?es' \<and> ref_entries ref ?es = [] \<and>
      committed m ?es + a \<le> max_total")
    case True
    then have "ledger_ok T ?es'"
      using moved_ok [OF ok, of "reserve_movements m a" "''reservation''" ref ?es' m a Held] ag by simp
    moreover have "committed n ?es' \<le> M n" for n
      using True ag cap [of n] moved_committed [of "reserve_movements m a" "''reservation''" ref ?es ?es' n]
      by (auto simp: reserve_movements_def)
    ultimately show ?thesis
      using J 1 audit_ok_ledger by (auto simp: budget_ok_committed)
  next
    case False
    then show ?thesis using 1 J by (auto split: if_splits)
  qed
qed simp

lemma call_keeps_budget:
  assumes J: "budget_ok T M (session w)" and T: "T ref = (m, a)"
  shows "wp (run_call c m a ref) (\<lambda>r w'. budget_ok T M (session w')) (\<lambda>e w'. True) w"
proof (cases "mandates (session w) m = None")
  case True
  have "wp (run_call c m a ref) (\<lambda>r w'. session w' = session w) (\<lambda>e w'. True) w"
    using True unfolding run_call_def capture_def release_def reverse_settlement_def mandates_get_for_update_def
    by (cases c) simp_all
  then show ?thesis by (rule wp_mono) (use J in simp_all)
next
  case False
  have ok: "ledger_ok T (ledger_entries (session w))" using J by (simp add: budget_ok_def)
  have low: "wp (run_call c m a ref) (\<lambda>r w'. \<forall>n. committed n (ledger_entries (session w')) \<le> committed n (ledger_entries (session w)))
      (\<lambda>e w'. True) w"
  proof (cases c)
    case Do_capture
    show ?thesis unfolding Do_capture run_call_def ledger_call.case
      by (rule wp_mono [OF wp_capture]) (auto simp: Let_def split: if_splits dest: moved_lowers)
  next
    case Do_release
    show ?thesis unfolding Do_release run_call_def ledger_call.case
      by (rule wp_mono [OF wp_release]) (auto simp: Let_def split: if_splits dest: moved_lowers)
  next
    case Do_reverse
    show ?thesis unfolding Do_reverse run_call_def ledger_call.case
      by (rule wp_mono [OF wp_reverse_settlement]) (auto simp: Let_def split: if_splits dest: moved_lowers)
  qed
  show ?thesis
    by (rule wp_mono [OF wp_conj [OF call_refines [OF ok T False] low]])
      (use J audit_ok_ledger in \<open>auto simp: budget_ok_committed intro: order_trans\<close>)
qed

section \<open>The sweeper\<close>

lemma held_entry:
  assumes "map lk es = trail m a (Some Held)"
  shows "\<exists>e. find (\<lambda>e. le_ref_type e = ''reservation'' \<and> le_direction e = ''debit'') es = Some e \<and>
    le_account e = account m ''reserved'' \<and> le_amount_minor e = a"
proof -
  obtain e1 e2 where "es = [e1, e2]" "lk e1 = (account m ''available'', ''credit'', a, ''reservation'')"
    "lk e2 = (account m ''reserved'', ''debit'', a, ''reservation'')"
    using assms by (auto simp: movement_defs map_eq_Cons_conv)
  then show ?thesis by (auto simp: lk_def)
qed

definition sweepable :: "terms \<Rightarrow> db \<Rightarrow> string \<Rightarrow> bool" where
  "sweepable T d ref \<longleftrightarrow> stage_at ref (ledger_entries d) = Some Held \<and> mandates d (fst (T ref)) \<noteq> None"

text \<open>What one round of the sweeper leaves: the swept references expired, everything else as it was.\<close>

definition swept_from :: "terms \<Rightarrow> db \<Rightarrow> string list \<Rightarrow> db \<Rightarrow> bool" where
  "swept_from T d refs d' \<longleftrightarrow>
     mandates d' = mandates d \<and> audit_ok d' \<and> ledger_ok T (ledger_entries d') \<and>
     (\<forall>m. committed m (ledger_entries d') \<le> committed m (ledger_entries d)) \<and>
     (\<forall>r. stage_at r (ledger_entries d') = (if r \<in> set refs then Some Expired else stage_at r (ledger_entries d))) \<and>
     length (audit_log d') = length (audit_log d) + length refs"

lemma swept_from_trans:
  "swept_from T d refs d1 \<Longrightarrow> swept_from T d1 refs' d2 \<Longrightarrow> swept_from T d (refs @ refs') d2"
  unfolding swept_from_def by (auto intro: order_trans)

lemma wp_append_frame:
  assumes "audit_ok (session w)" "no_floats pay"
  shows "wp (append_entry t y a act subj pay)
    (\<lambda>r w'. audit_ok (session w') \<and> audit_log (session w') = audit_log (session w) @ [r] \<and>
       ledger_entries (session w') = ledger_entries (session w) \<and> mandates (session w') = mandates (session w))
    (\<lambda>e w'. e = DBAPIError) w"
proof -
  have frame: "preserves (\<lambda>d. (ledger_entries d, mandates d)) (append_entry t y a act subj pay :: ('p, audit_row) app)"
    by (intro preserves_rules) simp_all
  show ?thesis
    by (rule wp_mono [OF wp_conj [OF append_entry_ok [OF assms(1)] preserves_wp [OF frame]]])
      (use assms(2) in auto)
qed

lemma sweep_expires:
  assumes ok: "ledger_ok T (ledger_entries (session w))" and aud: "audit_ok (session w)" and T: "T ref = (m, a)"
    and held: "stage_at ref (ledger_entries (session w)) = Some Held" and m: "CHR '':'' \<notin> set m"
    and same: "session u = session w"
  shows "wp (add_movements (release_movements m a) ''expire'' ref)
    (\<lambda>_. wp (bind (append_entry trace_id ''system'' ''sweeper'' RESERVATION_EXPIRED
           (JObj [(''mandate_id'', JStr m), (''ref_id'', JStr ref)])
           (JObj [(''mandate_id'', JStr m), (''ref_id'', JStr ref), (''amount_minor'', JInt a)])) (\<lambda>_.
        return (Some ref)))
      (\<lambda>r w'. r = Some ref \<and> swept_from T (session w) [ref] (session w')) (\<lambda>e w'. e = DBAPIError))
    (\<lambda>e w'. e = DBAPIError) u"
proof (rule wp_mono [OF wp_move [of _ m a]], goal_cases)
  case (2 x u1)
  let ?es = "ledger_entries (session w)"
  have mv: "moved (release_movements m a) ''expire'' ref ?es (ledger_entries (session u1))"
    and wl: "writes_ledger (session w) (session u1)" using 2 same by simp_all
  have l: "ledger_ok T (ledger_entries (session u1)) \<and> stage_at ref (ledger_entries (session u1)) = Some Expired \<and>
      (\<forall>r. r \<noteq> ref \<longrightarrow> ref_entries r (ledger_entries (session u1)) = ref_entries r ?es)"
    by (rule moved_ok [OF ok mv T m]) (simp add: held)
  have low: "committed n (ledger_entries (session u1)) \<le> committed n ?es" for n
    by (rule moved_lowers [OF mv, of m a]) simp
  show ?case unfolding wp_bind
    by (rule wp_mono [OF wp_append_frame])
      (use l low audit_ok_ledger [OF wl aud] writes_ledgerD [OF wl] in \<open>auto simp: swept_from_def\<close>)
qed simp_all

lemma wp_sweep_one:
  fixes w :: "'p world"
  assumes ok: "ledger_ok T (ledger_entries (session w))" and aud: "audit_ok (session w)"
  shows "wp (sweep_one ref)
    (\<lambda>r w'. (if sweepable T (session w) ref then r = Some ref \<and> swept_from T (session w) [ref] (session w')
             else r = None \<and> session w' = session w))
    (\<lambda>e w'. e = DBAPIError) w"
proof -
  let ?es = "ledger_entries (session w)"
  obtain m a where T: "T ref = (m, a)" by fastforce
  note keys = ledger_ok_keys [OF ok T]
  have st: "state_of (ref_entries ref ?es) = Some RES_HELD \<longleftrightarrow> stage_at ref ?es = Some Held"
    using trail_state [OF keys] by (cases "stage_at ref ?es"; (simp; fail)?) (rename_tac x, case_tac x; simp)
  show ?thesis
  proof (cases "stage_at ref ?es = Some Held")
    case False
    then show ?thesis using st
      unfolding sweep_one_def ledger_list_for_ref_id_def ref_entries_def sweepable_def by simp
  next
    case True
    obtain e where e: "find (\<lambda>e. le_ref_type e = ''reservation'' \<and> le_direction e = ''debit'') (ref_entries ref ?es) = Some e"
      "le_account e = account m ''reserved''" "le_amount_minor e = a"
      using held_entry [of "ref_entries ref ?es" m a] keys True by auto
    have m: "CHR '':'' \<notin> set m" using ledger_ok_no_colon [OF ok T] True by simp
    have mid: "mandate_id_from_account (le_account e) = m" using e(2) m by simp
    show ?thesis
    proof (cases "mandates (session w) m")
      case None
      then show ?thesis using st True e(1) mid e(3)
        unfolding sweep_one_def ledger_list_for_ref_id_def ref_entries_def sweepable_def mandates_get_for_update_def
        by (simp add: T Let_def)
    next
      case (Some row)
      then show ?thesis using st True e(1) mid e(3)
        unfolding sweep_one_def ledger_list_for_ref_id_def ref_entries_def sweepable_def mandates_get_for_update_def
        by (simp add: T Let_def) (intro impI sweep_expires [OF ok aud T _ m], simp_all add: ref_entries_def)
    qed
  qed
qed

lemma wp_sweep_all:
  assumes "ledger_ok T (ledger_entries (session w))" "audit_ok (session w)" "distinct refs"
  shows "wp (for_each refs sweep_one)
    (\<lambda>rs w'. somes rs = filter (sweepable T (session w)) refs \<and> swept_from T (session w) (somes rs) (session w'))
    (\<lambda>e w'. e = DBAPIError) w"
  using assms
proof (induction refs arbitrary: w)
  case Nil
  then show ?case by (simp add: somes_def swept_from_def)
next
  case (Cons ref refs)
  show ?case unfolding for_each.simps wp_bind [of "sweep_one ref"]
  proof (rule wp_mono [OF wp_sweep_one [OF Cons.prems(1,2)]], goal_cases)
    case (1 r u)
    have u: "ledger_ok T (ledger_entries (session u))" "audit_ok (session u)"
      using 1 Cons.prems by (auto simp: swept_from_def split: if_splits)
    have same: "filter (sweepable T (session u)) refs = filter (sweepable T (session w)) refs"
      by (rule filter_cong [OF refl])
        (use 1 Cons.prems(3) in \<open>auto simp: sweepable_def swept_from_def split: if_splits\<close>)
    show ?case unfolding wp_bind
    proof (rule wp_mono [OF Cons.IH [OF u]], goal_cases)
      case (2 rs w')
      then show ?case using 1 same swept_from_trans [of T "session w" "[ref]" "session u"]
        by (auto simp: somes_def split: if_splits)
    qed (use Cons.prems(3) in simp_all)
  qed
qed

lemma wp_sweep:
  assumes "ledger_ok T (ledger_entries (session w))" "audit_ok (session w)" "halt_row (session w) = Some h"
  shows "wp (sweep ttl)
    (\<lambda>refs w'. \<not> ih_halted h \<and>
       refs = filter (sweepable T (session w)) (remdups (map le_ref_id (filter (\<lambda>e. le_ref_type e = ''reservation'' \<and>
         le_created_at e < clock w (clock_reads w) - timedelta_s ttl) (ledger_entries (session w))))) \<and>
       swept_from T (session w) refs (session w'))
    (\<lambda>e w'. e = DBAPIError \<or> ih_halted h \<and> (\<exists>r. e = IntegrityHalted r)) w"
  unfolding sweep_def raise_if_halted_def integrity_get_state_def ledger_list_reservations_older_than_def
  using assms by (auto simp: wp_db_call intro!: wp_mono [OF wp_sweep_all])

lemma local_ledger [local_rules]:
  "local (add_movements mvs rt ref)"
  "local (committed_total m1)"
  "local (reserve m2 a2 c2 r2)"
  "local (capture m3 a3 r3)"
  "local (reverse_settlement m4 a4 r4)"
  "local (release m5 a5 r5)"
  "local (sweep_one r6)"
  "local (sweep ttl)"
  unfolding add_movements_def committed_total_def reserve_def capture_def reverse_settlement_def release_def
    sweep_def sweep_one_def Let_def
  by (auto intro!: local_rules)

lemma sweep_keeps_budget:
  assumes J: "budget_ok T M (session w)"
  shows "wp (sweep ttl) (\<lambda>r w'. budget_ok T M (session w')) (\<lambda>e w'. True) w"
proof (cases "halt_row (session w)")
  case None
  then show ?thesis unfolding sweep_def raise_if_halted_def integrity_get_state_def by (simp add: wp_db_call)
next
  case (Some h)
  show ?thesis
    by (rule wp_mono [OF wp_sweep [OF _ _ Some]])
      (use J in \<open>auto simp: budget_ok_committed swept_from_def intro: order_trans\<close>)
qed

interpretation ledger_tx: transactional "budget_ok T M" ledger_step "agreed T M" for T M
proof
  show "local (ledger_step x)" for x
    by (cases x) (auto simp: discard_def run_call_def intro!: local_rules split: ledger_call.split)
  show "wp (ledger_step x) (\<lambda>r w'. budget_ok T M (session w')) (\<lambda>e w'. True) w"
    if "agreed T M x" "budget_ok T M (session w)" for x and w :: "'b world"
    using that
    by (cases x) (auto simp: discard_def intro!: wp_mono [OF reserve_keeps_budget] wp_mono [OF call_keeps_budget]
      wp_mono [OF sweep_keeps_budget])
qed

section \<open>Properties of the ledger\<close>

text \<open>
  C11. The spending limit: whatever transactions reserve, capture, release, reverse and sweep, in
  whatever order, with whatever failures and concurrent commits that respect the limit, the committed
  ledger never has live reservations (held or captured) of a mandate beyond its cap, and the balance
  the code computes is exactly that sum. The calls for one reference carry the same mandate and amount
  (\<open>T\<close>), and a reservation is checked against the mandate's cap (\<open>M\<close>).
\<close>

theorem budget_never_exceeded:
  assumes "budget_ok T M (durable w)" "\<And>n d. budget_ok T M d \<Longrightarrow> budget_ok T M (others w n d)"
    and "list_all (list_all (agreed T M)) txs"
    and "es = ledger_entries (durable (history ledger_step txs w))"
  shows "active_total T m es \<le> M m \<and> committed m es = active_total T m es"
proof -
  have "budget_ok T M (durable (history ledger_step txs w))"
    by (rule ledger_tx.history_keeps [OF assms(1-3)])
  then show ?thesis by (simp add: budget_ok_def committed_active assms(4))
qed

text \<open>The mandate of the examples, and a ledger with one held reservation.\<close>

definition goa_db :: db where
  "goa_db = empty_db\<lparr>mandates := [mandate_id goa_mandate \<mapsto> (goa_mandate, LOCKED)]\<rparr>"

definition sample_terms :: terms where
  "sample_terms ref = (mandate_id goa_mandate, if ref = ''dec_1'' then 400 else 300)"

definition held_db :: db where
  "held_db = goa_db\<lparr>ledger_entries :=
     map (\<lambda>mv. movement_entry mv ''reservation'' ''dec_1'' 0) (reserve_movements (mandate_id goa_mandate) 400)\<rparr>"

lemma goa_db_simps [simp]:
  "ledger_entries goa_db = []" "audit_ok goa_db" "mandates goa_db (mandate_id goa_mandate) = Some (goa_mandate, LOCKED)"
  "halt_row goa_db = Some \<lparr>ih_halted = False, ih_reason = None, ih_tripped_at = None, ih_tripped_seq = None\<rparr>"
  by (simp_all add: goa_db_def audit_ok_def)

lemma goa_no_colon [simp]: "CHR '':'' \<notin> set (mandate_id goa_mandate)"
  by (simp add: goa_mandate_def)

lemma budget_ok_empty: "(\<And>m. 0 \<le> M m) \<Longrightarrow> ledger_entries d = [] \<Longrightarrow> audit_ok d \<Longrightarrow> budget_ok T M d"
  by (simp add: budget_ok_def ledger_ok_def active_total_def ref_entries_def)

lemma held_db_simps [simp]:
  "audit_ok held_db" "mandates held_db (mandate_id goa_mandate) = Some (goa_mandate, LOCKED)"
  "halt_row held_db = Some \<lparr>ih_halted = False, ih_reason = None, ih_tripped_at = None, ih_tripped_seq = None\<rparr>"
  by (simp_all add: held_db_def goa_db_def audit_ok_def)

lemma held_db_ledger [simp]: "ledger_ok sample_terms (ledger_entries held_db)"
  and held_db_stage [simp]: "stage_at ''dec_1'' (ledger_entries held_db) = Some Held"
proof -
  let ?es = "ledger_entries held_db"
  have keys: "map lk (ref_entries ref ?es) = trail (fst (sample_terms ref)) (snd (sample_terms ref))
      (if ref = ''dec_1'' then Some Held else None)" for ref
    by (simp add: held_db_def ref_entries_def sample_terms_def movement_defs movement_entry_def lk_def)
  note stage = trail_stage [OF keys]
  show "stage_at ''dec_1'' ?es = Some Held" by (simp only: stage if_True refl)
  have "list_all (\<lambda>e. ledger_row_ok e \<and> CHR '':'' \<notin> set (fst (sample_terms (le_ref_id e)))) ?es"
    by (simp add: held_db_def movement_defs movement_entry_def ledger_row_ok_def sample_terms_def)
  then show "ledger_ok sample_terms ?es" by (simp only: ledger_ok_def stage keys simp_thms)
qed

definition sample_ledger_history :: "ledger_op list list" where
  "sample_ledger_history =
     [[Reserve (mandate_id goa_mandate) 400 500 ''dec_1''], [Reserve (mandate_id goa_mandate) 300 500 ''dec_2''],
      [Call Do_capture (mandate_id goa_mandate) 400 ''dec_1''], [Sweep 900]]"

theorem budget_never_exceeded_witness:
  "let es = ledger_entries (durable (history ledger_step sample_ledger_history (quiet_world 0 () goa_db)))
   in active_total sample_terms (mandate_id goa_mandate) es \<le> 500 \<and>
      committed (mandate_id goa_mandate) es = active_total sample_terms (mandate_id goa_mandate) es"
proof -
  have "budget_ok sample_terms (\<lambda>m. 500) goa_db" by (rule budget_ok_empty) simp_all
  then show ?thesis unfolding Let_def
    by (intro budget_never_exceeded [of sample_terms "\<lambda>m. 500", OF _ _ _ refl])
      (simp_all add: sample_ledger_history_def sample_terms_def)
qed

text \<open>
  C18. The reservation life cycle is implemented faithfully: on a valid ledger, capture, release and
  reversal answer and move the reference exactly as the abstract machine \<open>lifecycle_step\<close> does,
  so that repeating a call changes nothing and no reference is freed or settled twice. Other
  references are not touched, and the only error is one of the database.
\<close>

theorem ledger_refines_lifecycle:
  assumes "ledger_ok T (ledger_entries (session w))" "T ref = (m, a)" "mandates (session w) m \<noteq> None"
  shows "wp (run_call c m a ref)
     (\<lambda>r w'. (r, stage_at ref (ledger_entries (session w'))) =
          lifecycle_step c (stage_at ref (ledger_entries (session w))) \<and>
        ledger_ok T (ledger_entries (session w')) \<and>
        (\<forall>x. x \<noteq> ref \<longrightarrow> ref_entries x (ledger_entries (session w')) = ref_entries x (ledger_entries (session w))))
     (\<lambda>e w'. e = DBAPIError) w"
  by (rule wp_mono [OF call_refines [OF assms]]) simp_all

theorem ledger_refines_lifecycle_witness:
  "wp (run_call Do_release (mandate_id goa_mandate) 400 ''dec_1'')
     (\<lambda>r w'. r \<and> stage_at ''dec_1'' (ledger_entries (session w')) = Some Released \<and>
        ledger_ok sample_terms (ledger_entries (session w')) \<and>
        (\<forall>x. x \<noteq> ''dec_1'' \<longrightarrow> ref_entries x (ledger_entries (session w')) = ref_entries x (ledger_entries held_db)))
     (\<lambda>e w'. e = DBAPIError) (quiet_world 0 () held_db)"
  using ledger_refines_lifecycle [of sample_terms "quiet_world 0 () held_db" "''dec_1''" "mandate_id goa_mandate" 400 Do_release]
  by (simp add: sample_terms_def)

text \<open>
  Admission: a reservation for a fresh reference is admitted exactly when the live reservations
  of the mandate leave room for it; it then is held, and the room shrinks by its amount. A refusal
  changes nothing.
\<close>

theorem reserve_admits_exactly:
  assumes "ledger_ok T (ledger_entries (session w))" "T ref = (m, a)" "CHR '':'' \<notin> set m"
    and "mandates (session w) m \<noteq> None" "stage_at ref (ledger_entries (session w)) = None"
  shows "wp (reserve m a cap ref)
    (\<lambda>r w'. if active_total T m (ledger_entries (session w)) + a \<le> cap
       then r \<noteq> None \<and> stage_at ref (ledger_entries (session w')) = Some Held \<and>
            active_total T m (ledger_entries (session w')) = active_total T m (ledger_entries (session w)) + a
       else r = None \<and> session w' = session w)
    (\<lambda>e w'. e = DBAPIError) w"
proof (rule wp_mono [OF wp_reserve], goal_cases)
  case (1 r w')
  let ?es = "ledger_entries (session w)" and ?es' = "ledger_entries (session w')"
  have none: "ref_entries ref ?es = []"
    using ledger_ok_keys [OF assms(1,2)] assms(5) by simp
  have "ledger_ok T ?es' \<and> stage_at ref ?es' = Some Held \<and> committed m ?es' = committed m ?es + a"
    if "moved (reserve_movements m a) ''reservation'' ref ?es ?es'"
    using moved_ok [OF assms(1) that assms(2,3), of Held] assms(5) moved_committed [OF that, of m]
    by (auto simp: reserve_movements_def)
  then show ?case using 1 assms none by (auto simp: committed_active)
qed simp

theorem reserve_admits_exactly_witness:
  "wp (reserve (mandate_id goa_mandate) 300 500 ''dec_2'')
    (\<lambda>r w'. if active_total sample_terms (mandate_id goa_mandate) (ledger_entries held_db) + 300 \<le> 500
       then r \<noteq> None \<and> stage_at ''dec_2'' (ledger_entries (session w')) = Some Held \<and>
            active_total sample_terms (mandate_id goa_mandate) (ledger_entries (session w')) =
              active_total sample_terms (mandate_id goa_mandate) (ledger_entries held_db) + 300
       else r = None \<and> session w' = held_db)
    (\<lambda>e w'. e = DBAPIError) (quiet_world 0 () held_db)"
proof -
  have "ref_entries ''dec_2'' (ledger_entries held_db) = []"
    by (simp add: held_db_def ref_entries_def movement_defs movement_entry_def)
  then show ?thesis
    using reserve_admits_exactly [of sample_terms "quiet_world 0 () held_db" "''dec_2''" "mandate_id goa_mandate" 300 500]
    by (simp add: sample_terms_def cong: if_cong)
qed

text \<open>
  C33. Held budget does not stay held: one run of the sweeper that returns has expired exactly the
  held references with a reservation entry older than the time to live (whose mandate exists), left
  every other reference in its stage, and written one audit entry for each. While the integrity halt
  is set it does nothing but raise.
\<close>

theorem sweep_expires_stale:
  assumes "ledger_ok T (ledger_entries (session w))" "audit_ok (session w)" "halt_row (session w) = Some h"
  shows "wp (sweep ttl)
    (\<lambda>refs w'. \<not> ih_halted h \<and>
       (\<forall>ref. stage_at ref (ledger_entries (session w')) =
          (if ref \<in> set refs then Some Expired else stage_at ref (ledger_entries (session w)))) \<and>
       (\<forall>ref. ref \<in> set refs \<longleftrightarrow> sweepable T (session w) ref \<and>
          (\<exists>e\<in>set (ledger_entries (session w)). le_ref_id e = ref \<and> le_ref_type e = ''reservation'' \<and>
             le_created_at e < clock w (clock_reads w) - timedelta_s ttl)) \<and>
       length (audit_log (session w')) = length (audit_log (session w)) + length refs)
    (\<lambda>e w'. e = DBAPIError \<or> ih_halted h \<and> (\<exists>r. e = IntegrityHalted r)) w"
  by (rule wp_mono [OF wp_sweep [OF assms]]) (auto simp: swept_from_def image_iff)

theorem sweep_expires_stale_witness:
  "wp (sweep 900)
    (\<lambda>refs w'. stage_at ''dec_1'' (ledger_entries (session w')) =
          (if ''dec_1'' \<in> set refs then Some Expired else Some Held) \<and>
       length (audit_log (session w')) = length (audit_log held_db) + length refs)
    (\<lambda>e w'. e = DBAPIError) (quiet_world (timedelta_s 1000) () held_db)"
  by (rule wp_mono [OF sweep_expires_stale [of sample_terms "quiet_world (timedelta_s 1000) () held_db"]]) auto

end
