(* ===== verification/Provider.thy ===== *)
theory Provider
  imports Ledger
begin

text \<open>
  The payment provider port (\<open>application/ports.py\<close>), the way the application calls it (retry
  inside, circuit breaker around, \<open>_call_with_retry\<close> of \<open>payment_service.py\<close>), and the
  deterministic adapter (\<open>infrastructure/providers/simulator/adapter.py\<close>). The locale
  \<open>provider_port\<close> is what the application relies on: a provider has no access to the database.
\<close>

section \<open>ports.py\<close>

record provider_order =
  po_id :: string
  po_status :: string
  po_amount_minor :: int
  po_currency :: string
  po_receipt :: "string option"
  po_created_at :: datetime

record provider_payment =
  py_id :: string
  py_order_id :: "string option"
  py_status :: string
  py_amount_minor :: int
  py_currency :: string
  py_captured :: bool
  py_method :: "string option"
  py_error_code :: "string option"
  py_error_description :: "string option"

record provider_refund =
  rf_id :: string
  rf_payment_id :: string
  rf_amount_minor :: int
  rf_status :: string

record 'p payment_port =
  port_create_order :: "int \<Rightarrow> string \<Rightarrow> string \<Rightarrow> (string \<times> string) list \<Rightarrow> ('p, provider_order) app"
  port_fetch_payments :: "string \<Rightarrow> ('p, provider_payment list) app"
  port_capture :: "string \<Rightarrow> int \<Rightarrow> ('p, provider_payment) app"
  port_refund :: "string \<Rightarrow> int \<Rightarrow> string \<Rightarrow> ('p, provider_refund) app"
  port_verify_checkout_signature :: "'p \<Rightarrow> string \<Rightarrow> string \<Rightarrow> string \<Rightarrow> bool result"
  port_verify_webhook :: "'p \<Rightarrow> bytes \<Rightarrow> string \<Rightarrow> bool result"

text \<open>A call is recorded, with the committed state of the database at that moment.\<close>

definition logged :: "string \<Rightarrow> ('p, 'a) app \<Rightarrow> ('p, 'a) app" where
  "logged nm m = bind (modify (\<lambda>w. w\<lparr>provider_calls := provider_calls w @ [(nm, durable w)]\<rparr>)) (\<lambda>_. m)"

section \<open>Calling through the breaker and the retry\<close>

definition breaker_now :: "breaker \<Rightarrow> ('p, datetime) app" where
  "breaker_now b = (if b_state b = OPEN \<and> opened_at b \<noteq> None then clock_now else return 0)"

definition trips :: "breaker \<Rightarrow> bool" where
  "trips b \<longleftrightarrow> consecutive_failures b + 1 \<ge> failure_threshold b \<or> b_state b = OPEN"

definition breaker_call :: "('p, 'a) app \<Rightarrow> ('p, 'a) app" where
  "breaker_call fn =
     bind (gets circuit) (\<lambda>b.
     bind (breaker_now b) (\<lambda>now.
     bind (lift_result (breaker_begin b now)) (\<lambda>b'.
     bind (modify (\<lambda>w. w\<lparr>circuit := b'\<rparr>)) (\<lambda>_.
     handle
       (bind fn (\<lambda>x.
        bind (modify (\<lambda>w. w\<lparr>circuit := breaker_finish (circuit w) 0 True\<rparr>)) (\<lambda>_. return x)))
       (\<lambda>e.
        bind (gets circuit) (\<lambda>c.
        bind (if trips c then clock_now else return 0) (\<lambda>t.
        bind (modify (\<lambda>w. w\<lparr>circuit := breaker_finish (circuit w) t False\<rparr>)) (\<lambda>_. raise e))))))))"

definition is_transient :: "exn \<Rightarrow> bool" where
  "is_transient e \<longleftrightarrow> (case e of TransientProviderError m \<Rightarrow> True | _ \<Rightarrow> False)"

definition call_with_retry :: "('p, 'a) app \<Rightarrow> ('p, 'a) app" where
  "call_with_retry fn =
     bind (gets config) (\<lambda>c. retry_with_full_jitter (breaker_call fn) (max_retry_attempts c) is_transient)"

text \<open>\<open>except (RetryExhausted, TerminalProviderError, CircuitOpenError)\<close>\<close>

definition provider_failure :: "exn \<Rightarrow> bool" where
  "provider_failure e \<longleftrightarrow>
     (case e of RetryExhausted n e' \<Rightarrow> True | TerminalProviderError m \<Rightarrow> True | CircuitOpenError m \<Rightarrow> True | _ \<Rightarrow> False)"

subsection \<open>The text of these exceptions\<close>

definition repr_char :: "char \<Rightarrow> char \<Rightarrow> string" where
  "repr_char q c =
     (if c = q \<or> c = CHR 0x5C then [CHR 0x5C, c]
      else if c = CHR 0x0A then [CHR 0x5C, CHR ''n'']
      else if c = CHR 0x0D then [CHR 0x5C, CHR ''r'']
      else if c = CHR 0x09 then [CHR 0x5C, CHR ''t'']
      else if of_char c < (32 :: nat) \<or> c = CHR 0x7F then [CHR 0x5C, CHR ''x''] @ hex [of_char c]
      else [c])"

definition repr_str :: "string \<Rightarrow> string" where
  "repr_str s =
     (let q = (if CHR 0x27 \<in> set s \<and> CHR 0x22 \<notin> set s then CHR 0x22 else CHR 0x27)
      in q # concat (map (repr_char q) s) @ [q])"

text \<open>Only the exceptions that \<open>provider_failure\<close> admits are printed; a retry is exhausted by a
  transient error.\<close>

fun str_exn :: "exn \<Rightarrow> string" where
  "str_exn (TransientProviderError m) = m"
| "str_exn (TerminalProviderError m) = m"
| "str_exn (CircuitOpenError m) = m"
| "str_exn (RetryExhausted n e) =
     ''retry exhausted after '' @ show_int (int n) @ '' attempt(s): TransientProviderError('' @ repr_str (str_exn e) @ '')''"
| "str_exn e = []"

text \<open>\<open>s[:n]\<close> on the UTF-8 form: continuation bytes belong to the character before them.\<close>

fun take_chars :: "nat \<Rightarrow> string \<Rightarrow> string" where
  "take_chars n [] = []"
| "take_chars n (c # cs) =
     (if (of_char c :: nat) div 64 = 2 then c # take_chars n cs
      else if n = 0 then [] else c # take_chars (n - 1) cs)"

section \<open>What a provider call can change\<close>

definition outside_step :: "'p world \<Rightarrow> 'p world \<Rightarrow> bool" where
  "outside_step w w' \<longleftrightarrow>
     session w' = session w \<and> durable w' = durable w \<and> clock w' = clock w \<and> ulids w' = ulids w \<and>
     faults w' = faults w \<and> statements w' = statements w \<and> others w' = others w \<and>
     transactions w' = transactions w \<and> circuit w' = circuit w \<and> provider_calls w' = provider_calls w \<and>
     config w' = config w \<and> json_datetime w' = json_datetime w"

definition outside :: "('p, 'a) app \<Rightarrow> bool" where
  "outside m \<longleftrightarrow> (\<forall>w. outside_step w (snd (m w)))"

text \<open>
  The interface: whatever a provider does, it does outside the database, and it answers or raises.
\<close>

locale provider_port =
  fixes P :: "'p payment_port"
  assumes create_outside: "outside (port_create_order P amount cur key notes)"
    and fetch_outside: "outside (port_fetch_payments P oid)"
    and capture_outside: "outside (port_capture P pid amount)"
    and refund_outside: "outside (port_refund P pid amount key)"

text \<open>The same through the breaker, the retry and the record of the calls.\<close>

definition external_step :: "string \<Rightarrow> 'p world \<Rightarrow> 'p world \<Rightarrow> bool" where
  "external_step nm w w' \<longleftrightarrow>
     session w' = session w \<and> durable w' = durable w \<and> clock w' = clock w \<and> ulids w' = ulids w \<and>
     faults w' = faults w \<and> statements w' = statements w \<and> others w' = others w \<and>
     transactions w' = transactions w \<and> config w' = config w \<and> json_datetime w' = json_datetime w \<and>
     (\<exists>k. provider_calls w' = provider_calls w @ replicate k (nm, durable w))"

definition external :: "string \<Rightarrow> ('p, 'a) app \<Rightarrow> bool" where
  "external nm m \<longleftrightarrow> (\<forall>w. external_step nm w (snd (m w)))"

named_theorems external_rules

lemma external_step_refl: "external_step nm w w"
  by (auto simp: external_step_def intro: exI [of _ 0])

lemma external_step_trans:
  assumes "external_step nm w w'" "external_step nm w' w''"
  shows "external_step nm w w''"
proof -
  obtain j k where "provider_calls w' = provider_calls w @ replicate j (nm, durable w)"
    "provider_calls w'' = provider_calls w' @ replicate k (nm, durable w')" "durable w' = durable w"
    using assms by (auto simp: external_step_def)
  then have "provider_calls w'' = provider_calls w @ replicate (j + k) (nm, durable w)"
    by (simp add: replicate_add)
  with assms show ?thesis by (auto simp: external_step_def)
qed

lemma external_basic [external_rules]:
  "external nm (return x)" "external nm (raise e)" "external nm (gets f)" "external nm (lift_result r)"
  "external nm clock_now"
  by (simp_all add: external_def run_simps external_step_refl clock_now_def external_step_def exI [of _ 0])

lemma external_circuit [external_rules]: "external nm (modify (\<lambda>w. w\<lparr>circuit := f w\<rparr>))"
  by (simp add: external_def run_simps external_step_def exI [of _ 0])

lemma external_bind [external_rules]:
  assumes "external nm m" "\<And>x. external nm (f x)"
  shows "external nm (bind m f)"
  unfolding external_def
proof
  fix w
  obtain r w' where m: "m w = (r, w')" by (metis prod.exhaust)
  then have "external_step nm w w'" using assms(1) by (metis external_def snd_conv)
  moreover have "external_step nm w' (snd (f x w'))" for x using assms(2) by (simp add: external_def)
  ultimately show "external_step nm w (snd (bind m f w))"
    using m by (cases r) (auto simp: bind_def intro: external_step_trans)
qed

lemma external_handle [external_rules]:
  assumes "external nm m" "\<And>e. external nm (h e)"
  shows "external nm (handle m h)"
  unfolding external_def
proof
  fix w
  obtain r w' where m: "m w = (r, w')" by (metis prod.exhaust)
  then have "external_step nm w w'" using assms(1) by (metis external_def snd_conv)
  moreover have "external_step nm w' (snd (h e w'))" for e using assms(2) by (simp add: external_def)
  ultimately show "external_step nm w (snd (handle m h w))"
    using m by (cases r) (auto simp: handle_def intro: external_step_trans)
qed

lemma external_if [external_rules]: "external nm m \<Longrightarrow> external nm n \<Longrightarrow> external nm (if b then m else n)"
  by simp

lemma external_logged [external_rules]: "outside m \<Longrightarrow> external nm (logged nm m)"
  unfolding external_def logged_def
proof
  fix w :: "'a world"
  let ?u = "w\<lparr>provider_calls := provider_calls w @ [(nm, durable w)]\<rparr>"
  assume "outside m"
  then have "outside_step ?u (snd (m ?u))" by (simp add: outside_def)
  then show "external_step nm w (snd (bind (modify (\<lambda>w. w\<lparr>provider_calls := provider_calls w @ [(nm, durable w)]\<rparr>)) (\<lambda>_. m) w))"
    by (simp add: outside_step_def external_step_def exI [of _ 1])
qed

lemma external_retry [external_rules]: "external nm fn \<Longrightarrow> external nm (retry_with_full_jitter fn n p)"
proof -
  assume fn: "external nm fn"
  have "external nm (retry_loop n p fn k)" for k
    by (induction k) (auto intro!: external_rules fn)
  then show ?thesis by (simp add: retry_with_full_jitter_def external_rules)
qed

lemma external_call [external_rules]: "external nm fn \<Longrightarrow> external nm (call_with_retry fn)"
  unfolding call_with_retry_def breaker_call_def breaker_now_def by (intro external_rules)

lemma external_wp: "external nm m \<Longrightarrow> wp m (\<lambda>x. external_step nm w) (\<lambda>e. external_step nm w) w"
  by (simp add: wp_def external_def split: prod.split sum.split) (metis snd_conv)

section \<open>simulator/adapter.py\<close>

datatype scenario = SUCCESS | DECLINE | TRANSIENT_FAILURE

record simulator =
  sim_scenario :: scenario
  sim_key_secret :: bytes
  sim_webhook_secret :: bytes
  sim_fail_before_success :: int
  sim_orders :: "(string \<times> provider_order) list"
  sim_payments :: "(string \<times> provider_payment list) list"
  sim_call_count :: int

definition new_simulator :: "scenario \<Rightarrow> int \<Rightarrow> simulator" where
  "new_simulator sc n =
     \<lparr>sim_scenario = sc, sim_key_secret = encode_utf8 ''simulator-checkout-secret'',
      sim_webhook_secret = encode_utf8 ''simulator-webhook-secret'', sim_fail_before_success = n,
      sim_orders = [], sim_payments = [], sim_call_count = 0\<rparr>"

fun dict_set :: "'k \<Rightarrow> 'v \<Rightarrow> ('k \<times> 'v) list \<Rightarrow> ('k \<times> 'v) list" where
  "dict_set k v [] = [(k, v)]"
| "dict_set k v ((k', v') # rest) = (if k' = k then (k, v) # rest else (k', v') # dict_set k v rest)"

definition update_provider :: "('p \<Rightarrow> 'p) \<Rightarrow> ('p, unit) app" where
  "update_provider f = modify (\<lambda>w. w\<lparr>provider := f (provider w)\<rparr>)"

definition simulated_payment :: "scenario \<Rightarrow> string \<Rightarrow> string \<Rightarrow> int \<Rightarrow> string \<Rightarrow> provider_payment" where
  "simulated_payment sc payment_id order_id amount cur =
     \<lparr>py_id = payment_id, py_order_id = Some order_id, py_status = (if sc = DECLINE then ''failed'' else ''authorized''),
      py_amount_minor = amount, py_currency = cur, py_captured = False, py_method = Some ''card'',
      py_error_code = (if sc = DECLINE then Some ''BAD_REQUEST_ERROR'' else None),
      py_error_description = (if sc = DECLINE
        then Some ''Payment failed: card declined by issuing bank (simulated)'' else None)\<rparr>"

definition sim_create_order ::
  "int \<Rightarrow> string \<Rightarrow> string \<Rightarrow> (string \<times> string) list \<Rightarrow> (simulator, provider_order) app" where
  "sim_create_order amount cur key notes =
     bind (update_provider (\<lambda>s. s\<lparr>sim_call_count := sim_call_count s + 1\<rparr>)) (\<lambda>_.
     bind (gets provider) (\<lambda>s.
     if sim_scenario s = TRANSIENT_FAILURE \<and> sim_call_count s \<le> sim_fail_before_success s
     then raise (TransientProviderError ''simulated provider timeout on order creation'')
     else
       bind (new_id ''order'') (\<lambda>order_id.
       bind clock_now (\<lambda>now.
       let order = \<lparr>po_id = order_id, po_status = ''created'', po_amount_minor = amount, po_currency = cur,
                    po_receipt = Some key, po_created_at = now\<rparr> in
       bind (update_provider (\<lambda>s. s\<lparr>sim_orders := dict_set order_id order (sim_orders s)\<rparr>)) (\<lambda>_.
       bind (new_id ''pay'') (\<lambda>payment_id.
       bind (update_provider (\<lambda>s. s\<lparr>sim_payments :=
               dict_set order_id [simulated_payment (sim_scenario s) payment_id order_id amount cur] (sim_payments s)\<rparr>)) (\<lambda>_.
       return order)))))))"

definition sim_fetch_payments :: "string \<Rightarrow> (simulator, provider_payment list) app" where
  "sim_fetch_payments oid =
     gets (\<lambda>w. case map_of (sim_payments (provider w)) oid of None \<Rightarrow> [] | Some ps \<Rightarrow> ps)"

text \<open>The first payment with the id, in the order of the dict, is replaced.\<close>

fun replace_first :: "provider_payment \<Rightarrow> provider_payment list \<Rightarrow> provider_payment list" where
  "replace_first p [] = []"
| "replace_first p (q # qs) = (if py_id q = py_id p then p # qs else q # replace_first p qs)"

fun store_payment ::
  "provider_payment \<Rightarrow> (string \<times> provider_payment list) list \<Rightarrow> (string \<times> provider_payment list) list" where
  "store_payment p [] = []"
| "store_payment p ((oid, ps) # rest) =
     (if list_ex (\<lambda>q. py_id q = py_id p) ps then (oid, replace_first p ps) # rest
      else (oid, ps) # store_payment p rest)"

definition sim_capture :: "string \<Rightarrow> int \<Rightarrow> (simulator, provider_payment) app" where
  "sim_capture payment_id amount =
     bind (gets (\<lambda>w. find (\<lambda>p. py_id p = payment_id) (concat (map snd (sim_payments (provider w)))))) (\<lambda>found.
     case found of
       None \<Rightarrow> raise (TerminalProviderError (''no such payment '' @ payment_id))
     | Some p \<Rightarrow>
         if py_status p = ''failed''
         then raise (TerminalProviderError (''cannot capture a failed payment '' @ payment_id))
         else
           let captured = p\<lparr>py_status := ''captured'', py_amount_minor := amount, py_captured := True,
                            py_error_code := None, py_error_description := None\<rparr> in
           bind (update_provider (\<lambda>s. s\<lparr>sim_payments := store_payment captured (sim_payments s)\<rparr>)) (\<lambda>_.
           return captured))"

definition sim_refund :: "string \<Rightarrow> int \<Rightarrow> string \<Rightarrow> (simulator, provider_refund) app" where
  "sim_refund payment_id amount key =
     bind (new_id ''rfnd'') (\<lambda>rid.
     return \<lparr>rf_id = rid, rf_payment_id = payment_id, rf_amount_minor = amount, rf_status = ''processed''\<rparr>)"

definition sim_verify_checkout_signature :: "simulator \<Rightarrow> string \<Rightarrow> string \<Rightarrow> string \<Rightarrow> bool result" where
  "sim_verify_checkout_signature s order_id payment_id sig =
     (if order_id = [] \<or> payment_id = [] \<or> sig = [] then Inr False
      else verify_signature (order_id @ ''|'' @ payment_id) (sim_key_secret s) sig)"

definition sim_verify_webhook :: "simulator \<Rightarrow> bytes \<Rightarrow> string \<Rightarrow> bool result" where
  "sim_verify_webhook s raw_body sig =
     (if sig = [] then Inr False else compare_digest (hex (hmac_sha256 (sim_webhook_secret s) raw_body)) sig)"

definition simulator_adapter :: "simulator payment_port" where
  "simulator_adapter =
     \<lparr>port_create_order = sim_create_order, port_fetch_payments = sim_fetch_payments, port_capture = sim_capture,
      port_refund = sim_refund, port_verify_checkout_signature = sim_verify_checkout_signature,
      port_verify_webhook = sim_verify_webhook\<rparr>"

definition build_checkout_payload :: "simulator \<Rightarrow> string \<Rightarrow> string \<Rightarrow> string" where
  "build_checkout_payload s order_id payment_id = sign_spec_hash (order_id @ ''|'' @ payment_id) (sim_key_secret s)"

lemma outside_bind: "outside m \<Longrightarrow> (\<And>x. outside (f x)) \<Longrightarrow> outside (bind m f)"
  unfolding outside_def outside_step_def bind_def by (auto split: prod.split sum.split) (metis snd_conv)+

lemma outside_rules:
  "outside (return x)" "outside (raise e)" "outside (gets f)" "outside clock_now" "outside (new_id p)"
  "outside (update_provider g)"
  by (simp_all add: outside_def outside_step_def run_simps clock_now_def new_id_def update_provider_def)

interpretation simulator: provider_port simulator_adapter
  unfolding simulator_adapter_def sim_create_order_def sim_fetch_payments_def sim_capture_def sim_refund_def Let_def
  by unfold_locales (auto intro!: outside_bind outside_rules split: option.split)

lemma simulator_port: "provider_port simulator_adapter"
  by (rule simulator.provider_port_axioms)

end
