(* ===== verification/Transactions.thy ===== *)
theory Transactions
  imports Provider
begin

text \<open>
  Programs made of several transactions. A program of the application opens units of work, calls
  the provider between them, catches exceptions and tries again, while other processes commit. An
  invariant of the database is \<open>steady\<close> when the committed state satisfies it and the other
  processes keep it. \<open>yields J m R\<close> says of code inside a transaction that it keeps \<open>J\<close> in
  its session and returns only values with \<open>R\<close>; then the transaction keeps the committed state
  steady, however it ends. The locale \<open>payment_db\<close> is the interface between an invariant of the
  database and the programs of the payment services.
\<close>

section \<open>Steady invariants\<close>

definition steady :: "(db \<Rightarrow> bool) \<Rightarrow> 'p world \<Rightarrow> bool" where
  "steady J w \<longleftrightarrow> J (durable w) \<and> (\<forall>n d. J d \<longrightarrow> J (others w n d))"

definition yields :: "(db \<Rightarrow> bool) \<Rightarrow> ('p, 'a) app \<Rightarrow> ('a \<Rightarrow> bool) \<Rightarrow> bool" where
  "yields J m R \<longleftrightarrow>
     (\<forall>w. steady J w \<longrightarrow> J (session w) \<longrightarrow>
        wp m (\<lambda>x w'. steady J w' \<and> J (session w') \<and> R x) (\<lambda>e w'. steady J w') w)"

abbreviation guarded :: "(db \<Rightarrow> bool) \<Rightarrow> ('p, 'a) app \<Rightarrow> bool" where
  "guarded J m \<equiv> yields J m (\<lambda>x. True)"

named_theorems guarded_rules

lemma yieldsI:
  assumes "\<And>w. steady J w \<Longrightarrow> J (session w) \<Longrightarrow>
    wp m (\<lambda>x w'. steady J w' \<and> J (session w') \<and> R x) (\<lambda>e w'. steady J w') w"
  shows "yields J m R"
  using assms by (simp add: yields_def)

lemma yieldsD:
  "yields J m R \<Longrightarrow> steady J w \<Longrightarrow> J (session w) \<Longrightarrow>
     wp m (\<lambda>x w'. steady J w' \<and> J (session w') \<and> R x) (\<lambda>e w'. steady J w') w"
  by (simp add: yields_def)

lemma yields_bind:
  assumes "yields J m R" "\<And>x. R x \<Longrightarrow> yields J (f x) S"
  shows "yields J (bind m f) S"
proof (rule yieldsI)
  fix w :: "'a world"
  assume w: "steady J w" "J (session w)"
  show "wp (bind m f) (\<lambda>x w'. steady J w' \<and> J (session w') \<and> S x) (\<lambda>e w'. steady J w') w"
    unfolding wp_bind by (rule wp_mono [OF yieldsD [OF assms(1) w]]) (use assms(2) in \<open>auto intro: yieldsD\<close>)
qed

lemma guarded_bind [guarded_rules]: "guarded J m \<Longrightarrow> (\<And>x. yields J (f x) S) \<Longrightarrow> yields J (bind m f) S"
  by (rule yields_bind)

lemma guarded_basic [guarded_rules]:
  "R x \<Longrightarrow> yields J (return x) R" "yields J (raise e) R" "guarded J (gets f)" "guarded J (lift_result r)"
  "guarded J (assert_that b)" "guarded J clock_now" "guarded J (new_id p)" "guarded J (db_read g)"
  by (simp_all add: yields_def steady_def split: sum.split)

lemma guarded_cases [guarded_rules]:
  "yields J m R \<Longrightarrow> yields J n R \<Longrightarrow> yields J (if b then m else n) R"
  "yields J m R \<Longrightarrow> (\<And>x. yields J (g x) R) \<Longrightarrow> yields J (case v of None \<Rightarrow> m | Some x \<Rightarrow> g x) R"
  "(\<And>x y. yields J (h x y) R) \<Longrightarrow> yields J (case u of (x, y) \<Rightarrow> h x y) R"
  "(\<And>x. yields J (k x) R) \<Longrightarrow> yields J (let x = t in k x) R"
  by (simp_all split: option.split prod.split)

lemma guarded_for_each [guarded_rules]: "(\<And>x. guarded J (f x)) \<Longrightarrow> guarded J (for_each xs f)"
  by (induction xs) (auto intro!: guarded_rules)

lemma guarded_commit [guarded_rules]: "guarded J commit"
  by (simp add: yields_def steady_def)

lemma steady_local: "local_step w w' \<Longrightarrow> steady J w' = steady J w"
  by (simp add: steady_def local_step_def)

text \<open>Code that commits nothing needs only an argument about its own session.\<close>

lemma yields_local:
  assumes "local m" "\<And>w. J (session w) \<Longrightarrow> wp m (\<lambda>x w'. J (session w') \<and> R x) (\<lambda>e w'. True) w"
  shows "yields J m R"
proof (rule yieldsI)
  fix w :: "'a world"
  assume w: "steady J w" "J (session w)"
  show "wp m (\<lambda>x w'. steady J w' \<and> J (session w') \<and> R x) (\<lambda>e w'. steady J w') w"
    by (rule wp_mono [OF wp_conj [OF local_wp [OF assms(1)] assms(2) [OF w(2)]]]) (use w(1) in \<open>auto simp: steady_local\<close>)
qed

lemma guarded_db_write: "(\<And>d. J d \<Longrightarrow> J (g d)) \<Longrightarrow> guarded J (db_write g)"
  by (rule yields_local) (simp_all add: local_rules)

lemma guarded_db_insert: "(\<And>d. J d \<Longrightarrow> J (g d)) \<Longrightarrow> guarded J (db_insert c g)"
  by (rule yields_local) (simp_all add: local_rules)

lemma guarded_db_call: "(\<And>d x d'. J d \<Longrightarrow> g d = (Inr x, d') \<Longrightarrow> J d') \<Longrightarrow> guarded J (db_call g)"
  by (rule yields_local) (auto simp: local_rules wp_db_call split: prod.split sum.split)

lemma yields_db_call: "(\<And>d x d'. J d \<Longrightarrow> g d = (Inr x, d') \<Longrightarrow> J d' \<and> R x) \<Longrightarrow> yields J (db_call g) R"
  by (rule yields_local) (auto simp: local_rules wp_db_call split: prod.split sum.split)

lemma yields_db_read: "(\<And>d. J d \<Longrightarrow> R (g d)) \<Longrightarrow> yields J (db_read g) R"
  by (rule yields_local) (auto simp: local_rules)

lemma steady_begin:
  "steady J w \<Longrightarrow> steady J (w\<lparr>durable := others w n (durable w), session := d, transactions := k\<rparr>)"
  by (simp add: steady_def)

lemma wp_uow_yields:
  assumes "yields J body R" "steady J w"
  shows "wp (with_uow body) (\<lambda>x w'. steady J w' \<and> session w' = session w \<and> R x)
    (\<lambda>e w'. steady J w' \<and> session w' = session w) w"
  unfolding wp_with_uow
  by (rule wp_mono [OF yieldsD [OF assms(1) steady_begin [OF assms(2)]]])
    (use assms(2) in \<open>auto simp: steady_def\<close>)

lemma yields_with_uow [guarded_rules]: "yields J body R \<Longrightarrow> yields J (with_uow body) R"
  by (rule yieldsI, rule wp_mono [OF wp_uow_yields]) auto

lemma keeps_with_uow: "guarded J body \<Longrightarrow> keeps (steady J) (with_uow body)"
  unfolding keeps_wp by (auto intro: wp_mono [OF wp_uow_yields])

lemma keeps_local: "local m \<Longrightarrow> keeps (steady J) m"
  unfolding keeps_wp by (auto intro!: wp_mono [OF local_wp] simp: steady_local)

section \<open>Calls to the provider\<close>

lemma steady_external: "external_step nm w w' \<Longrightarrow> steady J w' = steady J w"
  by (simp add: steady_def external_step_def)

lemma guarded_external: "external nm m \<Longrightarrow> guarded J m"
  by (rule yieldsI, rule wp_mono [OF external_wp]) (auto simp: steady_def external_step_def)

lemma keeps_external: "external nm m \<Longrightarrow> keeps (steady J) m"
  unfolding keeps_wp by (auto intro!: wp_mono [OF external_wp] simp: steady_external)

lemma guarded_handle_external:
  assumes "external nm m" "\<And>e. guarded J (h e)"
  shows "guarded J (handle m h)"
proof (rule yieldsI)
  fix w :: "'a world"
  assume w: "steady J w" "J (session w)"
  have "steady J w'" "J (session w')" if "external_step nm w w'" for w'
    using that w by (simp_all add: steady_def external_step_def)
  then show "wp (handle m h) (\<lambda>x w'. steady J w' \<and> J (session w') \<and> True) (\<lambda>e w'. steady J w') w"
    unfolding wp_handle using yieldsD [OF assms(2)]
    by (intro wp_mono [OF external_wp [OF assms(1)]]) auto
qed

text \<open>How often the provider is called.\<close>

definition calls_at_most :: "nat \<Rightarrow> ('p, 'a) app \<Rightarrow> bool" where
  "calls_at_most n m \<longleftrightarrow> (\<forall>w. length (provider_calls (snd (m w))) \<le> length (provider_calls w) + n)"

named_theorems calls_rules

lemma calls_basic [calls_rules]:
  "calls_at_most 0 (return x)" "calls_at_most 0 (raise e)" "calls_at_most 0 (gets f)"
  "calls_at_most 0 (lift_result r)" "calls_at_most 0 clock_now"
  "calls_at_most 0 (modify (\<lambda>w. w\<lparr>circuit := g w\<rparr>))"
  by (simp_all add: calls_at_most_def run_simps clock_now_def)

lemma calls_bind [calls_rules]:
  assumes "calls_at_most n m" "\<And>x. calls_at_most k (f x)"
  shows "calls_at_most (n + k) (bind m f)"
  unfolding calls_at_most_def
proof
  fix w
  obtain r w' where m: "m w = (r, w')" by (metis prod.exhaust)
  then have "length (provider_calls w') \<le> length (provider_calls w) + n"
    using assms(1) by (metis calls_at_most_def snd_conv)
  moreover have "length (provider_calls (snd (f x w'))) \<le> length (provider_calls w') + k" for x
    using assms(2) by (simp add: calls_at_most_def)
  ultimately show "length (provider_calls (snd (bind m f w))) \<le> length (provider_calls w) + (n + k)"
    using m by (cases r) (auto simp: bind_def intro: order_trans, metis add.assoc add_mono_thms_linordered_semiring(3) order_trans)
qed

lemma calls_handle [calls_rules]:
  assumes "calls_at_most n m" "\<And>e. calls_at_most k (h e)"
  shows "calls_at_most (n + k) (handle m h)"
  unfolding calls_at_most_def
proof
  fix w
  obtain r w' where m: "m w = (r, w')" by (metis prod.exhaust)
  then have "length (provider_calls w') \<le> length (provider_calls w) + n"
    using assms(1) by (metis calls_at_most_def snd_conv)
  moreover have "length (provider_calls (snd (h e w'))) \<le> length (provider_calls w') + k" for e
    using assms(2) by (simp add: calls_at_most_def)
  ultimately show "length (provider_calls (snd (handle m h w))) \<le> length (provider_calls w) + (n + k)"
    using m by (cases r) (auto simp: handle_def intro: order_trans, metis add.assoc add_mono_thms_linordered_semiring(3) order_trans)
qed

lemma calls_if [calls_rules]: "calls_at_most n m \<Longrightarrow> calls_at_most n m' \<Longrightarrow> calls_at_most n (if b then m else m')"
  by simp

lemma calls_logged [calls_rules]: "outside m \<Longrightarrow> calls_at_most 1 (logged nm m)"
  by (simp add: calls_at_most_def logged_def outside_def outside_step_def)

lemma calls_retry_loop: "calls_at_most n fn \<Longrightarrow> calls_at_most (k * n) (retry_loop j p fn k)"
proof (induction k)
  case (Suc k)
  have "calls_at_most (n + k * n) (retry_loop j p fn (Suc k))"
    unfolding retry_loop.simps
  proof (rule calls_handle [OF Suc.prems])
    show "calls_at_most (k * n) (if \<not> p exc then raise exc else if k = 0 then raise (RetryExhausted j exc)
        else retry_loop j p fn k)" for exc
      using Suc by (simp add: calls_at_most_def run_simps)
  qed
  then show ?case by simp
qed (simp add: calls_basic)

lemma calls_breaker: "calls_at_most 1 fn \<Longrightarrow> calls_at_most 1 (breaker_call fn)"
proof -
  assume fn: "calls_at_most 1 fn"
  have "calls_at_most (0 + (0 + (0 + (0 + ((1 + (0 + 0)) + (0 + (0 + (0 + 0)))))))) (breaker_call fn)"
    unfolding breaker_call_def breaker_now_def by (intro calls_rules fn)
  then show ?thesis by simp
qed

text \<open>
  One provider operation: at most as many calls as the retry limit allows, each of them made while
  the same committed state is in place.
\<close>

lemma calls_of_operation:
  assumes "outside m"
  shows "\<exists>k \<le> max_retry_attempts (config w). provider_calls (snd (call_with_retry (logged nm m) w)) =
    provider_calls w @ replicate k (nm, durable w)"
proof -
  let ?w' = "snd (call_with_retry (logged nm m) w)"
  let ?n = "max_retry_attempts (config w)"
  have "external nm (call_with_retry (logged nm m))" by (intro external_rules assms)
  then obtain k where k: "provider_calls ?w' = provider_calls w @ replicate k (nm, durable w)"
    by (auto simp: external_def external_step_def)
  have "calls_at_most (?n * 1) (retry_loop ?n is_transient (breaker_call (logged nm m)) ?n)"
    by (intro calls_retry_loop calls_breaker calls_rules assms)
  then have "length (provider_calls ?w') \<le> length (provider_calls w) + ?n"
    by (simp add: call_with_retry_def retry_with_full_jitter_def calls_at_most_def run_simps)
  with k show ?thesis by auto
qed

section \<open>What a program does not change\<close>

text \<open>
  An observation of the world that work inside a transaction, commits and the opening of
  transactions do not change. Programs built from such steps leave it as it was.
\<close>

definition unchanged :: "('p world \<Rightarrow> 'b) \<Rightarrow> ('p, 'a) app \<Rightarrow> bool" where
  "unchanged obs m \<longleftrightarrow> (\<forall>w. obs (snd (m w)) = obs w)"

lemma unchanged_bind: "unchanged obs m \<Longrightarrow> (\<And>x. unchanged obs (f x)) \<Longrightarrow> unchanged obs (bind m f)"
  unfolding unchanged_def bind_def by (auto split: prod.split sum.split) (metis snd_conv)+

lemma unchanged_handle: "unchanged obs m \<Longrightarrow> (\<And>e. unchanged obs (h e)) \<Longrightarrow> unchanged obs (handle m h)"
  unfolding unchanged_def handle_def by (auto split: prod.split sum.split) (metis snd_conv)+

lemma unchanged_cases:
  "unchanged obs m \<Longrightarrow> unchanged obs n \<Longrightarrow> unchanged obs (if b then m else n)"
  "unchanged obs m \<Longrightarrow> (\<And>x. unchanged obs (g x)) \<Longrightarrow> unchanged obs (case v of None \<Rightarrow> m | Some x \<Rightarrow> g x)"
  "(\<And>x y. unchanged obs (h x y)) \<Longrightarrow> unchanged obs (case u of (x, y) \<Rightarrow> h x y)"
  "(\<And>x. unchanged obs (k x)) \<Longrightarrow> unchanged obs (let x = t in k x)"
  "(\<And>x. unchanged obs (l x)) \<Longrightarrow> (\<And>x. unchanged obs (r x)) \<Longrightarrow> unchanged obs (case c of Inl x \<Rightarrow> l x | Inr x \<Rightarrow> r x)"
  by (simp_all split: option.split prod.split sum.split)

lemma unchanged_wp: "unchanged obs m \<Longrightarrow> wp m (\<lambda>x w'. obs w' = obs w) (\<lambda>e w'. obs w' = obs w) w"
  by (simp add: wp_def unchanged_def split: prod.split sum.split) (metis snd_conv)

locale observation =
  fixes obs :: "'p world \<Rightarrow> 'b"
  assumes obs_local: "local_step w w' \<Longrightarrow> obs w' = obs w"
    and obs_durable: "obs (w\<lparr>durable := d\<rparr>) = obs w"
    and obs_transactions: "obs (w\<lparr>transactions := n\<rparr>) = obs w"
begin

lemma local_unchanged: "local m \<Longrightarrow> unchanged obs m"
  by (simp add: local_def unchanged_def obs_local)

lemma basic_unchanged: "unchanged obs (return x)" "unchanged obs (raise e)" "unchanged obs (gets f)"
  "unchanged obs (lift_result r)" "unchanged obs clock_now" "unchanged obs (new_id p)" "unchanged obs (assert_that b)"
  by (rule local_unchanged, rule local_basic local_primitives)+

lemma commit_unchanged: "unchanged obs commit"
proof -
  have "obs (tick w) = obs w" for w by (rule obs_local) (simp add: local_step_def)
  then show ?thesis by (simp add: unchanged_def commit_def Let_def obs_durable)
qed

lemma for_each_unchanged: "(\<And>x. unchanged obs (f x)) \<Longrightarrow> unchanged obs (for_each xs f)"
  by (induction xs) (auto intro!: unchanged_bind basic_unchanged)

lemma with_uow_unchanged: "unchanged obs m \<Longrightarrow> unchanged obs (with_uow m)"
proof -
  have session: "obs (w\<lparr>session := d\<rparr>) = obs w" for w d by (rule obs_local) (simp add: local_step_def)
  assume "unchanged obs m"
  then show ?thesis
    unfolding unchanged_def with_uow_def Let_def
    by (auto simp: session split: prod.split) (metis obs_durable obs_transactions session snd_conv)
qed

lemma retry_unchanged: "unchanged obs fn \<Longrightarrow> unchanged obs (retry_with_full_jitter fn n p)"
proof -
  assume fn: "unchanged obs fn"
  have "unchanged obs (retry_loop n p fn k)" for k
    by (induction k) (auto intro!: unchanged_handle unchanged_cases basic_unchanged fn)
  then show ?thesis by (simp add: retry_with_full_jitter_def basic_unchanged)
qed

lemmas rules = unchanged_bind unchanged_handle unchanged_cases basic_unchanged commit_unchanged for_each_unchanged
  with_uow_unchanged retry_unchanged local_repositories [THEN local_unchanged]
  local_append_entry [THEN local_unchanged] local_ledger [THEN local_unchanged]

end

text \<open>Two observations: the calls made to the provider, and those with a given name.\<close>

definition calls_seen :: "'p world \<Rightarrow> (string \<times> db) list \<times> settings \<times> (nat \<Rightarrow> db \<Rightarrow> db)" where
  "calls_seen w = (provider_calls w, config w, others w)"

definition calls_named :: "string \<Rightarrow> 'p world \<Rightarrow> (string \<times> db) list \<times> settings \<times> (nat \<Rightarrow> db \<Rightarrow> db)" where
  "calls_named nm w = (filter (\<lambda>c. fst c = nm) (provider_calls w), config w, others w)"

interpretation silent: observation calls_seen
  by unfold_locales (simp_all add: calls_seen_def local_step_def)

interpretation avoids: observation "calls_named nm" for nm
  by unfold_locales (simp_all add: calls_named_def local_step_def)

abbreviation silent :: "('p, 'a) app \<Rightarrow> bool" where "silent m \<equiv> unchanged calls_seen m"
abbreviation avoids :: "string \<Rightarrow> ('p, 'a) app \<Rightarrow> bool" where "avoids nm m \<equiv> unchanged (calls_named nm) m"

lemma silent_avoids: "silent m \<Longrightarrow> avoids nm m"
  by (simp add: unchanged_def calls_seen_def calls_named_def)

lemma external_avoids:
  assumes "external nm' m" "nm' \<noteq> nm"
  shows "avoids nm m"
  unfolding unchanged_def
proof
  fix w
  have "external_step nm' w (snd (m w))" using assms(1) by (simp add: external_def)
  then show "calls_named nm (snd (m w)) = calls_named nm w"
    using assms(2) by (auto simp: external_step_def calls_named_def)
qed

definition silent_step :: "'p world \<Rightarrow> 'p world \<Rightarrow> bool" where
  "silent_step w w' \<longleftrightarrow> provider_calls w' = provider_calls w \<and> config w' = config w \<and> others w' = others w"

lemma silent_wp: "silent m \<Longrightarrow> wp m (\<lambda>x. silent_step w) (\<lambda>e. silent_step w) w"
  by (rule wp_mono [OF unchanged_wp]) (auto simp: calls_seen_def silent_step_def)

lemma wp_snd: "wp m (\<lambda>x. Q) (\<lambda>e. Q) w \<longleftrightarrow> Q (snd (m w))"
  by (simp add: wp_def split: prod.split sum.split)

text \<open>What an append leaves behind when it returns, on any log.\<close>

lemma append_entry_adds:
  "wp (append_entry t y a act subj pay)
    (\<lambda>r w'. audit_log (session w') = audit_log (session w) @ [r] \<and> al_trace_id r = t \<and>
       al_action r = action_value act \<and> al_payload r = pay)
    (\<lambda>e w'. True) w"
proof -
  have due: "preserves audit_log (checkpoint_if_due None seq)" for seq
    unfolding checkpoint_if_due_def write_checkpoint_def checkpoints_get_by_to_seq_def audit_list_range_def
      checkpoints_add_def Let_def option.case
    by (auto intro!: preserves_rules preserves_db_write)
  show ?thesis
    unfolding append_entry_def append_entry_with_def audit_acquire_chain_lock_def audit_get_tail_def next_link_def
      audit_add_at_seq_def Let_def
    by (auto split: option.split sum.split intro!: wp_mono [OF preserves_wp [OF due]])
qed

section \<open>The interface of an invariant to the payment services\<close>

text \<open>
  What the payment services rely on to keep an invariant \<open>J\<close> of the database: it survives the
  orders, idempotency keys and webhook events they write, and the audit entries they append.
\<close>

locale payment_db = provider_port P for P :: "'p payment_port" +
  fixes J :: "db \<Rightarrow> bool"
  assumes orders_free: "J (d\<lparr>orders := xs\<rparr>) = J d"
    and webhooks_free: "J (d\<lparr>webhook_events := es\<rparr>) = J d"
    and key_keeps: "J d \<Longrightarrow> J (d\<lparr>idempotency_keys := (idempotency_keys d)(k \<mapsto> r)\<rparr>)"
    and append_keeps: "J (session w) \<Longrightarrow>
      wp (append_entry t y a act subj pay) (\<lambda>r w'. J (session w')) (\<lambda>e w'. True) (w :: 'p world)"
begin

lemma append_guarded [guarded_rules]: "guarded J (append_entry t y a act subj pay :: ('p, audit_row) app)"
  by (rule yields_local [OF local_append_entry]) (use append_keeps in simp)

lemma repositories_guarded [guarded_rules]:
  "guarded J (idempotency_get k1 :: ('p, idempotency_key option) app)"
  "guarded J (idempotency_claim r2 :: ('p, bool) app)"
  "guarded J (idempotency_complete k3 s3 r3 :: ('p, unit) app)"
  "guarded J (orders_add x4 :: ('p, unit) app)"
  "guarded J (orders_get i5 :: ('p, order option) app)"
  "guarded J (orders_get_by_idempotency_key k6 :: ('p, order option) app)"
  "guarded J (orders_set_provider_order_id i7 p7 :: ('p, unit) app)"
  "guarded J (orders_list_non_terminal_older_than t8 :: ('p, order list) app)"
  "guarded J (payments_get_by_provider_order_id p9 :: ('p, order option) app)"
  "guarded J (payments_transition_status i10 s10 p10 d10 :: ('p, unit) app)"
  "guarded J (webhooks_claim e11 :: ('p, bool) app)"
  "guarded J (webhooks_list_unprocessed :: ('p, webhook_event list) app)"
  "guarded J (webhooks_mark_processed i13 t13 :: ('p, unit) app)"
  "guarded J (raise_if_halted :: ('p, unit) app)"
  unfolding idempotency_get_def idempotency_claim_def idempotency_complete_def orders_add_def orders_get_def
    orders_get_by_idempotency_key_def orders_set_provider_order_id_def orders_list_non_terminal_older_than_def
    payments_get_by_provider_order_id_def payments_transition_status_def webhooks_claim_def
    webhooks_list_unprocessed_def webhooks_mark_processed_def raise_if_halted_def integrity_get_state_def Let_def
  by (auto intro!: guarded_rules guarded_db_call guarded_db_insert
    simp: orders_free webhooks_free key_keeps split: if_splits option.splits list.splits)

end

text \<open>
  What the gate, the compensations and the saga rely on beyond that: ledger calls keep the invariant
  when the reference is \<open>bound\<close> to the mandate and amount they carry and the limit is a \<open>cap\<close>
  of the mandate, mandates change only their status, and a saga row binds its id.
\<close>

locale purchase_db = payment_db P J for P :: "'p payment_port" and J +
  fixes bound :: "string \<Rightarrow> string \<Rightarrow> int \<Rightarrow> bool" and cap :: "string \<Rightarrow> int \<Rightarrow> bool"
  assumes reserve_keeps: "bound ref m a \<Longrightarrow> cap m c \<Longrightarrow> J (session w) \<Longrightarrow>
      wp (reserve m a c ref) (\<lambda>r w'. J (session w')) (\<lambda>e w'. True) (w :: 'p world)"
    and call_keeps: "bound ref m a \<Longrightarrow> J (session w) \<Longrightarrow>
      wp (run_call x m a ref) (\<lambda>r w'. J (session w')) (\<lambda>e w'. True) (w :: 'p world)"
    and sweep_keeps: "guarded J (sweep ttl :: ('p, string list) app)"
    and status_keeps: "J d \<Longrightarrow> mandates d mid = Some (mandate, st) \<Longrightarrow> J (d\<lparr>mandates := (mandates d)(mid \<mapsto> (mandate, st'))\<rparr>)"
    and cap_known: "J d \<Longrightarrow> mandates d mid = Some (mandate, st) \<Longrightarrow> cap mid (max_total_minor (bounds mandate))"
    and saga_keeps: "J d \<Longrightarrow> bound sid (sg_mandate_id s) (sg_amount_minor s) \<Longrightarrow> J (d\<lparr>sagas := (sagas d)(sid \<mapsto> s)\<rparr>)"
    and saga_bound: "J d \<Longrightarrow> sagas d sid = Some s \<Longrightarrow> bound sid (sg_mandate_id s) (sg_amount_minor s)"
begin

lemma ledger_guarded:
  "bound ref m a \<Longrightarrow> cap m c \<Longrightarrow> guarded J (reserve m a c ref :: ('p, reservation option) app)"
  "bound ref m a \<Longrightarrow> guarded J (capture m a ref :: ('p, bool) app)"
  "bound ref m a \<Longrightarrow> guarded J (release m a ref :: ('p, bool) app)"
  "bound ref m a \<Longrightarrow> guarded J (reverse_settlement m a ref :: ('p, bool) app)"
  "guarded J (sweep ttl :: ('p, string list) app)"
  using call_keeps [of ref m a _ Do_capture] call_keeps [of ref m a _ Do_release] call_keeps [of ref m a _ Do_reverse]
  by (auto intro!: yields_local local_rules sweep_keeps simp: reserve_keeps run_call_def)

lemma purchase_repositories_guarded [guarded_rules]:
  "guarded J (mandates_get i1 :: ('p, (mandate \<times> mandate_status) option) app)"
  "guarded J (mandates_update_status i2 s2 :: ('p, unit) app)"
  "guarded J (sagas_get i3 :: ('p, saga option) app)"
  "guarded J (sagas_update_row i4 st4 s4 o4 :: ('p, unit) app)"
  "guarded J (decisions_get i5 :: ('p, decision_record option) app)"
  "guarded J (quotes_get i6 :: ('p, quote option) app)"
  "guarded J (catalog_current_version :: ('p, int) app)"
  "guarded J (integrity_get_state :: ('p, integrity_halt) app)"
  unfolding mandates_get_def mandates_update_status_def sagas_get_def sagas_update_row_def decisions_get_def quotes_get_def
    catalog_current_version_def integrity_get_state_def Let_def
  by (auto intro!: guarded_rules guarded_db_call status_keeps saga_keeps
    split: if_splits option.splits) (erule (1) saga_bound)+

end

end
