(* ===== verification/Payment.thy ===== *)
theory Payment
  imports Transactions
begin

text \<open>
  \<open>application/payment_service.py\<close>: order creation in two transactions around the one provider
  call, the signature-gated capture, webhook receipt and processing, reconciliation. Functions that
  take a \<open>session_factory\<close> open their own transactions (\<open>with_uow\<close>); functions that take a
  \<open>uow\<close> run inside the caller's.
\<close>

section \<open>Values\<close>

definition compute_idempotency_key :: "string \<Rightarrow> string \<Rightarrow> int \<Rightarrow> string" where
  "compute_idempotency_key mid intent_hash attempt_no =
     ''ik_'' @ take 32 (hex (sha256 (encode_utf8 (mid @ ''|'' @ intent_hash @ ''|'' @ show_int attempt_no))))"

fun jget :: "string \<Rightarrow> json \<Rightarrow> json option" where
  "jget k (JObj items) = map_of items k"
| "jget k _ = None"

fun truthy :: "json \<Rightarrow> bool" where
  "truthy JNull = False"
| "truthy (JBool b) = b"
| "truthy (JInt i) = (i \<noteq> 0)"
| "truthy (JFloat x) = (x \<noteq> FZero)"
| "truthy (JStr s) = (s \<noteq> [])"
| "truthy (JList vs) = (vs \<noteq> [])"
| "truthy (JObj kvs) = (kvs \<noteq> [])"

text \<open>\<open>str(x)\<close> of a parsed JSON value.\<close>

fun repr_float :: "pyfloat \<Rightarrow> string" where
  "repr_float FNaN = ''nan''"
| "repr_float FInf = ''inf''"
| "repr_float FZero = ''0.0''"
| "repr_float (FFin neg digits exponent) =
     (let ds = concat (map show_nat digits);
          k = int (length ds);
          n = exponent + k;
          e = n - 1
      in (if neg then ''-'' else []) @
         (if - 4 < n \<and> n \<le> 0 then ''0.'' @ replicate (nat (- n)) (CHR ''0'') @ ds
          else if 0 < n \<and> n \<le> 16 \<and> k \<le> n then ds @ replicate (nat (n - k)) (CHR ''0'') @ ''.0''
          else if 0 < n \<and> n \<le> 16 then take (nat n) ds @ ''.'' @ drop (nat n) ds
          else (if k = 1 then ds else take 1 ds @ ''.'' @ drop 1 ds) @ ''e'' @ (if e \<ge> 0 then ''+'' else ''-'') @
               pad 2 \<bar>e\<bar>))"

fun repr_json :: "json \<Rightarrow> string" where
  "repr_json JNull = ''None''"
| "repr_json (JBool b) = (if b then ''True'' else ''False'')"
| "repr_json (JInt i) = show_int i"
| "repr_json (JFloat x) = repr_float x"
| "repr_json (JStr s) = repr_str s"
| "repr_json (JList vs) = ''['' @ join '', '' (map repr_json vs) @ '']''"
| "repr_json (JObj kvs) = CHR 0x7B # join '', '' (map (\<lambda>(k, v). repr_str k @ '': '' @ repr_json v) kvs) @ [CHR 0x7D]"

definition str_json :: "json \<Rightarrow> string" where
  "str_json v = (case v of JStr s \<Rightarrow> s | _ \<Rightarrow> repr_json v)"

definition fresh_trace :: "string option \<Rightarrow> ('p, string) app" where
  "fresh_trace t = (case t of Some s \<Rightarrow> if s = [] then new_id ''trc'' else return s | None \<Rightarrow> new_id ''trc'')"

section \<open>S2 ORDER: idempotent order creation\<close>

record order_request =
  oq_order_id :: string
  oq_mandate_id :: string
  oq_decision_id :: string
  oq_quote_id :: string
  oq_amount_minor :: int
  oq_currency :: string
  oq_attempt_no :: int
  oq_intent_hash :: string
  oq_actor_id :: string
  oq_trace_id :: "string option"

definition request_key :: "order_request \<Rightarrow> string" where
  "request_key q = compute_idempotency_key (oq_mandate_id q) (oq_intent_hash q) (oq_attempt_no q)"

definition request_hash :: "order_request \<Rightarrow> string" where
  "request_hash q = hex (sha256 (encode_utf8 (oq_order_id q @ ''|'' @ oq_mandate_id q @ ''|'' @
     show_int (oq_amount_minor q) @ ''|'' @ oq_currency q)))"

text \<open>
  \<open>_await_in_flight_completion\<close>: one round of the poll, and the loop. \<open>waited\<close> grows by 0.05
  from 0.0 while it is below 2.0, which in floating-point arithmetic is forty rounds.
\<close>

definition poll_once :: "string \<Rightarrow> ('p, order option) app" where
  "poll_once key =
     bind (idempotency_get key) (\<lambda>r.
     bind (case r of
             Some rec \<Rightarrow> if ik_state rec = ''COMPLETED'' then orders_get_by_idempotency_key key else return None
           | None \<Rightarrow> return None) (\<lambda>found.
     if found \<noteq> None then return found
     else (case r of
             Some rec \<Rightarrow> if ik_state rec = ''FAILED''
               then raise (IdempotentAttemptFailed (''idempotency key '' @ key @ '' previously failed'')) else return None
           | None \<Rightarrow> return None)))"

fun poll_loop :: "nat \<Rightarrow> string \<Rightarrow> ('p, order) app" where
  "poll_loop 0 key =
     raise (IdempotencyInFlightTimeout (''idempotency key '' @ key @ '' is still in flight after 2.0s''))"
| "poll_loop (Suc n) key =
     bind (with_uow (poll_once key)) (\<lambda>r. case r of Some x \<Rightarrow> return x | None \<Rightarrow> poll_loop n key)"

definition poll_rounds :: nat where
  "poll_rounds = 40"

definition await_in_flight_completion :: "string \<Rightarrow> ('p, order) app" where
  "await_in_flight_completion key = poll_loop poll_rounds key"

definition payment_intent_payload :: "settings \<Rightarrow> order_request \<Rightarrow> json" where
  "payment_intent_payload c q =
     JObj [(''order_id'', JStr (oq_order_id q)), (''mandate_id'', JStr (oq_mandate_id q)),
           (''decision_id'', JStr (oq_decision_id q)), (''amount_minor'', JInt (oq_amount_minor q)),
           (''currency'', JStr (oq_currency q)), (''idempotency_key'', JStr (request_key q)),
           (''provider'', JStr (payment_provider c)), (''mode'', JStr ''test'')]"

definition new_order :: "order_request \<Rightarrow> datetime \<Rightarrow> order" where
  "new_order q now =
     \<lparr>or_id = oq_order_id q, or_mandate_id = oq_mandate_id q, or_decision_id = oq_decision_id q,
      or_quote_id = oq_quote_id q, or_status = ''CREATED'', or_amount_minor = oq_amount_minor q,
      or_currency = oq_currency q, or_attempt_no = oq_attempt_no q, or_idempotency_key = request_key q,
      or_provider_order_id = None, or_provider_payment_id = None, or_decline_reason = None, or_source = None,
      or_created_at = now\<rparr>"

text \<open>The first transaction: \<open>Some order\<close> is the early return of a duplicate, \<open>None\<close> a won claim.\<close>

definition claim_phase :: "order_request \<Rightarrow> string \<Rightarrow> ('p, order option) app" where
  "claim_phase q trace =
     (let key = request_key q in
      bind (idempotency_get key) (\<lambda>existing.
      case existing of
        Some rec \<Rightarrow>
          if ik_state rec = ''COMPLETED'' then
            bind (orders_get_by_idempotency_key key) (\<lambda>order.
            bind (assert_that (order \<noteq> None)) (\<lambda>_. return order))
          else if ik_state rec = ''FAILED'' then
            raise (IdempotentAttemptFailed (''idempotency key '' @ key @ '' previously failed''))
          else bind (await_in_flight_completion key) (\<lambda>order. return (Some order))
      | None \<Rightarrow>
          bind (gets config) (\<lambda>c.
          bind clock_now (\<lambda>now.
          bind (idempotency_claim \<lparr>ik_key = key, ik_request_hash = request_hash q, ik_state = ''IN_FLIGHT'',
                  ik_expires_at = now + timedelta_s (reservation_ttl_s c), ik_response = None\<rparr>) (\<lambda>won.
          if \<not> won then bind (await_in_flight_completion key) (\<lambda>order. return (Some order))
          else
            bind clock_now (\<lambda>now2.
            bind (orders_add (new_order q now2)) (\<lambda>_.
            bind (append_entry trace ''system'' (oq_actor_id q) PAYMENT_INTENT
                    (JObj [(''order_id'', JStr (oq_order_id q)), (''mandate_id'', JStr (oq_mandate_id q))])
                    (payment_intent_payload c q)) (\<lambda>_.
            bind commit (\<lambda>_. return None)))))))))"

definition create_notes :: "order_request \<Rightarrow> (string \<times> string) list" where
  "create_notes q = [(''order_id'', oq_order_id q), (''mandate_id'', oq_mandate_id q)]"

text \<open>The provider call, and the transaction that records its failure.\<close>

definition fail_phase :: "order_request \<Rightarrow> string \<Rightarrow> exn \<Rightarrow> ('p, unit) app" where
  "fail_phase q trace exc =
     bind clock_now (\<lambda>now.
     bind (payments_transition_status (oq_order_id q) ''FAILED'' None (Some (take_chars 500 (str_exn exc)))) (\<lambda>_.
     bind (idempotency_complete (request_key q) ''FAILED'' (JObj [(''error'', JStr (take_chars 500 (str_exn exc)))])) (\<lambda>_.
     bind (append_entry trace ''system'' (oq_actor_id q) PAYMENT_RESULT
             (JObj [(''order_id'', JStr (oq_order_id q))])
             (JObj [(''status'', JStr ''failed''), (''reason'', JStr ''order_creation_failed'')])) (\<lambda>_.
     commit))))"

definition provider_phase :: "'p payment_port \<Rightarrow> order_request \<Rightarrow> string \<Rightarrow> ('p, provider_order) app" where
  "provider_phase P q trace =
     handle
       (call_with_retry (logged ''create_order''
          (port_create_order P (oq_amount_minor q) (oq_currency q) (request_key q) (create_notes q))))
       (\<lambda>exc. if provider_failure exc then bind (with_uow (fail_phase q trace exc)) (\<lambda>_. raise exc) else raise exc)"

definition complete_phase :: "order_request \<Rightarrow> provider_order \<Rightarrow> ('p, order \<times> bool) app" where
  "complete_phase q po =
     bind clock_now (\<lambda>now.
     bind (orders_set_provider_order_id (oq_order_id q) (po_id po)) (\<lambda>_.
     bind (idempotency_complete (request_key q) ''COMPLETED''
             (JObj [(''order_id'', JStr (oq_order_id q)), (''provider_order_id'', JStr (po_id po))])) (\<lambda>_.
     bind commit (\<lambda>_.
     bind (orders_get (oq_order_id q)) (\<lambda>final.
     case final of None \<Rightarrow> raise AssertionError | Some x \<Rightarrow> return (x, False))))))"

definition create_provider_order :: "'p payment_port \<Rightarrow> order_request \<Rightarrow> ('p, order \<times> bool) app" where
  "create_provider_order P q =
     bind (fresh_trace (oq_trace_id q)) (\<lambda>trace.
     bind (with_uow (claim_phase q trace)) (\<lambda>early.
     case early of
       Some order \<Rightarrow> return (order, True)
     | None \<Rightarrow>
         bind (provider_phase P q trace) (\<lambda>po.
         with_uow (complete_phase q po))))"

section \<open>S3/S4: the signature-gated capture\<close>

definition signature_hash :: "string \<Rightarrow> json" where
  "signature_hash sig = (if sig = [] then JNull else JStr (''sha256:'' @ hex (sha256 (encode_utf8 sig))))"

definition capture_failed ::
  "string \<Rightarrow> string \<Rightarrow> string \<Rightarrow> string \<Rightarrow> string \<Rightarrow> json \<Rightarrow> exn \<Rightarrow> ('p, 'a) app" where
  "capture_failed order_id actor trace decline reason sighash exc =
     bind clock_now (\<lambda>now.
     bind (payments_transition_status order_id ''FAILED'' None (Some decline)) (\<lambda>_.
     bind (append_entry trace ''system'' actor PAYMENT_RESULT (JObj [(''order_id'', JStr order_id)])
             (JObj [(''status'', JStr ''failed''), (''reason'', JStr reason), (''signature_hash'', sighash)])) (\<lambda>_.
     bind commit (\<lambda>_. raise exc))))"

definition verify_and_capture ::
  "'p payment_port \<Rightarrow> string \<Rightarrow> string \<Rightarrow> string \<Rightarrow> string \<Rightarrow> int \<Rightarrow> string \<Rightarrow> string option \<Rightarrow> ('p, order) app" where
  "verify_and_capture P order_id provider_order_id provider_payment_id sig amount actor trace_id =
     bind (fresh_trace trace_id) (\<lambda>trace.
     bind (gets provider) (\<lambda>p.
     bind (lift_result (port_verify_checkout_signature P p provider_order_id provider_payment_id sig)) (\<lambda>is_valid.
     if \<not> is_valid then
       capture_failed order_id actor trace ''invalid_checkout_signature'' ''invalid_checkout_signature'' (signature_hash sig)
         (CheckoutSignatureInvalid (''checkout signature invalid for order '' @ order_id))
     else
       bind (handle (call_with_retry (logged ''capture'' (port_capture P provider_payment_id amount)))
          (\<lambda>exc. if provider_failure exc
             then capture_failed order_id actor trace (take_chars 500 (str_exn exc)) ''capture_failed'' (signature_hash sig) exc
             else raise exc)) (\<lambda>payment.
       bind clock_now (\<lambda>now.
       bind (payments_transition_status order_id ''CAPTURED'' (Some (py_id payment)) None) (\<lambda>_.
       bind (append_entry trace ''system'' actor PAYMENT_RESULT (JObj [(''order_id'', JStr order_id)])
               (JObj [(''status'', JStr ''captured''), (''provider_payment_id'', JStr (py_id payment)),
                      (''signature_hash'', signature_hash sig)])) (\<lambda>_.
       bind commit (\<lambda>_.
       bind (orders_get order_id) (\<lambda>order.
       case order of None \<Rightarrow> raise AssertionError | Some x \<Rightarrow> return x)))))))))"

section \<open>Webhooks\<close>

datatype webhook_receipt = Accepted | Duplicate | Invalid_signature | Missing_event_id

definition process_webhook_delivery ::
  "'p payment_port \<Rightarrow> bytes \<Rightarrow> string \<Rightarrow> string \<Rightarrow> string \<Rightarrow> json \<Rightarrow> ('p, webhook_receipt) app" where
  "process_webhook_delivery P raw_body sig event_id event_type payload =
     bind (gets provider) (\<lambda>p.
     bind (lift_result (port_verify_webhook P p raw_body sig)) (\<lambda>valid.
     if \<not> valid then return Invalid_signature
     else if event_id = [] then return Missing_event_id
     else
       bind (webhooks_claim \<lparr>we_provider_event_id = event_id, we_event_type = event_type, we_signature_valid = True,
               we_payload = payload, we_processed_at = None\<rparr>) (\<lambda>is_new.
       bind commit (\<lambda>_.
       return (if is_new then Accepted else Duplicate)))))"

fun as_dict :: "json option \<Rightarrow> json option" where
  "as_dict (Some (JObj kvs)) = Some (JObj kvs)"
| "as_dict _ = None"

definition extract_payment_entity :: "json \<Rightarrow> json option" where
  "extract_payment_entity payload =
     (case as_dict (jget ''payload'' payload) of
        None \<Rightarrow> None
      | Some body \<Rightarrow>
          (case as_dict (jget ''payment'' body) of
             None \<Rightarrow> None
           | Some payment \<Rightarrow> as_dict (jget ''entity'' payment)))"

text \<open>\<open>payment_entity.get(k) if payment_entity else None\<close>: an empty dict is false.\<close>

definition entity_field :: "json option \<Rightarrow> string \<Rightarrow> json" where
  "entity_field entity k =
     (case entity of None \<Rightarrow> JNull
      | Some e \<Rightarrow> if truthy e then (case jget k e of None \<Rightarrow> JNull | Some v \<Rightarrow> v) else JNull)"

definition apply_transition :: "string \<Rightarrow> string \<Rightarrow> json \<Rightarrow> ('p, string option) app" where
  "apply_transition event_type order_id payment_id =
     (if event_type = ''payment.captured'' then
        bind clock_now (\<lambda>now.
        bind (payments_transition_status order_id ''CAPTURED'' (Some (str_json payment_id)) None) (\<lambda>_.
        return (Some ''captured'')))
      else if event_type = ''payment.failed'' then
        bind clock_now (\<lambda>now.
        bind (payments_transition_status order_id ''FAILED''
                (if truthy payment_id then Some (str_json payment_id) else None) (Some ''payment.failed webhook'')) (\<lambda>_.
        return (Some ''failed'')))
      else return None)"

definition apply_webhook_event :: "string \<Rightarrow> webhook_event \<Rightarrow> ('p, unit) app" where
  "apply_webhook_event actor event =
     bind (new_id ''trc'') (\<lambda>trace_id.
     let entity = extract_payment_entity (we_payload event);
         provider_order_id = entity_field entity ''order_id'';
         provider_payment_id = entity_field entity ''id'' in
     if \<not> truthy provider_order_id then return ()
     else
       bind (case provider_order_id of JStr s \<Rightarrow> payments_get_by_provider_order_id s | _ \<Rightarrow> raise DBAPIError) (\<lambda>order.
       case order of
         None \<Rightarrow> return ()
       | Some x \<Rightarrow>
           if or_status x \<in> set terminal_statuses then return ()
           else
             bind (apply_transition (we_event_type event) (or_id x) provider_payment_id) (\<lambda>status.
             case status of
               None \<Rightarrow> return ()
             | Some st \<Rightarrow>
                 bind (append_entry trace_id ''system'' actor PAYMENT_RESULT (JObj [(''order_id'', JStr (or_id x))])
                         (JObj [(''status'', JStr st), (''source'', JStr ''webhook''),
                                (''provider_payment_id'', provider_payment_id)])) (\<lambda>_. return ()))))"

definition process_unprocessed_webhooks :: "string \<Rightarrow> ('p, string list) app" where
  "process_unprocessed_webhooks actor =
     bind raise_if_halted (\<lambda>_.
     bind webhooks_list_unprocessed (\<lambda>events.
     bind (for_each events (\<lambda>event.
             bind (apply_webhook_event actor event) (\<lambda>_.
             bind clock_now (\<lambda>now.
             bind (webhooks_mark_processed (we_provider_event_id event) now) (\<lambda>_.
             return (we_provider_event_id event)))))) (\<lambda>ids.
     bind commit (\<lambda>_. return ids))))"

section \<open>Reconciliation\<close>

datatype reconcile_action = R_captured | R_failed | R_still_pending | R_poll_failed | R_skipped

definition latest_payment :: "provider_payment list \<Rightarrow> provider_payment option" where
  "latest_payment ps =
     (if ps = [] then None
      else (case find (\<lambda>p. py_status p = ''captured'') ps of
              Some p \<Rightarrow> Some p
            | None \<Rightarrow> (case find (\<lambda>p. py_status p = ''failed'') ps of
                         Some p \<Rightarrow> Some p
                       | None \<Rightarrow> Some (last ps))))"

definition audit_reconciled :: "string \<Rightarrow> string \<Rightarrow> provider_payment \<Rightarrow> string \<Rightarrow> string \<Rightarrow> ('p, unit) app" where
  "audit_reconciled order_id status payment actor trace_id =
     bind (append_entry trace_id ''system'' actor PAYMENT_RESULT (JObj [(''order_id'', JStr order_id)])
        (JObj [(''status'', JStr status), (''source'', JStr ''reconciler''), (''provider_payment_id'', JStr (py_id payment))]))
       (\<lambda>_. return ())"

definition settle_polled :: "string \<Rightarrow> string \<Rightarrow> string \<Rightarrow> provider_payment \<Rightarrow> ('p, reconcile_action) app" where
  "settle_polled order_id actor trace_id latest =
     (if py_status latest = ''captured'' then
        bind clock_now (\<lambda>now.
        bind (payments_transition_status order_id ''CAPTURED'' (Some (py_id latest)) None) (\<lambda>_.
        bind (audit_reconciled order_id ''captured'' latest actor trace_id) (\<lambda>_.
        return R_captured)))
      else if py_status latest = ''failed'' then
        bind clock_now (\<lambda>now.
        bind (payments_transition_status order_id ''FAILED'' (Some (py_id latest))
                (Some (case py_error_code latest of None \<Rightarrow> ''declined'' | Some c \<Rightarrow> if c = [] then ''declined'' else c))) (\<lambda>_.
        bind (audit_reconciled order_id ''failed'' latest actor trace_id) (\<lambda>_.
        return R_failed)))
      else return R_still_pending)"

definition reconcile_order :: "'p payment_port \<Rightarrow> string \<Rightarrow> order \<Rightarrow> ('p, string \<times> reconcile_action) app" where
  "reconcile_order P actor x =
     bind (new_id ''trc'') (\<lambda>trace_id.
     case or_provider_order_id x of
       None \<Rightarrow> return (or_id x, R_skipped)
     | Some pid \<Rightarrow>
         bind (handle
                 (bind (call_with_retry (logged ''fetch_payments'' (port_fetch_payments P pid))) (\<lambda>ps. return (Some ps)))
                 (\<lambda>exc. if provider_failure exc then return None else raise exc)) (\<lambda>polled.
         case polled of
           None \<Rightarrow> return (or_id x, R_poll_failed)
         | Some ps \<Rightarrow>
             (case latest_payment ps of
                None \<Rightarrow> return (or_id x, R_still_pending)
              | Some latest \<Rightarrow>
                  bind (settle_polled (or_id x) actor trace_id latest) (\<lambda>act. return (or_id x, act)))))"

definition reconcile_non_terminal_orders ::
  "'p payment_port \<Rightarrow> int option \<Rightarrow> string \<Rightarrow> ('p, (string \<times> reconcile_action) list) app" where
  "reconcile_non_terminal_orders P after_s actor =
     bind raise_if_halted (\<lambda>_.
     bind (gets config) (\<lambda>c.
     bind clock_now (\<lambda>now.
     let wait = (case after_s of Some s \<Rightarrow> if s = 0 then reconcile_after_s c else s | None \<Rightarrow> reconcile_after_s c) in
     bind (orders_list_non_terminal_older_than (now - timedelta_s wait)) (\<lambda>due.
     bind (for_each due (\<lambda>x. clock_now)) (\<lambda>ages.
     bind (for_each due (reconcile_order P actor)) (\<lambda>outcomes.
     bind commit (\<lambda>_. return outcomes)))))))"

section \<open>Invariants through the payment services\<close>

context payment_db
begin

lemma port_external:
  "external ''create_order'' (call_with_retry (logged ''create_order'' (port_create_order P a c k ns)))"
  "external ''capture'' (call_with_retry (logged ''capture'' (port_capture P pid a)))"
  "external ''fetch_payments'' (call_with_retry (logged ''fetch_payments'' (port_fetch_payments P oid)))"
  "external ''refund'' (call_with_retry (logged ''refund'' (port_refund P pid a k)))"
  by (intro external_rules create_outside capture_outside fetch_outside refund_outside)+

lemma poll_guarded [guarded_rules]: "guarded J (await_in_flight_completion key :: ('p, order) app)"
proof -
  have "guarded J (poll_once key :: ('p, order option) app)"
    unfolding poll_once_def by (intro guarded_rules) auto
  then have "guarded J (poll_loop n key :: ('p, order) app)" for n
    by (induction n) (auto intro!: guarded_rules)
  then show ?thesis by (simp add: await_in_flight_completion_def)
qed

lemma claim_guarded: "guarded J (claim_phase q trace :: ('p, order option) app)"
  unfolding claim_phase_def Let_def by (intro guarded_rules TrueI)

lemma provider_phase_keeps: "keeps (steady J) (provider_phase P q trace)"
proof -
  have fail: "guarded J (fail_phase q trace exc :: ('p, unit) app)" for exc
    unfolding fail_phase_def by (intro guarded_rules)
  show ?thesis
    unfolding provider_phase_def
    by (intro keeps_rules keeps_with_uow fail keeps_external [OF port_external(1)])
qed

lemma complete_phase_keeps: "keeps (steady J) (with_uow (complete_phase q po) :: ('p, order \<times> bool) app)"
  unfolding complete_phase_def by (intro keeps_with_uow guarded_rules TrueI)

lemma create_keeps: "keeps (steady J) (create_provider_order P q)"
proof -
  have trace: "keeps (steady J) (fresh_trace t :: ('p, string) app)" for t
    unfolding fresh_trace_def by (intro keeps_rules keeps_local local_rules)
  show ?thesis
    unfolding create_provider_order_def
    by (intro keeps_rules keeps_with_uow claim_guarded complete_phase_keeps provider_phase_keeps trace)
qed

lemma verify_and_capture_guarded: "guarded J (verify_and_capture P oid poid pid sig amount actor t)"
proof -
  have trace: "guarded J (fresh_trace t :: ('p, string) app)"
    unfolding fresh_trace_def by (intro guarded_rules TrueI)
  have failed: "yields J (capture_failed oid actor trace decline reason sighash exc :: ('p, 'a) app) R"
    for trace decline reason sighash exc and R :: "'a \<Rightarrow> bool"
    unfolding capture_failed_def by (intro guarded_rules)
  show ?thesis
    unfolding verify_and_capture_def
    by (intro guarded_rules trace failed guarded_handle_external [OF port_external(2)] TrueI)
qed

lemma webhook_delivery_guarded: "guarded J (process_webhook_delivery P body sig eid ty pay)"
  unfolding process_webhook_delivery_def by (intro guarded_rules TrueI)

lemma webhooks_guarded: "guarded J (process_unprocessed_webhooks actor :: ('p, string list) app)"
proof -
  have transition: "guarded J (apply_transition ty oid pid :: ('p, string option) app)" for ty oid pid
    unfolding apply_transition_def by (intro guarded_rules TrueI)
  have lookup: "guarded J (case v of JStr s \<Rightarrow> payments_get_by_provider_order_id s :: ('p, order option) app | _ \<Rightarrow> raise DBAPIError)" for v
    by (cases v) (auto intro!: guarded_rules)
  have event: "guarded J (apply_webhook_event actor event :: ('p, unit) app)" for event
    unfolding apply_webhook_event_def by (intro guarded_rules transition lookup TrueI)
  show ?thesis
    unfolding process_unprocessed_webhooks_def by (intro guarded_rules event TrueI)
qed

lemma reconcile_guarded: "guarded J (reconcile_non_terminal_orders P after actor)"
proof -
  have settle: "guarded J (settle_polled oid actor trace latest :: ('p, reconcile_action) app)" for oid trace latest
    unfolding settle_polled_def audit_reconciled_def by (intro guarded_rules TrueI)
  have poll: "guarded J (handle (bind (call_with_retry (logged ''fetch_payments'' (port_fetch_payments P oid))) (\<lambda>ps. return (Some ps)))
      (\<lambda>exc. if provider_failure exc then return None else raise exc))" for oid
    by (intro guarded_handle_external [where nm = "''fetch_payments''"] external_rules fetch_outside guarded_rules TrueI)
  have one: "guarded J (reconcile_order P actor x)" for x
    unfolding reconcile_order_def by (intro guarded_rules settle poll TrueI)
  show ?thesis
    unfolding reconcile_non_terminal_orders_def Let_def by (intro guarded_rules one TrueI)
qed

end

section \<open>The intent is recorded before the provider is called\<close>

definition intent_recorded :: "order_request \<Rightarrow> db \<Rightarrow> bool" where
  "intent_recorded q d \<longleftrightarrow>
     (\<exists>k. idempotency_keys d (request_key q) = Some k \<and> ik_state k = ''IN_FLIGHT'' \<and> ik_request_hash k = request_hash q) \<and>
     (\<exists>x\<in>set (orders d). or_id x = oq_order_id q \<and> or_status x = ''CREATED'' \<and> or_mandate_id x = oq_mandate_id q \<and>
        or_amount_minor x = oq_amount_minor q \<and> or_idempotency_key x = request_key q) \<and>
     (\<exists>r\<in>set (audit_log d). \<exists>c. al_action r = ''payment.intent'' \<and> al_payload r = payment_intent_payload c q \<and>
        (\<forall>t. oq_trace_id q = Some t \<longrightarrow> t \<noteq> [] \<longrightarrow> al_trace_id r = t))"

definition traced :: "order_request \<Rightarrow> string \<Rightarrow> bool" where
  "traced q trace \<longleftrightarrow> (\<forall>t. oq_trace_id q = Some t \<longrightarrow> t \<noteq> [] \<longrightarrow> trace = t)"

lemma claim_records:
  assumes "traced q trace"
  shows "wp (claim_phase q trace) (\<lambda>r w'. r = None \<longrightarrow> intent_recorded q (durable w')) (\<lambda>e w'. True) w"
proof -
  have intent: "wp (append_entry trace ''system'' (oq_actor_id q) PAYMENT_INTENT subj (payment_intent_payload c q))
      (\<lambda>_. wp (bind commit (\<lambda>_. return None)) (\<lambda>r w'. r = None \<longrightarrow> intent_recorded q (durable w')) (\<lambda>e w'. True))
      (\<lambda>e w'. True) u"
    if "\<exists>k. idempotency_keys (session u) (request_key q) = Some k \<and> ik_state k = ''IN_FLIGHT'' \<and> ik_request_hash k = request_hash q"
      "\<exists>x\<in>set (orders (session u)). or_id x = oq_order_id q \<and> or_status x = ''CREATED'' \<and> or_mandate_id x = oq_mandate_id q \<and>
        or_amount_minor x = oq_amount_minor q \<and> or_idempotency_key x = request_key q"
    for subj c and u :: "'a world"
  proof (rule wp_mono [OF wp_conj [OF append_entry_adds
          preserves_wp [OF preserves_append_entry [where f = "\<lambda>d. (idempotency_keys d, orders d)"]]]], goal_cases)
    case (3 x u')
    then show ?case using that assms
      by (simp add: intent_recorded_def traced_def) (intro impI disjI1 exI, rule refl)
  qed simp_all
  have wait: "wp (await_in_flight_completion k) (\<lambda>x. wp (return (Some x))
      (\<lambda>r w'. r = None \<longrightarrow> intent_recorded q (durable w')) (\<lambda>e w'. True)) (\<lambda>e w'. True) u" for k and u :: "'a world"
    by (rule wp_mono [OF wp_true]) simp_all
  show ?thesis
    unfolding claim_phase_def Let_def idempotency_get_def idempotency_claim_def orders_add_def
      orders_get_by_idempotency_key_def
    by (auto simp: wp_db_call new_order_def idempotency_states_def split: option.split
      intro!: intent wait)
qed

lemma silent_payment:
  "silent (fresh_trace t)" "silent (claim_phase q trace)" "silent (fail_phase q trace exc)" "silent (complete_phase q po)"
proof -
  show "silent (fresh_trace t)" unfolding fresh_trace_def by (intro silent.rules)
  have "silent (poll_once key)" for key unfolding poll_once_def by (intro silent.rules)
  then have "silent (poll_loop n key)" for n key by (induction n) (auto intro!: silent.rules)
  then have "silent (await_in_flight_completion key)" for key by (simp add: await_in_flight_completion_def)
  then show "silent (claim_phase q trace)" unfolding claim_phase_def Let_def by (intro silent.rules)
  show "silent (fail_phase q trace exc)" "silent (complete_phase q po)"
    unfolding fail_phase_def complete_phase_def by (intro silent.rules)+
qed

lemma wp_fresh_trace:
  "wp (fresh_trace (oq_trace_id q)) (\<lambda>trace w'. silent_step w w' \<and> traced q trace) (\<lambda>e w'. silent_step w w') w"
  by (auto simp: fresh_trace_def traced_def silent_step_def split: option.split)

lemma wp_claim:
  assumes "traced q trace"
  shows "wp (with_uow (claim_phase q trace)) (\<lambda>r w'. silent_step w w' \<and> (r = None \<longrightarrow> intent_recorded q (durable w')))
    (\<lambda>e w'. silent_step w w') w"
proof -
  have "wp (with_uow (claim_phase q trace)) (\<lambda>r w'. r = None \<longrightarrow> intent_recorded q (durable w')) (\<lambda>e w'. True) w"
    unfolding wp_with_uow by (rule wp_mono [OF claim_records [OF assms]]) simp_all
  from wp_conj [OF silent_wp [OF silent.with_uow_unchanged [OF silent_payment(2)]] this]
  show ?thesis by simp
qed

text \<open>The calls that one order creation makes: all under the same committed state.\<close>

definition calls_made :: "nat \<Rightarrow> string \<Rightarrow> (db \<Rightarrow> bool) \<Rightarrow> 'p world \<Rightarrow> 'p world \<Rightarrow> bool" where
  "calls_made n nm D w w' \<longleftrightarrow>
     (\<exists>k d. provider_calls w' = provider_calls w @ replicate k (nm, d) \<and> k \<le> n \<and> (0 < k \<longrightarrow> D d))"

lemma calls_made_none: "provider_calls w' = provider_calls w \<Longrightarrow> calls_made n nm D w w'"
  by (auto simp: calls_made_def intro!: exI [of _ 0])

context provider_port
begin

lemma provider_phase_calls:
  fixes w :: "'p world"
  assumes "D (durable w)"
  shows "wp (provider_phase P q trace) (\<lambda>x w'. calls_made (max_retry_attempts (config w)) ''create_order'' D w w')
    (\<lambda>e w'. calls_made (max_retry_attempts (config w)) ''create_order'' D w w') w"
proof -
  let ?Q = "\<lambda>w'. calls_made (max_retry_attempts (config w)) ''create_order'' D w w'"
  let ?m = "call_with_retry (logged ''create_order'' (port_create_order P (oq_amount_minor q) (oq_currency q) (request_key q) (create_notes q)))"
  have call: "wp ?m (\<lambda>x w'. ?Q w') (\<lambda>e w'. ?Q w') w"
    unfolding wp_snd calls_made_def using calls_of_operation [OF create_outside] assms by blast
  have quiet: "?Q u'" if "?Q u" "silent_step u u'" for u u'
    using that by (simp add: calls_made_def silent_step_def)
  have fail: "wp (if provider_failure e then bind (with_uow (fail_phase q trace e)) (\<lambda>_. raise e) else raise e)
      (\<lambda>x w'. ?Q w') (\<lambda>e w'. ?Q w') u" if "?Q u" for e :: exn and u :: "'p world"
  proof -
    have "silent (if provider_failure e then bind (with_uow (fail_phase q trace e)) (\<lambda>_. raise e) else raise e :: ('p, 'x) app)"
      by (intro silent.rules silent_payment)
    from silent_wp [OF this] show ?thesis by (rule wp_mono) (use that quiet in blast)+
  qed
  show ?thesis
    unfolding provider_phase_def wp_handle by (rule wp_mono [OF call]) (use fail in blast)+
qed

lemma create_calls:
  fixes w :: "'p world"
  shows "wp (create_provider_order P q)
    (\<lambda>x w'. calls_made (max_retry_attempts (config w)) ''create_order'' (intent_recorded q) w w')
    (\<lambda>e w'. calls_made (max_retry_attempts (config w)) ''create_order'' (intent_recorded q) w w') w"
    (is "wp _ (\<lambda>x. ?Q) (\<lambda>e. ?Q) w")
proof -
  have quiet: "?Q u" if "silent_step w u" for u using that by (simp add: silent_step_def calls_made_none)
  have last: "wp (bind (provider_phase P q trace) (\<lambda>po. with_uow (complete_phase q po))) (\<lambda>x. ?Q) (\<lambda>e. ?Q) u"
    if u: "silent_step w u" "intent_recorded q (durable u)" for trace and u :: "'p world"
  proof -
    have stay: "?Q v" if "calls_made (max_retry_attempts (config u)) ''create_order'' (intent_recorded q) u v" for v
      using that u(1) by (simp add: calls_made_def silent_step_def)
    have "silent (with_uow (complete_phase q po) :: ('p, order \<times> bool) app)" for po by (intro silent.rules silent_payment)
    from silent_wp [OF this] have "wp (with_uow (complete_phase q po)) (\<lambda>x. ?Q) (\<lambda>e. ?Q) v" if "?Q v" for po and v :: "'p world"
      by (rule wp_mono) (use that in \<open>auto simp: calls_made_def silent_step_def\<close>)
    then show ?thesis unfolding wp_bind
      by (intro wp_mono [OF provider_phase_calls [of "intent_recorded q", OF u(2)]]) (use stay in blast)+
  qed
  have trans: "silent_step w v" if "silent_step w u" "silent_step u v" for u v :: "'p world"
    using that by (simp add: silent_step_def)
  show ?thesis
    unfolding create_provider_order_def wp_bind [of "fresh_trace _"]
  proof (rule wp_mono [OF wp_fresh_trace], goal_cases)
    case (1 trace u)
    then show ?case unfolding wp_bind [of "with_uow (claim_phase q trace)"]
      by (intro wp_mono [OF wp_claim]) (use trans quiet last in \<open>auto split: option.split\<close>)
  qed (use quiet in blast)
qed

end

section \<open>Properties of the payment service\<close>

text \<open>
  C3. Write-ahead: \<open>create_provider_order\<close> calls the provider only while the committed database
  already holds the claimed idempotency key (in flight, with the hash of this request), the order row
  in status CREATED with its amount, and the \<open>payment.intent\<close> audit entry; and it makes at most
  \<open>max_retry_attempts\<close> calls, all of them order creations. This holds however the call ends,
  for every provider that has no access to the database.
\<close>

theorem provider_called_after_intent:
  assumes "provider_port P" "create_provider_order P q w = (r, w')"
  shows "\<exists>calls. provider_calls w' = provider_calls w @ calls \<and> length calls \<le> max_retry_attempts (config w) \<and>
    list_all (\<lambda>(nm, d). nm = ''create_order'' \<and> intent_recorded q d) calls"
proof -
  have "calls_made (max_retry_attempts (config w)) ''create_order'' (intent_recorded q) w w'"
    using provider_port.create_calls [OF assms(1), of q w] assms(2) unfolding wp_snd by simp
  then show ?thesis by (auto simp: calls_made_def list_all_iff)
qed

definition sample_order :: order_request where
  "sample_order =
     \<lparr>oq_order_id = ''ord_1'', oq_mandate_id = mandate_id goa_mandate, oq_decision_id = ''dec_1'', oq_quote_id = ''qt_1'',
      oq_amount_minor = 400, oq_currency = ''INR'', oq_attempt_no = 1, oq_intent_hash = ''h'', oq_actor_id = ''agent'',
      oq_trace_id = Some ''trc_1''\<rparr>"

theorem provider_called_after_intent_witness:
  "\<exists>calls. provider_calls (snd (create_provider_order simulator_adapter sample_order
       (quiet_world 0 (new_simulator SUCCESS 0) goa_db))) = calls \<and> length calls \<le> 3 \<and>
     list_all (\<lambda>(nm, d). nm = ''create_order'' \<and> intent_recorded sample_order d) calls"
  using provider_called_after_intent [OF simulator_port, of sample_order "quiet_world 0 (new_simulator SUCCESS 0) goa_db"]
  by (metis (no_types, lifting) append_Nil prod.collapse quiet_world_simps(6,10) default_settings_def settings.select_convs(7))

definition in_flight :: "string \<Rightarrow> db \<Rightarrow> bool" where
  "in_flight key d \<longleftrightarrow> (\<exists>r. idempotency_keys d key = Some r \<and> ik_state r = ''IN_FLIGHT'')"

lemma wp_poll_once:
  "wp (poll_once key) (\<lambda>r w'. local_step w w' \<and> (in_flight key (session w) \<longrightarrow> r = None))
     (\<lambda>e w'. local_step w w' \<and> (in_flight key (session w) \<longrightarrow> (\<exists>n. faults w n))) w"
  by (auto simp: poll_once_def idempotency_get_def orders_get_by_idempotency_key_def local_step_def in_flight_def
    split: option.split)

lemma wp_poll_uow:
  "wp (with_uow (poll_once key))
     (\<lambda>r w'. transactions w' = Suc (transactions w) \<and> durable w' = began w \<and> others w' = others w \<and> faults w' = faults w \<and>
        (in_flight key (began w) \<longrightarrow> r = None))
     (\<lambda>e w'. transactions w' = Suc (transactions w) \<and> (in_flight key (began w) \<longrightarrow> (\<exists>n. faults w n))) w"
  unfolding wp_with_uow by (rule wp_mono [OF wp_poll_once]) (auto simp: local_step_def began_def)

lemma wp_poll_loop:
  "wp (poll_loop n key)
     (\<lambda>x w'. transactions w' \<le> transactions w + n \<and> \<not> (steady (in_flight key) w \<and> (\<forall>k. \<not> faults w k)))
     (\<lambda>e w'. transactions w' \<le> transactions w + n \<and>
        (steady (in_flight key) w \<and> (\<forall>k. \<not> faults w k) \<longrightarrow> transactions w' = transactions w + n \<and>
         e = IdempotencyInFlightTimeout (''idempotency key '' @ key @ '' is still in flight after 2.0s''))) w"
proof (induction n arbitrary: w)
  case (Suc n)
  show ?case unfolding poll_loop.simps wp_bind
  proof (rule wp_mono [OF wp_poll_uow], goal_cases)
    case (1 r u)
    have st: "steady (in_flight key) u \<and> in_flight key (began w)" if "steady (in_flight key) w"
      using that 1 by (simp add: steady_def began_def)
    show ?case
    proof (cases r)
      case None
      show ?thesis unfolding None option.case
        by (rule wp_mono [OF Suc.IH]) (use 1 st in auto)
    qed (use 1 st in auto)
  next
    case (2 e u)
    then show ?case by (auto simp: steady_def began_def)
  qed
qed simp


definition in_flight_db :: db where
  "in_flight_db = goa_db\<lparr>idempotency_keys := [''ik_1'' \<mapsto> \<lparr>ik_key = ''ik_1'', ik_request_hash = ''h'', ik_state = ''IN_FLIGHT'',
     ik_expires_at = 0, ik_response = None\<rparr>]\<rparr>"


text \<open>
  Webhook receipt: a delivery with an invalid signature, or without an event id, executes no
  statement at all; a valid one is stored exactly once, by its event id, and committed; receiving it
  again changes nothing and is answered as a duplicate. It fails only when the database does, or
  when the verification of the signature itself raises, before anything is done.
\<close>

theorem webhook_received_once:
  "wp (process_webhook_delivery P body sig eid ty pay)
    (\<lambda>r w'. if port_verify_webhook P (provider w) body sig = Inr False then r = Invalid_signature \<and> w' = w
       else if eid = [] then r = Missing_event_id \<and> w' = w
       else if eid \<in> we_provider_event_id ` set (webhook_events (session w))
       then r = Duplicate \<and> session w' = session w \<and> durable w' = session w
       else r = Accepted \<and> durable w' = session w' \<and>
         session w' = (session w)\<lparr>webhook_events := webhook_events (session w) @
           [\<lparr>we_provider_event_id = eid, we_event_type = ty, we_signature_valid = True, we_payload = pay, we_processed_at = None\<rparr>]\<rparr>)
    (\<lambda>e w'. durable w' = durable w \<and>
       (if port_verify_webhook P (provider w) body sig = Inr True then e = DBAPIError
        else port_verify_webhook P (provider w) body sig = Inl e \<and> w' = w)) w"
  by (cases "port_verify_webhook P (provider w) body sig")
    (auto simp: process_webhook_delivery_def webhooks_claim_def wp_db_call list_ex_iff split: prod.split)

section \<open>Webhooks and orders\<close>

text \<open>One order may move from open to settled; nothing else about it but the outcome changes.\<close>

definition settled_status :: "string \<Rightarrow> bool" where
  "settled_status st \<longleftrightarrow> st = ''CAPTURED'' \<or> st = ''FAILED''"

definition order_moves :: "order \<Rightarrow> order \<Rightarrow> bool" where
  "order_moves x y \<longleftrightarrow>
     y = x \<or> or_status x \<notin> set terminal_statuses \<and>
       (\<exists>st pid reason. settled_status st \<and>
          y = x\<lparr>or_status := st, or_provider_payment_id := pid, or_decline_reason := reason\<rparr>)"

definition only_orders_move :: "db \<Rightarrow> db \<Rightarrow> bool" where
  "only_orders_move d d' \<longleftrightarrow> list_all2 order_moves (orders d) (orders d') \<and>
     ledger_entries d' = ledger_entries d \<and> mandates d' = mandates d \<and> sagas d' = sagas d \<and>
     idempotency_keys d' = idempotency_keys d"

lemma settled_terminal: "settled_status st \<Longrightarrow> st \<in> set terminal_statuses"
  by (simp add: settled_status_def terminal_statuses_def) (elim disjE; simp)

lemma order_moves_trans: "order_moves x y \<Longrightarrow> order_moves y z \<Longrightarrow> order_moves x z"
  unfolding order_moves_def using settled_terminal by fastforce

lemma only_orders_move_refl: "only_orders_move d d"
  by (simp add: only_orders_move_def list.rel_refl order_moves_def)

lemma only_orders_move_trans: "only_orders_move d d1 \<Longrightarrow> only_orders_move d1 d2 \<Longrightarrow> only_orders_move d d2"
  unfolding only_orders_move_def by (auto intro: list_all2_trans [rotated] order_moves_trans)

lemma only_orders_move_ids: "only_orders_move d d' \<Longrightarrow> map or_id (orders d') = map or_id (orders d)"
proof -
  have "order_moves x y \<Longrightarrow> or_id x = or_id y" for x y by (auto simp: order_moves_def)
  then show "only_orders_move d d' \<Longrightarrow> map or_id (orders d') = map or_id (orders d)"
    unfolding only_orders_move_def by (auto simp: list_all2_conv_all_nth list_eq_iff_nth_eq)
qed

lemma order_moves_outcome:
  "order_moves x y \<Longrightarrow> or_id y = or_id x \<and> or_amount_minor y = or_amount_minor x \<and>
     (if or_status x \<in> set terminal_statuses then y = x else or_status y \<in> {or_status x, ''CAPTURED'', ''FAILED''})"
  unfolding order_moves_def settled_status_def by (elim disjE conjE exE) simp_all

lemma wp_transition:
  fixes w :: "'p world"
  assumes "x \<in> set (orders (session w))" "or_status x \<notin> set terminal_statuses" "settled_status st"
    and "distinct (map or_id (orders (session w)))" "only_orders_move d (session w)"
  shows "wp (payments_transition_status (or_id x) st pid reason) (\<lambda>_ w'. only_orders_move d (session w')) (\<lambda>e w'. True) w"
proof -
  have one: "or_id y = or_id x \<Longrightarrow> y = x" if "y \<in> set (orders (session w))" for y
    using assms(1,4) that by (metis distinct_map inj_onD)
  have "only_orders_move (session w) ((session w)\<lparr>orders := map_order (or_id x) (\<lambda>x. x\<lparr>or_status := st,
      or_provider_payment_id := p x, or_decline_reason := q x\<rparr>) (orders (session w))\<rparr>)" for p q
    using assms(2,3) one unfolding only_orders_move_def map_order_def
    by (simp add: list_all2_map2 order_moves_def) (rule list.rel_refl_strong, blast)
  then show ?thesis
    unfolding payments_transition_status_def by (auto simp: wp_db_call intro: only_orders_move_trans [OF assms(5)])
qed

lemma wp_append_orders:
  assumes "only_orders_move d (session w)"
  shows "wp (append_entry t y a act subj pay) (\<lambda>_ w'. only_orders_move d (session w')) (\<lambda>e w'. True) w"
  by (rule wp_mono [OF preserves_wp [OF preserves_append_entry [where
        f = "\<lambda>d. (orders d, ledger_entries d, mandates d, sagas d, idempotency_keys d)"]]])
    (use assms in \<open>auto simp: only_orders_move_def\<close>)

lemma wp_for_each:
  assumes "\<And>x u. x \<in> set xs \<Longrightarrow> I u \<Longrightarrow> wp (f x) (\<lambda>r. I) E u" "I w"
  shows "wp (for_each xs f) (\<lambda>rs. I) E w"
  using assms
proof (induction xs arbitrary: w)
  case (Cons x xs)
  show ?case unfolding for_each.simps wp_bind [of "f x"]
  proof (rule wp_mono [OF Cons.prems(1)], goal_cases)
    case (3 r u)
    then show ?case unfolding wp_bind by (intro wp_mono [OF Cons.IH]) (use Cons.prems(1) in auto)
  qed (use Cons.prems(2) in simp_all)
qed simp

definition open_order :: "order \<Rightarrow> db \<Rightarrow> bool" where
  "open_order x d \<longleftrightarrow> x \<in> set (orders d) \<and> or_status x \<notin> set terminal_statuses"

lemma wp_apply_transition:
  assumes "open_order x (session w)" "distinct (map or_id (orders (session w)))" "only_orders_move d (session w)"
  shows "wp (apply_transition ty (or_id x) pid) (\<lambda>_ w'. only_orders_move d (session w')) (\<lambda>e w'. True) w"
  unfolding apply_transition_def
  using assms by (auto simp: open_order_def settled_status_def intro!: wp_mono [OF wp_transition])

lemma wp_lookup:
  "wp (case v of JStr s \<Rightarrow> payments_get_by_provider_order_id s | _ \<Rightarrow> raise DBAPIError)
     (\<lambda>r w'. session w' = session w \<and> (\<forall>x. r = Some x \<longrightarrow> x \<in> set (orders (session w)))) (\<lambda>e w'. True) w"
proof (cases v)
  case (JStr s)
  have "x \<in> set (orders (session w))"
    if "filter (\<lambda>x. or_provider_order_id x = Some s) (orders (session w)) = [x]" for x
    using arg_cong [OF that, of set] by auto
  note unique = this
  let ?found = "filter (\<lambda>x. or_provider_order_id x = Some s) (orders (session w))"
  show ?thesis
  proof (cases ?found)
    case Nil
    then show ?thesis unfolding JStr payments_get_by_provider_order_id_def by (simp add: wp_db_call)
  next
    case (Cons x xs)
    then show ?thesis using unique [of x] unfolding JStr payments_get_by_provider_order_id_def
      by (cases xs) (simp_all add: wp_db_call)
  qed
qed simp_all

lemma wp_apply_event:
  fixes w :: "'p world"
  assumes "distinct (map or_id (orders (session w)))" "only_orders_move d (session w)"
  shows "wp (apply_webhook_event actor event) (\<lambda>_ w'. only_orders_move d (session w')) (\<lambda>e w'. True) w"
proof -
  have settle: "wp (bind (apply_transition ty (or_id x) pid) (\<lambda>status.
        case status of None \<Rightarrow> return () | Some st \<Rightarrow> bind (append_entry t ''system'' actor PAYMENT_RESULT (subj x) (pay st)) (\<lambda>_. return ())))
      (\<lambda>_ w'. only_orders_move d (session w')) (\<lambda>e w'. True) u"
    if "open_order x (session u)" "session u = session w" for ty x pid t subj pay and u :: "'p world"
    unfolding wp_bind
  proof (rule wp_mono [OF wp_apply_transition [of x u d]], goal_cases)
    case (4 r v)
    show ?case
    proof (cases r)
      case (Some st)
      show ?thesis unfolding Some option.case wp_bind by (rule wp_mono [OF wp_append_orders]) (use 4 in simp_all)
    qed (use 4 in simp)
  qed (use that assms in simp_all)
  show ?thesis
    unfolding apply_webhook_event_def Let_def
  proof (simp add: assms(2), intro impI, rule wp_mono [OF wp_lookup], goal_cases)
    case (1 r u)
    then show ?case
      using assms(2) by (cases r) (auto simp: open_order_def intro!: settle [unfolded wp_bind open_order_def])
  qed simp
qed

text \<open>
  C35. Webhooks are evidence, never an authority: processing the queue leaves every order that is
  already CAPTURED, FAILED or COMPENSATED exactly as it is; an open order can only become CAPTURED or
  FAILED, with nothing changed but its status, payment id and decline reason; and no ledger entry,
  mandate, saga or idempotency key changes, so that a purchase captured by webhook keeps its
  reservation merely held.
\<close>

theorem webhooks_settle_only_open_orders:
  assumes "distinct (map or_id (orders (session w)))"
  shows "wp (process_unprocessed_webhooks actor)
    (\<lambda>ids w'. durable w' = session w' \<and> ledger_entries (session w') = ledger_entries (session w) \<and>
       mandates (session w') = mandates (session w) \<and> sagas (session w') = sagas (session w) \<and>
       length (orders (session w')) = length (orders (session w)) \<and>
       (\<forall>i < length (orders (session w)).
          let x = orders (session w) ! i; y = orders (session w') ! i in
          or_id y = or_id x \<and> or_amount_minor y = or_amount_minor x \<and>
          (if or_status x \<in> set terminal_statuses then y = x
           else or_status y \<in> {or_status x, ''CAPTURED'', ''FAILED''})))
    (\<lambda>e w'. durable w' = durable w) w"
proof -
  let ?I = "\<lambda>u :: 'a world. local_step w u \<and> only_orders_move (session w) (session u)"
  have one: "wp (bind (apply_webhook_event actor event) (\<lambda>_. bind clock_now (\<lambda>now.
      bind (webhooks_mark_processed (we_provider_event_id event) now) (\<lambda>_. return (we_provider_event_id event)))))
      (\<lambda>r. ?I) (\<lambda>e w'. local_step w w') u" if "?I u" for event and u :: "'a world"
  proof -
    have ids: "distinct (map or_id (orders (session u)))" using that assms only_orders_move_ids by metis
    have loc: "local (apply_webhook_event actor event :: ('a, unit) app)"
      unfolding apply_webhook_event_def apply_transition_def Let_def
      by (auto intro!: local_rules split: json.split)
    show ?thesis unfolding wp_bind
      by (rule wp_mono [OF wp_conj [OF local_wp [OF loc] wp_apply_event [OF ids]]])
        (use that local_step_trans in \<open>auto simp: webhooks_mark_processed_def wp_db_call local_step_def only_orders_move_def\<close>)
  qed
  have all: "wp (for_each events (\<lambda>event. bind (apply_webhook_event actor event) (\<lambda>_. bind clock_now (\<lambda>now.
      bind (webhooks_mark_processed (we_provider_event_id event) now) (\<lambda>_. return (we_provider_event_id event))))))
      (\<lambda>r. ?I) (\<lambda>e w'. local_step w w') u" if "?I u" for events and u :: "'a world"
    by (rule wp_for_each [where I = ?I]) (use one that in simp_all)
  have done': "wp (bind commit (\<lambda>_. return ids)) (\<lambda>ids w'. durable w' = session w' \<and> only_orders_move (session w) (session w'))
      (\<lambda>e w'. durable w' = durable w) u" if "?I u" for ids and u :: "'a world"
    using that by (simp add: local_step_def)
  have run: "wp (process_unprocessed_webhooks actor) (\<lambda>ids w'. durable w' = session w' \<and> only_orders_move (session w) (session w'))
    (\<lambda>e w'. durable w' = durable w) w"
    unfolding process_unprocessed_webhooks_def raise_if_halted_def integrity_get_state_def webhooks_list_unprocessed_def
      wp_bind [of "for_each _ _"]
    by (auto simp: wp_db_call only_orders_move_refl local_step_def split: option.split
      intro!: wp_mono [OF all] done')
  show ?thesis unfolding Let_def
  proof (rule wp_mono [OF run], goal_cases)
    case (1 ids u)
    then have m: "only_orders_move (session w) (session u)" "durable u = session u" by simp_all
    then have each: "order_moves (orders (session w) ! i) (orders (session u) ! i)" if "i < length (orders (session w))" for i
      using that by (simp only: only_orders_move_def list_all2_conv_all_nth)
    have rest: "ledger_entries (session u) = ledger_entries (session w) \<and> mandates (session u) = mandates (session w) \<and>
        sagas (session u) = sagas (session w) \<and> length (orders (session u)) = length (orders (session w))"
      using m(1) by (simp only: only_orders_move_def list_all2_conv_all_nth)
    show ?case by (intro conjI allI impI; (rule order_moves_outcome [OF each, THEN conjunct1]
        order_moves_outcome [OF each, THEN conjunct2, THEN conjunct1] order_moves_outcome [OF each, THEN conjunct2, THEN conjunct2])?)
        (simp_all only: rest m)
  qed
qed

definition captured_order :: order where
  "captured_order =
     (new_order sample_order 0)\<lparr>or_status := ''CAPTURED'', or_provider_order_id := Some ''order_1''\<rparr>"

theorem webhooks_settle_only_open_orders_witness:
  "wp (process_unprocessed_webhooks ''worker'') (\<lambda>ids w'. orders (session w') = [captured_order] \<and>
       ledger_entries (session w') = []) (\<lambda>e w'. durable w' = goa_db\<lparr>orders := [captured_order]\<rparr>)
     (quiet_world 0 () (goa_db\<lparr>orders := [captured_order]\<rparr>))"
  by (rule wp_mono [OF webhooks_settle_only_open_orders])
    (auto simp: Let_def captured_order_def terminal_statuses_def length_Suc_conv)

end
