(* ===== verification/Compensations.thy ===== *)
theory Compensations
  imports Payment
begin

text \<open>
  \<open>application/compensations.py\<close>: C1 (release), C2 then C1 (void), C4 then C5 (refund and
  reverse). Each is one transaction, after the provider call where there is one.
\<close>

definition mark_compensated :: "string \<Rightarrow> ('p, unit) app" where
  "mark_compensated mid =
     bind (mandates_get mid) (\<lambda>current.
     case current of
       Some (m, status) \<Rightarrow>
         if status = EXECUTING then
           bind (lift_result (transition EXECUTING ''failure''
                   (Some (default_guard_context\<lparr>gc_all_compensations_confirmed := True\<rparr>)))) (\<lambda>new_status.
           mandates_update_status mid new_status)
         else return ()
     | None \<Rightarrow> return ())"

definition c1_body :: "string \<Rightarrow> int \<Rightarrow> string \<Rightarrow> string \<Rightarrow> string \<Rightarrow> string \<Rightarrow> ('p, unit) app" where
  "c1_body mid amount ref_id actor trace_id reason =
     bind (release mid amount ref_id) (\<lambda>released.
     bind (append_entry trace_id ''system'' actor COMPENSATION_APPLIED
             (JObj [(''mandate_id'', JStr mid), (''ref_id'', JStr ref_id)])
             (JObj [(''mandate_id'', JStr mid), (''ref_id'', JStr ref_id), (''amount_minor'', JInt amount),
                    (''reason'', JStr reason), (''released'', JBool released)])) (\<lambda>_.
     bind (mark_compensated mid) (\<lambda>_.
     commit)))"

definition release_reservation_and_mark_compensated ::
  "string \<Rightarrow> int \<Rightarrow> string \<Rightarrow> string \<Rightarrow> string \<Rightarrow> string \<Rightarrow> ('p, unit) app" where
  "release_reservation_and_mark_compensated mid amount ref_id actor trace_id reason =
     with_uow (c1_body mid amount ref_id actor trace_id reason)"

definition order_subject :: "string \<Rightarrow> string \<Rightarrow> string \<Rightarrow> json" where
  "order_subject mid order_id ref_id =
     JObj [(''mandate_id'', JStr mid), (''order_id'', JStr order_id), (''ref_id'', JStr ref_id)]"

definition order_payload :: "string \<Rightarrow> string \<Rightarrow> string \<Rightarrow> int \<Rightarrow> string \<Rightarrow> string \<times> bool \<Rightarrow> json" where
  "order_payload mid order_id ref_id amount reason flag =
     JObj [(''mandate_id'', JStr mid), (''order_id'', JStr order_id), (''ref_id'', JStr ref_id),
           (''amount_minor'', JInt amount), (''reason'', JStr reason), (fst flag, JBool (snd flag))]"

text \<open>Marking an order FAILED, unless its status is one that the caller leaves alone.\<close>

definition fail_unless :: "string list \<Rightarrow> string \<Rightarrow> string \<Rightarrow> ('p, unit) app" where
  "fail_unless kept order_id reason =
     bind (orders_get order_id) (\<lambda>order.
     case order of
       None \<Rightarrow> return ()
     | Some x \<Rightarrow>
         if or_status x \<in> set kept then return ()
         else bind clock_now (\<lambda>now. payments_transition_status order_id ''FAILED'' None (Some reason)))"

definition void_order_and_release_reservation ::
  "string \<Rightarrow> string \<Rightarrow> int \<Rightarrow> string \<Rightarrow> string \<Rightarrow> string \<Rightarrow> string \<Rightarrow> ('p, unit) app" where
  "void_order_and_release_reservation mid order_id amount ref_id actor trace_id reason =
     with_uow (
       bind (fail_unless terminal_statuses order_id reason) (\<lambda>_.
       bind (release mid amount ref_id) (\<lambda>released.
       bind (append_entry trace_id ''system'' actor COMPENSATION_APPLIED (order_subject mid order_id ref_id)
               (order_payload mid order_id ref_id amount reason (''released'', released))) (\<lambda>_.
       bind (mark_compensated mid) (\<lambda>_.
       commit)))))"

definition refund_and_reverse_settlement ::
  "'p payment_port \<Rightarrow> string \<Rightarrow> string \<Rightarrow> string \<Rightarrow> int \<Rightarrow> string \<Rightarrow> string \<Rightarrow> string \<Rightarrow> string \<Rightarrow> ('p, unit) app" where
  "refund_and_reverse_settlement P mid order_id payment_id amount ref_id actor trace_id reason =
     bind (call_with_retry (logged ''refund'' (port_refund P payment_id amount (''ik_refund_'' @ ref_id)))) (\<lambda>_.
     with_uow (
       bind (fail_unless [''FAILED''] order_id reason) (\<lambda>_.
       bind (reverse_settlement mid amount ref_id) (\<lambda>reversed.
       bind (append_entry trace_id ''system'' actor COMPENSATION_APPLIED (order_subject mid order_id ref_id)
               (order_payload mid order_id ref_id amount reason (''reversed'', reversed))) (\<lambda>_.
       bind (mark_compensated mid) (\<lambda>_.
       commit))))))"

lemma local_mark_compensated [local_rules]: "local (mark_compensated mid)"
  unfolding mark_compensated_def by (auto intro!: local_rules split: option.split)

lemma local_fail_unless [local_rules]: "local (fail_unless kept order_id reason)"
  unfolding fail_unless_def by (auto intro!: local_rules split: option.split)

context purchase_db
begin

lemma mark_compensated_guarded [guarded_rules]: "guarded J (mark_compensated mid :: ('p, unit) app)"
  unfolding mark_compensated_def by (intro guarded_rules TrueI)

lemma fail_unless_guarded [guarded_rules]: "guarded J (fail_unless kept oid reason :: ('p, unit) app)"
  unfolding fail_unless_def by (intro guarded_rules TrueI)

lemma compensations_keep:
  assumes "bound ref mid amount"
  shows "keeps (steady J) (release_reservation_and_mark_compensated mid amount ref actor trace reason :: ('p, unit) app)"
    and "keeps (steady J) (void_order_and_release_reservation mid oid amount ref actor trace reason :: ('p, unit) app)"
    and "keeps (steady J) (refund_and_reverse_settlement P mid oid pid amount ref actor trace reason)"
    and "guarded J (refund_and_reverse_settlement P mid oid pid amount ref actor trace reason)"
  unfolding release_reservation_and_mark_compensated_def c1_body_def void_order_and_release_reservation_def
    refund_and_reverse_settlement_def
  by (intro keeps_rules keeps_with_uow guarded_rules ledger_guarded assms keeps_external [OF port_external(4)]
    guarded_external [OF port_external(4)])+

end

end
