(* ===== verification/Gate.thy ===== *)
theory Gate
  imports Compensations
begin

text \<open>
  The money action gate (\<open>application/gate.py\<close>): the seven checks in their order. G1 to G5 run
  in one transaction that commits only when all of them pass; G6, G7 and the provider call are
  \<open>create_provider_order\<close>; a failure after the reservation was committed is compensated.
\<close>

record money_action_request =
  mq_trace_id :: string
  mq_mandate_id :: string
  mq_decision_id :: string
  mq_quote_id :: string
  mq_intent_hash :: string
  mq_amount_minor :: int
  mq_currency :: string
  mq_attempt_no :: int
  mq_actor_id :: string

record money_action_result =
  mr_verdict :: verdict
  mr_reason_code :: reason_code
  mr_trace_id :: string
  mr_order_id :: "string option"
  mr_provider_order_id :: "string option"
  mr_duplicate :: bool

definition deny :: "reason_code \<Rightarrow> string \<Rightarrow> money_action_result" where
  "deny code trace =
     \<lparr>mr_verdict = DENY, mr_reason_code = code, mr_trace_id = trace, mr_order_id = None,
      mr_provider_order_id = None, mr_duplicate = False\<rparr>"

section \<open>G1 to G5\<close>

text \<open>A gate answers \<open>Inl code\<close> to deny; \<open>gated\<close> goes on with what it established.\<close>

definition gated ::
  "('p, reason_code + 'a) app \<Rightarrow> ('a \<Rightarrow> ('p, reason_code option) app) \<Rightarrow> ('p, reason_code option) app" where
  "gated g k = bind g (\<lambda>r. case r of Inl code \<Rightarrow> return (Some code) | Inr x \<Rightarrow> k x)"

definition gate_g1 :: "money_action_request \<Rightarrow> ('p, reason_code + mandate \<times> mandate_status) app" where
  "gate_g1 req =
     bind (mandates_get (mq_mandate_id req)) (\<lambda>got.
     case got of
       None \<Rightarrow> return (Inl MANDATE_INVALID)
     | Some (m, status) \<Rightarrow>
         if status = REVOKED then return (Inl MANDATE_REVOKED)
         else if status \<noteq> LOCKED \<and> status \<noteq> EXECUTING then return (Inl MANDATE_INVALID)
         else
           bind (gets json_datetime) (\<lambda>dump_dt.
           bind (lift_result (verify_spec_hash dump_dt m)) (\<lambda>spec_ok.
           if \<not> spec_ok then return (Inl MANDATE_TAMPERED)
           else
             (case (spec_hash m, signature m) of
                (Some h, Some sig) \<Rightarrow>
                  bind (gets config) (\<lambda>c.
                  bind (lift_result (verify_signature h (encode_utf8 (mandate_signing_key c)) (sig_value sig))) (\<lambda>sig_ok.
                  if \<not> sig_ok then return (Inl MANDATE_UNSIGNED)
                  else
                    bind clock_now (\<lambda>now.
                    if now \<ge> expires_at (temporal m) then return (Inl MANDATE_EXPIRED)
                    else return (Inr (m, status)))))
              | _ \<Rightarrow> return (Inl MANDATE_UNSIGNED)))))"

definition gate_g2 :: "money_action_request \<Rightarrow> mandate \<Rightarrow> ('p, reason_code + decision_record) app" where
  "gate_g2 req m =
     bind (decisions_get (mq_decision_id req)) (\<lambda>got.
     case got of
       None \<Rightarrow> return (Inl INTENT_MISMATCH)
     | Some dec \<Rightarrow>
         if dr_intent_hash dec \<noteq> mq_intent_hash req then return (Inl INTENT_MISMATCH)
         else if Some (dr_mandate_spec_hash dec) \<noteq> spec_hash m then return (Inl INTENT_MISMATCH)
         else
           bind clock_now (\<lambda>now.
           if now - dr_evaluated_at dec > timedelta_s (dr_ttl_s dec) then return (Inl DECISION_STALE)
           else return (Inr dec)))"

definition gate_g3 :: "decision_record \<Rightarrow> ('p, reason_code + unit) app" where
  "gate_g3 dec =
     (if dr_verdict dec \<noteq> ALLOW then
        (case dr_reason_codes dec of [] \<Rightarrow> raise IndexError | code # _ \<Rightarrow> return (Inl code))
      else return (Inr ()))"

definition gate_g4 :: "money_action_request \<Rightarrow> mandate \<Rightarrow> string \<Rightarrow> ('p, reason_code + unit) app" where
  "gate_g4 req m key =
     bind (reserve (mq_mandate_id req) (mq_amount_minor req) (max_total_minor (bounds m)) key) (\<lambda>r.
     if r = None then return (Inl BUDGET_EXCEEDED) else return (Inr ()))"

definition gate_g5 :: "money_action_request \<Rightarrow> ('p, reason_code + unit) app" where
  "gate_g5 req =
     bind (quotes_get (mq_quote_id req)) (\<lambda>got.
     case got of
       None \<Rightarrow> return (Inl QUOTE_EXPIRED)
     | Some q \<Rightarrow>
         bind clock_now (\<lambda>now.
         if q_expires_at q \<le> now then return (Inl QUOTE_EXPIRED)
         else
           bind catalog_current_version (\<lambda>v.
           if q_catalog_version q \<noteq> v then return (Inl STALE_PRICE) else return (Inr ()))))"

definition open_execution :: "money_action_request \<Rightarrow> mandate \<Rightarrow> mandate_status \<Rightarrow> ('p, unit) app" where
  "open_execution req m status =
     (if status = LOCKED then
        bind clock_now (\<lambda>now.
        bind (lift_result (transition status ''propose'' (Some (default_guard_context\<lparr>gc_now := Some now,
                gc_expires_at := Some (expires_at (temporal m)), gc_txn_count := 0,
                gc_max_transactions := max_transactions (bounds m)\<rparr>)))) (\<lambda>new_status.
        mandates_update_status (mq_mandate_id req) new_status))
      else return ())"

text \<open>What the transaction writes once every gate has passed.\<close>

definition record_reservation ::
  "money_action_request \<Rightarrow> string \<Rightarrow> mandate \<Rightarrow> mandate_status \<Rightarrow> ('p, reason_code option) app" where
  "record_reservation req key m status =
     bind (open_execution req m status) (\<lambda>_.
     bind (append_entry (mq_trace_id req) ''system'' (mq_actor_id req) BUDGET_RESERVED
             (JObj [(''mandate_id'', JStr (mq_mandate_id req)), (''ref_id'', JStr key)])
             (JObj [(''mandate_id'', JStr (mq_mandate_id req)), (''ref_id'', JStr key),
                    (''amount_minor'', JInt (mq_amount_minor req)), (''currency'', JStr (mq_currency req))])) (\<lambda>_.
     return None))"

definition run_g1_through_g5 :: "money_action_request \<Rightarrow> string \<Rightarrow> ('p, reason_code option) app" where
  "run_g1_through_g5 req key =
     gated (gate_g1 req) (\<lambda>(m, status).
     gated (gate_g2 req m) (\<lambda>dec.
     gated (gate_g3 dec) (\<lambda>_.
     gated (gate_g4 req m key) (\<lambda>_.
     gated (gate_g5 req) (\<lambda>_.
     record_reservation req key m status)))))"

definition attempt_g1_through_g5 :: "money_action_request \<Rightarrow> string \<Rightarrow> ('p, reason_code option) app" where
  "attempt_g1_through_g5 req key =
     with_uow (
       bind (run_g1_through_g5 req key) (\<lambda>denied.
       if denied \<noteq> None then return denied
       else bind commit (\<lambda>_. return None)))"

section \<open>G6, G7 and the execution\<close>

definition is_dbapi :: "exn \<Rightarrow> bool" where
  "is_dbapi e \<longleftrightarrow> e = DBAPIError"

definition gate_order_request :: "money_action_request \<Rightarrow> string \<Rightarrow> order_request" where
  "gate_order_request req order_id =
     \<lparr>oq_order_id = order_id, oq_mandate_id = mq_mandate_id req, oq_decision_id = mq_decision_id req,
      oq_quote_id = mq_quote_id req, oq_amount_minor = mq_amount_minor req, oq_currency = mq_currency req,
      oq_attempt_no = mq_attempt_no req, oq_intent_hash = mq_intent_hash req, oq_actor_id = mq_actor_id req,
      oq_trace_id = Some (mq_trace_id req)\<rparr>"

definition compensate :: "money_action_request \<Rightarrow> string \<Rightarrow> string \<Rightarrow> ('p, unit) app" where
  "compensate req key reason =
     release_reservation_and_mark_compensated (mq_mandate_id req) (mq_amount_minor req) key (mq_actor_id req)
       (mq_trace_id req) reason"

text \<open>The except clauses, in the order of the source.\<close>

definition handle_execution :: "money_action_request \<Rightarrow> string \<Rightarrow> exn \<Rightarrow> ('p, money_action_result) app" where
  "handle_execution req key exc =
     (case exc of
        IdempotentAttemptFailed s \<Rightarrow> return ((deny PROVIDER_TERMINAL (mq_trace_id req))\<lparr>mr_duplicate := True\<rparr>)
      | IdempotencyInFlightTimeout s \<Rightarrow> return ((deny PROVIDER_TRANSIENT (mq_trace_id req))\<lparr>mr_duplicate := True\<rparr>)
      | TerminalProviderError s \<Rightarrow>
          bind (compensate req key ''order_creation_failed'') (\<lambda>_. return (deny PROVIDER_TERMINAL (mq_trace_id req)))
      | _ \<Rightarrow>
          if provider_failure exc then
            bind (compensate req key ''order_creation_failed'') (\<lambda>_. return (deny PROVIDER_TRANSIENT (mq_trace_id req)))
          else
            bind (compensate req key ''unexpected_internal_failure'') (\<lambda>_. return (deny INTERNAL_ERROR (mq_trace_id req))))"

definition run_g6_g7_execute ::
  "'p payment_port \<Rightarrow> money_action_request \<Rightarrow> string \<Rightarrow> ('p, money_action_result) app" where
  "run_g6_g7_execute P req key =
     bind (new_id ''ord'') (\<lambda>order_id.
     handle
       (bind (retry_with_full_jitter (create_provider_order P (gate_order_request req order_id)) 50 is_dbapi)
          (\<lambda>(x, was_duplicate).
           return \<lparr>mr_verdict = ALLOW, mr_reason_code = OK, mr_trace_id = mq_trace_id req, mr_order_id = Some (or_id x),
                   mr_provider_order_id = or_provider_order_id x, mr_duplicate = was_duplicate\<rparr>))
       (handle_execution req key))"

definition malformed :: "money_action_request \<Rightarrow> bool" where
  "malformed req \<longleftrightarrow>
     mq_amount_minor req \<le> 0 \<or> mq_mandate_id req = [] \<or> mq_decision_id req = [] \<or> mq_quote_id req = []"

text \<open>\<open>try: ... except Exception: return _deny(INTERNAL_ERROR)\<close> as an option.\<close>

definition attempt :: "('p, 'a) app \<Rightarrow> ('p, 'a option) app" where
  "attempt m = handle (bind m (\<lambda>x. return (Some x))) (\<lambda>e. return None)"

definition execute_money_action :: "'p payment_port \<Rightarrow> money_action_request \<Rightarrow> ('p, money_action_result) app" where
  "execute_money_action P req =
     (let trace = mq_trace_id req in
      bind (attempt (with_uow integrity_get_state)) (\<lambda>halt.
      case halt of
        None \<Rightarrow> return (deny INTERNAL_ERROR trace)
      | Some h \<Rightarrow>
          if ih_halted h then return (deny AUDIT_UNAVAILABLE trace)
          else if malformed req then return (deny MALFORMED_REQUEST trace)
          else
            let key = compute_idempotency_key (mq_mandate_id req) (mq_intent_hash req) (mq_attempt_no req) in
            bind (attempt (retry_with_full_jitter (attempt_g1_through_g5 req key) 50 is_dbapi)) (\<lambda>r.
            case r of
              None \<Rightarrow> return (deny INTERNAL_ERROR trace)
            | Some (Some code) \<Rightarrow> return (deny code trace)
            | Some None \<Rightarrow> run_g6_g7_execute P req key)))"

section \<open>Invariants through the gate\<close>

lemma yields_gated:
  assumes "yields J g (\<lambda>r. case r of Inl code \<Rightarrow> True | Inr x \<Rightarrow> R x)" "\<And>x. R x \<Longrightarrow> guarded J (k x)"
  shows "guarded J (gated g k)"
  unfolding gated_def
  by (rule yields_bind [OF assms(1)]) (auto intro!: guarded_rules assms(2) split: sum.splits)

lemma yields_mono: "yields J m R \<Longrightarrow> (\<And>x. R x \<Longrightarrow> S x) \<Longrightarrow> yields J m S"
  unfolding yields_def by (blast intro: wp_mono)

lemmas guarded_gated = yields_gated [where R = "\<lambda>x. True", OF yields_mono [where R = "\<lambda>x. True"]]

lemma keeps_attempt [keeps_rules]: "keeps I m \<Longrightarrow> keeps I (attempt m)"
  unfolding attempt_def by (intro keeps_rules)

context purchase_db
begin

lemma g1_yields:
  "yields J (gate_g1 req :: ('p, reason_code + mandate \<times> mandate_status) app)
     (\<lambda>r. case r of Inl code \<Rightarrow> True | Inr (m, st) \<Rightarrow> cap (mq_mandate_id req) (max_total_minor (bounds m)))"
  unfolding gate_g1_def mandates_get_def
  by (rule yields_bind [OF yields_db_read [where R = "\<lambda>r. \<forall>m st. r = Some (m, st) \<longrightarrow> cap (mq_mandate_id req) (max_total_minor (bounds m))"]])
    (auto intro!: guarded_rules simp: cap_known split: option.split)

lemma gates_guarded:
  "guarded J (gate_g2 req m :: ('p, reason_code + decision_record) app)"
  "guarded J (gate_g3 dec :: ('p, reason_code + unit) app)"
  "guarded J (gate_g5 req :: ('p, reason_code + unit) app)"
  "guarded J (open_execution req m status :: ('p, unit) app)"
  unfolding gate_g2_def gate_g3_def gate_g5_def open_execution_def
  by (auto intro!: guarded_rules split: list.split)

lemma attempt_guarded:
  assumes "bound key (mq_mandate_id req) (mq_amount_minor req)"
  shows "keeps (steady J) (attempt_g1_through_g5 req key :: ('p, reason_code option) app)"
proof -
  have g4: "guarded J (gate_g4 req m key :: ('p, reason_code + unit) app)"
    if "cap (mq_mandate_id req) (max_total_minor (bounds m))" for m
    unfolding gate_g4_def using that assms by (intro guarded_rules ledger_guarded TrueI)
  have "guarded J (run_g1_through_g5 req key :: ('p, reason_code option) app)"
    unfolding run_g1_through_g5_def record_reservation_def
    by (rule yields_gated [where R = "\<lambda>(m, st). cap (mq_mandate_id req) (max_total_minor (bounds m))"])
      (auto intro!: yields_mono [OF g1_yields] guarded_gated gates_guarded g4 guarded_rules split: sum.split)
  then show ?thesis
    unfolding attempt_g1_through_g5_def by (intro keeps_with_uow guarded_rules TrueI)
qed

lemma execute_keeps:
  assumes "bound (compute_idempotency_key (mq_mandate_id req) (mq_intent_hash req) (mq_attempt_no req))
    (mq_mandate_id req) (mq_amount_minor req)"
  shows "keeps (steady J) (execute_money_action P req)"
proof -
  let ?key = "compute_idempotency_key (mq_mandate_id req) (mq_intent_hash req) (mq_attempt_no req)"
  have compensate: "keeps (steady J) (compensate req ?key reason :: ('p, unit) app)" for reason
    unfolding compensate_def by (rule compensations_keep(1) [OF assms])
  have handler: "keeps (steady J) (handle_execution req ?key exc :: ('p, money_action_result) app)" for exc
    unfolding handle_execution_def by (cases exc) (auto intro!: keeps_rules compensate)
  have run: "keeps (steady J) (run_g6_g7_execute P req ?key)"
    unfolding run_g6_g7_execute_def by (intro keeps_rules keeps_local local_rules create_keeps handler)
  show ?thesis
    unfolding execute_money_action_def Let_def
    by (intro keeps_rules keeps_with_uow guarded_rules attempt_guarded assms run)
qed

end

section \<open>What passing the gate means\<close>

definition g1_passed :: "money_action_request \<Rightarrow> settings \<Rightarrow> (datetime \<Rightarrow> string) \<Rightarrow> db \<Rightarrow> datetime \<Rightarrow> mandate \<Rightarrow> mandate_status \<Rightarrow> bool" where
  "g1_passed req c dt d now m st \<longleftrightarrow>
     mandates d (mq_mandate_id req) = Some (m, st) \<and> (st = LOCKED \<or> st = EXECUTING) \<and>
     verify_spec_hash dt m = Inr True \<and>
     (\<exists>h sig. spec_hash m = Some h \<and> signature m = Some sig \<and>
        verify_signature h (encode_utf8 (mandate_signing_key c)) (sig_value sig) = Inr True) \<and>
     now < expires_at (temporal m)"

definition g2_passed :: "money_action_request \<Rightarrow> db \<Rightarrow> datetime \<Rightarrow> mandate \<Rightarrow> decision_record \<Rightarrow> bool" where
  "g2_passed req d now m dec \<longleftrightarrow>
     decisions d (mq_decision_id req) = Some dec \<and> dr_intent_hash dec = mq_intent_hash req \<and>
     spec_hash m = Some (dr_mandate_spec_hash dec) \<and> now - dr_evaluated_at dec \<le> timedelta_s (dr_ttl_s dec)"

definition g5_passed :: "money_action_request \<Rightarrow> db \<Rightarrow> datetime \<Rightarrow> quote \<Rightarrow> bool" where
  "g5_passed req d now q \<longleftrightarrow>
     quotes d (mq_quote_id req) = Some q \<and> now < q_expires_at q \<and> catalog_meta d = Some (q_catalog_version q)"

lemma wp_g1:
  "wp (gate_g1 req) (\<lambda>r w'. session w' = session w \<and> local_step w w' \<and>
      (\<forall>m st. r = Inr (m, st) \<longrightarrow> clock_reads w' = Suc (clock_reads w) \<and>
         g1_passed req (config w) (json_datetime w) (session w) (clock w (clock_reads w)) m st))
    (\<lambda>e w'. local_step w w') w"
  unfolding gate_g1_def mandates_get_def
  by (auto simp: g1_passed_def local_step_def split: option.split sum.split)

lemma wp_g2:
  "wp (gate_g2 req m) (\<lambda>r w'. session w' = session w \<and> local_step w w' \<and>
      (\<forall>dec. r = Inr dec \<longrightarrow> clock_reads w' = Suc (clock_reads w) \<and>
         g2_passed req (session w) (clock w (clock_reads w)) m dec))
    (\<lambda>e w'. local_step w w') w"
  unfolding gate_g2_def decisions_get_def
  by (auto simp: g2_passed_def local_step_def split: option.split)

lemma wp_g3:
  "wp (gate_g3 dec) (\<lambda>r w'. w' = w \<and> (r = Inr () \<longrightarrow> dr_verdict dec = ALLOW)) (\<lambda>e w'. w' = w) w"
  unfolding gate_g3_def by (auto split: list.split)

lemma wp_g5:
  "wp (gate_g5 req) (\<lambda>r w'. session w' = session w \<and> local_step w w' \<and>
      (r = Inr () \<longrightarrow> (\<exists>q. g5_passed req (session w) (clock w (clock_reads w)) q)))
    (\<lambda>e w'. local_step w w') w"
  unfolding gate_g5_def quotes_get_def catalog_current_version_def
  by (auto simp: g5_passed_def local_step_def wp_db_call split: option.split)

definition reserved_for :: "money_action_request \<Rightarrow> string \<Rightarrow> int \<Rightarrow> db \<Rightarrow> db \<Rightarrow> bool" where
  "reserved_for req key limit d d' \<longleftrightarrow>
     (if ref_entries key (ledger_entries d) \<noteq> [] then ledger_entries d' = ledger_entries d
      else committed (mq_mandate_id req) (ledger_entries d) + mq_amount_minor req \<le> limit \<and>
        moved (reserve_movements (mq_mandate_id req) (mq_amount_minor req)) ''reservation'' key
          (ledger_entries d) (ledger_entries d'))"

lemma wp_g4:
  "wp (gate_g4 req m key) (\<lambda>r w'. local_step w w' \<and> writes_ledger (session w) (session w') \<and>
      (r = Inr () \<longrightarrow> reserved_for req key (max_total_minor (bounds m)) (session w) (session w')))
    (\<lambda>e w'. local_step w w') w"
  unfolding gate_g4_def wp_bind
  by (rule wp_mono [OF wp_conj [OF local_wp [OF local_ledger(3)] wp_reserve]])
    (auto simp: reserved_for_def split: if_splits)

lemma local_gates [local_rules]:
  "local (gate_g1 req)" "local (gate_g2 req m)" "local (gate_g3 dec)" "local (gate_g4 req m key)" "local (gate_g5 req)"
  "local (open_execution req m status)"
  unfolding gate_g1_def gate_g2_def gate_g3_def gate_g4_def gate_g5_def open_execution_def
  by (auto intro!: local_rules split: list.split option.split prod.split)

lemma local_run [local_rules]: "local (run_g1_through_g5 req key)"
  unfolding run_g1_through_g5_def record_reservation_def gated_def
  by (auto intro!: local_rules split: sum.split)

lemma writes_ledger_field: "writes_ledger d d' \<Longrightarrow> (\<And>x es. f (x\<lparr>ledger_entries := es\<rparr>) = f x) \<Longrightarrow> f d' = f d"
  by (metis writes_ledger_def)

lemma wp_open_execution:
  assumes "mandates (session w) (mq_mandate_id req) = Some (m, st)" "st = LOCKED \<or> st = EXECUTING"
  shows "wp (open_execution req m st)
    (\<lambda>_ w'. mandates (session w') (mq_mandate_id req) = Some (m, EXECUTING) \<and>
       ledger_entries (session w') = ledger_entries (session w) \<and> audit_log (session w') = audit_log (session w))
    (\<lambda>e w'. True) w"
proof -
  have "transition LOCKED ''propose'' (Some ctx) = Inr s \<Longrightarrow> s = EXECUTING" for ctx s
    by (simp add: transition_by_trigger)
  then show ?thesis
    using assms unfolding open_execution_def mandates_update_status_def
    by (auto simp: wp_db_call split: sum.split)
qed

text \<open>All seven conditions on the state \<open>d\<close> the transaction started from, and its effects in \<open>d'\<close>.\<close>

definition gate_passed :: "money_action_request \<Rightarrow> string \<Rightarrow> 'p world \<Rightarrow> db \<Rightarrow> db \<Rightarrow> bool" where
  "gate_passed req key w d d' \<longleftrightarrow>
     (\<exists>m st dec q t.
        g1_passed req (config w) (json_datetime w) d (clock w (clock_reads w)) m st \<and>
        g2_passed req d (clock w (Suc (clock_reads w))) m dec \<and> dr_verdict dec = ALLOW \<and>
        reserved_for req key (max_total_minor (bounds m)) d d' \<and> g5_passed req d (clock w t) q \<and>
        mandates d' (mq_mandate_id req) = Some (m, EXECUTING) \<and>
        (\<exists>r. audit_log d' = audit_log d @ [r] \<and> al_action r = ''budget.reserved'' \<and> al_trace_id r = mq_trace_id req))"

lemma wp_gated: "wp (gated g k) Q E w \<longleftrightarrow> wp g (\<lambda>r. case r of Inl code \<Rightarrow> Q (Some code) | Inr x \<Rightarrow> wp (k x) Q E) E w"
  unfolding gated_def wp_bind by (rule arg_cong [of _ _ "\<lambda>q. wp g q E w"]) (auto simp: fun_eq_iff split: sum.split)

text \<open>The gates from the last to the first; \<open>admitted\<close> is what G1 to G3 established.\<close>

definition admitted :: "money_action_request \<Rightarrow> 'p world \<Rightarrow> mandate \<Rightarrow> mandate_status \<Rightarrow> decision_record \<Rightarrow> bool" where
  "admitted req w m st dec \<longleftrightarrow>
     g1_passed req (config w) (json_datetime w) (session w) (clock w (clock_reads w)) m st \<and>
     g2_passed req (session w) (clock w (Suc (clock_reads w))) m dec \<and> dr_verdict dec = ALLOW"

definition passes :: "money_action_request \<Rightarrow> string \<Rightarrow> 'p world \<Rightarrow> ('p, reason_code option) app \<Rightarrow> 'p world \<Rightarrow> bool" where
  "passes req key w m u \<longleftrightarrow>
     wp m (\<lambda>r w'. r = None \<longrightarrow> gate_passed req key w (session w) (session w')) (\<lambda>e w'. True) u"

lemma passes_record:
  assumes adm: "admitted req w m st dec" and res: "reserved_for req key (max_total_minor (bounds m)) (session w) (session u)"
    and g5: "g5_passed req (session w) (clock w t) q" and wl: "writes_ledger (session w) (session u)"
  shows "passes req key w (record_reservation req key m st) u"
proof -
  have u: "mandates (session u) (mq_mandate_id req) = Some (m, st)" "st = LOCKED \<or> st = EXECUTING"
    "audit_log (session u) = audit_log (session w)"
    using adm writes_ledgerD [OF wl] by (simp_all add: admitted_def g1_passed_def)
  have app: "wp (bind (append_entry (mq_trace_id req) ''system'' (mq_actor_id req) BUDGET_RESERVED subj pay) (\<lambda>_. return None))
      (\<lambda>r w'. r = None \<longrightarrow> gate_passed req key w (session w) (session w')) (\<lambda>e w'. True) v"
    if v: "mandates (session v) (mq_mandate_id req) = Some (m, EXECUTING) \<and> ledger_entries (session v) = ledger_entries (session u) \<and>
        audit_log (session v) = audit_log (session u)" for subj pay and v :: "'a world"
    unfolding wp_bind
  proof (rule wp_mono [OF wp_conj [OF append_entry_adds
        preserves_wp [OF preserves_append_entry [where f = "\<lambda>d. (mandates d, ledger_entries d)"]]]], goal_cases)
    case (3 r v')
    have "gate_passed req key w (session w) (session v')"
      unfolding gate_passed_def
      by (rule exI [of _ m], rule exI [of _ st], rule exI [of _ dec], rule exI [of _ q], rule exI [of _ t])
        (use 3 v u(3) adm res g5 in \<open>simp add: reserved_for_def admitted_def\<close>)
    then show ?case by simp
  qed simp_all
  show ?thesis unfolding passes_def record_reservation_def wp_bind [of "open_execution req m st"]
    by (rule wp_mono [OF wp_open_execution [OF u(1,2)]]) (use app in blast)+
qed

lemma passes_g5:
  assumes adm: "admitted req w m st dec" and res: "reserved_for req key (max_total_minor (bounds m)) (session w) (session u)"
    and wl: "writes_ledger (session w) (session u)" and cl: "clock u = clock w"
  shows "passes req key w (gated (gate_g5 req) (\<lambda>_. record_reservation req key m st)) u"
  unfolding passes_def wp_gated
proof (rule wp_mono [OF wp_g5], goal_cases)
  case (1 r v)
  have "g5_passed req (session u) now q \<Longrightarrow> g5_passed req (session w) now q" for now q
    using writes_ledger_field [OF wl, of quotes] writes_ledger_field [OF wl, of catalog_meta]
    by (simp add: g5_passed_def)
  then have "\<exists>q. r = Inr () \<longrightarrow> g5_passed req (session w) (clock w (clock_reads u)) q"
    using 1 cl by auto
  then obtain q where "r = Inr () \<longrightarrow> g5_passed req (session w) (clock w (clock_reads u)) q" ..
  then show ?case
    using 1 res wl passes_record [OF adm, of key v "clock_reads u" q] by (cases r) (simp_all add: passes_def)
qed simp

lemma passes_g3:
  fixes w u :: "'p world"
  assumes "g1_passed req (config w) (json_datetime w) (session w) (clock w (clock_reads w)) m st"
    and "g2_passed req (session w) (clock w (Suc (clock_reads w))) m dec" "session u = session w" "clock u = clock w"
  shows "passes req key w (gated (gate_g3 dec) (\<lambda>_. gated (gate_g4 req m key) (\<lambda>_. gated (gate_g5 req)
    (\<lambda>_. record_reservation req key m st)))) u"
proof -
  have g4: "passes req key w (gated (gate_g4 req m key) (\<lambda>_. gated (gate_g5 req) (\<lambda>_. record_reservation req key m st))) u"
    if adm: "admitted req w m st dec"
    unfolding passes_def wp_gated [of "gate_g4 req m key"]
  proof (rule wp_mono [OF wp_g4], goal_cases)
    case (1 r v)
    then show ?case using assms(3,4) passes_g5 [OF adm, of key v] by (cases r) (simp_all add: passes_def local_step_def)
  qed simp
  show ?thesis
    unfolding passes_def wp_gated [of "gate_g3 dec"]
  proof (rule wp_mono [OF wp_g3], goal_cases)
    case (1 r v)
    then show ?case using assms g4 by (cases r) (simp_all add: passes_def admitted_def)
  qed simp
qed

lemma passes_all: "passes req key w (run_g1_through_g5 req key) (w :: 'p world)"
proof -
  have g2: "passes req key w (gated (gate_g2 req m) (\<lambda>dec. gated (gate_g3 dec) (\<lambda>_. gated (gate_g4 req m key)
      (\<lambda>_. gated (gate_g5 req) (\<lambda>_. record_reservation req key m st))))) u"
    if g1: "g1_passed req (config w) (json_datetime w) (session w) (clock w (clock_reads w)) m st"
      "session u = session w" "clock u = clock w" "clock_reads u = Suc (clock_reads w)" for m st and u :: "'p world"
    unfolding passes_def wp_gated [of "gate_g2 req m"]
  proof (rule wp_mono [OF wp_g2], goal_cases)
    case (1 r v)
    then show ?case using g1 passes_g3 [OF g1(1)] by (cases r) (simp_all add: passes_def local_step_def)
  qed simp
  show ?thesis unfolding passes_def run_g1_through_g5_def wp_gated [of "gate_g1 req"]
  proof (rule wp_mono [OF wp_g1], goal_cases)
    case (1 r v)
    then show ?case using g2 by (cases r) (auto simp: passes_def local_step_def)
  qed simp
qed

section \<open>Properties of the gate\<close>

text \<open>
  C5. Passing the gate: when G1 to G5 let a request through, then in the state the transaction
  started from the mandate exists, is LOCKED or EXECUTING, has an untampered spec hash with a valid
  signature and has not expired; the decision is bound to this intent and to this mandate's spec hash,
  is fresh and says ALLOW; the quote is live and the catalog unchanged; and what is committed is the
  reservation of exactly the requested amount (within the mandate's limit, unless the key already had
  one), the mandate EXECUTING, and one audit entry. In every other outcome, a denial or an exception,
  nothing at all is committed.
\<close>

theorem gate_transaction:
  "case attempt_g1_through_g5 req key w of
     (Inr None, w') \<Rightarrow> gate_passed req key w (began w) (durable w')
   | (_, w') \<Rightarrow> durable w' = began w"
proof -
  let ?w1 = "w\<lparr>durable := began w, session := began w, transactions := Suc (transactions w)\<rparr>"
  have "wp (run_g1_through_g5 req key) (\<lambda>r w'. local_step ?w1 w' \<and>
      (r = None \<longrightarrow> gate_passed req key ?w1 (session ?w1) (session w'))) (\<lambda>e w'. local_step ?w1 w' \<and> True) ?w1"
    by (rule wp_conj [OF local_wp [OF local_run] passes_all [unfolded passes_def]])
  then have "wp (attempt_g1_through_g5 req key)
      (\<lambda>r w'. if r = None then gate_passed req key w (began w) (durable w') else durable w' = began w)
      (\<lambda>e w'. durable w' = began w) w"
    unfolding attempt_g1_through_g5_def wp_with_uow began_def [symmetric] wp_bind [of "run_g1_through_g5 req key"]
    by (rule wp_mono) (auto simp: local_step_def gate_passed_def)
  then show ?thesis by (auto simp: wp_def split: prod.splits sum.splits option.splits)
qed

text \<open>
  C34. The gate fails closed: when the halt state cannot be read, is missing, or is set, or when the
  request is malformed, the answer is a typed denial with the code for that case, nothing is committed
  and the provider is not called.
\<close>

theorem gate_fails_closed:
  assumes "faults w (statements w) \<or> halt_row (began w) = None \<or> ih_halted (the (halt_row (began w))) \<or> malformed req"
  shows "\<exists>w'. execute_money_action P req w =
      (Inr (deny (if faults w (statements w) \<or> halt_row (began w) = None then INTERNAL_ERROR
                  else if ih_halted (the (halt_row (began w))) then AUDIT_UNAVAILABLE
                  else MALFORMED_REQUEST) (mq_trace_id req)), w') \<and>
    durable w' = began w \<and> provider_calls w' = provider_calls w"
  using assms
  by (auto simp: execute_money_action_def Let_def attempt_def with_uow_def integrity_get_state_def db_call_def bind_def
    handle_def run_simps began_def split: option.splits prod.splits sum.splits if_splits)

definition sample_request :: "int \<Rightarrow> money_action_request" where
  "sample_request n =
     \<lparr>mq_trace_id = ''trc_1'', mq_mandate_id = mandate_id goa_mandate, mq_decision_id = ''dec_1'', mq_quote_id = ''qt_1'',
      mq_intent_hash = ''h'', mq_amount_minor = 400, mq_currency = ''INR'', mq_attempt_no = n, mq_actor_id = ''agent''\<rparr>"

theorem gate_fails_closed_witness:
  "let d = goa_db\<lparr>halt_row := Some \<lparr>ih_halted = True, ih_reason = Some ''chain broken'', ih_tripped_at = Some 0, ih_tripped_seq = Some 7\<rparr>\<rparr>;
       r = execute_money_action simulator_adapter (sample_request 1) (quiet_world 0 (new_simulator SUCCESS 0) d) in
   fst r = Inr (deny AUDIT_UNAVAILABLE ''trc_1'') \<and> durable (snd r) = d \<and> provider_calls (snd r) = []"
proof -
  let ?d = "goa_db\<lparr>halt_row := Some \<lparr>ih_halted = True, ih_reason = Some ''chain broken'', ih_tripped_at = Some 0, ih_tripped_seq = Some 7\<rparr>\<rparr>"
  obtain w' where "execute_money_action simulator_adapter (sample_request 1) (quiet_world 0 (new_simulator SUCCESS 0) ?d) =
      (Inr (deny AUDIT_UNAVAILABLE ''trc_1''), w')" "durable w' = ?d" "provider_calls w' = []"
    using gate_fails_closed [of "quiet_world 0 (new_simulator SUCCESS 0) ?d" "sample_request 1" simulator_adapter]
    by (auto simp: began_def sample_request_def)
  then show ?thesis by simp
qed

text \<open>
  A database outage after the reservation was committed escapes the gate as an exception: when
  every statement fails, order creation is retried fifty times, the compensation fails as well, and
  its error is raised to the caller, although the gate's contract is that nothing raises out of it.
\<close>

theorem gate_raises_when_compensation_fails:
  assumes "\<And>n. faults w n"
  shows "fst (run_g6_g7_execute P req key w) = Inl DBAPIError"
proof -
  let ?J = "\<lambda>u :: 'a world. \<forall>n. faults u n"
  have claim: "wp (claim_phase q trace) (\<lambda>r u. False) (\<lambda>e u. e = DBAPIError \<and> ?J u) u" if "?J u" for q trace and u :: "'a world"
    unfolding claim_phase_def idempotency_get_def Let_def using that by simp
  have trace: "wp (fresh_trace t) (\<lambda>r. ?J) (\<lambda>e u. False) u" if "?J u" for t and u :: "'a world"
    unfolding fresh_trace_def using that by (auto split: option.split)
  have create: "wp (create_provider_order P q) (\<lambda>r u. False) (\<lambda>e u. e = DBAPIError \<and> ?J u) u" if "?J u" for q and u :: "'a world"
    unfolding create_provider_order_def wp_bind
    by (rule wp_mono [OF trace [OF that]]) (auto simp: wp_with_uow intro!: wp_mono [OF claim])
  have retry: "wp (retry_with_full_jitter (create_provider_order P q) 50 is_dbapi) (\<lambda>r u. False)
      (\<lambda>e u. e = RetryExhausted 50 DBAPIError \<and> ?J u) u" if "?J u" for q and u :: "'a world"
    by (rule wp_retry [where J = ?J]) (use that in \<open>auto simp: is_dbapi_def intro!: wp_mono [OF create]\<close>)
  have comp: "wp (handle_execution req key (RetryExhausted 50 DBAPIError)) (\<lambda>r u. False) (\<lambda>e u. e = DBAPIError) u"
    if "?J u" for u :: "'a world"
    using that by (simp add: handle_execution_def provider_failure_def compensate_def
      release_reservation_and_mark_compensated_def c1_body_def release_def mandates_get_for_update_def wp_with_uow)
  have "wp (run_g6_g7_execute P req key) (\<lambda>r u. False) (\<lambda>e u. e = DBAPIError) w"
    unfolding run_g6_g7_execute_def
    using assms by (simp, intro wp_mono [OF retry]) (auto intro: comp)
  then show ?thesis by (auto simp: wp_def split: prod.splits sum.splits)
qed

theorem gate_raises_when_compensation_fails_witness:
  "fst (run_g6_g7_execute simulator_adapter (sample_request 1) ''ik_1''
     ((quiet_world 0 (new_simulator SUCCESS 0) held_db)\<lparr>faults := (\<lambda>n. True)\<rparr>)) = Inl DBAPIError"
  by (rule gate_raises_when_compensation_fails) simp

end
