(* ===== verification/Saga.thy ===== *)
theory Saga
  imports Gate
begin

text \<open>
  The payment saga (\<open>application/orchestrator/saga.py\<close>): \<open>begin_purchase\<close> runs S1 and S2
  through the gate, \<open>complete_purchase\<close> runs S3 to S5 on the checkout outcome, with the
  compensations C2, C4 and C5 on their failure paths. The saga row records the step before each
  side effect.
\<close>

record saga_snapshot =
  ss_saga_id :: string
  ss_mandate_id :: string
  ss_status :: string
  ss_step :: string
  ss_order_id :: "string option"
  ss_reason_code :: "reason_code option"

definition snapshot :: "saga \<Rightarrow> reason_code option \<Rightarrow> saga_snapshot" where
  "snapshot s code =
     \<lparr>ss_saga_id = sg_id s, ss_mandate_id = sg_mandate_id s, ss_status = sg_status s, ss_step = sg_step s,
      ss_order_id = sg_order_id s, ss_reason_code = code\<rparr>"

text \<open>\<open>final = await uow.sagas.get(key)\<close> and \<open>assert final is not None\<close>\<close>

definition reload :: "string \<Rightarrow> ('p, saga) app" where
  "reload sid = bind (sagas_get sid) (\<lambda>final. case final of None \<Rightarrow> raise AssertionError | Some s \<Rightarrow> return s)"

section \<open>S1 and S2\<close>

definition saga_key :: "money_action_request \<Rightarrow> string" where
  "saga_key req = compute_idempotency_key (mq_mandate_id req) (mq_intent_hash req) (mq_attempt_no req)"

definition new_saga :: "money_action_request \<Rightarrow> saga" where
  "new_saga req =
     \<lparr>sg_id = saga_key req, sg_mandate_id = mq_mandate_id req, sg_decision_id = mq_decision_id req,
      sg_quote_id = mq_quote_id req, sg_amount_minor = mq_amount_minor req, sg_currency = mq_currency req,
      sg_step = ''S1_RESERVE'', sg_status = ''RUNNING'', sg_order_id = None\<rparr>"

definition s1_reserve :: "money_action_request \<Rightarrow> ('p, saga option) app" where
  "s1_reserve req =
     bind (sagas_get (saga_key req)) (\<lambda>existing.
     case existing of
       Some s \<Rightarrow> return (if sg_status s \<noteq> ''RUNNING'' then Some s else None)
     | None \<Rightarrow>
         bind clock_now (\<lambda>now.
         bind (sagas_add (new_saga req)) (\<lambda>_.
         bind commit (\<lambda>_. return None))))"

definition s2_record :: "money_action_request \<Rightarrow> money_action_result \<Rightarrow> ('p, saga) app" where
  "s2_record req result =
     bind (if mr_verdict result = ALLOW
           then bind clock_now (\<lambda>now. sagas_update_row (saga_key req) ''S3_AUTHORIZE'' ''AWAITING_AUTHORIZATION'' (mr_order_id result))
           else bind clock_now (\<lambda>now. sagas_update_row (saga_key req) (''DENY_'' @ reason_value (mr_reason_code result)) ''FAILED'' None)) (\<lambda>_.
     bind commit (\<lambda>_.
     reload (saga_key req)))"

definition begin_purchase :: "'p payment_port \<Rightarrow> money_action_request \<Rightarrow> ('p, saga_snapshot) app" where
  "begin_purchase P req =
     bind (with_uow (s1_reserve req)) (\<lambda>resolved.
     case resolved of
       Some s \<Rightarrow> return (snapshot s None)
     | None \<Rightarrow>
         bind (execute_money_action P req) (\<lambda>result.
         bind (with_uow (s2_record req result)) (\<lambda>final.
         return (snapshot final (if mr_verdict result = ALLOW then None else Some (mr_reason_code result))))))"

section \<open>S3 to S5\<close>

definition finalize :: "string \<Rightarrow> string \<Rightarrow> string \<Rightarrow> ('p, saga_snapshot) app" where
  "finalize sid step status =
     bind (with_uow (
       bind clock_now (\<lambda>now.
       bind (sagas_update_row sid step status None) (\<lambda>_.
       bind commit (\<lambda>_.
       reload sid))))) (\<lambda>final. return (snapshot final None))"

text \<open>C2 then C1, and the saga row: the same on each of the four paths that lead there.\<close>

definition void_saga :: "saga \<Rightarrow> string \<Rightarrow> string \<Rightarrow> string \<Rightarrow> string \<Rightarrow> string \<Rightarrow> ('p, saga_snapshot) app" where
  "void_saga s sid order_id actor trace reason =
     bind (void_order_and_release_reservation (sg_mandate_id s) order_id (sg_amount_minor s) sid actor trace reason) (\<lambda>_.
     finalize sid ''C2_VOID'' ''COMPENSATED'')"

definition declined_at :: "string \<Rightarrow> provider_payment list \<Rightarrow> bool" where
  "declined_at pid ps \<longleftrightarrow> list_ex (\<lambda>p. py_id p = pid \<and> py_status p = ''failed'') ps"

definition is_signature_invalid :: "exn \<Rightarrow> bool" where
  "is_signature_invalid e \<longleftrightarrow> (case e of CheckoutSignatureInvalid m \<Rightarrow> True | _ \<Rightarrow> False)"

definition settled_payload :: "saga \<Rightarrow> string \<Rightarrow> string \<Rightarrow> json" where
  "settled_payload s order_id payment_id =
     JObj [(''order_id'', JStr order_id), (''mandate_id'', JStr (sg_mandate_id s)),
           (''amount_minor'', JInt (sg_amount_minor s)), (''provider_payment_id'', JStr payment_id)]"

definition mark_settled :: "saga \<Rightarrow> ('p, unit) app" where
  "mark_settled s =
     bind (mandates_get (sg_mandate_id s)) (\<lambda>current.
     case current of
       Some (m, status) \<Rightarrow>
         if status = EXECUTING then
           bind (lift_result (transition EXECUTING ''captured''
                   (Some (default_guard_context\<lparr>gc_reserved_minor := sg_amount_minor s, gc_captured_minor := sg_amount_minor s\<rparr>)))) (\<lambda>new_status.
           mandates_update_status (sg_mandate_id s) new_status)
         else return ()
     | None \<Rightarrow> return ())"

definition s5_settle ::
  "'p payment_port \<Rightarrow> saga \<Rightarrow> string \<Rightarrow> string \<Rightarrow> string \<Rightarrow> string \<Rightarrow> string \<Rightarrow> ('p, saga_snapshot) app" where
  "s5_settle P s sid order_id payment_id actor trace =
     bind (capture (sg_mandate_id s) (sg_amount_minor s) sid) (\<lambda>captured.
     if \<not> captured then
       bind commit (\<lambda>_.
       bind (refund_and_reverse_settlement P (sg_mandate_id s) order_id payment_id (sg_amount_minor s) sid actor trace
               ''ledger_capture_failed_after_provider_capture'') (\<lambda>_.
       finalize sid ''C5_REVERSE'' ''COMPENSATED''))
     else
       bind (mark_settled s) (\<lambda>_.
       bind (append_entry trace ''system'' actor SETTLEMENT_CLOSED
               (JObj [(''order_id'', JStr order_id), (''mandate_id'', JStr (sg_mandate_id s))])
               (settled_payload s order_id payment_id)) (\<lambda>_.
       bind clock_now (\<lambda>now.
       bind (sagas_update_row sid ''S5_SETTLE'' ''COMPLETED'' None) (\<lambda>_.
       bind commit (\<lambda>_.
       bind (reload sid) (\<lambda>final.
       return (snapshot final None))))))))"

text \<open>S4: \<open>Some reason\<close> is a path into C2, \<open>None\<close> goes on to S5.\<close>

definition s4_capture ::
  "'p payment_port \<Rightarrow> saga \<Rightarrow> string \<Rightarrow> string \<Rightarrow> string \<Rightarrow> string \<Rightarrow> string \<Rightarrow> string \<Rightarrow> ('p, string option) app" where
  "s4_capture P s order_id provider_order_id payment_id sig actor trace =
     handle
       (bind (with_uow (verify_and_capture P order_id provider_order_id payment_id sig (sg_amount_minor s) actor (Some trace)))
         (\<lambda>_. return None))
       (\<lambda>e. if is_signature_invalid e then return (Some ''invalid_checkout_signature'')
            else if provider_failure e then return (Some ''capture_failed'')
            else raise e)"

definition authorize_and_settle ::
  "'p payment_port \<Rightarrow> saga \<Rightarrow> string \<Rightarrow> string \<Rightarrow> string \<Rightarrow> string \<Rightarrow> string \<Rightarrow> string \<Rightarrow> string \<Rightarrow> ('p, saga_snapshot) app" where
  "authorize_and_settle P s sid order_id provider_order_id payment_id sig actor trace =
     bind (with_uow (mandates_get (sg_mandate_id s))) (\<lambda>current.
     if map_option snd current = Some REVOKED then void_saga s sid order_id actor trace ''mandate_revoked''
     else
       bind (logged ''fetch_payments'' (port_fetch_payments P provider_order_id)) (\<lambda>payments.
       if declined_at payment_id payments then void_saga s sid order_id actor trace ''payment_declined''
       else
         bind (s4_capture P s order_id provider_order_id payment_id sig actor trace) (\<lambda>failed.
         case failed of
           Some reason \<Rightarrow> void_saga s sid order_id actor trace reason
         | None \<Rightarrow> with_uow (s5_settle P s sid order_id payment_id actor trace))))"

definition complete_purchase ::
  "'p payment_port \<Rightarrow> string \<Rightarrow> string \<Rightarrow> string \<Rightarrow> string \<Rightarrow> string \<Rightarrow> ('p, saga_snapshot) app" where
  "complete_purchase P sid provider_order_id payment_id sig actor =
     bind (new_id ''trc'') (\<lambda>trace.
     bind (with_uow (sagas_get sid)) (\<lambda>found.
     case found of
       None \<Rightarrow> raise (SagaNotFound sid)
     | Some s \<Rightarrow>
         if sg_status s \<noteq> ''AWAITING_AUTHORIZATION'' then return (snapshot s None)
         else
           (case sg_order_id s of
              None \<Rightarrow> raise AssertionError
            | Some order_id \<Rightarrow> authorize_and_settle P s sid order_id provider_order_id payment_id sig actor trace)))"

section \<open>Invariants through the saga\<close>

lemma keeps_uow_bind:
  assumes "yields J body R" "\<And>x. R x \<Longrightarrow> keeps (steady J) (f x)"
  shows "keeps (steady J) (bind (with_uow body) f)"
  unfolding keeps_wp wp_bind
  using assms(2) by (auto intro!: wp_mono [OF wp_uow_yields [OF assms(1)]] simp: keeps_wp)

context purchase_db
begin

lemma reload_guarded [guarded_rules]: "guarded J (reload sid :: ('p, saga) app)"
  unfolding reload_def by (intro guarded_rules TrueI)

lemma finalize_guarded [guarded_rules]: "guarded J (finalize sid step status :: ('p, saga_snapshot) app)"
  unfolding finalize_def by (intro guarded_rules TrueI)

lemma finalize_keeps: "keeps (steady J) (finalize sid step status :: ('p, saga_snapshot) app)"
  unfolding finalize_def by (intro keeps_rules keeps_with_uow guarded_rules)

lemma begin_keeps:
  assumes "bound (saga_key req) (mq_mandate_id req) (mq_amount_minor req)"
  shows "keeps (steady J) (begin_purchase P req)"
proof -
  have add: "guarded J (sagas_add (new_saga req) :: ('p, unit) app)"
    unfolding sagas_add_def by (rule guarded_db_insert) (simp add: new_saga_def saga_keeps assms)
  have s1: "guarded J (s1_reserve req :: ('p, saga option) app)"
    unfolding s1_reserve_def by (intro guarded_rules add TrueI)
  have s2: "guarded J (s2_record req result :: ('p, saga) app)" for result
    unfolding s2_record_def by (intro guarded_rules)
  show ?thesis
    unfolding begin_purchase_def
    by (intro keeps_rules keeps_with_uow s1 s2 execute_keeps assms [unfolded saga_key_def])
qed

lemma s5_guarded:
  assumes "bound sid (sg_mandate_id s) (sg_amount_minor s)"
  shows "guarded J (s5_settle P s sid oid pid actor trace)"
proof -
  have settled: "guarded J (mark_settled s :: ('p, unit) app)"
    unfolding mark_settled_def by (intro guarded_rules TrueI)
  show ?thesis
    unfolding s5_settle_def
    by (intro guarded_rules settled ledger_guarded compensations_keep(4) assms TrueI)
qed

lemma complete_keeps: "keeps (steady J) (complete_purchase P sid poid pid sig actor)"
proof -
  have go: "keeps (steady J) (authorize_and_settle P s sid oid poid pid sig actor trace)"
    if b: "bound sid (sg_mandate_id s) (sg_amount_minor s)" for s oid trace
  proof -
    have void: "keeps (steady J) (void_saga s sid oid actor trace reason :: ('p, saga_snapshot) app)" for reason
      unfolding void_saga_def by (intro keeps_rules compensations_keep(2) b finalize_keeps)
    have s4: "keeps (steady J) (s4_capture P s oid poid pid sig actor trace)"
      unfolding s4_capture_def by (intro keeps_rules keeps_with_uow verify_and_capture_guarded)
    show ?thesis
      unfolding authorize_and_settle_def
      by (intro keeps_rules keeps_with_uow void s4 s5_guarded b keeps_external [OF external_logged [OF fetch_outside]]
        guarded_rules)
  qed
  have found: "yields J (sagas_get sid :: ('p, saga option) app)
      (\<lambda>r. \<forall>s. r = Some s \<longrightarrow> bound sid (sg_mandate_id s) (sg_amount_minor s))"
    unfolding sagas_get_def by (rule yields_db_read) (auto dest: saga_bound)
  show ?thesis
    unfolding complete_purchase_def
    by (intro keeps_bind keeps_local [OF local_primitives(2)] keeps_uow_bind [OF found])
      (auto intro!: keeps_rules go split: option.split)
qed

end

section \<open>Properties of the saga\<close>

lemma wp_finalize:
  "wp (finalize sid step status) (\<lambda>snap w'. ss_status snap = status \<and> ss_step snap = step) (\<lambda>e w'. True) w"
  unfolding finalize_def reload_def sagas_update_row_def sagas_get_def snapshot_def
  by (auto simp: wp_with_uow wp_db_call Let_def split: option.split)

lemma wp_void_saga:
  "wp (void_saga s sid oid actor trace reason) (\<lambda>snap w'. ss_status snap = ''COMPENSATED'') (\<lambda>e w'. True) w"
proof -
  have fin: "wp (finalize sid ''C2_VOID'' ''COMPENSATED'') (\<lambda>snap w'. ss_status snap = ''COMPENSATED'') (\<lambda>e w'. True) u" for u :: "'a world"
    by (rule wp_mono [OF wp_finalize]) simp_all
  show ?thesis unfolding void_saga_def wp_bind by (rule wp_mono [OF wp_true]) (simp_all add: fin)
qed

context provider_port
begin

lemma invalid_capture:
  assumes "\<And>p. port_verify_checkout_signature P p poid pid sig \<noteq> Inr True"
  shows "avoids ''capture'' (s4_capture P s oid poid pid sig actor trace)"
    and "wp (s4_capture P s oid poid pid sig actor trace) (\<lambda>r w'. r \<noteq> None) (\<lambda>e w'. True) w"
proof -
  have rejected: "bind (lift_result (port_verify_checkout_signature P p poid pid sig)) (\<lambda>valid. if \<not> valid then m else n) =
      (case port_verify_checkout_signature P p poid pid sig of Inl e \<Rightarrow> raise e | Inr valid \<Rightarrow> m)"
    for p and m n :: "('p, order) app"
    using assms [of p] by (cases "port_verify_checkout_signature P p poid pid sig") auto
  have trace: "avoids ''capture'' (fresh_trace t)" for t
    unfolding fresh_trace_def by (intro avoids.rules)
  have failed: "avoids ''capture'' (capture_failed oid actor tr decline reason sh exc)" for tr decline reason sh exc
    unfolding capture_failed_def by (intro avoids.rules)
  have "avoids ''capture'' (verify_and_capture P oid poid pid sig amount actor t)" for amount t
    unfolding verify_and_capture_def rejected by (intro avoids.rules trace failed)
  then show "avoids ''capture'' (s4_capture P s oid poid pid sig actor trace)"
    unfolding s4_capture_def by (intro avoids.rules)
  have fail: "wp (capture_failed oid actor tr decline reason sh exc) (\<lambda>x w'. False) (\<lambda>e w'. True) u"
    for tr decline reason sh exc and u :: "'p world"
  proof -
    have last: "wp (append_entry t y a act subj pay) (\<lambda>_. wp (bind commit (\<lambda>_. raise exc)) (\<lambda>x w'. False) (\<lambda>e w'. True))
        (\<lambda>e w'. True) v" for t y a act subj pay and v :: "'p world"
      by (rule wp_mono [OF wp_true]) simp_all
    show ?thesis unfolding capture_failed_def payments_transition_status_def by (simp add: wp_db_call last)
  qed
  have "wp (verify_and_capture P oid poid pid sig amount actor t) (\<lambda>x w'. False) (\<lambda>e w'. True) u" for amount t and u :: "'p world"
    unfolding verify_and_capture_def rejected wp_bind [of "fresh_trace t"]
    by (rule wp_mono [OF wp_true]) (use fail in \<open>auto split: sum.split\<close>)
  then show "wp (s4_capture P s oid poid pid sig actor trace) (\<lambda>r w'. r \<noteq> None) (\<lambda>e w'. True) w"
    unfolding s4_capture_def by (auto simp: wp_with_uow intro!: wp_mono [where Q' = "\<lambda>x w'. False" and E' = "\<lambda>e w'. True"])
qed

lemma invalid_signature_compensates:
  assumes "\<And>p. port_verify_checkout_signature P p poid pid sig \<noteq> Inr True"
  shows "avoids ''capture'' (authorize_and_settle P s sid oid poid pid sig actor trace)"
    and "wp (authorize_and_settle P s sid oid poid pid sig actor trace)
      (\<lambda>snap w'. ss_status snap = ''COMPENSATED'') (\<lambda>e w'. True) w"
proof -
  have marks: "local (mark_settled s :: ('p, unit) app)" "local (reload sid :: ('p, saga) app)"
    unfolding mark_settled_def reload_def by (auto intro!: local_rules split: option.split)
  note leaf = avoids.local_unchanged [OF local_mark_compensated] avoids.local_unchanged [OF local_fail_unless]
    avoids.local_unchanged [OF marks(1)] avoids.local_unchanged [OF marks(2)]
  have fin: "avoids ''capture'' (finalize sid step status :: ('p, saga_snapshot) app)" for step status
    unfolding finalize_def by (intro avoids.rules leaf)
  have void: "avoids ''capture'' (void_saga s sid oid actor trace reason :: ('p, saga_snapshot) app)" for reason
    unfolding void_saga_def void_order_and_release_reservation_def by (intro avoids.rules leaf fin)
  have refund: "avoids ''capture'' (call_with_retry (logged ''refund'' (port_refund P p a k)))" for p a k
    by (rule external_avoids [OF external_call [OF external_logged [OF refund_outside]]]) simp
  have s5: "avoids ''capture'' (s5_settle P s sid oid pid actor trace)"
    unfolding s5_settle_def refund_and_reverse_settlement_def by (intro avoids.rules leaf fin refund)
  have fetch: "avoids ''capture'' (logged ''fetch_payments'' (port_fetch_payments P poid))"
    by (rule external_avoids [OF external_logged [OF fetch_outside]]) simp
  show "avoids ''capture'' (authorize_and_settle P s sid oid poid pid sig actor trace)"
    unfolding authorize_and_settle_def by (intro avoids.rules void s5 fetch invalid_capture(1) assms)
  have s4: "wp (s4_capture P s oid poid pid sig actor trace) (\<lambda>failed. wp (case failed of
        Some reason \<Rightarrow> void_saga s sid oid actor trace reason | None \<Rightarrow> with_uow (s5_settle P s sid oid pid actor trace))
      (\<lambda>snap w'. ss_status snap = ''COMPENSATED'') (\<lambda>e w'. True)) (\<lambda>e w'. True) u" for u :: "'p world"
    by (rule wp_mono [OF invalid_capture(2) [OF assms]]) (auto simp: wp_void_saga)
  have fetched: "wp (logged ''fetch_payments'' (port_fetch_payments P poid)) (\<lambda>payments. wp (if declined_at pid payments
        then void_saga s sid oid actor trace ''payment_declined''
        else bind (s4_capture P s oid poid pid sig actor trace) (\<lambda>failed. case failed of
          Some reason \<Rightarrow> void_saga s sid oid actor trace reason | None \<Rightarrow> with_uow (s5_settle P s sid oid pid actor trace)))
      (\<lambda>snap w'. ss_status snap = ''COMPENSATED'') (\<lambda>e w'. True)) (\<lambda>e w'. True) u" for u :: "'p world"
    by (rule wp_mono [OF wp_true]) (simp_all add: wp_void_saga s4)
  show "wp (authorize_and_settle P s sid oid poid pid sig actor trace)
      (\<lambda>snap w'. ss_status snap = ''COMPENSATED'') (\<lambda>e w'. True) w"
    unfolding authorize_and_settle_def wp_bind [of "with_uow _"]
    by (rule wp_mono [OF wp_true]) (simp_all add: wp_void_saga fetched)
qed

end


text \<open>
  A resolved purchase is never executed again: completing a saga that is not awaiting
  authorization, or beginning one that is no longer running, returns the stored row, commits nothing
  and calls no provider.
\<close>

theorem resolved_saga_untouched:
  assumes "\<not> faults w (statements w)"
  shows "(sagas (began w) sid = Some s \<and> sg_status s \<noteq> ''AWAITING_AUTHORIZATION'' \<longrightarrow>
      (\<exists>w'. complete_purchase P sid poid pid sig actor w = (Inr (snapshot s None), w') \<and>
        durable w' = began w \<and> provider_calls w' = provider_calls w)) \<and>
    (sagas (began w) (saga_key req) = Some s \<and> sg_status s \<noteq> ''RUNNING'' \<longrightarrow>
      (\<exists>w'. begin_purchase P req w = (Inr (snapshot s None), w') \<and>
        durable w' = began w \<and> provider_calls w' = provider_calls w))"
  using assms
  by (simp add: complete_purchase_def begin_purchase_def s1_reserve_def sagas_get_def with_uow_def db_read_def db_call_def
    new_id_def bind_def began_def run_simps Let_def)

definition sample_saga :: "string \<Rightarrow> saga" where
  "sample_saga status =
     \<lparr>sg_id = ''ik_1'', sg_mandate_id = mandate_id goa_mandate, sg_decision_id = ''dec_1'', sg_quote_id = ''qt_1'',
      sg_amount_minor = 400, sg_currency = ''INR'', sg_step = ''S3_AUTHORIZE'', sg_status = status, sg_order_id = Some ''ord_1''\<rparr>"

theorem resolved_saga_untouched_witness:
  "fst (complete_purchase simulator_adapter ''ik_1'' ''order_1'' ''pay_1'' ''sig'' ''system''
     (quiet_world 0 (new_simulator SUCCESS 0) (goa_db\<lparr>sagas := [''ik_1'' \<mapsto> sample_saga ''COMPLETED'']\<rparr>))) =
   Inr (snapshot (sample_saga ''COMPLETED'') None)"
proof -
  let ?w = "quiet_world 0 (new_simulator SUCCESS 0) (goa_db\<lparr>sagas := [''ik_1'' \<mapsto> sample_saga ''COMPLETED'']\<rparr>)"
  have "\<exists>w'. complete_purchase simulator_adapter ''ik_1'' ''order_1'' ''pay_1'' ''sig'' ''system'' ?w =
      (Inr (snapshot (sample_saga ''COMPLETED'') None), w') \<and> durable w' = began ?w \<and> provider_calls w' = provider_calls ?w"
    by (rule resolved_saga_untouched [of ?w, THEN conjunct1, THEN mp]) (simp_all add: began_def sample_saga_def)
  then show ?thesis by auto
qed


end
