(* ===== verification/Worker.thy ===== *)
theory Worker
  imports Saga
begin

text \<open>
  The programs that move money, as the processes run them: the saga's two entry points, the webhook
  receiver (\<open>interfaces/webhooks/razorpay.py\<close>), one tick of each loop of \<open>worker.py\<close> and
  the operator's \<open>actl sweep\<close> (\<open>cli.py\<close>); and what stays true of the database whatever
  sequence of them runs.
\<close>

section \<open>One tick of each loop\<close>

text \<open>\<open>except Exception: logger.exception(...)\<close>: the loop goes on.\<close>

definition webhook_tick :: "('p, unit) app" where
  "webhook_tick =
     handle (bind (with_uow (process_unprocessed_webhooks ''worker'')) (\<lambda>processed. return ())) (\<lambda>e. return ())"

definition reconcile_tick :: "'p payment_port \<Rightarrow> ('p, unit) app" where
  "reconcile_tick P =
     handle (bind (with_uow (reconcile_non_terminal_orders P None ''reconciler'')) (\<lambda>outcomes. return ())) (\<lambda>e. return ())"

definition sweep_command :: "int \<Rightarrow> ('p, string list) app" where
  "sweep_command ttl_s = with_uow (bind (sweep ttl_s) (\<lambda>swept. bind commit (\<lambda>_. return swept)))"

text \<open>The receiver: 401 without a valid signature, 200 otherwise; the body is parsed by the caller.\<close>

definition razorpay_webhook :: "'p payment_port \<Rightarrow> bytes \<Rightarrow> string \<Rightarrow> string \<Rightarrow> json \<Rightarrow> ('p, nat) app" where
  "razorpay_webhook P raw_body sig event_id parsed =
     (let body = (case as_dict (Some parsed) of None \<Rightarrow> JObj [] | Some b \<Rightarrow> b);
          event_type = (case jget ''event'' body of None \<Rightarrow> ''unknown'' | Some v \<Rightarrow> str_json v) in
      bind (with_uow (process_webhook_delivery P raw_body sig event_id event_type body)) (\<lambda>receipt.
      return (if receipt = Invalid_signature then 401 else 200)))"

section \<open>Sequences of calls\<close>

datatype money_call =
    Begin money_action_request
  | Complete string string string string string
  | Deliver bytes string string json
  | Webhook_tick
  | Reconcile_tick
  | Sweep_command int

primrec money_step :: "'p payment_port \<Rightarrow> money_call \<Rightarrow> ('p, unit) app" where
  "money_step P (Begin req) = discard (begin_purchase P req)"
| "money_step P (Complete sid poid pid sig actor) = discard (complete_purchase P sid poid pid sig actor)"
| "money_step P (Deliver body sig eid parsed) = discard (razorpay_webhook P body sig eid parsed)"
| "money_step P Webhook_tick = webhook_tick"
| "money_step P Reconcile_tick = reconcile_tick P"
| "money_step P (Sweep_command ttl) = discard (sweep_command ttl)"

fun money_run :: "'p payment_port \<Rightarrow> money_call list \<Rightarrow> 'p world \<Rightarrow> 'p world" where
  "money_run P [] w = w"
| "money_run P (c # cs) w = money_run P cs (snd (money_step P c w))"

primrec call_bound :: "(string \<Rightarrow> string \<Rightarrow> int \<Rightarrow> bool) \<Rightarrow> money_call \<Rightarrow> bool" where
  "call_bound B (Begin req) \<longleftrightarrow> B (saga_key req) (mq_mandate_id req) (mq_amount_minor req)"
| "call_bound B (Complete sid poid pid sig actor) \<longleftrightarrow> True"
| "call_bound B (Deliver body sig eid parsed) \<longleftrightarrow> True"
| "call_bound B Webhook_tick \<longleftrightarrow> True"
| "call_bound B Reconcile_tick \<longleftrightarrow> True"
| "call_bound B (Sweep_command ttl) \<longleftrightarrow> True"

context purchase_db
begin

lemma money_step_keeps:
  assumes "call_bound bound c"
  shows "keeps (steady J) (money_step P c)"
  using assms
  by (cases c) (auto simp: discard_def webhook_tick_def reconcile_tick_def sweep_command_def razorpay_webhook_def Let_def
    intro!: keeps_rules begin_keeps complete_keeps keeps_with_uow webhook_delivery_guarded webhooks_guarded
      reconcile_guarded ledger_guarded guarded_rules)

lemma money_run_keeps:
  assumes "list_all (call_bound bound) cs" "steady J w"
  shows "steady J (money_run P cs w)"
  using assms by (induction cs arbitrary: w) (simp_all add: keepsD [OF money_step_keeps])

end

section \<open>Three invariants\<close>

lemma preserves_for_each [preserves_rules]: "(\<And>x. preserves f (g x)) \<Longrightarrow> preserves f (for_each xs g)"
  by (induction xs) (auto intro!: preserves_rules)

lemma preserves_ledger:
  assumes "\<And>d es. f (d\<lparr>ledger_entries := es\<rparr>) = f d"
  shows "preserves f (reserve m a c ref)" "preserves f (run_call x m a ref)" "preserves f (add_movements mvs rt ref)"
proof -
  have add: "preserves f (add_movements mvs rt ref)" for mvs rt
    unfolding add_movements_def ledger_add_def
    by (auto intro!: preserves_rules preserves_db_insert simp: assms)
  then show "preserves f (add_movements mvs rt ref)" .
  show "preserves f (reserve m a c ref)"
    unfolding reserve_def Let_def mandates_get_for_update_def ledger_list_for_ref_id_def ledger_list_for_account_def
    by (auto intro!: preserves_rules add)
  show "preserves f (run_call x m a ref)"
    unfolding run_call_def capture_def release_def reverse_settlement_def Let_def mandates_get_for_update_def
      ledger_list_for_ref_id_def
    by (cases x) (auto intro!: preserves_rules add)
qed

text \<open>A part of the database that neither the ledger nor the audit log touches, also under the sweeper.\<close>

lemma preserves_sweep:
  assumes "\<And>d es. f (d\<lparr>ledger_entries := es\<rparr>) = f d" "\<And>d a. f (d\<lparr>audit_log := a\<rparr>) = f d"
    "\<And>d c. f (d\<lparr>audit_checkpoints := c\<rparr>) = f d"
  shows "preserves f (sweep ttl)"
  unfolding sweep_def sweep_one_def Let_def mandates_get_for_update_def ledger_list_for_ref_id_def raise_if_halted_def
    ledger_list_reservations_older_than_def integrity_get_state_def
  by (auto intro!: preserves_rules preserves_ledger preserves_append_entry preserves_db_call assms split: option.splits)

lemma preserves_keeps:
  assumes "preserves f m" "\<And>d d'. f d' = f d \<Longrightarrow> J d \<Longrightarrow> J d'" "J (session w)"
  shows "wp m (\<lambda>x w'. J (session w')) (\<lambda>e w'. True) w"
  by (rule wp_mono [OF preserves_wp [OF assms(1)]]) (use assms(2,3) in blast)+

text \<open>The audit log is a valid chain: no condition on the calls.\<close>

abbreviation any_ref :: "string \<Rightarrow> string \<Rightarrow> int \<Rightarrow> bool" where "any_ref \<equiv> \<lambda>ref m a. True"
abbreviation any_cap :: "string \<Rightarrow> int \<Rightarrow> bool" where "any_cap \<equiv> \<lambda>m c. True"

lemma audit_ok_cong: "(audit_log d', audit_checkpoints d') = (audit_log d, audit_checkpoints d) \<Longrightarrow> audit_ok d \<Longrightarrow> audit_ok d'"
  by (simp add: audit_ok_def)

lemma audit_guarded_ledger:
  "guarded audit_ok (add_movements mvs rt ref)" "guarded audit_ok (append_entry t y a act subj pay)"
  by (rule yields_local, auto intro: local_rules wp_mono [OF preserves_wp [OF preserves_ledger(3) [where f = "\<lambda>d. (audit_log d, audit_checkpoints d)"]]]
      audit_ok_cong wp_mono [OF append_entry_ok])+

sublocale provider_port < audited: purchase_db P audit_ok any_ref any_cap
proof
  have sweep: "guarded audit_ok (sweep ttl :: ('p, string list) app)" for ttl
    unfolding sweep_def sweep_one_def Let_def mandates_get_for_update_def ledger_list_for_ref_id_def raise_if_halted_def
      ledger_list_reservations_older_than_def integrity_get_state_def
    by (auto intro!: guarded_rules audit_guarded_ledger guarded_db_call split: option.splits)
  then show "guarded audit_ok (sweep ttl :: ('p, string list) app)" for ttl .
qed (auto simp: audit_ok_def intro!: wp_mono [OF append_entry_ok]
      preserves_keeps [OF preserves_ledger(1) [where f = "\<lambda>d. (audit_log d, audit_checkpoints d)"]]
      preserves_keeps [OF preserves_ledger(2) [where f = "\<lambda>d. (audit_log d, audit_checkpoints d)"]])

text \<open>An idempotency key, once it is there, stays: no condition on the calls either.\<close>

definition key_known :: "string \<Rightarrow> db \<Rightarrow> bool" where
  "key_known key d \<longleftrightarrow> idempotency_keys d key \<noteq> None"

lemma key_known_cong: "idempotency_keys d' = idempotency_keys d \<Longrightarrow> key_known k d \<Longrightarrow> key_known k d'"
  by (simp add: key_known_def)

sublocale provider_port < keyed: purchase_db P "key_known key" any_ref any_cap for key
proof
  show "guarded (key_known key) (sweep ttl :: ('p, string list) app)" for ttl
    by (rule yields_local [OF local_ledger(8)])
      (auto intro: key_known_cong wp_mono [OF preserves_wp [OF preserves_sweep [where f = idempotency_keys]]])
qed (auto simp: key_known_def intro!: preserves_keeps [OF preserves_append_entry [where f = idempotency_keys]]
      preserves_keeps [OF preserves_ledger(1) [where f = idempotency_keys]]
      preserves_keeps [OF preserves_ledger(2) [where f = idempotency_keys]])

text \<open>
  The spending limits: every reference is bound by \<open>T\<close> to one mandate and amount, \<open>M\<close> bounds
  the limit of every mandate, and no mandate has more live reservations than that.
\<close>

definition bound_by :: "terms \<Rightarrow> string \<Rightarrow> string \<Rightarrow> int \<Rightarrow> bool" where
  "bound_by T ref m a \<longleftrightarrow> T ref = (m, a) \<and> CHR '':'' \<notin> set m"

definition purchase_ok :: "terms \<Rightarrow> (string \<Rightarrow> int) \<Rightarrow> db \<Rightarrow> bool" where
  "purchase_ok T M d \<longleftrightarrow> budget_ok T M d \<and>
     (\<forall>mid m st. mandates d mid = Some (m, st) \<longrightarrow> max_total_minor (bounds m) \<le> M mid) \<and>
     (\<forall>sid s. sagas d sid = Some s \<longrightarrow> bound_by T sid (sg_mandate_id s) (sg_amount_minor s))"

lemma purchase_ok_frame:
  assumes "purchase_ok T M d" "(mandates d', sagas d') = (mandates d, sagas d)" "budget_ok T M d'"
  shows "purchase_ok T M d'"
  using assms by (simp add: purchase_ok_def)

lemma wp_purchase_ok:
  fixes w :: "'p world"
  assumes "preserves (\<lambda>d. (mandates d, sagas d)) m" "purchase_ok T M (session w)"
    and "wp m (\<lambda>x w'. budget_ok T M (session w')) (\<lambda>e w'. True) w"
  shows "wp m (\<lambda>x w'. purchase_ok T M (session w')) (\<lambda>e w'. True) w"
  by (rule wp_mono [OF wp_conj [OF preserves_wp [OF assms(1)] assms(3)]])
    (use assms(2) in \<open>auto intro: purchase_ok_frame\<close>)

lemma append_budget:
  assumes "budget_ok T M (session w)"
  shows "wp (append_entry t y a act subj pay) (\<lambda>x w'. budget_ok T M (session w')) (\<lambda>e w'. True) w"
  by (rule wp_mono [OF wp_conj [OF append_entry_ok preserves_wp [OF preserves_append_entry [where f = ledger_entries]]]])
    (use assms in \<open>auto simp: budget_ok_def\<close>)

sublocale provider_port < limited: purchase_db P "purchase_ok T M" "bound_by T" "\<lambda>m c. c \<le> M m" for T M
proof
  fix w :: "'p world" and ref m a c x ttl t y ac act subj pay
  show "wp (append_entry t y ac act subj pay) (\<lambda>r w'. purchase_ok T M (session w')) (\<lambda>e w'. True) w"
    if "purchase_ok T M (session w)"
    by (rule wp_purchase_ok [OF preserves_append_entry that append_budget]) (use that in \<open>simp_all add: purchase_ok_def\<close>)
  show "wp (reserve m a c ref) (\<lambda>r w'. purchase_ok T M (session w')) (\<lambda>e w'. True) w"
    if "bound_by T ref m a" "c \<le> M m" "purchase_ok T M (session w)"
    by (rule wp_purchase_ok [OF preserves_ledger(1) that(3) reserve_keeps_budget])
      (use that in \<open>simp_all add: purchase_ok_def bound_by_def\<close>)
  show "wp (run_call x m a ref) (\<lambda>r w'. purchase_ok T M (session w')) (\<lambda>e w'. True) w"
    if "bound_by T ref m a" "purchase_ok T M (session w)"
    by (rule wp_purchase_ok [OF preserves_ledger(2) that(2) call_keeps_budget])
      (use that in \<open>simp_all add: purchase_ok_def bound_by_def\<close>)
  have sweep: "wp (sweep ttl) (\<lambda>r w'. purchase_ok T M (session w')) (\<lambda>e w'. True) w"
    if "purchase_ok T M (session w)" for w :: "'p world"
    by (rule wp_purchase_ok [OF preserves_sweep that sweep_keeps_budget]) (use that in \<open>simp_all add: purchase_ok_def\<close>)
  show "guarded (purchase_ok T M) (sweep ttl :: ('p, string list) app)"
    by (rule yields_local [OF local_ledger(8)]) (simp add: sweep)
qed (auto simp: purchase_ok_def budget_ok_def audit_ok_def)

context provider_port
begin

lemmas limits_kept = limited.money_run_keeps
lemmas keys_kept = keyed.execute_keeps keyed.create_keeps
lemmas audit_kept = audited.money_run_keeps

end

section \<open>Properties of the running system\<close>

text \<open>
  C1. The limits hold in the running system. Whatever sequence of purchases begun and completed,
  webhooks received and processed, orders reconciled and reservations swept is run, with whatever
  faults of the database and of the provider, and with other processes committing anything that
  keeps the same invariant: the live reservations of a mandate never exceed its limit in the committed
  ledger, the balance that the next reservation is checked against is exactly their sum, and the
  committed audit log is a valid chain. It is assumed that every request for one purchase key carries
  the same mandate and amount, and that the provider has no access to the database.
\<close>

theorem money_run_within_limits:
  assumes "provider_port P" "purchase_ok T M (durable w)" "\<And>n d. purchase_ok T M d \<Longrightarrow> purchase_ok T M (others w n d)"
    and "list_all (call_bound (bound_by T)) calls" "d = durable (money_run P calls w)"
  shows "active_total T m (ledger_entries d) \<le> M m \<and> committed m (ledger_entries d) = active_total T m (ledger_entries d) \<and>
    audit_ok d"
proof -
  have "steady (purchase_ok T M) w" using assms(2,3) by (simp add: steady_def)
  with provider_port.limits_kept [OF assms(1,4)] have "purchase_ok T M d"
    by (simp add: steady_def assms(5))
  then show ?thesis by (simp add: purchase_ok_def budget_ok_def committed_active)
qed

text \<open>Two purchases under one mandate, a capture attempt, and the background work.\<close>

definition sample_calls :: "money_call list" where
  "sample_calls =
     [Begin (sample_request 1), Begin (sample_request 2), Complete (saga_key (sample_request 1)) ''order_1'' ''pay_1'' ''sig'' ''system'',
      Deliver [] ''sig'' ''evt_1'' JNull, Webhook_tick, Reconcile_tick, Sweep_command 900]"

theorem money_run_within_limits_witness:
  "let d = durable (money_run simulator_adapter sample_calls (quiet_world 0 (new_simulator SUCCESS 0) goa_db));
       T = (\<lambda>ref. (mandate_id goa_mandate, 400)); M = (\<lambda>m. max_total_minor (bounds goa_mandate)) in
   active_total T (mandate_id goa_mandate) (ledger_entries d) \<le> M (mandate_id goa_mandate) \<and>
   committed (mandate_id goa_mandate) (ledger_entries d) = active_total T (mandate_id goa_mandate) (ledger_entries d) \<and>
   audit_ok d"
proof -
  let ?T = "\<lambda>ref :: string. (mandate_id goa_mandate, 400 :: int)"
  let ?M = "\<lambda>m :: string. max_total_minor (bounds goa_mandate)"
  have "budget_ok ?T ?M goa_db" by (rule budget_ok_empty) (simp_all add: goa_mandate_def)
  then have "purchase_ok ?T ?M goa_db" by (auto simp: purchase_ok_def goa_db_def split: if_splits)
  then show ?thesis unfolding Let_def
    by (intro money_run_within_limits [where w = "quiet_world 0 (new_simulator SUCCESS 0) goa_db" and calls = sample_calls,
        OF simulator_port _ _ _ refl])
      (simp_all add: sample_calls_def sample_request_def bound_by_def)
qed

section \<open>One order per key\<close>

definition creates :: "'p world \<Rightarrow> (string \<times> db) list" where
  "creates w = filter (\<lambda>c. fst c = ''create_order'') (provider_calls w)"

text \<open>
  Since \<open>w0\<close>, either no order was created at the provider, or the key is known and the calls are
  within one call's retry limit.
\<close>

definition once_since :: "string \<Rightarrow> 'p world \<Rightarrow> 'p world \<Rightarrow> bool" where
  "once_since key w0 w \<longleftrightarrow>
     (\<forall>n d. key_known key d \<longrightarrow> key_known key (others w n d)) \<and> config w = config w0 \<and>
     (creates w = creates w0 \<or>
      key_known key (durable w) \<and> length (creates w) \<le> length (creates w0) + max_retry_attempts (config w0))"

lemma once_since_avoids:
  assumes "avoids ''create_order'' m" "keeps (steady (key_known key)) m"
  shows "keeps (once_since key w0) m"
proof (rule keepsI)
  fix w assume w: "once_since key w0 w"
  have "calls_named ''create_order'' (snd (m w)) = calls_named ''create_order'' w"
    using assms(1) by (simp add: unchanged_def)
  then have same: "creates (snd (m w)) = creates w" "config (snd (m w)) = config w" "others (snd (m w)) = others w"
    by (simp_all add: calls_named_def creates_def)
  have "key_known key (durable (snd (m w)))" if "key_known key (durable w)"
    using keepsD [OF assms(2), of w] w that by (simp add: steady_def once_since_def)
  then show "once_since key w0 (snd (m w))" using w same by (auto simp: once_since_def)
qed

lemma intent_key_known: "intent_recorded q d \<Longrightarrow> key_known (request_key q) d"
  by (auto simp: intent_recorded_def key_known_def)

lemma claim_known:
  assumes "key_known (request_key q) (session w)"
  shows "wp (claim_phase q trace) (\<lambda>r w'. r \<noteq> None) (\<lambda>e w'. True) w"
proof -
  have wait: "wp (await_in_flight_completion k) (\<lambda>x. wp (return (Some x)) (\<lambda>r w'. r \<noteq> None) (\<lambda>e w'. True)) (\<lambda>e w'. True) u"
    for k and u :: "'a world" by (rule wp_mono [OF wp_true]) simp_all
  show ?thesis
    using assms unfolding claim_phase_def Let_def idempotency_get_def orders_get_by_idempotency_key_def key_known_def
    by (auto intro!: wait simp del: not_None_eq)
qed

context provider_port
begin

lemma claim_uow:
  fixes w :: "'p world"
  assumes "traced q trace"
  shows "wp (with_uow (claim_phase q trace))
    (\<lambda>r w'. silent_step w w' \<and> (r = None \<longrightarrow> key_known (request_key q) (durable w')) \<and>
       (steady (key_known (request_key q)) w \<longrightarrow> r \<noteq> None))
    (\<lambda>e w'. silent_step w w') w"
proof (cases "steady (key_known (request_key q)) w")
  case True
  have "wp (with_uow (claim_phase q trace)) (\<lambda>r w'. r \<noteq> None) (\<lambda>e w'. True) w"
    unfolding wp_with_uow by (rule claim_known) (use True in \<open>simp add: steady_def\<close>)
  from wp_conj [OF wp_claim [OF assms] this] show ?thesis
    by (rule wp_mono) (auto dest: intent_key_known)
next
  case False
  show ?thesis by (rule wp_mono [OF wp_claim [OF assms]]) (use False in \<open>auto dest: intent_key_known\<close>)
qed

text \<open>Order creation calls the provider only for a key that was unknown, and makes it known.\<close>

lemma create_known:
  fixes w :: "'p world"
  assumes others: "\<forall>n d. key_known (request_key q) d \<longrightarrow> key_known (request_key q) (others w n d)"
  shows "wp (create_provider_order P q)
    (\<lambda>x w'. provider_calls w' = provider_calls w \<or> \<not> key_known (request_key q) (durable w) \<and> key_known (request_key q) (durable w'))
    (\<lambda>e w'. provider_calls w' = provider_calls w \<or> \<not> key_known (request_key q) (durable w) \<and> key_known (request_key q) (durable w')) w"
    (is "wp _ (\<lambda>x. ?Q) (\<lambda>e. ?Q) w")
proof -
  let ?K = "key_known (request_key q)"
  have rest: "keeps (steady ?K) (bind (provider_phase P q trace) (\<lambda>po. with_uow (complete_phase q po)))" for trace
    by (intro keeps_bind keyed.provider_phase_keeps keyed.complete_phase_keeps)
  have last: "wp (bind (provider_phase P q trace) (\<lambda>po. with_uow (complete_phase q po))) (\<lambda>x. ?Q) (\<lambda>e. ?Q) u"
    if "silent_step w u" "?K (durable u)" "\<not> ?K (durable w)" for trace and u :: "'p world"
    by (rule wp_mono [OF rest [unfolded keeps_wp, rule_format]])
      (use that others in \<open>auto simp: steady_def silent_step_def\<close>)
  have local_trace: "local (fresh_trace t :: ('p, string) app)" for t
    unfolding fresh_trace_def by (auto intro!: local_rules split: option.split)
  show ?thesis
    unfolding create_provider_order_def wp_bind [of "fresh_trace _"]
  proof (rule wp_mono [OF wp_conj [OF wp_fresh_trace local_wp [OF local_trace]]], goal_cases)
    case (1 trace u)
    then have u: "silent_step w u" "traced q trace" "local_step w u" by simp_all
    have st: "steady ?K u \<longleftrightarrow> ?K (durable w)" using u(3) others by (simp add: steady_def local_step_def)
    show ?case unfolding wp_bind [of "with_uow (claim_phase q trace)"]
      by (rule wp_mono [OF claim_uow [OF u(2)]])
        (use u(1) st last [of _ trace] in \<open>auto simp: silent_step_def split: option.split\<close>)
  qed (simp add: silent_step_def)
qed

lemma create_avoids:
  assumes "nm \<noteq> ''create_order''"
  shows "avoids nm (create_provider_order P q)"
proof -
  note quiet = silent_avoids [OF silent_payment(1)] silent_avoids [OF silent_payment(2)]
    silent_avoids [OF silent_payment(3)] silent_avoids [OF silent_payment(4)]
  have "avoids nm (call_with_retry (logged ''create_order'' (port_create_order P a c k ns)))" for a c k ns
    by (rule external_avoids [OF external_call [OF external_logged [OF create_outside]]]) (use assms in simp)
  then show ?thesis
    unfolding create_provider_order_def provider_phase_def by (intro avoids.rules quiet)
qed

lemma create_once:
  assumes "request_key q = key"
  shows "keeps (once_since key w0) (create_provider_order P q)"
proof (rule keepsI)
  fix w :: "'p world"
  assume w: "once_since key w0 w"
  let ?w' = "snd (create_provider_order P q w)"
  have oth: "\<forall>n d. key_known key d \<longrightarrow> key_known key (others w n d)" using w by (simp add: once_since_def)
  have "calls_named ''refund'' ?w' = calls_named ''refund'' w"
    using create_avoids [of "''refund''" q] by (simp add: unchanged_def)
  then have frame: "config ?w' = config w" "others ?w' = others w" by (simp_all add: calls_named_def)
  have known: "provider_calls ?w' = provider_calls w \<or> \<not> key_known key (durable w) \<and> key_known key (durable ?w')"
    using create_known [of q w] oth unfolding wp_snd assms by simp
  have kept: "key_known key (durable ?w')" if "key_known key (durable w)"
    using keepsD [OF keyed.create_keeps, of key w q] that oth by (simp add: steady_def)
  obtain k d where k: "provider_calls ?w' = provider_calls w @ replicate k (''create_order'', d)" "k \<le> max_retry_attempts (config w)"
    using create_calls [of q w] unfolding wp_snd calls_made_def by blast
  have len: "length (creates ?w') \<le> length (creates w) + max_retry_attempts (config w)"
    using k by (simp add: creates_def)
  show "once_since key w0 ?w'"
  proof (cases "provider_calls ?w' = provider_calls w")
    case True
    then show ?thesis using w kept frame by (auto simp: once_since_def creates_def)
  next
    case False
    then show ?thesis using w known len frame by (auto simp: once_since_def)
  qed
qed

lemma begin_once:
  assumes "saga_key req = key"
  shows "keeps (once_since key w0) (begin_purchase P req)"
proof -
  note quiet = avoids.rules avoids.local_unchanged [OF local_run] avoids.local_unchanged [OF local_mark_compensated]
  have tx: "keeps (once_since key w0) (with_uow body :: ('p, 'x) app)"
    if "avoids ''create_order'' body" "guarded (key_known key) body" for body :: "('p, 'x) app"
    by (intro once_since_avoids keeps_with_uow avoids.with_uow_unchanged that)
  have gates: "keeps (once_since key w0) (attempt_g1_through_g5 req k :: ('p, reason_code option) app)" for k
    by (rule once_since_avoids [OF _ keyed.attempt_guarded])
      (auto simp: attempt_g1_through_g5_def intro!: quiet)
  have comp: "keeps (once_since key w0) (compensate req k reason :: ('p, unit) app)" for k reason
    unfolding compensate_def
    by (rule once_since_avoids [OF _ keyed.compensations_keep(1)])
      (auto simp: release_reservation_and_mark_compensated_def c1_body_def intro!: quiet)
  have handler: "keeps (once_since key w0) (handle_execution req k exc :: ('p, money_action_result) app)" for k exc
    unfolding handle_execution_def by (cases exc) (auto intro!: keeps_rules comp)
  have id: "keeps (once_since key w0) (new_id p :: ('p, string) app)" for p
    by (rule once_since_avoids) (auto intro!: keeps_local local_rules avoids.rules)
  have key: "request_key (gate_order_request req oid) = key" for oid
    using assms by (simp add: request_key_def gate_order_request_def saga_key_def)
  have execute: "keeps (once_since key w0) (execute_money_action P req)"
    unfolding execute_money_action_def run_g6_g7_execute_def Let_def
    by (intro keeps_rules tx gates handler id create_once key avoids.rules guarded_rules)
  have s1: "guarded (key_known key) (s1_reserve req :: ('p, saga option) app)"
    unfolding s1_reserve_def sagas_add_def
    by (intro guarded_rules guarded_db_insert TrueI) (simp add: key_known_def)
  have s2: "guarded (key_known key) (s2_record req result :: ('p, saga) app)" for result
    unfolding s2_record_def by (intro guarded_rules)
  show ?thesis
    unfolding begin_purchase_def
    by (intro keeps_rules tx s1 s2 execute) (auto simp: s1_reserve_def s2_record_def reload_def intro!: avoids.rules)
qed

lemma calls_avoid_create:
  "avoids ''create_order'' (call_with_retry (logged ''capture'' (port_capture P pid a)))"
  "avoids ''create_order'' (call_with_retry (logged ''refund'' (port_refund P pid a k)))"
  "avoids ''create_order'' (call_with_retry (logged ''fetch_payments'' (port_fetch_payments P oid)))"
  "avoids ''create_order'' (logged ''fetch_payments'' (port_fetch_payments P oid))"
  by (rule external_avoids [OF external_call [OF external_logged [OF capture_outside]]]
      external_avoids [OF external_call [OF external_logged [OF refund_outside]]]
      external_avoids [OF external_call [OF external_logged [OF fetch_outside]]]
      external_avoids [OF external_logged [OF fetch_outside]], simp)+

lemma complete_avoids_create: "avoids ''create_order'' (complete_purchase P sid poid pid sig actor)"
proof -
  note quiet = avoids.rules avoids.local_unchanged [OF local_mark_compensated] avoids.local_unchanged [OF local_fail_unless]
    calls_avoid_create
  have capture: "avoids ''create_order'' (verify_and_capture P oid poid pid sig amount actor t)" for oid amount t
    unfolding verify_and_capture_def capture_failed_def fresh_trace_def by (intro quiet)
  have fin: "avoids ''create_order'' (finalize sid step status :: ('p, saga_snapshot) app)" for step status
    unfolding finalize_def reload_def by (intro quiet)
  have void: "avoids ''create_order'' (void_saga s sid oid actor trace reason :: ('p, saga_snapshot) app)" for s oid trace reason
    unfolding void_saga_def void_order_and_release_reservation_def by (intro quiet fin)
  have s5: "avoids ''create_order'' (s5_settle P s sid oid pid actor trace)" for s oid trace
    unfolding s5_settle_def refund_and_reverse_settlement_def mark_settled_def reload_def by (intro quiet fin)
  show ?thesis
    unfolding complete_purchase_def authorize_and_settle_def s4_capture_def by (intro quiet capture void s5)
qed

lemma ticks_avoid_create:
  "avoids ''create_order'' (webhook_tick :: ('p, unit) app)" "avoids ''create_order'' (reconcile_tick P)"
  "avoids ''create_order'' (razorpay_webhook P body sig eid parsed)" "avoids ''create_order'' (sweep_command ttl :: ('p, string list) app)"
proof -
  note quiet = avoids.rules calls_avoid_create
  have lookup: "avoids ''create_order'' (case v of JStr s \<Rightarrow> payments_get_by_provider_order_id s | _ \<Rightarrow> raise DBAPIError)" for v
    by (cases v) (auto intro!: quiet)
  show "avoids ''create_order'' (webhook_tick :: ('p, unit) app)"
    unfolding webhook_tick_def process_unprocessed_webhooks_def apply_webhook_event_def apply_transition_def
    by (intro quiet lookup)
  show "avoids ''create_order'' (reconcile_tick P)"
    unfolding reconcile_tick_def reconcile_non_terminal_orders_def reconcile_order_def settle_polled_def audit_reconciled_def
    by (intro quiet)
  show "avoids ''create_order'' (razorpay_webhook P body sig eid parsed)"
    "avoids ''create_order'' (sweep_command ttl :: ('p, string list) app)"
    unfolding razorpay_webhook_def process_webhook_delivery_def sweep_command_def by (intro quiet)+
qed

lemma run_once:
  assumes "list_all (\<lambda>c. \<forall>req. c = Begin req \<longrightarrow> saga_key req = key) calls" "once_since key w0 w"
  shows "once_since key w0 (money_run P calls w)"
proof -
  have step: "keeps (once_since key w0) (money_step P c)" if "\<forall>req. c = Begin req \<longrightarrow> saga_key req = key" for c
  proof (cases "\<exists>req. c = Begin req")
    case True
    then show ?thesis using that by (auto simp: discard_def intro!: keeps_rules begin_once)
  next
    case False
    then have "avoids ''create_order'' (money_step P c)"
      by (cases c) (auto simp: discard_def intro!: avoids.rules complete_avoids_create ticks_avoid_create)
    then show ?thesis by (rule once_since_avoids [OF _ keyed.money_step_keeps]) (cases c; simp)
  qed
  show ?thesis
    using assms by (induction calls arbitrary: w) (simp_all add: keepsD [OF step])
qed

end

text \<open>
  C4. One order per purchase: however often a purchase is begun again with the same key, after
  crashes, denials or timeouts, and whatever is completed, received, reconciled or swept in between,
  the provider receives at most \<open>max_retry_attempts\<close> order creations for the whole run, the retries
  of the one attempt that won the key. It is assumed that no process deletes idempotency keys.
\<close>

theorem one_order_per_key:
  assumes "provider_port P" "\<And>n d. key_known key d \<Longrightarrow> key_known key (others w n d)"
    and "list_all (\<lambda>c. \<forall>req. c = Begin req \<longrightarrow> saga_key req = key) calls"
  shows "length (creates (money_run P calls w)) \<le> length (creates w) + max_retry_attempts (config w)"
proof -
  have "once_since key w w" using assms(2) by (simp add: once_since_def)
  from provider_port.run_once [OF assms(1,3) this] show ?thesis by (auto simp: once_since_def)
qed

theorem one_order_per_key_witness:
  "length (creates (money_run simulator_adapter [Begin (sample_request 1), Begin (sample_request 1), Webhook_tick, Begin (sample_request 1)]
     (quiet_world 0 (new_simulator SUCCESS 0) goa_db))) \<le> 3"
  using one_order_per_key [OF simulator_port, of "saga_key (sample_request 1)" "quiet_world 0 (new_simulator SUCCESS 0) goa_db"
      "[Begin (sample_request 1), Begin (sample_request 1), Webhook_tick, Begin (sample_request 1)]"]
  by (simp add: creates_def default_settings_def)

end
