(* ===== verification/Razorpay.thy ===== *)
theory Razorpay
  imports Worker
begin

text \<open>
  The adapter of the real payment provider
  (\<open>infrastructure/providers/razorpay/adapter.py\<close>) over an HTTP client, which is a parameter: it
  answers any status with any body, or fails. The adapter is an instance of \<open>provider_port\<close>, so that
  what is shown of the payment programs holds with it. Members of an answer are read with the types
  that Razorpay documents; a member of another type raises \<open>TypeError\<close> here, where Python would go on
  with a value that is not a string or an integer.
\<close>

section \<open>The HTTP client\<close>

datatype http_failure = TimeoutException | TransportError

record http_reply =
  status_code :: int
  reply_json :: "json result"

type_synonym 'h http_client = "string \<Rightarrow> string \<Rightarrow> json option \<Rightarrow> 'h \<Rightarrow> (http_failure + http_reply) \<times> 'h"

record 'h razorpay =
  rz_key_secret :: bytes
  rz_webhook_secret :: bytes
  rz_connection :: 'h

definition new_razorpay :: "string \<Rightarrow> string \<Rightarrow> string \<Rightarrow> 'h \<Rightarrow> 'h razorpay result" where
  "new_razorpay key_id key_secret webhook_secret h =
     (if \<not> is_prefix ''rzp_test_'' key_id then
        Inl (SystemExit (''FATAL: RazorpayAdapter refuses to run against a non-test-mode key (prefix '' @
          repr_str (take_chars 9 key_id) @ ''). This build has no authorisation to move real money.''))
      else Inr \<lparr>rz_key_secret = encode_utf8 key_secret, rz_webhook_secret = encode_utf8 webhook_secret, rz_connection = h\<rparr>)"

section \<open>Requests\<close>

definition safe_error_body :: "http_reply \<Rightarrow> json" where
  "safe_error_body r =
     (case reply_json r of
        Inl e \<Rightarrow> JObj []
      | Inr body \<Rightarrow>
          (case as_dict (case body of JObj kvs \<Rightarrow> jget ''error'' body | _ \<Rightarrow> None) of
             None \<Rightarrow> JObj []
           | Some error \<Rightarrow>
               JObj [(''code'', case jget ''code'' error of None \<Rightarrow> JNull | Some v \<Rightarrow> v),
                     (''description'', case jget ''description'' error of None \<Rightarrow> JNull | Some v \<Rightarrow> v)]))"

definition error_code_text :: "http_reply \<Rightarrow> string" where
  "error_code_text r = (case jget ''code'' (safe_error_body r) of None \<Rightarrow> ''None'' | Some v \<Rightarrow> str_json v)"

definition rz_send :: "'h http_client \<Rightarrow> string \<Rightarrow> string \<Rightarrow> json option \<Rightarrow> ('h razorpay, http_failure + http_reply) app" where
  "rz_send H meth path json_body = (\<lambda>w.
     case H meth path json_body (rz_connection (provider w)) of
       (r, h) \<Rightarrow> (Inr r, w\<lparr>provider := (provider w)\<lparr>rz_connection := h\<rparr>\<rparr>))"

definition read_reply :: "string \<Rightarrow> string \<Rightarrow> http_failure + http_reply \<Rightarrow> json result" where
  "read_reply meth path r =
     (case r of
        Inl TimeoutException \<Rightarrow> Inl (TransientProviderError (''razorpay request timed out: '' @ meth @ '' '' @ path))
      | Inl TransportError \<Rightarrow> Inl (TransientProviderError (''razorpay transport error: '' @ meth @ '' '' @ path))
      | Inr reply \<Rightarrow>
          if status_code reply \<ge> 500 then
            Inl (TransientProviderError (''razorpay server error '' @ show_int (status_code reply) @ '': '' @ meth @ '' '' @ path))
          else if status_code reply \<ge> 400 then
            Inl (TerminalProviderError (''razorpay rejected the request ('' @ show_int (status_code reply) @ ''): '' @ meth @ '' '' @
                   path @ '': '' @ error_code_text reply))
          else reply_json reply)"

definition rz_request :: "'h http_client \<Rightarrow> string \<Rightarrow> string \<Rightarrow> json option \<Rightarrow> ('h razorpay, json) app" where
  "rz_request H meth path json_body = bind (rz_send H meth path json_body) (\<lambda>r. lift_result (read_reply meth path r))"

section \<open>Answers\<close>

definition json_member :: "string \<Rightarrow> json \<Rightarrow> json result" where
  "json_member k data =
     (case data of
        JObj kvs \<Rightarrow> (case jget k data of None \<Rightarrow> Inl (KeyError k) | Some v \<Rightarrow> Inr v)
      | _ \<Rightarrow> Inl (TypeError ''indices must be integers''))"

definition as_str :: "json \<Rightarrow> string result" where
  "as_str v = (case v of JStr s \<Rightarrow> Inr s | _ \<Rightarrow> Inl (TypeError ''not a string''))"

definition as_int :: "json \<Rightarrow> int result" where
  "as_int v = (case v of JInt i \<Rightarrow> Inr i | _ \<Rightarrow> Inl (TypeError ''not an integer''))"

text \<open>\<open>data.get(k)\<close>\<close>

definition optional_str :: "string \<Rightarrow> json \<Rightarrow> string option result" where
  "optional_str k data =
     (case jget k data of
        None \<Rightarrow> Inr None
      | Some JNull \<Rightarrow> Inr None
      | Some v \<Rightarrow> rmap Some (as_str v))"

definition to_provider_order :: "json \<Rightarrow> provider_order result" where
  "to_provider_order data =
     rbind (rbind (json_member ''id'' data) as_str) (\<lambda>i.
     rbind (rbind (json_member ''status'' data) as_str) (\<lambda>st.
     rbind (rbind (json_member ''amount'' data) as_int) (\<lambda>a.
     rbind (rbind (json_member ''currency'' data) as_str) (\<lambda>c.
     rbind (optional_str ''receipt'' data) (\<lambda>r.
     rbind (rbind (json_member ''created_at'' data) as_int) (\<lambda>t.
     Inr \<lparr>po_id = i, po_status = st, po_amount_minor = a, po_currency = c, po_receipt = r, po_created_at = timedelta_s t\<rparr>))))))"

definition to_provider_payment :: "json \<Rightarrow> provider_payment result" where
  "to_provider_payment data =
     rbind (rbind (json_member ''id'' data) as_str) (\<lambda>i.
     rbind (optional_str ''order_id'' data) (\<lambda>oid.
     rbind (rbind (json_member ''status'' data) as_str) (\<lambda>st.
     rbind (rbind (json_member ''amount'' data) as_int) (\<lambda>a.
     rbind (rbind (json_member ''currency'' data) as_str) (\<lambda>c.
     rbind (optional_str ''method'' data) (\<lambda>m.
     rbind (optional_str ''error_code'' data) (\<lambda>ec.
     rbind (optional_str ''error_description'' data) (\<lambda>ed.
     Inr \<lparr>py_id = i, py_order_id = oid, py_status = st, py_amount_minor = a, py_currency = c,
          py_captured = (case jget ''captured'' data of None \<Rightarrow> False | Some v \<Rightarrow> truthy v), py_method = m,
          py_error_code = ec, py_error_description = ed\<rparr>))))))))"

definition payment_items :: "json \<Rightarrow> json list result" where
  "payment_items data =
     (case jget ''items'' data of
        None \<Rightarrow> Inr []
      | Some (JList items) \<Rightarrow> Inr items
      | Some v \<Rightarrow> Inl (TypeError ''not a list''))"

fun read_all :: "(json \<Rightarrow> 'a result) \<Rightarrow> json list \<Rightarrow> 'a list result" where
  "read_all f [] = Inr []"
| "read_all f (v # vs) = rbind (f v) (\<lambda>x. rbind (read_all f vs) (\<lambda>xs. Inr (x # xs)))"

section \<open>The adapter\<close>

definition rz_create_order ::
  "'h http_client \<Rightarrow> int \<Rightarrow> string \<Rightarrow> string \<Rightarrow> (string \<times> string) list \<Rightarrow> ('h razorpay, provider_order) app" where
  "rz_create_order H amount cur key notes =
     bind (rz_request H ''POST'' ''/orders''
             (Some (JObj [(''amount'', JInt amount), (''currency'', JStr cur), (''receipt'', JStr key),
                          (''notes'', JObj (map (\<lambda>(k, v). (k, JStr v)) notes))]))) (\<lambda>data.
     lift_result (to_provider_order data))"

definition rz_fetch_payments :: "'h http_client \<Rightarrow> string \<Rightarrow> ('h razorpay, provider_payment list) app" where
  "rz_fetch_payments H oid =
     bind (rz_request H ''GET'' (''/orders/'' @ oid @ ''/payments'') None) (\<lambda>data.
     bind (lift_result (payment_items data)) (\<lambda>items.
     lift_result (read_all to_provider_payment items)))"

definition rz_capture :: "'h http_client \<Rightarrow> string \<Rightarrow> int \<Rightarrow> ('h razorpay, provider_payment) app" where
  "rz_capture H pid amount =
     bind (rz_request H ''POST'' (''/payments/'' @ pid @ ''/capture'')
             (Some (JObj [(''amount'', JInt amount), (''currency'', JStr ''INR'')]))) (\<lambda>data.
     lift_result (to_provider_payment data))"

definition rz_refund :: "'h http_client \<Rightarrow> string \<Rightarrow> int \<Rightarrow> string \<Rightarrow> ('h razorpay, provider_refund) app" where
  "rz_refund H pid amount key =
     bind (rz_request H ''POST'' (''/payments/'' @ pid @ ''/refund'')
             (Some (JObj [(''amount'', JInt amount), (''receipt'', JStr key)]))) (\<lambda>data.
     lift_result
       (rbind (rbind (json_member ''id'' data) as_str) (\<lambda>i.
        rbind (rbind (json_member ''amount'' data) as_int) (\<lambda>a.
        Inr \<lparr>rf_id = i, rf_payment_id = pid, rf_amount_minor = a,
             rf_status = (case jget ''status'' data of Some (JStr s) \<Rightarrow> s | _ \<Rightarrow> ''processed'')\<rparr>))))"

definition rz_verify_checkout_signature :: "'h razorpay \<Rightarrow> string \<Rightarrow> string \<Rightarrow> string \<Rightarrow> bool result" where
  "rz_verify_checkout_signature s order_id payment_id sig =
     (if order_id = [] \<or> payment_id = [] \<or> sig = [] then Inr False
      else verify_signature (order_id @ ''|'' @ payment_id) (rz_key_secret s) sig)"

definition rz_verify_webhook :: "'h razorpay \<Rightarrow> bytes \<Rightarrow> string \<Rightarrow> bool result" where
  "rz_verify_webhook s raw_body sig =
     (if sig = [] then Inr False else compare_digest (hex (hmac_sha256 (rz_webhook_secret s) raw_body)) sig)"

definition razorpay_adapter :: "'h http_client \<Rightarrow> 'h razorpay payment_port" where
  "razorpay_adapter H =
     \<lparr>port_create_order = rz_create_order H, port_fetch_payments = rz_fetch_payments H, port_capture = rz_capture H,
      port_refund = rz_refund H, port_verify_checkout_signature = rz_verify_checkout_signature,
      port_verify_webhook = rz_verify_webhook\<rparr>"

section \<open>An instance of the port\<close>

lemma outside_request: "outside (rz_request H meth path j)"
  unfolding rz_request_def
  by (rule outside_bind) (auto simp: outside_def outside_step_def rz_send_def run_simps split: prod.split)

lemma outside_lift: "outside (lift_result r)"
  by (simp add: outside_def outside_step_def run_simps)

interpretation razorpay: provider_port "razorpay_adapter H" for H
  unfolding razorpay_adapter_def rz_create_order_def rz_fetch_payments_def rz_capture_def rz_refund_def
  by unfold_locales (auto intro!: outside_bind outside_request outside_lift)

section \<open>Client errors are final\<close>

definition rejects_all :: "'h http_client \<Rightarrow> bool" where
  "rejects_all H \<longleftrightarrow>
     (\<forall>meth path j h. \<exists>reply. fst (H meth path j h) = Inr reply \<and> 400 \<le> status_code reply \<and> status_code reply < 500)"

lemma rejected_once:
  assumes "rejects_all H" "0 < max_retry_attempts (config w)" "b_state (circuit w) = CLOSED"
  shows "\<exists>m w'. call_with_retry (logged nm (bind (rz_request H meth path j) f)) w = (Inl (TerminalProviderError m), w') \<and>
    provider_calls w' = provider_calls w @ [(nm, durable w)]"
proof -
  let ?h = "rz_connection (provider w)"
  obtain reply where reply: "fst (H meth path j ?h) = Inr reply" "400 \<le> status_code reply" "status_code reply < 500"
    using assms(1) unfolding rejects_all_def by blast
  obtain h' where h: "H meth path j ?h = (Inr reply, h')" using reply(1) by (metis prod.collapse)
  obtain n where n: "max_retry_attempts (config w) = Suc n" using assms(2) by (cases "max_retry_attempts (config w)") auto
  obtain m where m: "read_reply meth path (Inr reply) = Inl (TerminalProviderError m)"
    using reply(2,3) by (simp add: read_reply_def)
  have admitted: "breaker_begin (circuit w) 0 = Inr (circuit w)"
    using assms(3) by (simp add: breaker_begin_def effective_state_def split: option.split)
  show ?thesis
    using assms(3) n m h admitted
    by (simp add: call_with_retry_def retry_with_full_jitter_def breaker_call_def breaker_now_def
        logged_def rz_request_def rz_send_def bind_def handle_def run_simps clock_now_def is_transient_def trips_def)
qed

text \<open>
  A request that Razorpay rejects is not repeated. When the provider answers client errors and
  the circuit is closed, creating, capturing and refunding each send exactly one request through
  the retry and the breaker, whatever the retry limit, and raise \<open>TerminalProviderError\<close>, which the
  payment services turn into a failed order.
\<close>

theorem client_errors_are_final:
  assumes "rejects_all H" "0 < max_retry_attempts (config w)" "b_state (circuit w) = CLOSED"
  shows "(\<exists>m w'. call_with_retry (logged ''create_order'' (rz_create_order H amount cur key notes)) w =
        (Inl (TerminalProviderError m), w') \<and> provider_calls w' = provider_calls w @ [(''create_order'', durable w)]) \<and>
    (\<exists>m w'. call_with_retry (logged ''capture'' (rz_capture H pid amount)) w =
        (Inl (TerminalProviderError m), w') \<and> provider_calls w' = provider_calls w @ [(''capture'', durable w)]) \<and>
    (\<exists>m w'. call_with_retry (logged ''refund'' (rz_refund H pid amount key)) w =
        (Inl (TerminalProviderError m), w') \<and> provider_calls w' = provider_calls w @ [(''refund'', durable w)])"
  unfolding rz_create_order_def rz_capture_def rz_refund_def by (intro conjI rejected_once assms)

theorem client_errors_are_final_witness:
  "let H = (\<lambda>meth path j h. (Inr \<lparr>status_code = 404, reply_json = Inl (ValueError ''no body'')\<rparr>, h));
       w = quiet_world 0 \<lparr>rz_key_secret = [], rz_webhook_secret = [], rz_connection = ()\<rparr> empty_db in
   \<exists>m w'. call_with_retry (logged ''capture'' (rz_capture H ''pay_1'' 400)) w = (Inl (TerminalProviderError m), w') \<and>
     provider_calls w' = provider_calls w @ [(''capture'', durable w)]"
proof -
  let ?H = "\<lambda>meth path j h :: unit. (Inr \<lparr>status_code = 404, reply_json = Inl (ValueError ''no body'')\<rparr>, h)"
  let ?w = "quiet_world 0 \<lparr>rz_key_secret = [], rz_webhook_secret = [], rz_connection = ()\<rparr> empty_db"
  have "rejects_all ?H" by (simp add: rejects_all_def)
  moreover have "0 < max_retry_attempts (config ?w)" "b_state (circuit ?w) = CLOSED" by (simp_all add: default_settings_def new_breaker_def)
  ultimately show ?thesis unfolding Let_def using client_errors_are_final [of ?H ?w] by blast
qed

text \<open>With this adapter, too, the programs keep the limits and the log.\<close>

lemma razorpay_port: "provider_port (razorpay_adapter H)"
  by (rule razorpay.provider_port_axioms)

end
