(* ===== verification/Anchor.thy ===== *)
theory Anchor
  imports Transactions
begin

text \<open>
  Anchoring of checkpoints: the contract on the chain (\<open>chain/src/AuditCheckpointAnchor.sol\<close>), its
  client (\<open>infrastructure/anchor/monad_testnet.py\<close>) and one tick of the worker's loop over the
  checkpoints that are not anchored yet (\<open>worker.py\<close>). The node between client and contract is a
  parameter: it may fail before or after a transaction is mined. The locale \<open>anchor_chain\<close> is what the
  worker relies on; the contract provides it. The world here is that of the anchor loop: its provider is
  the chain, its circuit the breaker \<open>monad-anchor\<close>.
\<close>

section \<open>The contract\<close>

definition zero_root :: bytes where
  "zero_root = replicate 32 0"

datatype contract_error = NotOwner | InvalidRoot | InvalidRange | ConflictingRoot bytes

record contract =
  ct_owner :: string
  ct_checkpoints :: "bytes \<Rightarrow> 64 word \<Rightarrow> 64 word \<Rightarrow> bytes \<times> 64 word"

definition sol_anchor ::
  "string \<Rightarrow> 64 word \<Rightarrow> bytes \<Rightarrow> 64 word \<Rightarrow> 64 word \<Rightarrow> bytes \<Rightarrow> contract \<Rightarrow> contract_error + contract" where
  "sol_anchor sender timestamp chain start_seq end_seq new_root k =
     (if sender \<noteq> ct_owner k then Inl NotOwner
      else if new_root = zero_root then Inl InvalidRoot
      else if end_seq < start_seq then Inl InvalidRange
      else
        let existing = fst (ct_checkpoints k chain start_seq end_seq) in
        if existing \<noteq> zero_root then
          (if existing \<noteq> new_root then Inl (ConflictingRoot existing) else Inr k)
        else
          Inr (k\<lparr>ct_checkpoints := (ct_checkpoints k)(chain := (ct_checkpoints k chain)(start_seq :=
                 (ct_checkpoints k chain start_seq)(end_seq := (new_root, timestamp))))\<rparr>))"

definition sol_get_checkpoint :: "bytes \<Rightarrow> 64 word \<Rightarrow> 64 word \<Rightarrow> contract \<Rightarrow> bytes \<times> 64 word" where
  "sol_get_checkpoint chain start_seq end_seq k = ct_checkpoints k chain start_seq end_seq"

section \<open>monad\_testnet.py\<close>

text \<open>
  \<open>rpc_submit\<close>: count, build, sign, send and wait for the receipt; the transaction hash and whether
  the receipt has status 1. \<open>rpc_text\<close> is \<open>str\<close> of an exception.
\<close>

record 'c anchor_rpc =
  rpc_get_checkpoint :: "int \<Rightarrow> int \<Rightarrow> ('c, bytes) comp"
  rpc_submit :: "int \<Rightarrow> int \<Rightarrow> bytes \<Rightarrow> ('c, bytes \<times> bool) comp"
  rpc_text :: "exn \<Rightarrow> string"

record 'c monad_anchor =
  ma_rpc :: "'c anchor_rpc"
  ma_chain_id :: int
  ma_contract_address :: string

record anchor_submission =
  as_chain_id :: int
  as_contract_address :: string
  as_already_anchored :: bool
  as_tx_hash :: "string option"

definition chain_call :: "('c, 'a) comp \<Rightarrow> ('c, 'a) app" where
  "chain_call m = (\<lambda>w. case m (provider w) of (r, c) \<Rightarrow> (r, w\<lparr>provider := c\<rparr>))"

definition submission :: "'c monad_anchor \<Rightarrow> bool \<Rightarrow> string option \<Rightarrow> anchor_submission" where
  "submission A already tx_hash =
     \<lparr>as_chain_id = ma_chain_id A, as_contract_address = ma_contract_address A, as_already_anchored = already, as_tx_hash = tx_hash\<rparr>"

fun contains :: "string \<Rightarrow> string \<Rightarrow> bool" where
  "contains s [] \<longleftrightarrow> s = []"
| "contains s (c # t) \<longleftrightarrow> take (length s) (c # t) = s \<or> contains s t"

definition anchor_checkpoint_blocking :: "'c monad_anchor \<Rightarrow> int \<Rightarrow> int \<Rightarrow> bytes \<Rightarrow> ('c, anchor_submission) app" where
  "anchor_checkpoint_blocking A start_seq end_seq root =
     bind (chain_call (rpc_get_checkpoint (ma_rpc A) start_seq end_seq)) (\<lambda>existing_root.
     if existing_root \<noteq> zero_root then
       (if existing_root = root then return (submission A True None)
        else raise (AnchorConflictError (''on-chain root disagrees with the local checkpoint for the same range (start_seq='' @
          show_int start_seq @ '', end_seq='' @ show_int end_seq @ ''): existing=0x'' @ hex existing_root @ '' local=0x'' @ hex root)))
     else
       bind (handle (chain_call (rpc_submit (ma_rpc A) start_seq end_seq root))
               (\<lambda>exc. case exc of
                  ContractCustomError m \<Rightarrow>
                    if contains ''ConflictingRoot'' m then raise (AnchorConflictError (''on-chain conflict on submission: '' @ m))
                    else raise exc
                | _ \<Rightarrow> raise exc)) (\<lambda>(tx_hash, status_ok).
       if \<not> status_ok then raise (TransientAnchorError (''anchor transaction reverted: 0x'' @ hex tx_hash))
       else return (submission A False (Some (''0x'' @ hex tx_hash)))))"

definition anchor_checkpoint :: "'c monad_anchor \<Rightarrow> int \<Rightarrow> int \<Rightarrow> string \<Rightarrow> ('c, anchor_submission) app" where
  "anchor_checkpoint A start_seq end_seq root_hex =
     bind (lift_result (parse_hex_prefixed root_hex)) (\<lambda>root.
     handle (anchor_checkpoint_blocking A start_seq end_seq root)
       (\<lambda>exc. case exc of
          AnchorConflictError m \<Rightarrow> raise exc
        | _ \<Rightarrow> raise (TransientAnchorError (''monad anchor submission failed: '' @ rpc_text (ma_rpc A) exc))))"

section \<open>factory.py\<close>

record anchor_settings =
  anchor_provider :: string
  monad_chain_id :: int
  monad_rpc_url :: string
  monad_contract_address :: string
  monad_keystore_path :: string
  monad_keystore_password :: string

definition testnet_chain_id :: int where
  "testnet_chain_id = 10143"

text \<open>\<open>^0x[0-9a-fA-F]{40}$\<close>, where \<open>$\<close> also matches before a final newline.\<close>

definition address_matches :: "string \<Rightarrow> bool" where
  "address_matches s \<longleftrightarrow>
     take 2 s = ''0x'' \<and> list_all (\<lambda>c. hex_value c \<noteq> None) (take 40 (drop 2 s)) \<and>
     (length s = 42 \<or> length s = 43 \<and> last s = CHR 0x0A)"

text \<open>\<open>is_file\<close>: \<open>Path(p).is_file()\<close>; \<open>to_checksum_address\<close> is that of \<open>web3\<close>. \<open>None\<close> is the answer for \<open>noop\<close>: no loop is started.\<close>

definition build_anchor_worker :: "(string \<Rightarrow> bool) \<Rightarrow> (string \<Rightarrow> string result) \<Rightarrow> 'c anchor_rpc \<Rightarrow> anchor_settings \<Rightarrow> 'c monad_anchor option result" where
  "build_anchor_worker is_file to_checksum_address X c =
     (if anchor_provider c = ''noop'' then Inr None
      else if anchor_provider c \<noteq> ''monad'' then
        Inl (SystemExit (''FATAL: unknown anchor_provider: '' @ repr_str (anchor_provider c)))
      else if monad_chain_id c \<noteq> testnet_chain_id then
        Inl (SystemExit (''FATAL: ANCHOR_PROVIDER=monad requires MONAD_CHAIN_ID='' @ show_int testnet_chain_id @
          '' (Monad Testnet). Refusing to start with chain id '' @ show_int (monad_chain_id c) @
          '' -- Monad mainnet or any other chain is out of scope ('' @ [CHR 0xC2, CHR 0xA7] @ ''28 P11 non-negotiable rule).''))
      else if monad_rpc_url c = [] then
        Inl (SystemExit ''FATAL: ANCHOR_PROVIDER=monad requires MONAD_RPC_URL to be set.'')
      else if \<not> address_matches (monad_contract_address c) then
        Inl (SystemExit (''FATAL: ANCHOR_PROVIDER=monad requires a valid MONAD_CONTRACT_ADDRESS (0x-prefixed, 40 hex chars) -- '' @
          ''deploy chain/src/AuditCheckpointAnchor.sol first, see docs/monad-testnet.md.''))
      else if monad_keystore_path c = [] then
        Inl (SystemExit ''FATAL: ANCHOR_PROVIDER=monad requires MONAD_KEYSTORE_PATH to be set.'')
      else if \<not> is_file (monad_keystore_path c) then
        Inl (SystemExit (''FATAL: MONAD_KEYSTORE_PATH='' @ repr_str (monad_keystore_path c) @
          '' does not exist. Create one with `cast wallet import`, see docs/monad-testnet.md.''))
      else if monad_keystore_password c = [] then
        Inl (SystemExit ''FATAL: ANCHOR_PROVIDER=monad requires MONAD_KEYSTORE_PASSWORD to be set.'')
      else
        rbind (to_checksum_address (monad_contract_address c)) (\<lambda>address.
        Inr (Some \<lparr>ma_rpc = X, ma_chain_id = monad_chain_id c, ma_contract_address = address\<rparr>)))"

text \<open>No client is built for another chain than the testnet.\<close>

lemma testnet_only: "build_anchor_worker is_file to_checksum_address X c = Inr (Some A) \<Longrightarrow> ma_chain_id A = testnet_chain_id \<and> ma_rpc A = X"
  by (auto simp: build_anchor_worker_def rbind_eq_Inr split: if_splits)

section \<open>worker.py\<close>

definition is_transient_anchor :: "exn \<Rightarrow> bool" where
  "is_transient_anchor e \<longleftrightarrow> (case e of TransientAnchorError m \<Rightarrow> True | _ \<Rightarrow> False)"

definition anchor_checkpoint_with_retry :: "'c monad_anchor \<Rightarrow> audit_checkpoint \<Rightarrow> ('c, anchor_submission) app" where
  "anchor_checkpoint_with_retry A checkpoint =
     bind (gets config) (\<lambda>c.
     retry_with_full_jitter
       (breaker_call (anchor_checkpoint A (ac_from_seq checkpoint) (ac_to_seq checkpoint) (ac_merkle_root checkpoint)))
       (max_retry_attempts c) is_transient_anchor)"

definition anchor_one :: "'c monad_anchor \<Rightarrow> audit_checkpoint \<Rightarrow> ('c, int) app" where
  "anchor_one A checkpoint =
     handle
       (bind (anchor_checkpoint_with_retry A checkpoint) (\<lambda>sub.
        bind clock_now (\<lambda>now.
        bind (checkpoints_mark_anchored (ac_to_seq checkpoint) (as_tx_hash sub) (as_chain_id sub) (as_contract_address sub) now) (\<lambda>_.
        return 1))))
       (\<lambda>exc. case exc of
          AnchorConflictError m \<Rightarrow> bind (checkpoints_mark_conflict (ac_to_seq checkpoint) m) (\<lambda>_. return 0)
        | RetryExhausted n e \<Rightarrow>
            bind (checkpoints_record_attempt_failure (ac_to_seq checkpoint) (rpc_text (ma_rpc A) exc)) (\<lambda>_. return 0)
        | CircuitOpenError m \<Rightarrow>
            bind (checkpoints_record_attempt_failure (ac_to_seq checkpoint) (rpc_text (ma_rpc A) exc)) (\<lambda>_. return 0)
        | _ \<Rightarrow> raise exc)"

fun anchor_each :: "'c monad_anchor \<Rightarrow> audit_checkpoint list \<Rightarrow> int \<Rightarrow> ('c, int) app" where
  "anchor_each A [] anchored = return anchored"
| "anchor_each A (c # cs) anchored = bind (anchor_one A c) (\<lambda>n. anchor_each A cs (anchored + n))"

definition anchor_tick :: "'c monad_anchor \<Rightarrow> ('c, int) app" where
  "anchor_tick A =
     with_uow (
       bind checkpoints_list_unanchored (\<lambda>pending.
       bind (anchor_each A pending 0) (\<lambda>anchored.
       bind commit (\<lambda>_.
       return anchored))))"

text \<open>The loop: an exception is logged, and the next tick begins.\<close>

primrec anchor_loop :: "'c monad_anchor \<Rightarrow> nat \<Rightarrow> 'c world \<Rightarrow> 'c world" where
  "anchor_loop A 0 w = w"
| "anchor_loop A (Suc n) w = anchor_loop A n (snd (anchor_tick A w))"

section \<open>What the worker relies on\<close>

definition grows :: "('c \<Rightarrow> int \<Rightarrow> int \<Rightarrow> bytes option) \<Rightarrow> 'c \<Rightarrow> 'c \<Rightarrow> bool" where
  "grows root_at c c' \<longleftrightarrow> (\<forall>s e r. root_at c s e = Some r \<longrightarrow> root_at c' s e = Some r)"

lemma grows_refl [simp]: "grows root_at c c"
  by (simp add: grows_def)

lemma grows_trans: "grows root_at c c' \<Longrightarrow> grows root_at c' c'' \<Longrightarrow> grows root_at c c''"
  by (simp add: grows_def)

text \<open>The checkpoint's root is on the chain, under its range.\<close>

definition on_chain :: "('c \<Rightarrow> int \<Rightarrow> int \<Rightarrow> bytes option) \<Rightarrow> 'c \<Rightarrow> audit_checkpoint \<Rightarrow> bool" where
  "on_chain root_at c r \<longleftrightarrow>
     (\<exists>root. parse_hex_prefixed (ac_merkle_root r) = Inr root \<and> root_at c (ac_from_seq r) (ac_to_seq r) = Some root)"

definition anchored_on_chain :: "('c \<Rightarrow> int \<Rightarrow> int \<Rightarrow> bytes option) \<Rightarrow> 'c \<Rightarrow> db \<Rightarrow> bool" where
  "anchored_on_chain root_at c d \<longleftrightarrow>
     audit_ok d \<and> (\<forall>r \<in> set (audit_checkpoints d). ac_anchor_status r = ''anchored'' \<longrightarrow> on_chain root_at c r)"

lemma anchored_mono: "grows root_at c c' \<Longrightarrow> anchored_on_chain root_at c d \<Longrightarrow> anchored_on_chain root_at c' d"
  by (auto simp: anchored_on_chain_def on_chain_def grows_def)

text \<open>The log determines a checkpoint by where it ends.\<close>

lemma checkpoint_determined:
  assumes "checkpoint_ok rows a" "checkpoint_ok rows b" "ac_to_seq a = ac_to_seq b"
  shows "ac_from_seq a = ac_from_seq b" "ac_merkle_root a = ac_merkle_root b"
  using assms by (auto simp: checkpoint_ok_def Let_def split: sum.splits)

lemma wp_chain_call:
  "wp (chain_call m) Q E w \<longleftrightarrow> wp m (\<lambda>x c. Q x (w\<lparr>provider := c\<rparr>)) (\<lambda>e c. E e (w\<lparr>provider := c\<rparr>)) (provider w)"
  by (simp add: wp_def chain_call_def split: prod.split sum.split)

text \<open>Nothing but the chain, the breaker and the clock moves, and the chain only grows.\<close>

definition chain_step :: "('c \<Rightarrow> int \<Rightarrow> int \<Rightarrow> bytes option) \<Rightarrow> 'c world \<Rightarrow> 'c world \<Rightarrow> bool" where
  "chain_step root_at w w' \<longleftrightarrow> session w' = session w \<and> durable w' = durable w \<and> others w' = others w \<and>
     grows root_at (provider w) (provider w')"

lemma chain_step_refl [simp]: "chain_step root_at w w"
  by (simp add: chain_step_def)

lemma chain_step_trans: "chain_step root_at w w' \<Longrightarrow> chain_step root_at w' w'' \<Longrightarrow> chain_step root_at w w''"
  by (auto simp: chain_step_def intro: grows_trans)

lemma chain_step_frame [simp]:
  "chain_step root_at w (w'\<lparr>circuit := b\<rparr>) = chain_step root_at w w'"
  "chain_step root_at w (w'\<lparr>clock_reads := n\<rparr>) = chain_step root_at w w'"
  "chain_step root_at (w\<lparr>circuit := b\<rparr>) w' = chain_step root_at w w'"
  "chain_step root_at (w\<lparr>clock_reads := n\<rparr>) w' = chain_step root_at w w'"
  by (simp_all add: chain_step_def)

text \<open>A computation that moves the chain forward and returns only values for which the chain satisfies \<open>P\<close>.\<close>

definition advances :: "('c \<Rightarrow> int \<Rightarrow> int \<Rightarrow> bytes option) \<Rightarrow> ('a \<Rightarrow> 'c \<Rightarrow> bool) \<Rightarrow> ('c, 'a) app \<Rightarrow> bool" where
  "advances root_at P m \<longleftrightarrow>
     (\<forall>w. wp m (\<lambda>x w'. chain_step root_at w w' \<and> P x (provider w')) (\<lambda>e w'. chain_step root_at w w') w)"

lemma advancesD:
  "advances root_at P m \<Longrightarrow> wp m (\<lambda>x w'. chain_step root_at w w' \<and> P x (provider w')) (\<lambda>e w'. chain_step root_at w w') w"
  by (simp add: advances_def)

lemma advances_breaker:
  assumes "advances root_at P fn"
  shows "advances root_at P (breaker_call fn)"
  unfolding advances_def
proof
  fix w :: "'a world"
  have fn: "wp fn (\<lambda>x w'. chain_step root_at w w' \<and> P x (provider w')) (\<lambda>e w'. chain_step root_at w w') u"
    if "chain_step root_at w u" for u
    by (rule wp_mono [OF advancesD [OF assms]]) (use that in \<open>auto intro: chain_step_trans\<close>)
  show "wp (breaker_call fn) (\<lambda>x w'. chain_step root_at w w' \<and> P x (provider w')) (\<lambda>e w'. chain_step root_at w w') w"
    unfolding breaker_call_def breaker_now_def wp_handle
    by (auto simp: wp_handle split: sum.split intro!: wp_mono [OF fn])
qed

lemma advances_retry:
  assumes "advances root_at P fn"
  shows "advances root_at P (retry_with_full_jitter fn n p)"
  unfolding advances_def
proof
  fix w :: "'a world"
  show "wp (retry_with_full_jitter fn n p) (\<lambda>x w'. chain_step root_at w w' \<and> P x (provider w')) (\<lambda>e w'. chain_step root_at w w') w"
  proof (cases "n = 0")
    case False
    show ?thesis
      by (rule wp_retry [where J = "chain_step root_at w"])
        (use False in \<open>auto intro!: wp_mono [OF advancesD [OF assms]] intro: chain_step_trans\<close>)
  qed (simp add: retry_with_full_jitter_def)
qed

section \<open>Marking checkpoints\<close>

text \<open>Since \<open>w\<close>: the session still satisfies the invariant for the chain of now, the log is the same.\<close>

definition marked_since :: "('c \<Rightarrow> int \<Rightarrow> int \<Rightarrow> bytes option) \<Rightarrow> 'c world \<Rightarrow> 'c world \<Rightarrow> bool" where
  "marked_since root_at w w' \<longleftrightarrow>
     anchored_on_chain root_at (provider w') (session w') \<and> audit_log (session w') = audit_log (session w) \<and>
     durable w' = durable w \<and> others w' = others w \<and> grows root_at (provider w) (provider w')"

lemma marked_trans: "marked_since root_at w u \<Longrightarrow> marked_since root_at u v \<Longrightarrow> marked_since root_at w v"
  by (auto simp: marked_since_def intro: grows_trans)

lemma marked_step: "chain_step root_at w u \<Longrightarrow> marked_since root_at u v \<Longrightarrow> marked_since root_at w v"
  by (auto simp: marked_since_def chain_step_def intro: grows_trans)

lemma wp_update:
  assumes "anchored_on_chain root_at (provider w) (session w)"
    and f: "\<And>r. ac_from_seq (f r) = ac_from_seq r \<and> ac_to_seq (f r) = ac_to_seq r \<and> ac_merkle_root (f r) = ac_merkle_root r"
    and on: "\<And>r. r \<in> set (audit_checkpoints (session w)) \<Longrightarrow> ac_to_seq r = k \<Longrightarrow> ac_anchor_status (f r) = ''anchored'' \<Longrightarrow>
      on_chain root_at (provider w) r \<or> ac_anchor_status r = ''anchored''"
  shows "wp (checkpoints_update k f) (\<lambda>_. marked_since root_at w) (\<lambda>e. chain_step root_at w) w"
proof -
  let ?g = "\<lambda>r. if ac_to_seq r = k then f r else r"
  have cong: "checkpoint_ok rows (f r) = checkpoint_ok rows r" "on_chain root_at c (f r) = on_chain root_at c r" for rows c r
    by (auto simp: checkpoint_ok_def on_chain_def f Let_def split: sum.splits)
  have hit: "on_chain root_at (provider w) r"
    if "r \<in> set (audit_checkpoints (session w))" "ac_to_seq r = k" "ac_anchor_status (f r) = ''anchored''" for r
    using on [OF that] assms(1) that(1) by (auto simp: anchored_on_chain_def)
  have "anchored_on_chain root_at (provider w) ((session w)\<lparr>audit_checkpoints := map ?g (audit_checkpoints (session w))\<rparr>)"
    using assms(1) unfolding anchored_on_chain_def audit_ok_def
    by (auto simp: list_all_iff cong hit)
  then show ?thesis unfolding checkpoints_update_def
    by (auto simp: wp_db_call marked_since_def chain_step_def)
qed

lemma wp_mark:
  assumes "anchored_on_chain root_at (provider w) (session w)" "checkpoint_ok (audit_log (session w)) p"
  shows "wp (checkpoints_mark_conflict (ac_to_seq p) m) (\<lambda>_. marked_since root_at w) (\<lambda>e. chain_step root_at w) w"
    "wp (checkpoints_record_attempt_failure (ac_to_seq p) m) (\<lambda>_. marked_since root_at w) (\<lambda>e. chain_step root_at w) w"
    "on_chain root_at (provider w) p \<Longrightarrow>
      wp (checkpoints_mark_anchored (ac_to_seq p) tx cid addr t) (\<lambda>_. marked_since root_at w) (\<lambda>e. chain_step root_at w) w"
proof -
  show "wp (checkpoints_mark_conflict (ac_to_seq p) m) (\<lambda>_. marked_since root_at w) (\<lambda>e. chain_step root_at w) w"
    "wp (checkpoints_record_attempt_failure (ac_to_seq p) m) (\<lambda>_. marked_since root_at w) (\<lambda>e. chain_step root_at w) w"
    unfolding checkpoints_mark_conflict_def checkpoints_record_attempt_failure_def by (rule wp_update; simp add: assms(1))+
  assume p: "on_chain root_at (provider w) p"
  have "on_chain root_at (provider w) r" if "r \<in> set (audit_checkpoints (session w))" "ac_to_seq r = ac_to_seq p" for r
  proof -
    have "checkpoint_ok (audit_log (session w)) r" using assms(1) that(1) by (auto simp: anchored_on_chain_def audit_ok_def list_all_iff)
    from checkpoint_determined [OF this assms(2) that(2)] p that(2) show ?thesis by (simp add: on_chain_def)
  qed
  then show "wp (checkpoints_mark_anchored (ac_to_seq p) tx cid addr t) (\<lambda>_. marked_since root_at w) (\<lambda>e. chain_step root_at w) w"
    unfolding checkpoints_mark_anchored_def by (intro wp_update assms(1)) simp_all
qed

locale anchor_chain =
  fixes X :: "'c anchor_rpc" and root_at :: "'c \<Rightarrow> int \<Rightarrow> int \<Rightarrow> bytes option"
  assumes get_law: "wp (rpc_get_checkpoint X s e)
      (\<lambda>r c'. grows root_at c c' \<and> (r \<noteq> zero_root \<longrightarrow> root_at c' s e = Some r)) (\<lambda>x c'. grows root_at c c') c"
    and submit_law: "wp (rpc_submit X s e r)
      (\<lambda>(h, ok) c'. grows root_at c c' \<and> (ok \<longrightarrow> root_at c' s e = Some r)) (\<lambda>x c'. grows root_at c c') c"
begin

text \<open>Of an exception, only that the chain has not lost anything.\<close>

lemma blocking_advances:
  assumes "ma_rpc A = X"
  shows "advances root_at (\<lambda>sub c. root_at c s e = Some r) (anchor_checkpoint_blocking A s e r)"
  unfolding advances_def
proof
  fix w :: "'c world"
  let ?Q = "\<lambda>sub w'. chain_step root_at w w' \<and> root_at (provider w') s e = Some r"
  let ?E = "\<lambda>x w'. chain_step root_at w w'"
  have submit: "wp (rpc_submit X s e r) (\<lambda>(h, ok) c'. grows root_at (provider w) c' \<and> (ok \<longrightarrow> root_at c' s e = Some r))
      (\<lambda>x c'. grows root_at (provider w) c') c" if "grows root_at (provider w) c" for c
    by (rule wp_mono [OF submit_law]) (use that in \<open>auto intro: grows_trans\<close>)
  have sent: "wp (bind (handle (chain_call (rpc_submit X s e r))
        (\<lambda>exc. case exc of
           ContractCustomError m \<Rightarrow>
             if contains ''ConflictingRoot'' m then raise (AnchorConflictError (''on-chain conflict on submission: '' @ m)) else raise exc
         | _ \<Rightarrow> raise exc)) (\<lambda>(tx_hash, status_ok).
        if \<not> status_ok then raise (TransientAnchorError (''anchor transaction reverted: 0x'' @ hex tx_hash))
        else return (submission A False (Some (''0x'' @ hex tx_hash))))) ?Q ?E (w\<lparr>provider := c\<rparr>)"
    if "grows root_at (provider w) c" for c
    unfolding wp_bind wp_handle wp_chain_call
    by (rule wp_mono) (use submit [OF that] in simp, auto simp: chain_step_def split: exn.split)
  show "wp (anchor_checkpoint_blocking A s e r) ?Q ?E w"
    unfolding anchor_checkpoint_blocking_def assms wp_bind [of "chain_call (rpc_get_checkpoint _ _ _)"] wp_chain_call [of "rpc_get_checkpoint _ _ _"]
  proof (rule wp_mono [OF get_law], goal_cases)
    case (1 existing c)
    show ?case
    proof (cases "existing = zero_root")
      case True
      with 1 sent [of c] show ?thesis by (simp only: simp_thms if_False)
    qed (use 1 in \<open>auto simp: chain_step_def\<close>)
  qed (simp add: chain_step_def)
qed

lemma client_advances:
  assumes "ma_rpc A = X"
  shows "advances root_at (\<lambda>sub c. \<exists>r. parse_hex_prefixed root_hex = Inr r \<and> root_at c s e = Some r) (anchor_checkpoint A s e root_hex)"
  unfolding advances_def anchor_checkpoint_def wp_bind
  by (auto simp: wp_handle split: sum.split exn.split intro!: wp_mono [OF advancesD [OF blocking_advances [OF assms]]])

lemma retry_advances:
  assumes "ma_rpc A = X"
  shows "advances root_at (\<lambda>sub c. on_chain root_at c p) (anchor_checkpoint_with_retry A p)"
proof -
  have "advances root_at (\<lambda>sub c. on_chain root_at c p)
      (retry_with_full_jitter (breaker_call (anchor_checkpoint A (ac_from_seq p) (ac_to_seq p) (ac_merkle_root p))) n q)" for n q
    unfolding on_chain_def by (intro advances_retry advances_breaker client_advances assms)
  then show ?thesis unfolding anchor_checkpoint_with_retry_def by (simp add: advances_def)
qed

lemma one_marks:
  assumes "ma_rpc A = X" "anchored_on_chain root_at (provider w) (session w)" "checkpoint_ok (audit_log (session w)) p"
  shows "wp (anchor_one A p) (\<lambda>_. marked_since root_at w) (\<lambda>e. chain_step root_at w) w"
proof -
  have kept: "anchored_on_chain root_at (provider u) (session u)" "checkpoint_ok (audit_log (session u)) p" if "chain_step root_at w u" for u
    using that assms(2,3) by (auto simp: chain_step_def intro: anchored_mono)
  have mark: "wp (checkpoints_mark_anchored (ac_to_seq p) tx cid addr t) (\<lambda>_. marked_since root_at w) (\<lambda>e. chain_step root_at w) u"
    if "chain_step root_at w u" "on_chain root_at (provider u) p" for tx cid addr t u
    by (rule wp_mono [OF wp_mark(3) [OF kept [OF that(1)] that(2)]]) (use that(1) in \<open>auto intro: marked_step chain_step_trans\<close>)
  have conflict: "wp (bind (checkpoints_mark_conflict (ac_to_seq p) m) (\<lambda>_. return n)) (\<lambda>_. marked_since root_at w) (\<lambda>e. chain_step root_at w) u"
    if "chain_step root_at w u" for m u and n :: int
    by (simp, rule wp_mono [OF wp_mark(1) [OF kept [OF that]]]) (use that in \<open>auto intro: marked_step chain_step_trans\<close>)
  have failed: "wp (bind (checkpoints_record_attempt_failure (ac_to_seq p) m) (\<lambda>_. return n)) (\<lambda>_. marked_since root_at w) (\<lambda>e. chain_step root_at w) u"
    if "chain_step root_at w u" for m u and n :: int
    by (simp, rule wp_mono [OF wp_mark(2) [OF kept [OF that]]]) (use that in \<open>auto intro: marked_step chain_step_trans\<close>)
  have "wp (bind (anchor_checkpoint_with_retry A p) (\<lambda>sub. bind clock_now (\<lambda>now.
        bind (checkpoints_mark_anchored (ac_to_seq p) (as_tx_hash sub) (as_chain_id sub) (as_contract_address sub) now) (\<lambda>_. return 1))))
      (\<lambda>_. marked_since root_at w) (\<lambda>e. chain_step root_at w) w"
    unfolding wp_bind [of "anchor_checkpoint_with_retry A p"]
    by (rule wp_mono [OF advancesD [OF retry_advances [OF assms(1)]]]) (auto intro!: wp_mono [OF mark])
  then show ?thesis unfolding anchor_one_def wp_handle
    by (rule wp_mono) (auto simp del: wp_bind intro: conflict failed split: exn.split)
qed

lemma each_marks:
  assumes "ma_rpc A = X" "anchored_on_chain root_at (provider w) (session w)" "\<forall>p \<in> set ps. checkpoint_ok (audit_log (session w)) p"
  shows "wp (anchor_each A ps n) (\<lambda>_. marked_since root_at w) (\<lambda>e w'. durable w' = durable w \<and> others w' = others w \<and> grows root_at (provider w) (provider w')) w"
  using assms(2,3)
proof (induction ps arbitrary: n w)
  case (Cons p ps)
  have "wp (anchor_one A p) (\<lambda>_. marked_since root_at w) (\<lambda>e. chain_step root_at w) w"
    using Cons.prems by (intro one_marks assms(1)) simp_all
  then show ?case unfolding anchor_each.simps wp_bind
  proof (rule wp_mono, goal_cases)
    case (1 k u)
    then have u: "anchored_on_chain root_at (provider u) (session u)" "\<forall>p \<in> set ps. checkpoint_ok (audit_log (session u)) p"
      using Cons.prems by (simp_all add: marked_since_def)
    show ?case
      by (rule wp_mono [OF Cons.IH [OF u]])
        (use 1 in \<open>auto intro: marked_trans simp: marked_since_def intro: grows_trans\<close>)
  qed (auto simp: chain_step_def)
qed (simp add: marked_since_def)

lemma tick_keeps:
  assumes "ma_rpc A = X" "anchored_on_chain root_at (provider w) (durable w)"
    and others: "\<And>n c d. anchored_on_chain root_at c d \<Longrightarrow> anchored_on_chain root_at c (others w n d)"
  shows "let w' = snd (anchor_tick A w) in
    anchored_on_chain root_at (provider w') (durable w') \<and> others w' = others w \<and> grows root_at (provider w) (provider w')"
proof -
  let ?d = "others w (transactions w) (durable w)"
  let ?w1 = "w\<lparr>durable := ?d, session := ?d, transactions := Suc (transactions w)\<rparr>"
  let ?P = "\<lambda>w'. anchored_on_chain root_at (provider w') (durable w') \<and> others w' = others w \<and> grows root_at (provider w) (provider w')"
  have d: "anchored_on_chain root_at (provider w) ?d" by (rule others [OF assms(2)])
  then have ok: "checkpoint_ok (audit_log ?d) p" if "p \<in> set (audit_checkpoints ?d)" for p
    using that by (auto simp: anchored_on_chain_def audit_ok_def list_all_iff)
  have each: "wp (anchor_each A (sort_key ac_to_seq (filter (\<lambda>c. ac_anchor_status c = ''unanchored'') (audit_checkpoints ?d))) 0)
      (\<lambda>_. marked_since root_at u) (\<lambda>e w'. durable w' = durable u \<and> others w' = others u \<and> grows root_at (provider u) (provider w')) u"
    if "session u = ?d" "provider u = provider w" for u
    by (rule each_marks [OF assms(1)]) (use that d ok in auto)
  have "wp (anchor_tick A) (\<lambda>_. ?P) (\<lambda>e. ?P) w"
    unfolding anchor_tick_def wp_with_uow checkpoints_list_unanchored_def
    by (auto simp: d intro!: wp_mono [OF each]) (auto simp: marked_since_def intro: anchored_mono d)
  then show ?thesis by (simp add: wp_snd Let_def)
qed

lemma loop_keeps:
  assumes "ma_rpc A = X" "anchored_on_chain root_at (provider w) (durable w)"
    and "\<And>n c d. anchored_on_chain root_at c d \<Longrightarrow> anchored_on_chain root_at c (others w n d)"
  shows "anchored_on_chain root_at (provider (anchor_loop A k w)) (durable (anchor_loop A k w)) \<and>
    grows root_at (provider w) (provider (anchor_loop A k w))"
  using assms(2,3)
proof (induction k arbitrary: w)
  case (Suc k)
  have t: "anchored_on_chain root_at (provider (snd (anchor_tick A w))) (durable (snd (anchor_tick A w)))"
    "others (snd (anchor_tick A w)) = others w" "grows root_at (provider w) (provider (snd (anchor_tick A w)))"
    using tick_keeps [OF assms(1) Suc.prems] by (simp_all add: Let_def)
  have "anchored_on_chain root_at (provider (anchor_loop A k (snd (anchor_tick A w)))) (durable (anchor_loop A k (snd (anchor_tick A w)))) \<and>
      grows root_at (provider (snd (anchor_tick A w))) (provider (anchor_loop A k (snd (anchor_tick A w))))"
    by (rule Suc.IH [OF t(1)]) (use Suc.prems(2) in \<open>simp add: t(2)\<close>)
  then show ?case using t(3) by (auto intro: grows_trans)
qed simp

end

section \<open>The contract provides it\<close>

text \<open>
  A node with the contract behind it. A call may find the node unreachable, and a transaction may be
  mined although its receipt times out.
\<close>

datatype node_fault = No_fault | Unreachable | Receipt_lost

record chain =
  ch_contract :: contract
  ch_sender :: string
  ch_audit_chain_id :: bytes
  ch_time :: "nat \<Rightarrow> 64 word"
  ch_faults :: "nat \<Rightarrow> node_fault"
  ch_calls :: nat

definition uint64 :: "int \<Rightarrow> bool" where
  "uint64 i \<longleftrightarrow> 0 \<le> i \<and> i < 2 ^ 64"

definition node_call :: "(chain \<Rightarrow> 'a result \<times> chain) \<Rightarrow> (chain, 'a) comp" where
  "node_call f = (\<lambda>c.
     let c' = c\<lparr>ch_calls := Suc (ch_calls c)\<rparr> in
     if ch_faults c (ch_calls c) = Unreachable then (Inl (RuntimeError ''connection refused''), c')
     else if ch_faults c (ch_calls c) = Receipt_lost then (Inl (RuntimeError ''timed out''), snd (f c'))
     else f c')"

definition contract_rpc :: "chain anchor_rpc" where
  "contract_rpc =
     \<lparr>rpc_get_checkpoint = (\<lambda>s e. node_call (\<lambda>c.
        if \<not> (uint64 s \<and> uint64 e) then (Inl (ValueError ''not a uint64''), c)
        else (Inr (fst (sol_get_checkpoint (ch_audit_chain_id c) (word_of_int s) (word_of_int e) (ch_contract c))), c))),
      rpc_submit = (\<lambda>s e r. node_call (\<lambda>c.
        if \<not> (uint64 s \<and> uint64 e) then (Inl (ValueError ''not a uint64''), c)
        else
          (case sol_anchor (ch_sender c) (ch_time c (ch_calls c)) (ch_audit_chain_id c) (word_of_int s) (word_of_int e) r (ch_contract c) of
             Inl (ConflictingRoot existing) \<Rightarrow> (Inl (ContractCustomError (''ConflictingRoot(0x'' @ hex existing @ '')'')), c)
           | Inl err \<Rightarrow> (Inl (ContractCustomError ''reverted''), c)
           | Inr k \<Rightarrow> (Inr (r, True), c\<lparr>ch_contract := k\<rparr>)))),
      rpc_text = (\<lambda>e. case e of RuntimeError m \<Rightarrow> m | TransientAnchorError m \<Rightarrow> m | CircuitOpenError m \<Rightarrow> m | _ \<Rightarrow> [])\<rparr>"

definition contract_root :: "chain \<Rightarrow> int \<Rightarrow> int \<Rightarrow> bytes option" where
  "contract_root c s e =
     (if uint64 s \<and> uint64 e
      then (let r = fst (sol_get_checkpoint (ch_audit_chain_id c) (word_of_int s) (word_of_int e) (ch_contract c)) in
            if r = zero_root then None else Some r)
      else None)"

text \<open>Roots are written once, and the sequence numbers are kept apart by their 64 bits.\<close>

lemma sol_anchor_root:
  assumes "sol_anchor sender t chain s e r k = Inr k'"
  shows "fst (ct_checkpoints k' chain s e) = r \<and> r \<noteq> zero_root \<and>
    (\<forall>s' e'. fst (ct_checkpoints k chain s' e') \<noteq> zero_root \<longrightarrow> fst (ct_checkpoints k' chain s' e') = fst (ct_checkpoints k chain s' e'))"
  using assms by (auto simp: sol_anchor_def Let_def split: if_splits)

interpretation contract: anchor_chain contract_rpc contract_root
proof
  fix s e r and c :: chain
  show "wp (rpc_get_checkpoint contract_rpc s e)
      (\<lambda>x c'. grows contract_root c c' \<and> (x \<noteq> zero_root \<longrightarrow> contract_root c' s e = Some x)) (\<lambda>x c'. grows contract_root c c') c"
    by (auto simp: wp_def contract_rpc_def node_call_def Let_def grows_def contract_root_def sol_get_checkpoint_def split: if_splits)
  show "wp (rpc_submit contract_rpc s e r)
      (\<lambda>(h, ok) c'. grows contract_root c c' \<and> (ok \<longrightarrow> contract_root c' s e = Some r)) (\<lambda>x c'. grows contract_root c c') c"
    by (auto simp: wp_def contract_rpc_def node_call_def Let_def grows_def contract_root_def sol_get_checkpoint_def
        split: if_splits sum.splits contract_error.splits dest!: sol_anchor_root)
qed

text \<open>
  C14. A checkpoint that is marked as anchored is on the chain. However often the anchor loop runs,
  whatever calls to the node fail, before or after the transaction is mined, and whatever the breaker and
  the retry make of it: every committed checkpoint with status \<open>anchored\<close> has its Merkle root in the
  contract under exactly its range, the root is that of the committed log, and no root on the chain is ever
  replaced. It is assumed that other processes mark checkpoints the same way.
\<close>

theorem anchored_checkpoints_are_on_chain:
  assumes "ma_rpc A = contract_rpc" "anchored_on_chain contract_root (provider w) (durable w)"
    and "\<And>n c d. anchored_on_chain contract_root c d \<Longrightarrow> anchored_on_chain contract_root c (others w n d)"
  shows "anchored_on_chain contract_root (provider (anchor_loop A k w)) (durable (anchor_loop A k w)) \<and>
    grows contract_root (provider w) (provider (anchor_loop A k w))"
  using assms by (rule contract.loop_keeps)

definition new_chain :: chain where
  "new_chain =
     \<lparr>ch_contract = \<lparr>ct_owner = ''owner'', ct_checkpoints = (\<lambda>chain s e. (zero_root, 0))\<rparr>, ch_sender = ''owner'',
      ch_audit_chain_id = [1], ch_time = (\<lambda>n. of_nat n), ch_faults = (\<lambda>n. if even n then Receipt_lost else No_fault), ch_calls = 0\<rparr>"

theorem anchored_checkpoints_are_on_chain_witness:
  "let A = \<lparr>ma_rpc = contract_rpc, ma_chain_id = 10143, ma_contract_address = ''0x00''\<rparr>;
       w = anchor_loop A 3 (quiet_world 0 new_chain goa_db) in
   anchored_on_chain contract_root (provider w) (durable w) \<and> grows contract_root new_chain (provider w)"
proof -
  let ?A = "\<lparr>ma_rpc = contract_rpc, ma_chain_id = 10143, ma_contract_address = ''0x00''\<rparr>"
  have "anchored_on_chain contract_root (provider (quiet_world 0 new_chain goa_db)) (durable (quiet_world 0 new_chain goa_db))"
    by (simp add: anchored_on_chain_def audit_ok_def goa_db_def)
  then show ?thesis
    using anchored_checkpoints_are_on_chain [of ?A "quiet_world 0 new_chain goa_db" 3] by simp
qed

end
