(* ===== verification/Doubles.thy ===== *)
theory Doubles
  imports Complex_Main "HOL-Library.Log_Nat"
begin

text \<open>
  Arithmetic of IEEE doubles. The result of an operation is the exact result rounded to 53 bits, ties to
  even (\<open>round_double\<close>), which is what the hardware does as long as nothing overflows or is
  subnormal. The lemmas bound the error of a rounding and show that the integers below \<open>2 ^ 53\<close>
  are exact.
\<close>

section \<open>Doubles\<close>

definition round_half_even :: "rat \<Rightarrow> int" where
  "round_half_even x =
     (let f = \<lfloor>x\<rfloor>; d = x - of_int f in
      if d < 1 / 2 then f else if 1 / 2 < d then f + 1 else if even f then f else f + 1)"

text \<open>The exponent of the leading bit of a positive number.\<close>

definition leading_exponent :: "rat \<Rightarrow> int" where
  "leading_exponent a =
     (let (p, q) = quotient_of a; e = bitlen p - bitlen q - 1 in if 2 powi (e + 1) \<le> a then e + 1 else e)"

definition round_double :: "rat \<Rightarrow> rat" where
  "round_double x =
     (if x = 0 then 0
      else let ulp = 2 powi (leading_exponent \<bar>x\<bar> - 52)
           in sgn x * of_int (round_half_even (\<bar>x\<bar> / ulp)) * ulp)"

section \<open>Rounding\<close>

lemma leading_exponent:
  assumes "0 < a"
  shows "2 powi leading_exponent a \<le> a" "a < 2 powi (leading_exponent a + 1)"
proof -
  obtain p q where pq: "quotient_of a = (p, q)" by (cases "quotient_of a")
  have q: "0 < q" using quotient_of_denom_pos [OF pq] .
  have a: "a = of_int p / of_int q" using quotient_of_div [OF pq] .
  with assms q have p: "0 < p" by (simp add: zero_less_divide_iff)
  have bl: "2 powi (bitlen x - 1) \<le> (of_int x :: rat)" "(of_int x :: rat) < 2 powi bitlen x" if "0 < x" for x
  proof -
    have "1 \<le> bitlen x" using that bitlen_eq_zero_iff [of x] bitlen_nonneg [of x] by linarith
    moreover have "(of_int (2 ^ nat (bitlen x - 1)) :: rat) \<le> of_int x" "(of_int x :: rat) < of_int (2 ^ nat (bitlen x))"
      using bitlen_bounds [OF that] by (simp_all only: of_int_le_iff of_int_less_iff)
    ultimately show "2 powi (bitlen x - 1) \<le> (of_int x :: rat)" "(of_int x :: rat) < 2 powi bitlen x"
      by (simp_all add: power_int_def)
  qed
  let ?e = "bitlen p - bitlen q - 1"
  have pos: "(0 :: rat) < of_int q" using q by simp
  have "2 powi ?e * (of_int q :: rat) \<le> 2 powi ?e * 2 powi bitlen q"
    using bl(2) [OF q] by (intro mult_left_mono) simp_all
  also have "\<dots> = 2 powi (bitlen p - 1)" by (simp add: power_int_add [symmetric])
  also have "\<dots> \<le> of_int p" by (rule bl(1) [OF p])
  finally have lo: "2 powi ?e \<le> a" using pos by (simp add: a pos_le_divide_eq)
  have "(of_int p :: rat) < 2 powi bitlen p" by (rule bl(2) [OF p])
  also have "\<dots> = 2 powi (?e + 2) * 2 powi (bitlen q - 1)" by (simp add: power_int_add [symmetric])
  also have "\<dots> \<le> 2 powi (?e + 2) * of_int q"
    using bl(1) [OF q] by (intro mult_left_mono) simp_all
  finally have hi: "a < 2 powi (?e + 2)" using pos by (simp add: a pos_divide_less_eq)
  show "2 powi leading_exponent a \<le> a" "a < 2 powi (leading_exponent a + 1)"
    using lo hi by (auto simp: leading_exponent_def pq Let_def add.commute)
qed

lemma round_half_even_error: "\<bar>of_int (round_half_even x) - x\<bar> \<le> 1 / 2"
proof -
  have "of_int \<lfloor>x\<rfloor> \<le> x" "x < of_int \<lfloor>x\<rfloor> + 1" by linarith+
  then show ?thesis by (auto simp: round_half_even_def Let_def abs_le_iff)
qed

lemma round_half_even_le: "x \<le> of_int n \<Longrightarrow> round_half_even x \<le> n"
proof -
  assume x: "x \<le> of_int n"
  have f: "\<lfloor>x\<rfloor> \<le> n" using floor_mono [OF x] by simp
  show "round_half_even x \<le> n"
  proof (cases "\<lfloor>x\<rfloor> = n")
    case True
    with x have "x - of_int \<lfloor>x\<rfloor> < 1 / 2" by simp
    with True show ?thesis by (simp add: round_half_even_def Let_def)
  qed (use f in \<open>auto simp: round_half_even_def Let_def\<close>)
qed

definition unit_roundoff :: rat where
  "unit_roundoff = 1 / 2 ^ 53"

lemma unit_roundoff_pos: "0 < unit_roundoff" "unit_roundoff \<le> 1"
  by (simp_all add: unit_roundoff_def)

text \<open>The relative error of one rounding is at most half a unit in the last place.\<close>

lemma round_double_error: "\<bar>round_double x - x\<bar> \<le> unit_roundoff * \<bar>x\<bar>"
proof (cases "x = 0")
  case False
  define e where "e = leading_exponent \<bar>x\<bar>"
  define ulp :: rat where "ulp = 2 powi (e - 52)"
  have ulp: "0 < ulp" by (simp add: ulp_def)
  have "round_double x - x = sgn x * (of_int (round_half_even (\<bar>x\<bar> / ulp)) * ulp - \<bar>x\<bar>)"
    using False by (simp add: round_double_def Let_def e_def ulp_def right_diff_distrib sgn_mult_abs)
  then have "\<bar>round_double x - x\<bar> = \<bar>of_int (round_half_even (\<bar>x\<bar> / ulp)) * ulp - \<bar>x\<bar>\<bar>"
    using False by (simp add: abs_mult)
  also have "of_int (round_half_even (\<bar>x\<bar> / ulp)) * ulp - \<bar>x\<bar> = (of_int (round_half_even (\<bar>x\<bar> / ulp)) - \<bar>x\<bar> / ulp) * ulp"
    using ulp by (simp add: algebra_simps)
  also have "\<bar>\<dots>\<bar> = \<bar>of_int (round_half_even (\<bar>x\<bar> / ulp)) - \<bar>x\<bar> / ulp\<bar> * ulp" using ulp by (simp add: abs_mult)
  also have "\<dots> \<le> 1 / 2 * ulp" using round_half_even_error ulp by (intro mult_right_mono) simp_all
  also have "\<dots> = unit_roundoff * 2 powi e"
    by (simp add: ulp_def unit_roundoff_def power_int_diff)
  also have "\<dots> \<le> unit_roundoff * \<bar>x\<bar>"
    using leading_exponent(1) [of "\<bar>x\<bar>"] False unit_roundoff_pos(1) by (intro mult_left_mono) (simp_all add: e_def)
  finally show ?thesis .
qed (simp add: round_double_def)

lemma round_double_bounds: "x - unit_roundoff * \<bar>x\<bar> \<le> round_double x" "round_double x \<le> x + unit_roundoff * \<bar>x\<bar>"
  using round_double_error [of x] by (simp_all add: abs_le_iff)

lemma round_double_nonneg: "0 \<le> x \<Longrightarrow> 0 \<le> round_double x"
  using round_double_bounds(1) [of x] unit_roundoff_pos(2) mult_right_mono [of unit_roundoff 1 "\<bar>x\<bar>"] by simp

lemma round_double_minus: "round_double (- x) = - round_double x"
  by (simp add: round_double_def Let_def)

lemma round_double_le_one: "0 \<le> a \<Longrightarrow> a \<le> 1 \<Longrightarrow> round_double a \<le> 1"
proof -
  assume a: "0 \<le> a" "a \<le> 1"
  show "round_double a \<le> 1"
  proof (cases "a = 0")
    case False
    define e where "e = leading_exponent a"
    define ulp :: rat where "ulp = 2 powi (e - 52)"
    have le: "2 powi e \<le> a" "a < 2 powi (e + 1)" using leading_exponent [of a] a False by (simp_all add: e_def)
    have "e \<le> 0"
    proof (rule ccontr)
      assume "\<not> e \<le> 0"
      then have "(2 :: rat) powi 1 \<le> 2 powi e" by (intro power_int_increasing) simp_all
      with le a show False by simp
    qed
    have u: "0 < ulp" by (simp add: ulp_def)
    have "\<exists>n. a / ulp \<le> of_int n \<and> of_int n * ulp \<le> 1"
    proof (cases "e = 0")
      case True
      have "(2 ^ 52 :: rat) * ulp = 1" using True by (simp add: ulp_def power_int_minus)
      moreover have "a / ulp \<le> 2 ^ 52"
        using a(2) u calculation by (simp add: pos_divide_le_eq)
      ultimately show ?thesis by (intro exI [of _ "2 ^ 52"]) simp
    next
      case False
      then have "e + 1 \<le> 0" using \<open>e \<le> 0\<close> by simp
      then have one: "(2 :: rat) powi (e + 1) \<le> 2 powi 0" by (intro power_int_increasing) simp_all
      have p: "(2 ^ 53 :: rat) * ulp = 2 powi (e + 1)" by (simp add: ulp_def power_int_add power_int_diff)
      have "a / ulp \<le> 2 ^ 53" using le(2) u p by (simp add: pos_divide_le_eq)
      then show ?thesis using one p by (intro exI [of _ "2 ^ 53"]) simp
    qed
    then obtain n where n: "a / ulp \<le> of_int n" "of_int n * ulp \<le> 1" by blast
    have "round_double a = of_int (round_half_even (a / ulp)) * ulp"
      using a False by (simp add: round_double_def Let_def e_def ulp_def)
    also have "\<dots> \<le> of_int n * ulp"
      using round_half_even_le [OF n(1)] u by (intro mult_right_mono) simp_all
    finally show ?thesis using n(2) by simp
  qed (simp add: round_double_def)
qed

lemma round_double_ge_minus_one: "- 1 \<le> x \<Longrightarrow> - 1 \<le> round_double x"
  using round_double_nonneg [of x] round_double_le_one [of "- x"] round_double_minus [of x] by (cases "0 \<le> x") auto

lemma round_half_even_int: "round_half_even (of_int n) = n"
  by (simp add: round_half_even_def)

text \<open>Integers below \<open>2 ^ 53\<close> are doubles.\<close>

lemma round_double_int:
  assumes "\<bar>m\<bar> < 2 ^ 53"
  shows "round_double (of_int m) = of_int m"
proof (cases "m = 0")
  case False
  define e where "e = leading_exponent (of_int \<bar>m\<bar>)"
  have "(2 :: rat) powi e \<le> of_int \<bar>m\<bar>" using leading_exponent(1) [of "of_int \<bar>m\<bar>"] False by (simp add: e_def)
  also have "(of_int \<bar>m\<bar> :: rat) < of_int (2 ^ 53)" using assms by (simp only: of_int_less_iff)
  also have "\<dots> = 2 powi 53" by simp
  finally have lt: "(2 :: rat) powi e < 2 powi 53" .
  have "e \<le> 52"
  proof (rule ccontr)
    assume "\<not> e \<le> 52"
    then have "(2 :: rat) powi 53 \<le> 2 powi e" by (intro power_int_increasing) simp_all
    with lt show False by simp
  qed
  then have p: "(2 :: rat) powi (e - 52) = inverse (of_int (2 ^ nat (52 - e)))"
    by (simp add: power_int_def power_one_over inverse_eq_divide)
  have "of_int \<bar>m\<bar> / (2 :: rat) powi (e - 52) = of_int (\<bar>m\<bar> * 2 ^ nat (52 - e))"
    unfolding p by (simp add: divide_inverse)
  then have "round_half_even (of_int \<bar>m\<bar> / (2 :: rat) powi (e - 52)) = \<bar>m\<bar> * 2 ^ nat (52 - e)"
    by (simp only: round_half_even_int)
  then have "round_double (of_int m) = sgn (of_int m) * of_int (\<bar>m\<bar> * 2 ^ nat (52 - e)) * inverse (of_int (2 ^ nat (52 - e)))"
    using False p by (simp add: round_double_def Let_def e_def)
  also have "\<dots> = sgn (of_int m) * \<bar>of_int m\<bar>" by (simp add: mult.assoc)
  finally show ?thesis by (simp only: sgn_mult_abs)
qed (simp add: round_double_def)

lemma round_double_numeral:
  "(numeral n :: int) < 2 ^ 53 \<Longrightarrow> round_double (numeral n) = numeral n"
  "(numeral n :: int) < 2 ^ 53 \<Longrightarrow> round_double (- numeral n) = - numeral n"
  "round_double 0 = 0" "round_double 1 = 1"
  using round_double_int [of "numeral n"] round_double_int [of "- numeral n"] round_double_int [of 0] round_double_int [of 1]
  by simp_all

end
