(* ===== verification/Rate_Limit.thy ===== *)
theory Rate_Limit
  imports Doubles Exec
begin

text \<open>
  The token bucket in front of the language model (\<open>infrastructure/cache/rate_limit.py\<close>): the Lua
  script that Redis runs atomically, and the limiter that calls it. Numbers of the script are IEEE
  doubles (\<open>Doubles\<close>).
  The strings that carry doubles to and from Redis (\<open>repr\<close> and \<open>%.17g\<close>) read back exactly, so
  the bucket holds the doubles themselves. Redis drops a key when its own clock reaches the deadline of
  \<open>EXPIRE\<close>.

  Shown is the rate: whatever the callers do, they are granted no more than the capacity, what the
  refill rate gives for the time that passed, and a term for the epsilon and the rounding.
\<close>

section \<open>The script\<close>

record bucket =
  bk_tokens :: rat
  bk_ts :: rat
  bk_deadline :: rat

definition ttl_s :: rat where
  "ttl_s = 120"

definition epsilon :: rat where
  "epsilon = round_double (1 / 10000000)"

text \<open>
  \<open>_TOKEN_BUCKET_LUA\<close>: the bucket as stored, the arguments, and Redis' own time. Returns whether the
  request is admitted and the bucket to store.
\<close>

definition token_bucket :: "rat \<Rightarrow> rat \<Rightarrow> rat \<Rightarrow> rat \<Rightarrow> rat \<Rightarrow> bucket option \<Rightarrow> bool \<times> bucket" where
  "token_bucket capacity refill_per_second now requested redis_now stored =
     (let (tokens, last_ts) =
            (case stored of
               None \<Rightarrow> (capacity, now)
             | Some b \<Rightarrow> if redis_now < bk_deadline b then (bk_tokens b, bk_ts b) else (capacity, now));
          elapsed0 = round_double (now - last_ts);
          elapsed = (if elapsed0 < 0 then 0 else elapsed0);
          refilled = min capacity (round_double (tokens + round_double (elapsed * refill_per_second)));
          allowed = (requested \<le> round_double (refilled + epsilon));
          left = (if allowed then round_double (refilled - requested) else refilled)
      in (allowed, \<lparr>bk_tokens = left, bk_ts = now, bk_deadline = redis_now + ttl_s\<rparr>))"

section \<open>The limiter\<close>

record limiter =
  lim_name :: string
  lim_capacity :: int
  lim_refill_per_second :: rat

definition bucket_key :: "string \<Rightarrow> string" where
  "bucket_key name = ''actl:ratelimit:'' @ name"

definition new_limiter :: "string \<Rightarrow> int \<Rightarrow> limiter" where
  "new_limiter name limit_per_min =
     \<lparr>lim_name = bucket_key name, lim_capacity = limit_per_min, lim_refill_per_second = round_double (of_int limit_per_min / 60)\<rparr>"

text \<open>
  The world of a call: the buckets in Redis, the application's clock in microseconds and Redis' clock in
  seconds, and which calls of Redis fail, as streams with a counter. A call can fail before the script
  ran or, when only the reply is lost, after it (\<open>True\<close>).
\<close>

record redis_world =
  rw_buckets :: "string \<Rightarrow> bucket option"
  rw_now :: "nat \<Rightarrow> int"
  rw_redis_now :: "nat \<Rightarrow> rat"
  rw_fails :: "nat \<Rightarrow> (string \<times> bool) option"
  rw_calls :: nat

definition timestamp :: "int \<Rightarrow> rat" where
  "timestamp us = round_double (of_int us / 1000000)"

definition try_acquire :: "limiter \<Rightarrow> int \<Rightarrow> (redis_world, bool) comp" where
  "try_acquire L tokens = (\<lambda>w.
     let n = rw_calls w; now = timestamp (rw_now w n); w1 = w\<lparr>rw_calls := Suc n\<rparr>;
         (allowed, b) = token_bucket (of_int (lim_capacity L)) (lim_refill_per_second L) now (of_int tokens)
                          (rw_redis_now w n) (rw_buckets w (lim_name L));
         w2 = w1\<lparr>rw_buckets := (rw_buckets w)(lim_name L \<mapsto> b)\<rparr> in
     case rw_fails w n of
       Some (m, executed) \<Rightarrow> (Inl (RateLimitUnavailable m), if executed then w2 else w1)
     | None \<Rightarrow> (Inr allowed, w2))"

text \<open>A series of calls of one limiter, and the tokens it granted in all.\<close>

fun granted :: "limiter \<Rightarrow> int list \<Rightarrow> redis_world \<Rightarrow> int" where
  "granted L [] w = 0"
| "granted L (k # ks) w =
     (case try_acquire L k w of (r, w') \<Rightarrow> (if r = Inr True then k else 0) + granted L ks w')"

section \<open>One run of the script\<close>

text \<open>
  What one run may give beyond the balance: \<open>balance_slack\<close> is the epsilon and the rounding of the
  comparison, \<open>step_slack\<close> the rounding of the refill and of the subtraction.
\<close>

definition balance_slack :: "rat \<Rightarrow> rat" where
  "balance_slack C = epsilon + unit_roundoff * (C + epsilon)"

definition step_slack :: "rat \<Rightarrow> rat" where
  "step_slack C = unit_roundoff * C + unit_roundoff * (C + balance_slack C)"

definition rate_bound :: "rat \<Rightarrow> rat" where
  "rate_bound r = (1 + unit_roundoff)\<^sup>2 * r"

lemma epsilon_pos: "0 \<le> epsilon" "epsilon \<le> 1 / 1000000"
  using round_double_bounds [of "1 / 10000000"] round_double_nonneg [of "1 / 10000000"]
  by (simp_all add: epsilon_def unit_roundoff_def)

lemma round_double_rate: "0 \<le> x \<Longrightarrow> round_double x \<le> (1 + unit_roundoff) * x"
  using round_double_bounds(2) [of x] by (simp add: algebra_simps)

lemma refill_le:
  assumes "0 \<le> d" "0 \<le> r"
  shows "round_double (round_double d * r) \<le> rate_bound r * d"
proof -
  have "round_double (round_double d * r) \<le> (1 + unit_roundoff) * (round_double d * r)"
    using assms by (intro round_double_rate mult_nonneg_nonneg round_double_nonneg)
  also have "\<dots> \<le> (1 + unit_roundoff) * (((1 + unit_roundoff) * d) * r)"
    using assms unit_roundoff_pos round_double_rate by (intro mult_left_mono mult_right_mono) simp_all
  finally show ?thesis by (simp add: rate_bound_def power2_eq_square algebra_simps)
qed

lemma refilled_le:
  assumes "- 1 \<le> T" "1 \<le> C" "0 \<le> i"
  shows "min C (round_double (T + i)) \<le> T + i + unit_roundoff * C"
proof (cases "T + i \<le> C")
  case True
  then have "\<bar>T + i\<bar> \<le> C" using assms by (simp add: abs_le_iff)
  then have "unit_roundoff * \<bar>T + i\<bar> \<le> unit_roundoff * C" using unit_roundoff_pos by (intro mult_left_mono) simp_all
  with round_double_bounds(2) [of "T + i"] show ?thesis by linarith
next
  case False
  then have "0 \<le> unit_roundoff * C" using assms unit_roundoff_pos by simp
  with False show ?thesis by linarith
qed

lemma refill_nonneg: "0 \<le> d \<Longrightarrow> 0 \<le> r \<Longrightarrow> 0 \<le> round_double (round_double d * r)"
  by (intro round_double_nonneg mult_nonneg_nonneg)

text \<open>
  The most a run can find in the bucket: never more than the capacity, and for a stored bucket the
  balance and what the rate gives since.
\<close>

definition available :: "rat \<Rightarrow> rat \<Rightarrow> rat \<Rightarrow> bucket option \<Rightarrow> rat" where
  "available C r now stored =
     (case stored of
        None \<Rightarrow> C
      | Some b \<Rightarrow> min C (bk_tokens b + rate_bound r * (now - bk_ts b) + unit_roundoff * C))"

text \<open>
  A bucket the script may meet: its balance, the clock of the callers, which does not run backwards,
  and the clock of Redis, which does not run faster.
\<close>

definition bucket_ok :: "rat \<Rightarrow> rat \<Rightarrow> bucket option \<Rightarrow> bool" where
  "bucket_ok now redis_now stored =
     (case stored of
        None \<Rightarrow> True
      | Some b \<Rightarrow> - 1 \<le> bk_tokens b \<and> bk_ts b \<le> now \<and> redis_now - (bk_deadline b - ttl_s) \<le> now - bk_ts b)"

text \<open>An expired key had the time to fill up, so that the reset to the capacity gives nothing extra.\<close>

lemma expired_full:
  assumes "1 \<le> C" "C \<le> 60 * rate_bound r" "bucket_ok now redis_now (Some b)" "bk_deadline b \<le> redis_now"
  shows "C \<le> bk_tokens b + rate_bound r * (now - bk_ts b)"
proof -
  have d: "120 \<le> now - bk_ts b" using assms(3,4) by (simp add: bucket_ok_def ttl_s_def)
  have "2 * C \<le> rate_bound r * 120" using assms(2) by simp
  also have "\<dots> \<le> rate_bound r * (now - bk_ts b)" using d assms(1,2) by (intro mult_left_mono) simp_all
  finally have "2 * C \<le> rate_bound r * (now - bk_ts b)" .
  then show ?thesis using assms(1,3) by (simp add: bucket_ok_def)
qed

lemma take_tokens:
  assumes ref: "- 1 \<le> ref" "ref \<le> C" and C: "1 \<le> C" "C \<le> 1000000000" and req: "0 \<le> req"
    and "req \<le> round_double (ref + epsilon)"
  shows "req \<le> ref + balance_slack C"
    and "- 1 \<le> round_double (ref - req)"
    and "round_double (ref - req) + req \<le> ref + unit_roundoff * (C + balance_slack C)"
proof -
  have "\<bar>ref + epsilon\<bar> \<le> C + epsilon" using ref C epsilon_pos by (simp add: abs_le_iff)
  then have "unit_roundoff * \<bar>ref + epsilon\<bar> \<le> unit_roundoff * (C + epsilon)"
    using unit_roundoff_pos by (intro mult_left_mono) simp_all
  with round_double_bounds(2) [of "ref + epsilon"] assms(6) show le: "req \<le> ref + balance_slack C"
    by (simp add: balance_slack_def)
  have "unit_roundoff * (C + epsilon) \<le> unit_roundoff * (1000000000 + 1)"
    using C epsilon_pos unit_roundoff_pos by (intro mult_left_mono) simp_all
  moreover have "unit_roundoff * (1000000000 + 1) \<le> 1 / 2" by (simp add: unit_roundoff_def)
  ultimately have "balance_slack C \<le> 1" using epsilon_pos by (simp add: balance_slack_def)
  with le show "- 1 \<le> round_double (ref - req)" by (intro round_double_ge_minus_one) simp
  have "0 \<le> balance_slack C" using C epsilon_pos unit_roundoff_pos by (simp add: balance_slack_def)
  then have "\<bar>ref - req\<bar> \<le> C + balance_slack C" using le ref req C by (simp add: abs_le_iff)
  then have "unit_roundoff * \<bar>ref - req\<bar> \<le> unit_roundoff * (C + balance_slack C)"
    using unit_roundoff_pos by (intro mult_left_mono) simp_all
  with round_double_bounds(2) [of "ref - req"] show "round_double (ref - req) + req \<le> ref + unit_roundoff * (C + balance_slack C)"
    by linarith
qed

text \<open>What one run of the script gives out and leaves in the bucket is what was available.\<close>

lemma token_bucket_step:
  assumes C: "1 \<le> C" "C \<le> 1000000000" and r: "0 \<le> r" "C \<le> 60 * rate_bound r" and req: "0 \<le> req"
    and ok: "bucket_ok now redis_now stored"
    and run: "token_bucket C r now req redis_now stored = (allowed, b)"
  shows "bk_ts b = now" "bk_deadline b = redis_now + ttl_s" "- 1 \<le> bk_tokens b"
    and "allowed \<Longrightarrow> req \<le> available C r now stored + balance_slack C"
    and "(if allowed then req else 0) + bk_tokens b \<le> available C r now stored + unit_roundoff * (C + balance_slack C)"
proof -
  define start where "start = (case stored of None \<Rightarrow> (C, now)
    | Some b \<Rightarrow> if redis_now < bk_deadline b then (bk_tokens b, bk_ts b) else (C, now))"
  obtain T l where Tl: "start = (T, l)" by (cases start)
  define ref where "ref = min C (round_double (T + round_double (round_double (now - l) * r)))"
  have l: "l \<le> now" "- 1 \<le> T"
    using Tl ok C by (auto simp: start_def bucket_ok_def split: option.splits if_splits)
  have i: "0 \<le> round_double (round_double (now - l) * r)" using l r by (intro refill_nonneg) simp_all
  have nneg: "\<not> round_double (now - l) < 0" using round_double_nonneg [of "now - l"] l by simp
  have ref: "- 1 \<le> ref" "ref \<le> C" unfolding ref_def using C l i by (auto intro: round_double_ge_minus_one)
  have avail: "ref \<le> available C r now stored"
  proof (cases stored)
    case None
    then show ?thesis using ref by (simp add: available_def)
  next
    case (Some b')
    show ?thesis
    proof (cases "redis_now < bk_deadline b'")
      case True
      then have "T = bk_tokens b'" "l = bk_ts b'" using Tl Some by (simp_all add: start_def)
      then show ?thesis using refilled_le [OF l(2) C(1) i] refill_le [of "now - l" r] l r ref
        by (simp add: available_def Some ref_def)
    next
      case False
      have "C \<le> bk_tokens b' + rate_bound r * (now - bk_ts b')"
        using expired_full [OF C(1) r(2), of now redis_now b'] ok False Some by simp
      moreover have "0 \<le> unit_roundoff * C" using C unit_roundoff_pos by simp
      ultimately show ?thesis using ref by (simp add: available_def Some)
    qed
  qed
  have b: "allowed \<longleftrightarrow> req \<le> round_double (ref + epsilon)"
    "b = \<lparr>bk_tokens = (if allowed then round_double (ref - req) else ref), bk_ts = now, bk_deadline = redis_now + ttl_s\<rparr>"
    using run nneg by (auto simp: token_bucket_def start_def [symmetric] Tl Let_def ref_def)
  show "bk_ts b = now" "bk_deadline b = redis_now + ttl_s" by (simp_all add: b(2))
  note take = take_tokens [OF ref C req]
  show "- 1 \<le> bk_tokens b" using take(2) ref b by auto
  show "req \<le> available C r now stored + balance_slack C" if allowed using take(1) avail b(1) that by fastforce
  have "0 \<le> unit_roundoff * (C + balance_slack C)"
    using C epsilon_pos unit_roundoff_pos by (simp add: balance_slack_def)
  then show "(if allowed then req else 0) + bk_tokens b \<le> available C r now stored + unit_roundoff * (C + balance_slack C)"
    using take(3) avail b by (cases allowed) (auto simp: add.commute)
qed

section \<open>The rate\<close>

definition call_time :: "redis_world \<Rightarrow> nat \<Rightarrow> rat" where
  "call_time w i = timestamp (rw_now w i)"

text \<open>
  The callers' clock does not run backwards from one call to the next, and the clock of Redis does not
  run faster than it; the limiter's bucket is one that such calls leave.
\<close>

definition clocks_agree :: "redis_world \<Rightarrow> bool" where
  "clocks_agree w \<longleftrightarrow>
     (\<forall>i. call_time w i \<le> call_time w (Suc i)
          \<and> rw_redis_now w (Suc i) - rw_redis_now w i \<le> call_time w (Suc i) - call_time w i)"

definition limiter_ok :: "limiter \<Rightarrow> redis_world \<Rightarrow> bool" where
  "limiter_ok L w = bucket_ok (call_time w (rw_calls w)) (rw_redis_now w (rw_calls w)) (rw_buckets w (lim_name L))"

abbreviation on_hand :: "limiter \<Rightarrow> redis_world \<Rightarrow> rat" where
  "on_hand L w \<equiv> available (of_int (lim_capacity L)) (lim_refill_per_second L) (call_time w (rw_calls w)) (rw_buckets w (lim_name L))"

lemma bucket_ok_later:
  "bucket_ok t s st \<Longrightarrow> t \<le> t' \<Longrightarrow> s' - s \<le> t' - t \<Longrightarrow> bucket_ok t' s' st"
  by (auto simp: bucket_ok_def split: option.splits)

lemma available_later:
  assumes "0 \<le> r" "t \<le> t'"
  shows "available C r t' st \<le> available C r t st + rate_bound r * (t' - t)"
proof -
  have "0 \<le> rate_bound r * (t' - t)" using assms by (simp add: rate_bound_def)
  then show ?thesis by (auto simp: available_def min_def right_diff_distrib split: option.splits)
qed

lemma available_le: "available C r t st \<le> C"
  by (auto simp: available_def split: option.splits)

lemma new_limiter_rate:
  assumes "1 \<le> k"
  shows "0 \<le> lim_refill_per_second (new_limiter nm k)"
    and "of_int k \<le> 60 * rate_bound (lim_refill_per_second (new_limiter nm k))"
    and "rate_bound (lim_refill_per_second (new_limiter nm k)) \<le> (1 + unit_roundoff) ^ 3 * (of_int k / 60)"
proof -
  let ?x = "of_int k / 60 :: rat"
  have x: "0 \<le> ?x" using assms by simp
  show "0 \<le> lim_refill_per_second (new_limiter nm k)" using round_double_nonneg [OF x] by (simp add: new_limiter_def)
  show "rate_bound (lim_refill_per_second (new_limiter nm k)) \<le> (1 + unit_roundoff) ^ 3 * ?x"
    using mult_left_mono [OF round_double_rate [OF x], of "(1 + unit_roundoff)\<^sup>2"] unit_roundoff_pos
    by (simp add: new_limiter_def rate_bound_def power3_eq_cube power2_eq_square mult.assoc)
  show "of_int k \<le> 60 * rate_bound (lim_refill_per_second (new_limiter nm k))"
  proof -
    have "?x * 1 \<le> ?x * ((1 + unit_roundoff)\<^sup>2 * (1 - unit_roundoff))"
      using x by (intro mult_left_mono) (simp_all add: unit_roundoff_def power2_eq_square)
    also have "\<dots> = (1 + unit_roundoff)\<^sup>2 * (?x - unit_roundoff * ?x)" by (simp add: algebra_simps)
    also have "\<dots> \<le> (1 + unit_roundoff)\<^sup>2 * round_double ?x"
      using round_double_bounds(1) [of ?x] x by (intro mult_left_mono) simp_all
    finally show ?thesis by (simp add: new_limiter_def rate_bound_def)
  qed
qed

abbreviation grant :: "bool result \<Rightarrow> int \<Rightarrow> int" where
  "grant res k \<equiv> (if res = Inr True then k else 0)"

text \<open>One call, whether it succeeds, fails before the script or loses the reply.\<close>

lemma try_acquire_step:
  fixes L :: limiter and w :: redis_world
  defines "C \<equiv> rat_of_int (lim_capacity L)" and "r \<equiv> lim_refill_per_second L" and "n \<equiv> rw_calls w"
  assumes C: "1 \<le> C" "C \<le> 1000000000" and r: "0 \<le> r" "C \<le> 60 * rate_bound r" and k: "0 \<le> k"
    and clocks: "clocks_agree w" and ok: "limiter_ok L w" and call: "try_acquire L k w = (res, w')"
  shows "rw_calls w' = Suc n" "call_time w' = call_time w" "clocks_agree w'" "limiter_ok L w'"
    and "of_int (grant res k) \<le> max 0 (on_hand L w + balance_slack C)"
    and "of_int (grant res k) + on_hand L w' \<le> on_hand L w + rate_bound r * (call_time w (Suc n) - call_time w n) + step_slack C"
proof -
  obtain allowed b where b: "token_bucket C r (call_time w n) (of_int k) (rw_redis_now w n) (rw_buckets w (lim_name L)) = (allowed, b)"
    by (cases "token_bucket C r (call_time w n) (of_int k) (rw_redis_now w n) (rw_buckets w (lim_name L))")
  have kk: "0 \<le> rat_of_int k" using k by simp
  note step = token_bucket_step [OF C r kk ok [unfolded limiter_ok_def, folded n_def] b]
  have t: "call_time w n \<le> call_time w (Suc n)" and rt: "rw_redis_now w (Suc n) - rw_redis_now w n \<le> call_time w (Suc n) - call_time w n"
    using clocks by (simp_all add: clocks_agree_def)
  let ?w1 = "w\<lparr>rw_calls := Suc n\<rparr>" and ?w2 = "w\<lparr>rw_calls := Suc n, rw_buckets := (rw_buckets w)(lim_name L \<mapsto> b)\<rparr>"
  have w': "w' = ?w2 \<and> (res = Inr allowed \<or> (\<exists>m. res = Inl m)) \<or> w' = ?w1 \<and> (\<exists>m. res = Inl m)"
    using call b by (auto simp: try_acquire_def C_def r_def n_def call_time_def Let_def split: option.splits prod.splits if_splits)
  then show calls: "rw_calls w' = Suc n" and time: "call_time w' = call_time w" by (auto simp: call_time_def fun_eq_iff)
  have rnow: "rw_redis_now w' = rw_redis_now w" using w' by auto
  show "clocks_agree w'" using clocks by (simp add: clocks_agree_def time rnow)
  have ok2: "bucket_ok (call_time w (Suc n)) (rw_redis_now w (Suc n)) (Some b)"
    using step(1,2,3) t rt by (simp add: bucket_ok_def)
  show "limiter_ok L w'"
    using w' ok2 bucket_ok_later [OF ok [unfolded limiter_ok_def, folded n_def] t rt]
    by (auto simp: limiter_ok_def call_time_def)
  show "of_int (grant res k) \<le> max 0 (on_hand L w + balance_slack C)"
    using w' step(4) by (auto simp: n_def C_def r_def le_max_iff_disj)
  have slack: "0 \<le> step_slack C" "0 \<le> balance_slack C" using C epsilon_pos unit_roundoff_pos
    by (simp_all add: step_slack_def balance_slack_def)
  have "available C r (call_time w (Suc n)) (Some b) \<le> bk_tokens b + rate_bound r * (call_time w (Suc n) - call_time w n) + unit_roundoff * C"
    by (simp add: available_def step(1))
  then have s2: "(if allowed then of_int k else 0) + available C r (call_time w (Suc n)) (Some b)
      \<le> on_hand L w + rate_bound r * (call_time w (Suc n) - call_time w n) + step_slack C"
    using step(5) by (simp add: step_slack_def C_def r_def n_def)
  have s1: "available C r (call_time w (Suc n)) (rw_buckets w (lim_name L))
      \<le> on_hand L w + rate_bound r * (call_time w (Suc n) - call_time w n) + step_slack C"
    using available_later [OF r(1) t, of C "rw_buckets w (lim_name L)"] slack by (simp add: C_def r_def n_def)
  have g2: "of_int (grant res k) \<le> (if allowed then rat_of_int k else 0)" if "w' = ?w2"
    using w' that k by auto
  from w' show "of_int (grant res k) + on_hand L w' \<le> on_hand L w + rate_bound r * (call_time w (Suc n) - call_time w n) + step_slack C"
  proof
    assume "w' = ?w2 \<and> (res = Inr allowed \<or> (\<exists>m. res = Inl m))"
    then have w2: "w' = ?w2" and b': "rw_buckets w' (lim_name L) = Some b" by simp_all
    show ?thesis using g2 [OF w2] s2 unfolding calls time b' C_def r_def by linarith
  next
    assume "w' = ?w1 \<and> (\<exists>m. res = Inl m)"
    then have "grant res k = 0" and "rw_buckets w' (lim_name L) = rw_buckets w (lim_name L)" by auto
    with s1 show ?thesis unfolding calls time C_def r_def by simp
  qed
qed

lemma granted_le:
  fixes L :: limiter
  defines "C \<equiv> rat_of_int (lim_capacity L)" and "r \<equiv> lim_refill_per_second L"
  assumes C: "1 \<le> C" "C \<le> 1000000000" and r: "0 \<le> r" "C \<le> 60 * rate_bound r"
  shows "list_all (\<lambda>k. 0 \<le> k) ks \<Longrightarrow> clocks_agree w \<Longrightarrow> limiter_ok L w \<Longrightarrow>
    of_int (granted L ks w) \<le>
      max 0 (on_hand L w + rate_bound r * (call_time w (rw_calls w + length ks - 1) - call_time w (rw_calls w))
             + of_nat (length ks) * step_slack C + balance_slack C)"
proof (induction ks arbitrary: w)
  case (Cons k ks)
  obtain res w' where call: "try_acquire L k w = (res, w')" by (cases "try_acquire L k w")
  have k: "0 \<le> k" "list_all (\<lambda>k. 0 \<le> k) ks" using Cons.prems by simp_all
  note step = try_acquire_step [OF C [unfolded C_def] r [unfolded C_def r_def] k(1) Cons.prems(2,3) call]
  note IH = Cons.IH [OF k(2) step(3,4)]
  let ?n = "rw_calls w" and ?T = "call_time w"
  have slack: "0 \<le> step_slack C" using C epsilon_pos unit_roundoff_pos by (simp add: step_slack_def balance_slack_def)
  have R: "0 \<le> rate_bound r" using r by (simp add: rate_bound_def)
  have mono: "?T ?n \<le> ?T (?n + j)" for j
    by (induction j) (use Cons.prems(2) in \<open>auto simp: clocks_agree_def intro: order_trans\<close>)
  have g: "granted L (k # ks) w = grant res k + granted L ks w'" by (simp add: call)
  show ?case
  proof (cases "granted L ks w' \<le> 0")
    case True
    then have "of_int (granted L (k # ks) w) \<le> (of_int (grant res k) :: rat)" unfolding g by simp
    also have "\<dots> \<le> max 0 (on_hand L w + balance_slack C)" unfolding C_def by (rule step(5))
    also have "\<dots> \<le> max 0 (on_hand L w + rate_bound r * (?T (?n + length (k # ks) - 1) - ?T ?n)
             + of_nat (length (k # ks)) * step_slack C + balance_slack C)"
      using mult_nonneg_nonneg [OF R, of "?T (?n + length ks) - ?T ?n"] mono [of "length ks"]
        mult_nonneg_nonneg [OF of_nat_0_le_iff slack, of "length (k # ks)"]
      by (intro max.mono) simp_all
    finally show ?thesis .
  next
    case False
    then have ne: "ks \<noteq> []" by auto
    have "of_int (granted L ks w') \<le> on_hand L w' + rate_bound r * (?T (?n + length ks) - ?T (Suc ?n))
        + of_nat (length ks) * step_slack C + balance_slack C"
      using IH False ne unfolding step(1,2) by (auto simp: max_def split: if_splits)
    then have "of_int (granted L (k # ks) w) \<le> on_hand L w + rate_bound r * (?T (?n + length (k # ks) - 1) - ?T ?n)
        + of_nat (length (k # ks)) * step_slack C + balance_slack C"
      using step(6) unfolding g C_def r_def by (simp only: list.size of_nat_add of_nat_Suc distrib_right right_diff_distrib) simp
    then show ?thesis by simp
  qed
qed simp

text \<open>
  C25. The limiter holds its rate. However a limiter with limit \<open>k\<close> per minute is called, whichever calls
  fail and whatever state the bucket is in, the tokens granted by a series of calls are at most the
  capacity \<open>k\<close>, \<open>k / 60\<close> for every second between its first and last call, and a term for the epsilon and
  the rounding of the doubles. The clock of the callers must not run backwards, and the clock by which
  Redis drops keys must not run faster.
\<close>

theorem rate_bounded:
  assumes "1 \<le> k" "k \<le> 1000000000" "ks \<noteq> []" "list_all (\<lambda>n. 0 \<le> n) ks" "clocks_agree w" "limiter_ok (new_limiter name k) w"
  shows "of_int (granted (new_limiter name k) ks w) \<le>
    of_int k + (1 + unit_roundoff) ^ 3 * (of_int k / 60) * (call_time w (rw_calls w + length ks - 1) - call_time w (rw_calls w))
      + of_nat (length ks) * step_slack (of_int k) + balance_slack (of_int k)"
proof -
  let ?L = "new_limiter name k" and ?n = "rw_calls w" and ?T = "call_time w"
  let ?d = "?T (?n + length ks - 1) - ?T ?n"
  have cap: "lim_capacity ?L = k" by (simp add: new_limiter_def)
  have k: "1 \<le> rat_of_int k" "rat_of_int k \<le> 1000000000" using assms(1,2) by simp_all
  note rate = new_limiter_rate [OF assms(1), of name]
  have mono: "?T ?n \<le> ?T (?n + j)" for j
    by (induction j) (use assms(5) in \<open>auto simp: clocks_agree_def intro: order_trans\<close>)
  from mono [of "length ks - 1"] assms(3) have d: "0 \<le> ?d" by (cases ks) simp_all
  then have "rate_bound (lim_refill_per_second ?L) * ?d \<le> (1 + unit_roundoff) ^ 3 * (of_int k / 60) * ?d"
    using rate(3) by (intro mult_right_mono)
  moreover have "0 \<le> (1 + unit_roundoff) ^ 3 * (of_int k / 60) * ?d" using d k unit_roundoff_pos by simp
  moreover have "0 \<le> of_nat (length ks) * step_slack (of_int k)" "0 \<le> balance_slack (of_int k)"
    using k epsilon_pos unit_roundoff_pos by (simp_all add: step_slack_def balance_slack_def)
  moreover have "on_hand ?L w \<le> of_int k" using available_le [of "of_int (lim_capacity ?L)"] by (simp add: cap)
  ultimately show ?thesis
    using granted_le [of ?L, unfolded cap, OF k rate(1,2) assms(4,5,6)] k unfolding cap by linarith
qed

text \<open>A call never admits when Redis fails, and raises nothing but the limiter's own error.\<close>

lemma try_acquire_fails_closed:
  "rw_fails w (rw_calls w) = Some (m, e) \<Longrightarrow> fst (try_acquire L k w) = Inl (RateLimitUnavailable m)"
  by (simp add: try_acquire_def Let_def split: prod.splits)

text \<open>The epsilon does not change the comparison of whole numbers of tokens.\<close>

lemma whole_tokens:
  assumes "0 \<le> m" "m \<le> 1000000"
  shows "of_int n \<le> round_double (of_int m + epsilon) \<longleftrightarrow> n \<le> m"
proof -
  have e: "1 / 100000000 \<le> epsilon" "epsilon \<le> 1 / 1000000"
    using round_double_bounds [of "1 / 10000000"] by (simp_all add: epsilon_def unit_roundoff_def)
  let ?x = "of_int m + epsilon"
  have "unit_roundoff * \<bar>?x\<bar> \<le> unit_roundoff * 2000000"
    using assms e unit_roundoff_pos by (intro mult_left_mono) simp_all
  also have "\<dots> \<le> 1 / 1000000000" by (simp add: unit_roundoff_def)
  finally have "of_int m \<le> round_double ?x" "round_double ?x < of_int (m + 1)"
    using round_double_bounds [of ?x] e by simp_all
  then have "of_int n \<le> round_double ?x \<Longrightarrow> (of_int n :: rat) < of_int (m + 1)" "n \<le> m \<Longrightarrow> of_int n \<le> round_double ?x"
    by (simp_all add: order_trans [of "of_int n" "of_int m"])
  then show ?thesis by (simp only: of_int_less_iff) linarith
qed

lemma whole_tokens_numeral:
  "(numeral i :: int) \<le> 1000000 \<Longrightarrow> numeral j \<le> round_double (numeral i + epsilon) \<longleftrightarrow> (numeral j :: int) \<le> numeral i"
  "numeral j \<le> round_double epsilon \<longleftrightarrow> (numeral j :: int) \<le> 0"
  using whole_tokens [of "numeral i" "numeral j"] whole_tokens [of 0 "numeral j"] by simp_all

definition sample_world :: redis_world where
  "sample_world = \<lparr>rw_buckets = (\<lambda>_. None), rw_now = (\<lambda>_. 1000000), rw_redis_now = (\<lambda>_. 1), rw_fails = (\<lambda>i. if i = 1 then Some (''lost'', True) else None), rw_calls = 0\<rparr>"

theorem rate_bounded_witness:
  "granted (new_limiter ''llm'' 60) [20, 30, 20, 10] sample_world = 30
   \<and> rat_of_int (granted (new_limiter ''llm'' 60) [20, 30, 20, 10] sample_world)
       \<le> 60 + 4 * step_slack 60 + balance_slack 60"
proof
  have "clocks_agree sample_world" "limiter_ok (new_limiter ''llm'' 60) sample_world"
    by (simp_all add: clocks_agree_def limiter_ok_def bucket_ok_def call_time_def sample_world_def)
  from rate_bounded [OF _ _ _ _ this, of "[20, 30, 20, 10]"]
  show "rat_of_int (granted (new_limiter ''llm'' 60) [20, 30, 20, 10] sample_world) \<le> 60 + 4 * step_slack 60 + balance_slack 60"
    by (simp del: granted.simps add: sample_world_def call_time_def)
  show "granted (new_limiter ''llm'' 60) [20, 30, 20, 10] sample_world = 30"
    by (simp add: sample_world_def try_acquire_def token_bucket_def new_limiter_def timestamp_def ttl_s_def Let_def
        round_double_numeral whole_tokens_numeral)
qed

text \<open>
  The clock matters: the script stores the caller's \<open>now\<close> even when it is older than the stored one, so
  callers whose clocks differ refill the bucket again. A limiter of 60 calls per minute, called with
  clocks a minute apart, gives out its capacity twice within one instant of the Redis clock.
\<close>

lemma backward_clock_refills:
  "granted (new_limiter ''llm'' 60) [60, 60, 60]
     (sample_world\<lparr>rw_now := (\<lambda>i. if i = 1 then 0 else 60000000), rw_redis_now := (\<lambda>_. 60), rw_fails := (\<lambda>_. None)\<rparr>) = 120"
  by (simp add: sample_world_def try_acquire_def token_bucket_def new_limiter_def timestamp_def ttl_s_def Let_def
      round_double_numeral whole_tokens_numeral)

end
