(* ===== verification/Json_Text.thy ===== *)
theory Json_Text
  imports Hash_Chain "HOL-Library.AList"
begin

text \<open>
  JSON as text: what the program uses of Python's \<open>json\<close> module. \<open>loads\<close> is the
  recursive-descent scanner of the library (\<open>strict\<close>, so control characters inside strings are
  refused; a repeated key keeps its place and takes the last value; \<open>NaN\<close> and \<open>Infinity\<close>
  are accepted), \<open>dumps\<close> prints with the separators and the indentation it is called with and
  escapes everything outside ASCII. Every refusal of the scanner is a \<open>ValueError\<close>
  (\<open>JSONDecodeError\<close> is a subclass of it). The conversion of a fractional literal,
  \<open>float(text)\<close>, is an argument, as it is of the library's decoder (\<open>parse_float\<close>).
  Integers of more than 4300 digits, which CPython refuses to convert in both directions, are outside
  the model.

  The lemmas show that the scanner reads back what either printer wrote, that its fuel (twice the
  length of the text) is never what stops it, and the round trip of UTF-8.
\<close>

section \<open>UTF-8\<close>

definition utf8_encode_cp :: "nat \<Rightarrow> nat list" where
  "utf8_encode_cp p =
     (if p < 0x80 then [p]
      else if p < 0x800 then [0xC0 + p div 64, 0x80 + p mod 64]
      else if p < 0x10000 then [0xE0 + p div 4096, 0x80 + p div 64 mod 64, 0x80 + p mod 64]
      else [0xF0 + p div 262144, 0x80 + p div 4096 mod 64, 0x80 + p div 64 mod 64, 0x80 + p mod 64])"

definition cont_byte :: "nat \<Rightarrow> bool" where
  "cont_byte b \<longleftrightarrow> 0x80 \<le> b \<and> b < 0xC0"

text \<open>The byte strings that \<open>bytes.decode("utf-8")\<close> accepts: shortest forms, no surrogates.\<close>

fun valid_utf8 :: "nat list \<Rightarrow> bool" where
  "valid_utf8 [] \<longleftrightarrow> True"
| "valid_utf8 (a # as) \<longleftrightarrow>
     (if a < 0x80 then valid_utf8 as
      else if 0xC2 \<le> a \<and> a < 0xE0 then
        (case as of b # bs \<Rightarrow> cont_byte b \<and> valid_utf8 bs | [] \<Rightarrow> False)
      else if 0xE0 \<le> a \<and> a < 0xF0 then
        (case as of
           b # c # bs \<Rightarrow>
             cont_byte b \<and> cont_byte c \<and> (a = 0xE0 \<longrightarrow> 0xA0 \<le> b) \<and> (a = 0xED \<longrightarrow> b < 0xA0) \<and> valid_utf8 bs
         | _ \<Rightarrow> False)
      else if 0xF0 \<le> a \<and> a < 0xF5 then
        (case as of
           b # c # d # bs \<Rightarrow>
             cont_byte b \<and> cont_byte c \<and> cont_byte d \<and> (a = 0xF0 \<longrightarrow> 0x90 \<le> b) \<and> (a = 0xF4 \<longrightarrow> b < 0x90) \<and>
             valid_utf8 bs
         | _ \<Rightarrow> False)
      else False)"

definition valid_text :: "string \<Rightarrow> bool" where
  "valid_text s \<longleftrightarrow> valid_utf8 (map of_char s)"

definition scalar :: "nat \<Rightarrow> bool" where
  "scalar p \<longleftrightarrow> p < 0xD800 \<or> (0xE000 \<le> p \<and> p < 0x110000)"

lemma mod_offset: "a = k * q + x \<Longrightarrow> x < k \<Longrightarrow> a mod k = (x :: nat)"
  by simp

lemma utf8_two: "\<lbrakk>0xC2 \<le> a; a < 0xE0; cont_byte b\<rbrakk> \<Longrightarrow>
    utf8_encode_cp (a mod 32 * 64 + b mod 64) = [a, b] \<and> scalar (a mod 32 * 64 + b mod 64)"
proof -
  assume a: "0xC2 \<le> a" "a < 0xE0" and b: "cont_byte b"
  define x y where "x = a - 0xC0" and "y = b - 0x80"
  have "a = 0xC0 + x" "b = 0x80 + y" "2 \<le> x" "x < 32" "y < 64"
    using a b by (auto simp: x_def y_def cont_byte_def)
  moreover from this have "a mod 32 = x" "b mod 64 = y"
    using mod_offset [of a 32 6 x] mod_offset [of b 64 2 y] by simp_all
  ultimately show ?thesis
    by (auto simp: utf8_encode_cp_def scalar_def)
qed

lemma base64_digits:
  assumes "z < 64"
  shows "(q * 64 + z) div 64 = q" "(q * 64 + z) mod 64 = (z :: nat)"
  using assms by simp_all

lemma base64_three:
  fixes x y z :: nat
  assumes "y < 64" "z < 64"
  defines "p \<equiv> x * 4096 + y * 64 + z"
  shows "p div 4096 = x" "p div 64 mod 64 = y" "p mod 64 = z"
proof -
  have p: "p = (x * 64 + y) * 64 + z" by (simp add: p_def)
  show "p mod 64 = z" by (simp only: p base64_digits(2) [OF assms(2)])
  have q: "p div 64 = x * 64 + y" by (simp only: p base64_digits(1) [OF assms(2)])
  show "p div 64 mod 64 = y" by (simp only: q base64_digits(2) [OF assms(1)])
  have "p div (64 * 64) = x" by (simp only: div_mult2_eq q base64_digits(1) [OF assms(1)])
  then show "p div 4096 = x" by simp
qed

lemma base64_four:
  fixes w x y z :: nat
  assumes "x < 64" "y < 64" "z < 64"
  defines "p \<equiv> w * 262144 + x * 4096 + y * 64 + z"
  shows "p div 262144 = w" "p div 4096 mod 64 = x" "p div 64 mod 64 = y" "p mod 64 = z"
proof -
  have p: "p = (w * 64 + x) * 4096 + y * 64 + z" by (simp add: p_def)
  note d = base64_three [OF assms(2,3), of "w * 64 + x", folded p]
  show "p div 64 mod 64 = y" "p mod 64 = z" by (rule d(2), rule d(3))
  show "p div 4096 mod 64 = x" by (simp only: d(1) base64_digits(2) [OF assms(1)])
  have "p div (4096 * 64) = w" by (simp only: div_mult2_eq d(1) base64_digits(1) [OF assms(1)])
  then show "p div 262144 = w" by simp
qed

lemma utf8_encode_cp_cases:
  "0x800 \<le> p \<Longrightarrow> p < 0x10000 \<Longrightarrow>
     utf8_encode_cp p = [0xE0 + p div 4096, 0x80 + p div 64 mod 64, 0x80 + p mod 64]"
  "0x10000 \<le> p \<Longrightarrow>
     utf8_encode_cp p = [0xF0 + p div 262144, 0x80 + p div 4096 mod 64, 0x80 + p div 64 mod 64, 0x80 + p mod 64]"
  by (simp_all add: utf8_encode_cp_def)

lemma cont_byteE:
  assumes "cont_byte b"
  obtains y where "b = 0x80 + y" "y < 64" "b mod 64 = y"
proof (rule that)
  show "b = 0x80 + (b - 0x80)" "b - 0x80 < 64" using assms by (auto simp: cont_byte_def)
  then show "b mod 64 = b - 0x80" using mod_offset [of b 64 2 "b - 0x80"] by simp
qed

lemma utf8_three: "\<lbrakk>0xE0 \<le> a; a < 0xF0; cont_byte b; cont_byte c; a = 0xE0 \<longrightarrow> 0xA0 \<le> b; a = 0xED \<longrightarrow> b < 0xA0\<rbrakk> \<Longrightarrow>
    utf8_encode_cp (a mod 16 * 4096 + b mod 64 * 64 + c mod 64) = [a, b, c] \<and>
    scalar (a mod 16 * 4096 + b mod 64 * 64 + c mod 64)"
proof -
  assume a: "0xE0 \<le> a" "a < 0xF0" and b: "cont_byte b" and c: "cont_byte c"
    and lo: "a = 0xE0 \<longrightarrow> 0xA0 \<le> b" and hi: "a = 0xED \<longrightarrow> b < 0xA0"
  from b obtain y where y: "b = 0x80 + y" "y < 64" "b mod 64 = y" by (rule cont_byteE)
  from c obtain z where z: "c = 0x80 + z" "z < 64" "c mod 64 = z" by (rule cont_byteE)
  define x where "x = a - 0xE0"
  have x: "a = 0xE0 + x" "x < 16" using a by (auto simp: x_def)
  then have m: "a mod 16 = x" using mod_offset [of a 16 14 x] by simp
  define p where "p = x * 4096 + y * 64 + z"
  have "x = 0 \<Longrightarrow> 0x800 \<le> p" "x \<noteq> 0 \<Longrightarrow> 0x800 \<le> p" "p < 0x10000"
    using lo x y(1,2) z(2) by (simp_all add: p_def)
  then have "0x800 \<le> p" "p < 0x10000" by blast+
  then have enc: "utf8_encode_cp p = [a, b, c]"
    using base64_three [OF y(2) z(2), of x, folded p_def] x(1) y(1) z(1) by (simp add: utf8_encode_cp_cases(1))
  consider "x < 13" | "x = 13" | "13 < x" by linarith
  then have "scalar p"
    by cases (use hi x y(1,2) z(2) in \<open>simp_all add: scalar_def p_def\<close>)
  with enc show ?thesis by (simp only: m y(3) z(3) p_def)
qed

lemma utf8_four: "\<lbrakk>0xF0 \<le> a; a < 0xF5; cont_byte b; cont_byte c; cont_byte d;
     a = 0xF0 \<longrightarrow> 0x90 \<le> b; a = 0xF4 \<longrightarrow> b < 0x90\<rbrakk> \<Longrightarrow>
    utf8_encode_cp (a mod 8 * 262144 + b mod 64 * 4096 + c mod 64 * 64 + d mod 64) = [a, b, c, d] \<and>
    scalar (a mod 8 * 262144 + b mod 64 * 4096 + c mod 64 * 64 + d mod 64)"
proof -
  assume a: "0xF0 \<le> a" "a < 0xF5" and b: "cont_byte b" and c: "cont_byte c" and d: "cont_byte d"
    and lo: "a = 0xF0 \<longrightarrow> 0x90 \<le> b" and hi: "a = 0xF4 \<longrightarrow> b < 0x90"
  from b obtain x where x: "b = 0x80 + x" "x < 64" "b mod 64 = x" by (rule cont_byteE)
  from c obtain y where y: "c = 0x80 + y" "y < 64" "c mod 64 = y" by (rule cont_byteE)
  from d obtain z where z: "d = 0x80 + z" "z < 64" "d mod 64 = z" by (rule cont_byteE)
  define w where "w = a - 0xF0"
  have w: "a = 0xF0 + w" "w < 5" using a by (auto simp: w_def)
  then have m: "a mod 8 = w" using mod_offset [of a 8 30 w] by simp
  define p where "p = w * 262144 + x * 4096 + y * 64 + z"
  have "w = 0 \<Longrightarrow> 0x10000 \<le> p" "w \<noteq> 0 \<Longrightarrow> 0x10000 \<le> p" "w < 4 \<Longrightarrow> p < 0x110000" "w = 4 \<Longrightarrow> p < 0x110000"
    using lo hi w x(1,2) y(2) z(2) by (simp_all add: p_def)
  then have p: "0x10000 \<le> p" "p < 0x110000" using w(2) by (blast, cases "w = 4") simp_all
  then have "utf8_encode_cp p = [a, b, c, d]"
    using base64_four [OF x(2) y(2) z(2), of w, folded p_def] w(1) x(1) y(1) z(1)
    by (simp add: utf8_encode_cp_cases(2))
  moreover have "scalar p" using p by (simp add: scalar_def)
  ultimately show ?thesis by (simp only: m x(3) y(3) z(3) p_def)
qed

lemma valid_utf8_ConsE:
  assumes "valid_utf8 (a # as)"
  obtains (one) "a < 0x80" "valid_utf8 as"
  | (two) b bs where "as = b # bs" "0xC2 \<le> a" "a < 0xE0" "cont_byte b" "valid_utf8 bs"
  | (three) b c bs where "as = b # c # bs" "0xE0 \<le> a" "a < 0xF0" "cont_byte b" "cont_byte c"
      "a = 0xE0 \<longrightarrow> 0xA0 \<le> b" "a = 0xED \<longrightarrow> b < 0xA0" "valid_utf8 bs"
  | (four) b c d bs where "as = b # c # d # bs" "0xF0 \<le> a" "a < 0xF5" "cont_byte b" "cont_byte c" "cont_byte d"
      "a = 0xF0 \<longrightarrow> 0x90 \<le> b" "a = 0xF4 \<longrightarrow> b < 0x90" "valid_utf8 bs"
proof -
  consider "a < 0x80" | "0xC2 \<le> a" "a < 0xE0" | "0xE0 \<le> a" "a < 0xF0" | "0xF0 \<le> a" "a < 0xF5"
    using assms by (auto split: if_splits)
  then show ?thesis
  proof cases
    case 1
    with assms show ?thesis by (intro one) simp_all
  next
    case 2
    with assms show ?thesis by (cases as) (auto intro: two)
  next
    case 3
    with assms show ?thesis by (cases as; cases "tl as") (auto intro: three)
  next
    case 4
    with assms show ?thesis by (cases as; cases "tl as"; cases "tl (tl as)") (auto intro: four)
  qed
qed

lemma utf8_roundtrip:
  "valid_utf8 s \<Longrightarrow> concat (map utf8_encode_cp (utf8_decode s)) = s \<and> list_all scalar (utf8_decode s)"
proof (induction "length s" arbitrary: s rule: less_induct)
  case less
  show ?case
  proof (cases s)
    case (Cons a as)
    with less.prems have "valid_utf8 (a # as)" by simp
    then show ?thesis
    proof (cases rule: valid_utf8_ConsE)
      case one
      with less.hyps [of as] Cons show ?thesis by (simp add: utf8_encode_cp_def scalar_def)
    next
      case (two b bs)
      with less.hyps [of bs] Cons utf8_two [of a b] show ?thesis by simp
    next
      case (three b c bs)
      with less.hyps [of bs] Cons utf8_three [of a b c] show ?thesis by simp
    next
      case (four b c d bs)
      with less.hyps [of bs] Cons utf8_four [of a b c d] show ?thesis by simp
    qed
  qed simp
qed

lemma valid_utf8_append: "valid_utf8 s \<Longrightarrow> valid_utf8 t \<Longrightarrow> valid_utf8 (s @ t)"
proof (induction "length s" arbitrary: s rule: less_induct)
  case less
  show ?case
  proof (cases s)
    case (Cons a as)
    with less.prems have "valid_utf8 (a # as)" by simp
    then show ?thesis
    proof (cases rule: valid_utf8_ConsE)
      case one
      with less.hyps [of as] less.prems(2) Cons show ?thesis by simp
    next
      case (two b bs)
      with less.hyps [of bs] less.prems(2) Cons show ?thesis by simp
    next
      case (three b c bs)
      with less.hyps [of bs] less.prems(2) Cons show ?thesis by simp
    next
      case (four b c d bs)
      with less.hyps [of bs] less.prems(2) Cons show ?thesis by simp
    qed
  qed (use less.prems in simp)
qed

section \<open>Scanning strings and numbers\<close>

definition is_ws :: "char \<Rightarrow> bool" where
  "is_ws c \<longleftrightarrow> c \<in> {CHR '' '', CHR 0x09, CHR 0x0A, CHR 0x0D}"

definition skip_ws :: "string \<Rightarrow> string" where
  "skip_ws s = dropWhile is_ws s"

definition text_of_cp :: "nat \<Rightarrow> string" where
  "text_of_cp p = map char_of (utf8_encode_cp p)"

definition hex4_value :: "char \<Rightarrow> char \<Rightarrow> char \<Rightarrow> char \<Rightarrow> nat option" where
  "hex4_value a b c d =
     (case (hex_value a, hex_value b, hex_value c, hex_value d) of
        (Some w, Some x, Some y, Some z) \<Rightarrow> Some (4096 * w + 256 * x + 16 * y + z)
      | _ \<Rightarrow> None)"

definition is_high :: "nat \<Rightarrow> bool" where
  "is_high u \<longleftrightarrow> 0xD800 \<le> u \<and> u < 0xDC00"

definition is_low :: "nat \<Rightarrow> bool" where
  "is_low u \<longleftrightarrow> 0xDC00 \<le> u \<and> u < 0xE000"

definition json_backslash :: "(char \<times> nat) list" where
  "json_backslash = (CHR ''/'', 47) # unescape_map"

text \<open>
  After a backslash: the characters it stands for and the rest. A high surrogate takes a following
  escaped low surrogate with it; one that stands alone is kept, as Python keeps it.
\<close>

definition scan_unicode :: "string \<Rightarrow> (string \<times> string) option" where
  "scan_unicode r =
     (case r of
        a # b # c # d # r1 \<Rightarrow>
          (case hex4_value a b c d of
             None \<Rightarrow> None
           | Some u \<Rightarrow>
               if is_high u \<and> take 2 r1 = [CHR 0x5C, CHR ''u''] \<and> 6 \<le> length r1 then
                 (case hex4_value (r1 ! 2) (r1 ! 3) (r1 ! 4) (r1 ! 5) of
                    None \<Rightarrow> None
                  | Some v \<Rightarrow>
                      if is_low v
                      then Some (text_of_cp (0x10000 + (u - 0xD800) * 1024 + (v - 0xDC00)), drop 6 r1)
                      else Some (text_of_cp u, r1))
               else Some (text_of_cp u, r1))
      | _ \<Rightarrow> None)"

definition scan_escape :: "string \<Rightarrow> (string \<times> string) option" where
  "scan_escape r =
     (case r of
        [] \<Rightarrow> None
      | e # r1 \<Rightarrow>
          if e = CHR ''u'' then scan_unicode r1
          else map_option (\<lambda>n. ([char_of n], r1)) (map_of json_backslash e))"

lemma scan_escape_shorter: "scan_escape r = Some (t, r') \<Longrightarrow> length r' < length r"
  by (auto simp: scan_escape_def scan_unicode_def split: list.splits option.splits if_splits)

text \<open>The characters up to the closing quote, and what follows it.\<close>

function scan_str :: "string \<Rightarrow> (string \<times> string) option" where
  "scan_str [] = None"
| "scan_str (c # r) =
     (if c = CHR 0x22 then Some ([], r)
      else if c = CHR 0x5C then
        (case scan_escape r of
           None \<Rightarrow> None
         | Some (t, r1) \<Rightarrow> map_option (\<lambda>(s, r2). (t @ s, r2)) (scan_str r1))
      else if (of_char c :: nat) < 0x20 then None
      else map_option (\<lambda>(s, r1). (c # s, r1)) (scan_str r))"
  by pat_completeness auto
termination
  by (relation "measure length") (auto dest: scan_escape_shorter)

fun read_nat :: "nat \<Rightarrow> string \<Rightarrow> nat" where
  "read_nat n [] = n"
| "read_nat n (c # cs) = read_nat (10 * n + (of_char c - 48)) cs"

definition scan_int_part :: "string \<Rightarrow> (string \<times> string) option" where
  "scan_int_part s =
     (case s of
        [] \<Rightarrow> None
      | c # r \<Rightarrow>
          if c = CHR ''0'' then Some ([c], r)
          else if is_dec c then Some (c # takeWhile is_dec r, dropWhile is_dec r)
          else None)"

definition scan_frac :: "string \<Rightarrow> string \<times> string" where
  "scan_frac s =
     (case s of
        p # d # r \<Rightarrow>
          if p = CHR ''.'' \<and> is_dec d then (p # d # takeWhile is_dec r, dropWhile is_dec r) else ([], s)
      | _ \<Rightarrow> ([], s))"

definition scan_exp :: "string \<Rightarrow> string \<times> string" where
  "scan_exp s =
     (case s of
        e # r \<Rightarrow>
          if e = CHR ''e'' \<or> e = CHR ''E'' then
            (let sign = (if r \<noteq> [] \<and> hd r \<in> {CHR ''+'', CHR ''-''} then [hd r] else []);
                 r1 = drop (length sign) r
             in if r1 \<noteq> [] \<and> is_dec (hd r1) then (e # sign @ takeWhile is_dec r1, dropWhile is_dec r1) else ([], s))
          else ([], s)
      | [] \<Rightarrow> ([], s))"

definition scan_number :: "(string \<Rightarrow> pyfloat) \<Rightarrow> string \<Rightarrow> (json \<times> string) option" where
  "scan_number parse_float s =
     (let neg = (s \<noteq> [] \<and> hd s = CHR ''-'');
          s0 = (if neg then tl s else s)
      in case scan_int_part s0 of
           None \<Rightarrow> None
         | Some (ds, r) \<Rightarrow>
             (let (f, r1) = scan_frac r; (e, r2) = scan_exp r1
              in if f = [] \<and> e = []
                 then Some (JInt (if neg then - int (read_nat 0 ds) else int (read_nat 0 ds)), r2)
                 else Some (JFloat (parse_float ((if neg then ''-'' else []) @ ds @ f @ e)), r2)))"

section \<open>The scanner\<close>

text \<open>A repeated key keeps the place of its first occurrence and takes the last value.\<close>

definition dict_of :: "(string \<times> 'a) list \<Rightarrow> (string \<times> 'a) list" where
  "dict_of kvs = foldl (\<lambda>d (k, v). AList.update k v d) [] kvs"

definition literals :: "(string \<times> json) list" where
  "literals = [(''null'', JNull), (''true'', JBool True), (''false'', JBool False), (''NaN'', JFloat FNaN),
     (''Infinity'', JFloat FInf), (''-Infinity'', JFloat FInf)]"

definition scan_literal :: "string \<Rightarrow> (json \<times> string) option" where
  "scan_literal s =
     map_option (\<lambda>(t, v). (v, drop (length t) s)) (List.find (\<lambda>(t, v). take (length t) s = t) literals)"

fun parse_value :: "(string \<Rightarrow> pyfloat) \<Rightarrow> nat \<Rightarrow> string \<Rightarrow> (json \<times> string) option"
and parse_elems :: "(string \<Rightarrow> pyfloat) \<Rightarrow> nat \<Rightarrow> string \<Rightarrow> (json list \<times> string) option"
and parse_members :: "(string \<Rightarrow> pyfloat) \<Rightarrow> nat \<Rightarrow> string \<Rightarrow> ((string \<times> json) list \<times> string) option" where
  "parse_value pf 0 s = None"
| "parse_value pf (Suc n) s =
     (case s of
        [] \<Rightarrow> None
      | c # r \<Rightarrow>
          if c = CHR 0x22 then map_option (\<lambda>(t, r1). (JStr t, r1)) (scan_str r)
          else if c = CHR ''{'' then
            (if skip_ws r \<noteq> [] \<and> hd (skip_ws r) = CHR ''}'' then Some (JObj [], tl (skip_ws r))
             else map_option (\<lambda>(kvs, r1). (JObj (dict_of kvs), r1)) (parse_members pf n (skip_ws r)))
          else if c = CHR ''['' then
            (if skip_ws r \<noteq> [] \<and> hd (skip_ws r) = CHR '']'' then Some (JList [], tl (skip_ws r))
             else map_option (\<lambda>(vs, r1). (JList vs, r1)) (parse_elems pf n (skip_ws r)))
          else (case scan_literal s of Some vr \<Rightarrow> Some vr | None \<Rightarrow> scan_number pf s))"
| "parse_elems pf 0 s = None"
| "parse_elems pf (Suc n) s =
     (case parse_value pf n s of
        None \<Rightarrow> None
      | Some (v, r) \<Rightarrow>
          (case skip_ws r of
             [] \<Rightarrow> None
           | c # r1 \<Rightarrow>
               if c = CHR '']'' then Some ([v], r1)
               else if c = CHR '','' then map_option (\<lambda>(vs, r2). (v # vs, r2)) (parse_elems pf n (skip_ws r1))
               else None))"
| "parse_members pf 0 s = None"
| "parse_members pf (Suc n) s =
     (case s of
        [] \<Rightarrow> None
      | c # r \<Rightarrow>
          if c \<noteq> CHR 0x22 then None
          else
            (case scan_str r of
               None \<Rightarrow> None
             | Some (k, r1) \<Rightarrow>
                 if skip_ws r1 = [] \<or> hd (skip_ws r1) \<noteq> CHR '':'' then None
                 else
                   (case parse_value pf n (skip_ws (tl (skip_ws r1))) of
                      None \<Rightarrow> None
                    | Some (v, r2) \<Rightarrow>
                        (case skip_ws r2 of
                           [] \<Rightarrow> None
                         | d # r3 \<Rightarrow>
                             if d = CHR ''}'' then Some ([(k, v)], r3)
                             else if d = CHR '','' then
                               map_option (\<lambda>(kvs, r4). ((k, v) # kvs, r4)) (parse_members pf n (skip_ws r3))
                             else None))))"

definition loads :: "(string \<Rightarrow> pyfloat) \<Rightarrow> string \<Rightarrow> json result" where
  "loads pf s =
     (case parse_value pf (2 * length s) (skip_ws s) of
        None \<Rightarrow> Inl (ValueError ''JSONDecodeError'')
      | Some (v, r) \<Rightarrow> if skip_ws r = [] then Inr v else Inl (ValueError ''JSONDecodeError''))"

section \<open>The printer\<close>

text \<open>
  \<open>json.dumps\<close>: how a string is escaped, the separators, and the line break before an item at a
  nesting level (empty without \<open>indent\<close>).
\<close>

record layout =
  lay_str :: "string \<Rightarrow> string"
  lay_item :: string
  lay_key :: string
  lay_nl :: "nat \<Rightarrow> string"

text \<open>\<open>float.__repr__\<close>, from the digits and the exponent of the shortest decimal.\<close>

definition float_repr :: "pyfloat \<Rightarrow> string" where
  "float_repr x =
     (case x of
        FNaN \<Rightarrow> ''NaN''
      | FInf \<Rightarrow> ''Infinity''
      | FZero \<Rightarrow> ''0.0''
      | FFin neg digits exponent \<Rightarrow>
          (let sign = (if neg then ''-'' else []);
               ds = concat (map show_nat digits);
               k = int (length ds);
               n = exponent + k
           in sign @
              (if - 4 < n \<and> n \<le> 0 then ''0.'' @ replicate (nat (- n)) (CHR ''0'') @ ds
               else if 0 < n \<and> n \<le> 16 then
                 (if n < k then take (nat n) ds @ ''.'' @ drop (nat n) ds
                  else ds @ replicate (nat (n - k)) (CHR ''0'') @ ''.0'')
               else
                 (let e = n - 1; es = show_nat (nat \<bar>e\<bar>)
                  in (if k = 1 then ds else take 1 ds @ ''.'' @ drop 1 ds) @ ''e'' @
                     (if e \<ge> 0 then ''+'' else ''-'') @ (if length es < 2 then ''0'' @ es else es)))))"

fun print_json :: "layout \<Rightarrow> nat \<Rightarrow> json \<Rightarrow> string" where
  "print_json L d JNull = ''null''"
| "print_json L d (JBool b) = (if b then ''true'' else ''false'')"
| "print_json L d (JStr s) = lay_str L s"
| "print_json L d (JInt i) = show_int i"
| "print_json L d (JFloat x) = float_repr x"
| "print_json L d (JObj kvs) =
     (if kvs = [] then ''{}''
      else ''{'' @ lay_nl L (Suc d) @
        join (lay_item L @ lay_nl L (Suc d)) (map (\<lambda>(k, v). lay_str L k @ lay_key L @ print_json L (Suc d) v) kvs) @
        lay_nl L d @ ''}'')"
| "print_json L d (JList vs) =
     (if vs = [] then ''[]''
      else ''['' @ lay_nl L (Suc d) @
        join (lay_item L @ lay_nl L (Suc d)) (map (print_json L (Suc d)) vs) @ lay_nl L d @ '']'')"

text \<open>\<open>ensure_ascii\<close>: everything outside the printable ASCII characters is escaped, in UTF-16 units.\<close>

definition hex4 :: "nat \<Rightarrow> string" where
  "hex4 u = [hex_digits ! (u div 4096 mod 16), hex_digits ! (u div 256 mod 16), hex_digits ! (u div 16 mod 16),
     hex_digits ! (u mod 16)]"

definition escape_unit :: "nat \<Rightarrow> string" where
  "escape_unit u = CHR 0x5C # CHR ''u'' # hex4 u"

definition ascii_cp :: "nat \<Rightarrow> string" where
  "ascii_cp p =
     (case map_of escape_map p of
        Some e \<Rightarrow> [CHR 0x5C, e]
      | None \<Rightarrow> if 32 \<le> p \<and> p \<le> 126 then [char_of p] else concat (map escape_unit (utf16_unit p)))"

definition ascii_string :: "string \<Rightarrow> string" where
  "ascii_string s = CHR 0x22 # concat (map ascii_cp (utf8_decode (map of_char s))) @ [CHR 0x22]"

text \<open>\<open>sort_keys\<close>: Python orders strings by code points, which is the order of their UTF-8 bytes.\<close>

fun sort_keys :: "json \<Rightarrow> json" where
  "sort_keys (JObj kvs) =
     JObj (sort_key (\<lambda>kv. map of_char (fst kv) :: nat list) (map (\<lambda>(k, v). (k, sort_keys v)) kvs))"
| "sort_keys (JList vs) = JList (map sort_keys vs)"
| "sort_keys v = v"

definition compact :: layout where
  "compact = \<lparr>lay_str = ascii_string, lay_item = '', '', lay_key = '': '', lay_nl = (\<lambda>d. [])\<rparr>"

definition indented :: layout where
  "indented = \<lparr>lay_str = ascii_string, lay_item = '','', lay_key = '': '',
     lay_nl = (\<lambda>d. CHR 0x0A # replicate (2 * d) (CHR '' ''))\<rparr>"

definition jcs_layout :: layout where
  "jcs_layout = \<lparr>lay_str = encode_string, lay_item = '','', lay_key = '':'', lay_nl = (\<lambda>d. [])\<rparr>"

definition dumps :: "json \<Rightarrow> string" where
  "dumps v = print_json compact 0 v"

definition dumps_indent :: "json \<Rightarrow> string" where
  "dumps_indent v = print_json indented 0 v"

section \<open>Reading numbers back\<close>

definition follow :: "string \<Rightarrow> bool" where
  "follow r \<longleftrightarrow> r = [] \<or> is_ws (hd r) \<or> hd r \<in> {CHR '','', CHR '']'', CHR ''}''}"

lemma follow_simps [simp]: "follow []" "follow (CHR '','' # r)" "follow (CHR '']'' # r)" "follow (CHR ''}'' # r)"
  by (simp_all add: follow_def)

lemma follow_ws: "list_all is_ws w \<Longrightarrow> follow r \<Longrightarrow> follow (w @ r)"
  by (cases w) (simp_all add: follow_def)

lemma follow_not_number:
  assumes "follow r"
  shows "scan_frac r = ([], r)" "scan_exp r = ([], r)" "takeWhile is_dec r = []" "dropWhile is_dec r = r"
  using assms
  by (cases r; auto simp: follow_def scan_frac_def scan_exp_def is_ws_def is_dec_def split: list.splits)+

lemma read_nat_snoc: "read_nat n (cs @ [c]) = 10 * read_nat n cs + (of_char c - 48)"
  by (induction cs arbitrary: n) simp_all

lemma read_show_nat: "read_nat 0 (show_nat n) = n"
proof (induction n rule: show_nat.induct)
  case (1 n)
  show ?case
  proof (cases "n < 10")
    case True
    then show ?thesis by (subst show_nat.simps) (simp add: dec_digit_def)
  next
    case False
    then show ?thesis
      using 1 by (subst show_nat.simps) (simp add: dec_digit_def read_nat_snoc)
  qed
qed

lemma hd_show_nat: "0 < n \<Longrightarrow> hd (show_nat n) \<noteq> CHR ''0''"
proof (induction n rule: show_nat.induct)
  case (1 n)
  have "dec_digit n \<noteq> dec_digit 0" if "n < 10"
    using that 1(2) by simp
  moreover have "dec_digit 0 = CHR ''0''" by code_simp
  ultimately show ?case
    using 1 by (subst show_nat.simps) auto
qed

lemma scan_int_part_show_nat:
  assumes "follow r"
  shows "scan_int_part (show_nat n @ r) = Some (show_nat n, r)"
proof (cases "n = 0")
  case True
  have "show_nat 0 = ''0''" by code_simp
  with True show ?thesis by (simp add: scan_int_part_def)
next
  case False
  obtain c cs where c: "show_nat n = c # cs" by (cases "show_nat n") auto
  have "is_dec c" "\<forall>d\<in>set cs. is_dec d" using show_nat_dec [of _ n] c by auto
  moreover have "c \<noteq> CHR ''0''" using hd_show_nat [of n] False c by simp
  ultimately show ?thesis
    using follow_not_number(3,4) [OF assms] c
    by (simp add: scan_int_part_def takeWhile_append2 dropWhile_append2)
qed

lemma scan_number_show_int:
  assumes "follow r"
  shows "scan_number pf (show_int i @ r) = Some (JInt i, r)"
proof -
  have "hd (show_nat n @ r) \<noteq> CHR ''-''" for n
    using show_nat_not_minus(2) [of n r "tl (show_nat n @ r)"] by (cases "show_nat n") auto
  then show ?thesis
    using scan_int_part_show_nat [OF assms] follow_not_number [OF assms]
    by (auto simp: scan_number_def show_int_def Let_def read_show_nat)
qed

lemma scan_literal_show_int: "scan_literal (show_int i @ r) = None"
proof -
  have d: "is_dec (hd (show_nat n))" for n using show_nat_dec [of "hd (show_nat n)" n] by simp
  obtain c cs where c: "show_nat (nat \<bar>i\<bar>) = c # cs" by (cases "show_nat (nat \<bar>i\<bar>)") auto
  with d [of "nat \<bar>i\<bar>"] have dc: "is_dec c" by simp
  have "show_int i = (if i < 0 then CHR ''-'' # c # cs else c # cs)"
    using c by (simp add: show_int_def abs_if split: if_splits)
  moreover have "c \<noteq> CHR ''n''" "c \<noteq> CHR ''t''" "c \<noteq> CHR ''f''" "c \<noteq> CHR ''N''" "c \<noteq> CHR ''I''" "c \<noteq> CHR ''-''"
    using dc by (auto simp: is_dec_def)
  ultimately show ?thesis
    by (simp add: scan_literal_def literals_def)
qed

section \<open>Reading strings back\<close>

lemma text_of_cp_ascii: "p < 0x80 \<Longrightarrow> text_of_cp p = [char_of p]"
  by (simp add: text_of_cp_def utf8_encode_cp_def)

lemma scan_unicode_single:
  assumes "hex4_value a b c d = Some u" "\<not> is_high u"
  shows "scan_unicode (a # b # c # d # r) = Some (text_of_cp u, r)"
  using assms by (simp add: scan_unicode_def)

lemma scan_str_escape:
  assumes "scan_escape (e @ r) = Some (t, r)"
  shows "scan_str (CHR 0x5C # e @ r) = map_option (\<lambda>(s, r1). (t @ s, r1)) (scan_str r)"
  using assms by simp

lemma scan_str_steps [simp]:
  "scan_str (CHR 0x22 # r) = Some ([], r)"
  "c \<noteq> CHR 0x22 \<Longrightarrow> c \<noteq> CHR 0x5C \<Longrightarrow> 0x20 \<le> (of_char c :: nat) \<Longrightarrow>
     scan_str (c # r) = map_option (\<lambda>(s, r1). (c # s, r1)) (scan_str r)"
  by simp_all

declare scan_str.simps(2) [simp del]

lemma json_backslash_escape_map: "map_of escape_map n = Some e \<Longrightarrow> e \<noteq> CHR ''u'' \<and> map_of json_backslash e = Some n"
  by (auto simp: escape_map_def json_backslash_def unescape_map_def split: if_splits)

lemma hex4_value_control:
  assumes "n < 32"
  shows "hex4_value (CHR ''0'') (CHR ''0'') (hex_byte (of_nat n) ! 0) (hex_byte (of_nat n) ! 1) = Some n"
proof -
  have "unat (of_nat n :: byte) = n" using assms by (simp add: unat_of_nat take_bit_nat_eq_self)
  moreover have "hex_value (CHR ''0'') = Some 0" by code_simp
  ultimately show ?thesis
    using assms hex_digit_value [of "n div 16"] hex_digit_value [of "n mod 16"]
    by (simp add: hex_byte_def hex4_value_def)
qed

lemma scan_esc_char: "scan_str (esc_char c @ r) = map_option (\<lambda>(s, r1). (c # s, r1)) (scan_str r)"
proof -
  define n where "n = (of_char c :: nat)"
  have c: "c = char_of n" "of_char c = (of_nat n :: byte)" by (simp add: n_def, simp only: n_def of_nat_of_char)
  consider e where "map_of escape_map n = Some e" | "map_of escape_map n = None" "n < 32"
    | "map_of escape_map n = None" "\<not> n < 32"
    by (cases "map_of escape_map n") auto
  then show ?thesis
  proof cases
    case 1
    then have "esc_char c = [CHR 0x5C, e]" by (simp add: esc_char_def n_def)
    with 1 json_backslash_escape_map [of n e] c(1) show ?thesis
      using scan_str_escape [of "[e]" r "[c]"] by (simp add: scan_escape_def)
  next
    case 2
    define h where "h = hex_byte (of_nat n)"
    have h: "h = [h ! 0, h ! 1]" by (simp add: h_def hex_byte_def)
    have e: "esc_char c = CHR 0x5C # CHR ''u'' # CHR ''0'' # CHR ''0'' # h"
      using 2 c(2) by (simp add: esc_char_def n_def [symmetric] h_def)
    have "hex4_value (CHR ''0'') (CHR ''0'') (h ! 0) (h ! 1) = Some n"
      using hex4_value_control [OF 2(2)] by (simp add: h_def)
    then have "scan_unicode (CHR ''0'' # CHR ''0'' # h @ r) = Some ([c], r)"
      using scan_unicode_single [of "CHR ''0''" "CHR ''0''" "h ! 0" "h ! 1" n r] 2 c(1)
      by (subst h) (simp add: is_high_def text_of_cp_ascii)
    then have "scan_escape ((CHR ''u'' # CHR ''0'' # CHR ''0'' # h) @ r) = Some ([c], r)"
      by (simp add: scan_escape_def)
    from scan_str_escape [OF this] e show ?thesis by simp
  next
    case 3
    then have "esc_char c = [c]" by (simp add: esc_char_def n_def)
    moreover have "c \<noteq> CHR 0x22" "c \<noteq> CHR 0x5C" using 3 by (auto simp: n_def escape_map_def)
    ultimately show ?thesis using 3 by (simp add: n_def)
  qed
qed

lemma scan_encode_string: "scan_str (concat (map esc_char s) @ CHR 0x22 # r) = Some (s, r)"
  by (induction s) (simp_all add: scan_esc_char)

lemma hex4_value_hex4:
  assumes "u < 65536"
  shows "hex4_value (hex4 u ! 0) (hex4 u ! 1) (hex4 u ! 2) (hex4 u ! 3) = Some u"
proof -
  have q: "u div 4096 mod 16 = u div 4096" using assms by simp
  moreover have "u = 16 * (u div 16) + u mod 16" "u div 16 = 16 * (u div 256) + u div 16 mod 16"
    "u div 256 = 16 * (u div 4096) + u div 256 mod 16"
    using div_mult2_eq [of u 16 16] div_mult2_eq [of u 256 16] by simp_all
  ultimately have "4096 * (u div 4096 mod 16) + 256 * (u div 256 mod 16) + 16 * (u div 16 mod 16) + u mod 16 = u"
    by linarith
  then show ?thesis
    using hex_digit_value [of "u div 4096 mod 16"] hex_digit_value [of "u div 256 mod 16"]
      hex_digit_value [of "u div 16 mod 16"] hex_digit_value [of "u mod 16"]
    by (simp add: hex4_def hex4_value_def del: mod_less)
qed

lemma hex4_shape: "hex4 u = [hex4 u ! 0, hex4 u ! 1, hex4 u ! 2, hex4 u ! 3]"
  by (simp add: hex4_def)

lemma scan_unicode_hex4:
  assumes "u < 65536" "\<not> is_high u"
  shows "scan_unicode (hex4 u @ r) = Some (text_of_cp u, r)"
  using scan_unicode_single [OF hex4_value_hex4 [OF assms(1)] assms(2)] by (subst hex4_shape) simp

lemma scan_unicode_pair:
  assumes "is_high u" "is_low v"
  shows "scan_unicode (hex4 u @ escape_unit v @ r) =
    Some (text_of_cp (0x10000 + (u - 0xD800) * 1024 + (v - 0xDC00)), r)"
proof -
  have "u < 65536" "v < 65536" using assms by (simp_all add: is_high_def is_low_def)
  note h = this [THEN hex4_value_hex4]
  obtain a b c d where v: "hex4 v = [a, b, c, d]" using hex4_shape by blast
  show ?thesis
    using h assms v by (subst hex4_shape) (simp add: scan_unicode_def escape_unit_def)
qed

lemma scan_ascii_cp:
  assumes "scalar p"
  shows "scan_str (ascii_cp p @ r) = map_option (\<lambda>(s, r1). (text_of_cp p @ s, r1)) (scan_str r)"
proof -
  consider e where "map_of escape_map p = Some e"
    | "map_of escape_map p = None" "32 \<le> p" "p \<le> 126"
    | "map_of escape_map p = None" "\<not> (32 \<le> p \<and> p \<le> 126)" "p < 0x10000"
    | "map_of escape_map p = None" "0x10000 \<le> p"
    by (cases "map_of escape_map p") (simp, linarith)
  then show ?thesis
  proof cases
    case 1
    then have "p < 0x80" by (auto simp: escape_map_def split: if_splits)
    then have "scan_escape ([e] @ r) = Some (text_of_cp p, r)"
      using json_backslash_escape_map [OF 1] by (simp add: scan_escape_def text_of_cp_ascii)
    from scan_str_escape [OF this] 1 show ?thesis by (simp add: ascii_cp_def)
  next
    case 2
    have "char_of p \<noteq> CHR 0x22" "char_of p \<noteq> CHR 0x5C"
      using 2 by (auto simp: escape_map_def dest: arg_cong [where f = "of_char :: char \<Rightarrow> nat"])
    then show ?thesis using 2 by (simp add: ascii_cp_def text_of_cp_ascii)
  next
    case 3
    with assms have "\<not> is_high p" "p < 65536" by (auto simp: scalar_def is_high_def)
    then have e: "scan_escape ((CHR ''u'' # hex4 p) @ r) = Some (text_of_cp p, r)"
      by (simp add: scan_escape_def scan_unicode_hex4)
    have "ascii_cp p = CHR 0x5C # CHR ''u'' # hex4 p"
      using 3 by (auto simp: ascii_cp_def utf16_unit_def escape_unit_def)
    with scan_str_escape [OF e] show ?thesis by simp
  next
    case 4
    define u v where "u = 0xD800 + (p - 0x10000) div 1024" and "v = 0xDC00 + (p - 0x10000) mod 1024"
    have uv: "is_high u" "is_low v"
      using 4 assms by (auto simp: u_def v_def is_high_def is_low_def scalar_def)
    have p: "0x10000 + (u - 0xD800) * 1024 + (v - 0xDC00) = p"
      using 4 by (simp add: u_def v_def)
    have e: "scan_escape ((CHR ''u'' # hex4 u @ escape_unit v) @ r) = Some (text_of_cp p, r)"
      using scan_unicode_pair [OF uv, of r] p by (simp add: scan_escape_def)
    have "ascii_cp p = CHR 0x5C # CHR ''u'' # hex4 u @ escape_unit v"
      using 4 by (simp add: ascii_cp_def utf16_unit_def u_def v_def) (simp add: escape_unit_def)
    with scan_str_escape [OF e] show ?thesis by simp
  qed
qed

lemma scan_ascii_cps:
  "list_all scalar ps \<Longrightarrow>
   scan_str (concat (map ascii_cp ps) @ CHR 0x22 # r) = Some (concat (map text_of_cp ps), r)"
  by (induction ps) (simp_all add: scan_ascii_cp)

lemma scan_ascii_string:
  assumes "valid_text s"
  shows "scan_str (tl (ascii_string s) @ r) = Some (s, r)"
proof -
  have v: "concat (map utf8_encode_cp (utf8_decode (map of_char s))) = (map of_char s :: nat list)"
    "list_all scalar (utf8_decode (map of_char s))"
    using utf8_roundtrip assms by (simp_all add: valid_text_def)
  have "concat (map text_of_cp ps) = map char_of (concat (map utf8_encode_cp ps))" for ps
    by (induction ps) (simp_all add: text_of_cp_def)
  with v(1) have "concat (map text_of_cp (utf8_decode (map of_char s))) = s"
    by (simp add: comp_def)
  with scan_ascii_cps [OF v(2), of r] show ?thesis by (simp add: ascii_string_def)
qed

section \<open>Reading values back\<close>

definition good_layout :: "layout \<Rightarrow> (string \<Rightarrow> bool) \<Rightarrow> bool" where
  "good_layout L P \<longleftrightarrow>
     (\<forall>s. P s \<longrightarrow> (\<exists>b. lay_str L s = CHR 0x22 # b \<and> (\<forall>r. scan_str (b @ r) = Some (s, r)))) \<and>
     (\<exists>w. lay_item L = CHR '','' # w \<and> list_all is_ws w) \<and>
     (\<exists>w. lay_key L = CHR '':'' # w \<and> list_all is_ws w) \<and>
     (\<forall>d. list_all is_ws (lay_nl L d))"

text \<open>Values whose strings satisfy \<open>P\<close>, whose objects have distinct keys, and without floats.\<close>

fun printable :: "(string \<Rightarrow> bool) \<Rightarrow> json \<Rightarrow> bool" where
  "printable P (JStr s) \<longleftrightarrow> P s"
| "printable P (JFloat x) \<longleftrightarrow> False"
| "printable P (JObj kvs) \<longleftrightarrow> distinct (map fst kvs) \<and> list_all (\<lambda>(k, v). P k \<and> printable P v) kvs"
| "printable P (JList vs) \<longleftrightarrow> list_all (printable P) vs"
| "printable P _ \<longleftrightarrow> True"

lemma update_fresh: "k \<notin> set (map fst d) \<Longrightarrow> AList.update k v d = d @ [(k, v)]"
  by (induction d) auto

lemma dict_of_distinct:
  assumes "distinct (map fst kvs)"
  shows "dict_of kvs = kvs"
proof -
  have "distinct (map fst (d @ kvs)) \<Longrightarrow> foldl (\<lambda>d (k, v). AList.update k v d) d kvs = d @ kvs" for d
  proof (induction kvs arbitrary: d)
    case (Cons kv kvs)
    then show ?case by (cases kv) (simp add: update_fresh)
  qed simp
  from this [of "[]"] assms show ?thesis by (simp add: dict_of_def)
qed

lemma skip_ws_append: "list_all is_ws w \<Longrightarrow> \<not> is_ws c \<Longrightarrow> skip_ws (w @ c # r) = c # r"
  by (induction w) (simp_all add: skip_ws_def)

lemma punctuation_not_ws [simp]:
  "\<not> is_ws (CHR '','')" "\<not> is_ws (CHR '':'')" "\<not> is_ws (CHR ''['')" "\<not> is_ws (CHR '']'')"
  "\<not> is_ws (CHR ''{'')" "\<not> is_ws (CHR ''}'')" "\<not> is_ws (CHR 0x22)"
  by (simp_all add: is_ws_def)

definition value_start :: "char \<Rightarrow> bool" where
  "value_start c \<longleftrightarrow> \<not> is_ws c \<and> c \<noteq> CHR '']'' \<and> c \<noteq> CHR ''}''"

lemma print_json_start:
  assumes "good_layout L P" "printable P v"
  obtains c t where "print_json L d v = c # t" "value_start c"
proof -
  have "\<exists>c t. show_int i = c # t \<and> value_start c" for i
  proof -
    have "is_dec (hd (show_nat n))" for n using show_nat_dec [of "hd (show_nat n)" n] by simp
    moreover have "value_start c" if "is_dec c" for c
      using that by (auto simp: value_start_def is_dec_def is_ws_def)
    moreover have "value_start (CHR ''-'')" by (simp add: value_start_def is_ws_def)
    ultimately show ?thesis
      by (cases "show_nat (nat i)") (auto simp: show_int_def, metis list.sel(1))
  qed
  moreover have "value_start (CHR 0x22)" by (simp add: value_start_def)
  then have "P s \<Longrightarrow> \<exists>c t. lay_str L s = c # t \<and> value_start c" for s
    using assms(1) by (auto simp: good_layout_def)
  moreover have "value_start (CHR ''n'')" "value_start (CHR ''t'')" "value_start (CHR ''f'')"
      "value_start (CHR ''{'')" "value_start (CHR ''['')"
    by (simp_all add: value_start_def is_ws_def)
  ultimately have "\<exists>c t. print_json L d v = c # t \<and> value_start c"
    using assms(2) by (cases v) auto
  then show ?thesis using that by blast
qed

text \<open>What the scanner needs to read one printed item back, whatever follows it.\<close>

definition reads :: "(string \<Rightarrow> pyfloat) \<Rightarrow> string \<Rightarrow> json \<Rightarrow> bool" where
  "reads pf t v \<longleftrightarrow> (\<forall>n r. follow r \<longrightarrow> 2 * length t \<le> n \<longrightarrow> parse_value pf n (t @ r) = Some (v, r))"

lemma readsD: "reads pf t v \<Longrightarrow> follow r \<Longrightarrow> 2 * length t \<le> n \<Longrightarrow> parse_value pf n (t @ r) = Some (v, r)"
  by (simp add: reads_def)

lemma readsI:
  assumes "\<And>m r. follow r \<Longrightarrow> 2 * length t + 1 \<le> m \<Longrightarrow> parse_value pf (Suc m) (c # t @ r) = Some (v, r)"
  shows "reads pf (c # t) v"
  unfolding reads_def
proof (intro allI impI)
  fix n r assume "follow r" "2 * length (c # t) \<le> n"
  then obtain m where "n = Suc m" "2 * length t + 1 \<le> m" by (cases n) auto
  with assms \<open>follow r\<close> show "parse_value pf n ((c # t) @ r) = Some (v, r)" by simp
qed

lemma parse_elems_join:
  assumes "vs \<noteq> []" "list_all is_ws w" "list_all is_ws e"
    and "\<And>v. v \<in> set vs \<Longrightarrow> reads pf (f v) v" "\<And>v. v \<in> set vs \<Longrightarrow> \<exists>c t. f v = c # t \<and> value_start c"
    and "2 * length (join (CHR '','' # w) (map f vs)) + 1 \<le> n"
  shows "parse_elems pf n (join (CHR '','' # w) (map f vs) @ e @ CHR '']'' # r) = Some (vs, r)"
  using assms(1,4-6)
proof (induction vs arbitrary: n)
  case (Cons v vs)
  then obtain m where n: "n = Suc m" by (cases n) auto
  show ?case
  proof (cases "vs = []")
    case True
    with Cons.prems n have "parse_value pf m (f v @ e @ CHR '']'' # r) = Some (v, e @ CHR '']'' # r)"
      by (intro readsD) (auto intro: follow_ws [OF assms(3)])
    with True n show ?thesis by (simp add: skip_ws_append [OF assms(3)])
  next
    case False
    let ?rest = "join (CHR '','' # w) (map f vs) @ e @ CHR '']'' # r"
    have len: "2 * length (f v) \<le> m" "2 * length (join (CHR '','' # w) (map f vs)) + 1 \<le> m"
      using Cons.prems(4) False n by (simp_all add: join_Cons)
    have "parse_value pf m (f v @ CHR '','' # w @ ?rest) = Some (v, CHR '','' # w @ ?rest)"
      using Cons.prems(2) len(1) by (intro readsD) simp_all
    moreover obtain c t where "?rest = c # t" "value_start c"
      using False Cons.prems(3) by (cases vs) (auto simp: join_Cons, fastforce)
    then have "skip_ws (w @ ?rest) = ?rest" using skip_ws_append [OF assms(2)] by (simp add: value_start_def)
    moreover have "parse_elems pf m ?rest = Some (vs, r)"
      using Cons.IH [OF False] Cons.prems(2,3) len(2) by simp
    ultimately show ?thesis
      using False n skip_ws_append [of "[]" "CHR '',''" "w @ ?rest"] by (simp add: join_Cons)
  qed
qed simp

text \<open>The members of an object: a key, its separator and a value each.\<close>

definition member_text :: "(string \<Rightarrow> string) \<Rightarrow> string \<Rightarrow> (json \<Rightarrow> string) \<Rightarrow> string \<times> json \<Rightarrow> string" where
  "member_text es ks f kv = es (fst kv) @ ks @ f (snd kv)"

definition reads_key :: "(string \<Rightarrow> string) \<Rightarrow> string \<Rightarrow> bool" where
  "reads_key es k \<longleftrightarrow> (\<exists>b. es k = CHR 0x22 # b \<and> (\<forall>r. scan_str (b @ r) = Some (k, r)))"

lemma parse_members_one:
  assumes "reads_key es k" "list_all is_ws w" "reads pf (f v) v" "\<exists>c t. f v = c # t \<and> value_start c"
    and "follow r" "2 * length (member_text es (CHR '':'' # w) f (k, v)) \<le> m"
  shows "parse_members pf (Suc m) (member_text es (CHR '':'' # w) f (k, v) @ r) =
    (case skip_ws r of
       [] \<Rightarrow> None
     | d # r3 \<Rightarrow>
         if d = CHR ''}'' then Some ([(k, v)], r3)
         else if d = CHR '','' then
           map_option (\<lambda>(kvs, r4). ((k, v) # kvs, r4)) (parse_members pf m (skip_ws r3))
         else None)"
proof -
  obtain b where b: "es k = CHR 0x22 # b" "\<And>r. scan_str (b @ r) = Some (k, r)"
    using assms(1) by (auto simp: reads_key_def)
  obtain c t where c: "f v = c # t" "\<not> is_ws c" using assms(4) by (auto simp: value_start_def)
  have "skip_ws (CHR '':'' # w @ f v @ r) = CHR '':'' # w @ f v @ r"
    using skip_ws_append [of "[]" "CHR '':''"] by simp
  moreover have "skip_ws (w @ f v @ r) = f v @ r" using skip_ws_append [OF assms(2) c(2)] c(1) by simp
  moreover have "parse_value pf m (f v @ r) = Some (v, r)"
    using assms(3,5,6) by (intro readsD) (simp_all add: member_text_def)
  ultimately show ?thesis using b by (simp add: member_text_def)
qed

lemma parse_members_join:
  assumes "kvs \<noteq> []" "list_all is_ws w" "list_all is_ws w'" "list_all is_ws e"
    and "\<And>k v. (k, v) \<in> set kvs \<Longrightarrow> reads_key es k \<and> reads pf (f v) v \<and> (\<exists>c t. f v = c # t \<and> value_start c)"
    and "2 * length (join (CHR '','' # w) (map (member_text es (CHR '':'' # w') f) kvs)) + 1 \<le> n"
  shows "parse_members pf n (join (CHR '','' # w) (map (member_text es (CHR '':'' # w') f) kvs) @ e @ CHR ''}'' # r) =
    Some (kvs, r)"
  using assms(1,5,6)
proof (induction kvs arbitrary: n)
  case (Cons kv kvs)
  let ?g = "member_text es (CHR '':'' # w') f"
  obtain k v where kv: "kv = (k, v)" by (cases kv)
  from Cons.prems(3) obtain m where n: "n = Suc m" by (cases n) auto
  have one: "parse_members pf (Suc m) (?g (k, v) @ r) =
      (case skip_ws r of [] \<Rightarrow> None | d # r3 \<Rightarrow>
         if d = CHR ''}'' then Some ([(k, v)], r3)
         else if d = CHR '','' then map_option (\<lambda>(kvs, r4). ((k, v) # kvs, r4)) (parse_members pf m (skip_ws r3))
         else None)" if "follow r" for r
    using Cons.prems(2) [of k v] Cons.prems(3) kv n that
    by (intro parse_members_one [OF _ assms(3)]) (auto simp: join_Cons split: if_splits)
  show ?case
  proof (cases "kvs = []")
    case True
    with kv n one [OF follow_ws [OF assms(4)], of "CHR ''}'' # r"] show ?thesis
      by (simp add: skip_ws_append [OF assms(4)])
  next
    case False
    let ?rest = "join (CHR '','' # w) (map ?g kvs) @ e @ CHR ''}'' # r"
    obtain c t where "?rest = c # t" "\<not> is_ws c"
      using False Cons.prems(2)
      by (cases kvs) (auto simp: join_Cons member_text_def reads_key_def, metis append_Cons punctuation_not_ws(7))
    then have "skip_ws (w @ ?rest) = ?rest" using skip_ws_append [OF assms(2)] by simp
    moreover have "parse_members pf m ?rest = Some (kvs, r)"
      using Cons.prems(2,3) n False by (intro Cons.IH) (auto simp: join_Cons)
    ultimately show ?thesis
      using False n kv one [of "CHR '','' # w @ ?rest"] skip_ws_append [of "[]" "CHR '',''" "w @ ?rest"]
      by (simp add: join_Cons)
  qed
qed simp

lemma good_layout_reads_key: "good_layout L P \<Longrightarrow> P k \<Longrightarrow> reads_key (lay_str L) k"
  by (auto simp: good_layout_def reads_key_def)

lemma print_json_reads:
  assumes L: "good_layout L P"
  shows "printable P v \<Longrightarrow> reads pf (print_json L d v) v"
proof (induction v arbitrary: d)
  case (JStr s)
  then obtain b where "lay_str L s = CHR 0x22 # b" "\<And>r. scan_str (b @ r) = Some (s, r)"
    using L by (auto simp: good_layout_def)
  then show ?case by (auto intro: readsI)
next
  case (JInt i)
  obtain c t where c: "show_int i = c # t" "is_dec c \<or> c = CHR ''-''"
    using show_nat_dec [of "hd (show_nat (nat \<bar>i\<bar>))" "nat \<bar>i\<bar>"]
    by (cases "show_nat (nat \<bar>i\<bar>)") (auto simp: show_int_def abs_if split: if_splits)
  then have "c \<noteq> CHR 0x22" "c \<noteq> CHR ''{''" "c \<noteq> CHR ''[''" by (auto simp: is_dec_def)
  moreover have "scan_literal (c # t @ r) = None" for r using scan_literal_show_int [of i r] c by simp
  moreover have "scan_number pf (c # t @ r) = Some (JInt i, r)" if "follow r" for r
    using scan_number_show_int [OF that, of pf i] c by simp
  ultimately show ?case using c by (auto intro: readsI)
next
  case (JList vs)
  obtain w where w: "lay_item L = CHR '','' # w" "list_all is_ws w" using L by (auto simp: good_layout_def)
  have nl: "list_all is_ws (lay_nl L d)" for d using L by (simp add: good_layout_def)
  show ?case
  proof (cases "vs = []")
    case True
    then show ?thesis
      using skip_ws_append [of "[]" "CHR '']''"] by (auto intro: readsI)
  next
    case False
    let ?f = "print_json L (Suc d)"
    let ?j = "join (CHR '','' # w @ lay_nl L (Suc d)) (map ?f vs)"
    have st: "\<exists>c t. ?f v = c # t \<and> value_start c" if "v \<in> set vs" for v
      using print_json_start [OF L, of v] JList.prems that by (auto simp: list_all_iff) metis
    have el: "parse_elems pf m (?j @ lay_nl L d @ CHR '']'' # r) = Some (vs, r)" if "2 * length ?j + 1 \<le> m" for m r
      using False JList w nl st that by (intro parse_elems_join) (auto simp: list_all_iff)
    obtain c t where ct: "?j = c # t" "value_start c"
      using False st by (cases vs) (auto simp: join_Cons, fastforce)
    then have "skip_ws (lay_nl L (Suc d) @ ?j @ x) = ?j @ x" for x
      using skip_ws_append [OF nl] by (simp add: value_start_def)
    with el ct False w show ?thesis
      by (auto simp: value_start_def intro!: readsI)
  qed
next
  case (JObj kvs)
  obtain w where w: "lay_item L = CHR '','' # w" "list_all is_ws w" using L by (auto simp: good_layout_def)
  obtain w' where w': "lay_key L = CHR '':'' # w'" "list_all is_ws w'" using L by (auto simp: good_layout_def)
  have nl: "list_all is_ws (lay_nl L d)" for d using L by (simp add: good_layout_def)
  show ?case
  proof (cases "kvs = []")
    case True
    then show ?thesis
      using skip_ws_append [of "[]" "CHR ''}''"] by (auto intro: readsI)
  next
    case False
    let ?f = "print_json L (Suc d)"
    let ?g = "member_text (lay_str L) (CHR '':'' # w') ?f"
    let ?j = "join (CHR '','' # w @ lay_nl L (Suc d)) (map ?g kvs)"
    have g: "(\<lambda>(k, v). lay_str L k @ lay_key L @ ?f v) = ?g"
      using w' by (auto simp: member_text_def fun_eq_iff)
    have it: "reads_key (lay_str L) k \<and> reads pf (?f v) v \<and> (\<exists>c t. ?f v = c # t \<and> value_start c)"
      if "(k, v) \<in> set kvs" for k v
    proof -
      have "P k" "printable P v" using JObj.prems that by (auto simp: list_all_iff)
      then show ?thesis
        using good_layout_reads_key [OF L] JObj.IH [OF that, of v "Suc d"] print_json_start [OF L, of v "Suc d"]
        by (auto simp: snds.simps) metis
    qed
    have el: "parse_members pf m (?j @ lay_nl L d @ CHR ''}'' # r) = Some (kvs, r)" if "2 * length ?j + 1 \<le> m" for m r
      using False w w' nl it that by (intro parse_members_join) auto
    obtain k v kvs' where kvs: "kvs = (k, v) # kvs'" using False by (metis list.exhaust surj_pair)
    then obtain b where "lay_str L k = CHR 0x22 # b" using it [of k v] by (auto simp: reads_key_def)
    then obtain t where ct: "?j = CHR 0x22 # t" using kvs by (simp add: join_Cons member_text_def)
    then have sk: "skip_ws (lay_nl L (Suc d) @ ?j @ x) = ?j @ x" for x
      using skip_ws_append [OF nl, of "CHR 0x22"] by simp
    have "print_json L d (JObj kvs) = CHR ''{'' # lay_nl L (Suc d) @ ?j @ lay_nl L d @ ''}''"
      using False w(1) by (simp add: g)
    moreover have "reads pf (CHR ''{'' # lay_nl L (Suc d) @ ?j @ lay_nl L d @ ''}'') (JObj kvs)"
    proof (rule readsI)
      fix m r assume "2 * length (lay_nl L (Suc d) @ ?j @ lay_nl L d @ ''}'') + 1 \<le> m"
      then have "parse_members pf m (?j @ lay_nl L d @ CHR ''}'' # r) = Some (kvs, r)" by (intro el) simp
      moreover have "dict_of kvs = kvs" using JObj.prems by (simp add: dict_of_distinct)
      moreover have "?j @ x \<noteq> [] \<and> hd (?j @ x) \<noteq> CHR ''}''" for x by (simp add: ct)
      ultimately show "parse_value pf (Suc m) (CHR ''{'' # (lay_nl L (Suc d) @ ?j @ lay_nl L d @ ''}'') @ r) =
          Some (JObj kvs, r)"
        by (simp add: sk)
    qed
    ultimately show ?thesis by (simp only:)
  qed
qed (auto simp: scan_literal_def literals_def intro!: readsI)

lemma loads_print_json:
  assumes "good_layout L P" "printable P v"
  shows "loads pf (print_json L 0 v) = Inr v"
proof -
  obtain c t where "print_json L 0 v = c # t" "value_start c" using print_json_start [OF assms] .
  then have "skip_ws (print_json L 0 v) = print_json L 0 v"
    using skip_ws_append [of "[]" c t] by (simp add: value_start_def)
  moreover have "parse_value pf (2 * length (print_json L 0 v)) (print_json L 0 v @ []) = Some (v, [])"
    using print_json_reads [OF assms] by (rule readsD) simp_all
  ultimately show ?thesis by (simp add: loads_def skip_ws_def)
qed

lemma good_layouts:
  "good_layout compact valid_text" "good_layout indented valid_text" "good_layout jcs_layout (\<lambda>s. True)"
proof -
  have "\<exists>b. ascii_string s = CHR 0x22 # b \<and> (\<forall>r. scan_str (b @ r) = Some (s, r))" if "valid_text s" for s
    using scan_ascii_string [OF that] by (auto simp: ascii_string_def)
  then show "good_layout compact valid_text" "good_layout indented valid_text"
    by (auto simp: good_layout_def compact_def indented_def is_ws_def list_all_iff)
  show "good_layout jcs_layout (\<lambda>s. True)"
    using scan_encode_string by (auto simp: good_layout_def jcs_layout_def encode_string_def)
qed

lemma loads_dumps: "printable valid_text v \<Longrightarrow> loads pf (dumps v) = Inr v"
  unfolding dumps_def by (rule loads_print_json [OF good_layouts(1)])

lemma loads_dumps_indent: "printable valid_text v \<Longrightarrow> loads pf (dumps_indent v) = Inr v"
  unfolding dumps_indent_def by (rule loads_print_json [OF good_layouts(2)])

text \<open>The canonical text is one of the printed forms, so the scanner reads it back too.\<close>

lemma jcs_layout_simps:
  "lay_str jcs_layout = encode_string" "lay_item jcs_layout = '',''" "lay_key jcs_layout = '':''"
  "lay_nl jcs_layout d = []"
  by (simp_all add: jcs_layout_def)

lemma render_print_json: "no_floats v \<Longrightarrow> render v = print_json jcs_layout d v"
proof (induction v arbitrary: d)
  case (JList vs)
  then have e: "map render vs = map (print_json jcs_layout (Suc d)) vs" by (auto simp: list_all_iff)
  show ?case by (simp add: e jcs_layout_simps)
next
  case (JObj kvs)
  have "render v = print_json jcs_layout (Suc d) v" if "(k, v) \<in> set kvs" for k v
    using JObj.IH [OF that, of v "Suc d"] JObj.prems that by (auto simp: list_all_iff)
  then have e: "map (\<lambda>(k, v). encode_string k @ '':'' @ v) (map (\<lambda>(k, v). (k, render v)) kvs) =
      map (\<lambda>(k, v). lay_str jcs_layout k @ lay_key jcs_layout @ print_json jcs_layout (Suc d) v) kvs"
    by (auto simp: jcs_layout_simps)
  show ?case unfolding render.simps encode_items_def e by (simp add: jcs_layout_simps)
qed (simp_all add: jcs_layout_simps)

lemma printable_wf: "wf_json v \<Longrightarrow> no_floats v \<Longrightarrow> printable (\<lambda>s. True) v"
proof (induction v)
  case (JObj kvs)
  then have "distinct (map (utf16_key \<circ> fst) kvs)" by (simp add: comp_def)
  then have "distinct (map fst kvs)" by (metis distinct_map map_map)
  with JObj show ?case by (fastforce simp: list_all_iff)
qed (auto simp: list_all_iff)

lemma wf_json_norm: "wf_json v \<Longrightarrow> wf_json (norm v)"
proof (induction v)
  case (JObj kvs)
  have "distinct (map (\<lambda>kv. utf16_key (fst kv)) (sort_items xs))"
    if "distinct (map (\<lambda>kv. utf16_key (fst kv)) xs)" for xs :: "(string \<times> json) list"
    using that distinct_sort by (simp add: sort_items_def distinct_map inj_on_def)
  note d = this
  have e: "map (\<lambda>kv. utf16_key (fst kv)) (map (\<lambda>(k, v). (k, norm v)) kvs) = map (\<lambda>kv. utf16_key (fst kv)) kvs"
    by auto
  have "distinct (map (\<lambda>kv. utf16_key (fst kv)) (map (\<lambda>(k, v). (k, norm v)) kvs))"
    unfolding e using JObj.prems by simp
  from d [OF this] show ?case using JObj by (auto simp: norm.simps(1) list_all_iff)
qed (auto simp: list_all_iff)

lemma loads_jcs:
  assumes "wf_json v" "no_floats v" "jcs v = Inr t"
  shows "loads pf t = Inr (norm v)"
proof -
  have "t = print_json jcs_layout 0 (norm v)"
    using assms(2,3) render_print_json [of "norm v" 0] by (simp add: jcs_render)
  moreover have "printable (\<lambda>s. True) (norm v)"
    using assms by (intro printable_wf) (simp_all add: wf_json_norm)
  ultimately show ?thesis by (simp add: loads_print_json [OF good_layouts(3)])
qed

section \<open>The fuel is enough\<close>

lemma length_skip_ws: "length (skip_ws s) \<le> length s"
  by (simp add: skip_ws_def length_dropWhile_le)

lemma scan_str_shorter: "scan_str s = Some (t, r) \<Longrightarrow> length r < length s"
proof (induction s arbitrary: t r rule: scan_str.induct)
  case (2 c s)
  from "2.prems" show ?case
    using "2.IH" by (simp add: scan_str.simps(2) split: if_splits option.splits)
      (fastforce dest: scan_escape_shorter)+
qed simp

lemma scan_int_part_shorter: "scan_int_part s = Some (d, r) \<Longrightarrow> length r < length s"
  by (auto simp: scan_int_part_def length_dropWhile_le less_Suc_eq_le split: list.splits if_splits)

lemma scan_frac_le: "scan_frac s = (d, r) \<Longrightarrow> length r \<le> length s"
  by (auto simp: scan_frac_def split: list.splits if_splits intro: le_SucI length_dropWhile_le)

lemma scan_exp_le: "scan_exp s = (d, r) \<Longrightarrow> length r \<le> length s"
proof -
  have "length (dropWhile p xs) \<le> Suc (length xs)" "length (dropWhile p (drop n xs)) \<le> Suc (length xs)"
    for p n and xs :: string
    using length_dropWhile_le [of p xs] length_dropWhile_le [of p "drop n xs"] by auto
  then show "scan_exp s = (d, r) \<Longrightarrow> length r \<le> length s"
    by (auto simp: scan_exp_def Let_def split: list.splits if_splits)
qed

lemma scan_number_shorter: "scan_number pf s = Some (v, r) \<Longrightarrow> length r < length s"
  by (auto simp: scan_number_def Let_def split: if_splits option.splits prod.splits
      dest!: scan_int_part_shorter scan_frac_le scan_exp_le)

lemma scan_literal_shorter: "scan_literal s = Some (v, r) \<Longrightarrow> length r < length s"
  by (cases s) (auto simp: scan_literal_def literals_def split: if_splits)

lemma parse_shorter:
  "parse_value pf n s = Some (v, r) \<Longrightarrow> length r < length s"
  "parse_elems pf n s = Some (vs, r) \<Longrightarrow> length r < length s"
  "parse_members pf n s = Some (kvs, r) \<Longrightarrow> length r < length s"
proof (induction pf n s and pf n s and pf n s arbitrary: v r and vs r and kvs r
    rule: parse_value_parse_elems_parse_members.induct)
  case (2 pf n s)
  have le: "length (tl (skip_ws x)) \<le> length x" for x using length_skip_ws [of x] by simp
  show ?case
  proof (cases s)
    case (Cons c x)
    from 2 Cons show ?thesis
      using le [of x] length_skip_ws [of x]
      by (auto simp del: length_tl split: if_splits option.splits prod.splits
          dest: scan_str_shorter scan_literal_shorter scan_number_shorter)
        (fastforce intro: less_SucI less_le_trans)+
  qed (use 2 in simp)
next
  case (4 pf n s)
  from "4.prems" obtain v1 r1 c r2 where p: "parse_value pf n s = Some (v1, r1)" "skip_ws r1 = c # r2"
    and c: "c = CHR '']'' \<and> r = r2 \<or> c = CHR '','' \<and> (\<exists>vs'. parse_elems pf n (skip_ws r2) = Some (vs', r))"
    by (auto split: option.splits list.splits if_splits)
  have "length r1 < length s" using "4.IH"(1) p(1) .
  moreover have "length r2 < length r1" using length_skip_ws [of r1] p(2) by simp
  moreover have "length r \<le> length r2"
    using c "4.IH"(2) [OF p(1) refl p(2)] length_skip_ws [of r2] by fastforce
  ultimately show ?case by simp
next
  case (6 pf n s)
  from "6.prems" obtain x k r1 v1 r2 d r3 where p: "s = CHR 0x22 # x" "scan_str x = Some (k, r1)"
      "skip_ws r1 \<noteq> []" "hd (skip_ws r1) = CHR '':''"
      "parse_value pf n (skip_ws (tl (skip_ws r1))) = Some (v1, r2)" "skip_ws r2 = d # r3"
    and d: "d = CHR ''}'' \<and> r = r3 \<or> d = CHR '','' \<and> (\<exists>kvs'. parse_members pf n (skip_ws r3) = Some (kvs', r))"
    by (auto split: option.splits list.splits if_splits)
  have "length r1 < length s" using scan_str_shorter [OF p(2)] p(1) by simp
  moreover have "length r2 < length (skip_ws (tl (skip_ws r1)))"
    using "6.IH"(1) [OF p(1) _ p(2) refl _ p(5)] p(3,4) by simp
  moreover have "length (skip_ws (tl (skip_ws r1))) \<le> length r1"
    using length_skip_ws [of "tl (skip_ws r1)"] length_skip_ws [of r1] by simp
  moreover have "length r3 < length r2" using length_skip_ws [of r2] p(6) by simp
  moreover have "length r \<le> length r3"
    using d "6.IH"(2) [OF p(1) _ p(2) refl _ p(5) refl p(6)] p(3,4) length_skip_ws [of r3] by fastforce
  ultimately show ?case by simp
qed simp_all

lemma parse_more_fuel:
  "2 * length s \<le> n \<Longrightarrow> parse_value pf (Suc n) s = parse_value pf n s"
  "2 * length s + 1 \<le> n \<Longrightarrow> parse_elems pf (Suc n) s = parse_elems pf n s"
  "2 * length s + 1 \<le> n \<Longrightarrow> parse_members pf (Suc n) s = parse_members pf n s"
proof (induction pf n s and pf n s and pf n s rule: parse_value_parse_elems_parse_members.induct)
  case (2 pf n s)
  show ?case
  proof (cases s)
    case (Cons c x)
    have "2 * length (skip_ws x) + 1 \<le> n" using length_skip_ws [of x] "2.prems" Cons by simp
    then have "parse_elems pf (Suc n) (skip_ws x) = parse_elems pf n (skip_ws x)" if "c = CHR ''[''"
        "\<not> (skip_ws x \<noteq> [] \<and> hd (skip_ws x) = CHR '']'')"
      using "2.IH"(2) [OF Cons] that by simp
    moreover have "parse_members pf (Suc n) (skip_ws x) = parse_members pf n (skip_ws x)" if "c = CHR ''{''"
        "\<not> (skip_ws x \<noteq> [] \<and> hd (skip_ws x) = CHR ''}'')"
      using "2.IH"(1) [OF Cons] that \<open>2 * length (skip_ws x) + 1 \<le> n\<close> by simp
    ultimately show ?thesis
      unfolding Cons by (subst (1 2) parse_value.simps(2)) (auto simp del: parse_elems.simps parse_members.simps)
  qed simp
next
  case (4 pf n s)
  have v: "parse_value pf (Suc n) s = parse_value pf n s" using "4.IH"(1) "4.prems" by simp
  show ?case
  proof (cases "parse_value pf n s")
    case (Some vr)
    obtain v1 r1 where vr: "vr = (v1, r1)" by (cases vr)
    note p = Some [unfolded vr]
    show ?thesis
    proof (cases "skip_ws r1")
      case (Cons c r2)
      have "length (skip_ws r2) < length s"
        using parse_shorter(1) [OF p] length_skip_ws [of r1] length_skip_ws [of r2] Cons by simp
      then have "parse_elems pf (Suc n) (skip_ws r2) = parse_elems pf n (skip_ws r2)" if "c = CHR '',''"
        using "4.IH"(2) [OF p refl Cons] that "4.prems" by simp
      then show ?thesis
        using p v Cons by (subst (1 2) parse_elems.simps(2)) (simp del: parse_elems.simps parse_value.simps)
    qed (use p v in \<open>subst (1 2) parse_elems.simps(2); simp del: parse_elems.simps parse_value.simps\<close>)
  qed (use v in \<open>subst (1 2) parse_elems.simps(2); simp del: parse_elems.simps parse_value.simps\<close>)
next
  case (6 pf n s)
  show ?case
  proof (cases "\<exists>x k r1. s = CHR 0x22 # x \<and> scan_str x = Some (k, r1) \<and> skip_ws r1 \<noteq> [] \<and> hd (skip_ws r1) = CHR '':''")
    case True
    then obtain x k r1 where s: "s = CHR 0x22 # x" "scan_str x = Some (k, r1)" "skip_ws r1 \<noteq> []"
        "hd (skip_ws r1) = CHR '':''" by blast
    let ?t = "skip_ws (tl (skip_ws r1))"
    have t: "length ?t < length s"
      using scan_str_shorter [OF s(2)] length_skip_ws [of "tl (skip_ws r1)"] length_skip_ws [of r1] s(1,3) by simp
    then have v: "parse_value pf (Suc n) ?t = parse_value pf n ?t"
      using "6.IH"(1) [OF s(1) _ s(2) refl] s(3,4) "6.prems" by simp
    have m: "parse_members pf (Suc n) (skip_ws r3) = parse_members pf n (skip_ws r3)"
      if "parse_value pf n ?t = Some (v1, r2)" "skip_ws r2 = CHR '','' # r3" for v1 r2 r3
    proof -
      have "length (skip_ws r3) < length s"
        using parse_shorter(1) [OF that(1)] t length_skip_ws [of r2] length_skip_ws [of r3] that(2) by simp
      then show ?thesis
        using "6.IH"(2) [OF s(1) _ s(2) refl _ that(1) refl that(2)] s(3,4) "6.prems" by simp
    qed
    show ?thesis
      using s v m by (subst (1 2) parse_members.simps(2))
        (auto simp del: parse_members.simps parse_value.simps split: option.split list.split)
  next
    case False
    then show ?thesis
      by (subst (1 2) parse_members.simps(2))
        (auto simp del: parse_members.simps parse_value.simps split: option.split list.split)
  qed
qed simp_all

text \<open>More fuel than \<open>loads\<close> gives changes nothing: it never stops for lack of it.\<close>

lemma loads_fuel: "2 * length s \<le> n \<Longrightarrow> parse_value pf n s = parse_value pf (2 * length s) s"
  by (induction n rule: nat_induct_at_least [where m = "2 * length s"]) (simp_all add: parse_more_fuel(1) del: parse_value.simps)

section \<open>Sorted keys\<close>

lemma fst_comp_value [simp]: "fst \<circ> (\<lambda>(k, v). (k, f v)) = fst"
  by auto

lemma distinct_map_sort_key: "distinct (map f (sort_key k xs)) = distinct (map f xs)"
  by (rule mset_eq_imp_distinct_iff) simp

lemma compact_simps:
  "lay_str compact = ascii_string" "lay_item compact = '', ''" "lay_key compact = '': ''" "lay_nl compact d = []"
  by (simp_all add: compact_def)

lemma sort_keys_items:
  "sort_keys (JObj kvs) =
     JObj (map (\<lambda>(k, v). (k, sort_keys v)) (sort_key (\<lambda>kv. map of_char (fst kv) :: nat list) kvs))"
  by (simp add: sort_key_map case_prod_beta)

lemma printable_sort_keys: "printable P (sort_keys v) = printable P v"
proof (induction v)
  case (JObj kvs)
  have "printable P (sort_keys v) = printable P v" if "(k, v) \<in> set kvs" for k v
    using JObj.IH that by fastforce
  then show ?case
    unfolding sort_keys_items by (auto simp: list_all_iff distinct_map_sort_key)
qed (auto simp: list_all_iff)

lemma no_floats_sort_keys [simp]: "no_floats (sort_keys v) = no_floats v"
  by (induction v) (fastforce simp: list_all_iff)+

text \<open>Sorting the keys of a value does not change its canonical text.\<close>

lemma norm_sort_keys: "wf_json v \<Longrightarrow> norm (sort_keys v) = norm v"
proof (induction v)
  case (JObj kvs)
  let ?k = "\<lambda>kv. map of_char (fst kv) :: nat list"
  let ?h = "\<lambda>kvs. map (\<lambda>(k, v). (k, sort_keys v)) kvs"
  have "norm (sort_keys v) = norm v" if "(k, v) \<in> set kvs" for k v
    using JObj.IH JObj.prems that by (fastforce simp: list_all_iff)
  then have "map (\<lambda>(k, v). (k, norm v)) (?h kvs) = map (\<lambda>(k, v). (k, norm v)) kvs" by auto
  then have e: "norm (JObj (?h kvs)) = norm (JObj kvs)" by (simp only: norm.simps(1))
  have "mset (sort_key ?k (?h kvs)) = mset (?h kvs)" by simp
  moreover have "(\<lambda>kv. utf16_key (fst kv)) \<circ> (\<lambda>(k, v). (k, sort_keys v)) = (\<lambda>kv. utf16_key (fst kv))" by auto
  then have d: "distinct (map (\<lambda>kv. utf16_key (fst kv)) (?h kvs))" using JObj.prems by simp
  have "distinct (map (\<lambda>kv. utf16_key (fst kv)) (sort_key ?k (?h kvs)))"
    using d by (simp only: distinct_map_sort_key)
  ultimately have "norm (JObj (sort_key ?k (?h kvs))) = norm (JObj (?h kvs))"
    by (intro norm_JObj_cong)
  with e show ?case by simp
qed (auto simp: list_all_iff)

section \<open>The compact form is one line of printable ASCII\<close>

definition plain_char :: "char \<Rightarrow> bool" where
  "plain_char c \<longleftrightarrow> 32 \<le> (of_char c :: nat) \<and> (of_char c :: nat) \<le> 126"

lemma plain_hex4: "list_all plain_char (hex4 u)"
proof -
  have "\<forall>n\<in>set [0..<16]. plain_char (hex_digits ! n)" by code_simp
  then show ?thesis by (auto simp: hex4_def)
qed

lemma plain_ascii_cp: "list_all plain_char (ascii_cp p)"
proof -
  have "map_of escape_map p = Some e \<Longrightarrow> plain_char e" for e
    by (auto simp: escape_map_def plain_char_def split: if_splits)
  moreover have "list_all plain_char (escape_unit u)" for u
    using plain_hex4 [of u] by (simp add: escape_unit_def plain_char_def)
  ultimately show ?thesis
    by (auto simp: ascii_cp_def utf16_unit_def plain_char_def split: option.split)
qed

lemma plain_ascii_string: "list_all plain_char (ascii_string s)"
  using plain_ascii_cp by (simp add: ascii_string_def plain_char_def list_all_iff)

lemma plain_show_int: "list_all plain_char (show_int i)"
proof -
  have "plain_char c" if "is_dec c" for c using that by (auto simp: is_dec_def plain_char_def Let_def)
  then show ?thesis
    using show_nat_dec by (auto simp: show_int_def list_all_iff plain_char_def)
qed

lemma plain_join: "list_all plain_char sep \<Longrightarrow> list_all (list_all plain_char) ts \<Longrightarrow> list_all plain_char (join sep ts)"
  by (induction ts) (auto simp: join_Cons)

lemma plain_compact:
  assumes "no_floats v"
  shows "list_all plain_char (print_json compact d v)"
proof -
  have p: "plain_char (CHR '','')" "plain_char (CHR '' '')" "plain_char (CHR '':'')" "plain_char (CHR ''{'')"
      "plain_char (CHR ''}'')" "plain_char (CHR ''['')" "plain_char (CHR '']'')"
    by (simp_all add: plain_char_def)
  show ?thesis
    using assms
  proof (induction v arbitrary: d)
    case (JList vs)
    then have "list_all (list_all plain_char) (map (print_json compact (Suc d)) vs)"
      by (auto simp: list_all_iff)
    then show ?case using p by (simp add: plain_join compact_simps)
  next
    case (JObj kvs)
    have "list_all plain_char (print_json compact (Suc d) v)" if "(k, v) \<in> set kvs" for k v
      using JObj.IH [OF that, of v "Suc d"] JObj.prems that by (auto simp: list_all_iff)
    then have "list_all (list_all plain_char)
        (map (\<lambda>(k, v). lay_str compact k @ lay_key compact @ print_json compact (Suc d) v) kvs)"
      using p plain_ascii_string by (auto simp: list_all_iff compact_simps)
    then show ?case using p by (simp add: plain_join compact_simps)
  qed (simp_all add: plain_ascii_string plain_show_int compact_simps, simp_all add: plain_char_def)
qed

section \<open>ASCII keys\<close>

lemma utf16_key_ascii: "is_ascii s \<Longrightarrow> utf16_key s = map of_char s"
proof -
  have "list_all (\<lambda>n. n < 128) ns \<Longrightarrow> utf8_decode ns = ns \<and> concat (map utf16_unit ns) = ns" for ns
    by (induction ns) (simp_all add: utf16_unit_def)
  from this [of "map of_char s"] show "is_ascii s \<Longrightarrow> ?thesis"
    by (simp add: utf16_key_def is_ascii_def list_all_iff del: map_map)
qed

lemma distinct_utf16_key_ascii: "list_all (\<lambda>kv. is_ascii (fst kv)) kvs \<Longrightarrow>
    distinct (map (\<lambda>kv. utf16_key (fst kv)) kvs) \<longleftrightarrow> distinct (map fst kvs)"
proof -
  assume a: "list_all (\<lambda>kv. is_ascii (fst kv)) kvs"
  have inj: "inj (map (of_char :: char \<Rightarrow> nat))" by (intro inj_mapI injI) simp
  have "map (\<lambda>kv. utf16_key (fst kv)) kvs = map (map of_char) (map fst kvs)"
    using a by (auto simp: list_all_iff utf16_key_ascii)
  then show ?thesis using inj by (metis distinct_map inj_on_subset subset_UNIV)
qed

end
