(* ===== verification/Quote_Token.thy ===== *)
theory Quote_Token
  imports Catalog Json_Text
begin

text \<open>
  Reading a quote token (\<open>parse_and_verify_quote_token\<close> of \<open>domain/catalog/quote.py\<close>), the
  counterpart of \<open>build_quote_token\<close> in \<open>Catalog\<close>: the three segments, the decoder of
  \<open>binascii.a2b_base64\<close> as the library runs it (characters outside the alphabet are skipped), the
  signature over the hash of the decoded bytes, and the JSON scanner of \<open>Json_Text\<close>. Codecs other
  than well-formed UTF-8 are the argument \<open>codec\<close>. Shown are the round trip, and that a token with
  the signature of an issued one carries the payload of that quote unless SHA-256 collides.
\<close>

section \<open>Splitting, base64, bytes as JSON\<close>

text \<open>\<open>str.split(sep)\<close> for a separator of one character.\<close>

fun split_char :: "char \<Rightarrow> string \<Rightarrow> string list" where
  "split_char d [] = [[]]"
| "split_char d (c # cs) =
     (if c = d then [] # split_char d cs
      else (case split_char d cs of [] \<Rightarrow> [[c]] | p # ps \<Rightarrow> (c # p) # ps))"

text \<open>\<open>base64.urlsafe_b64decode\<close>: both alphabets are accepted, since only two characters are translated.\<close>

definition b64_value :: "char \<Rightarrow> nat option" where
  "b64_value c =
     (if c = CHR ''+'' then Some 62 else if c = CHR ''/'' then Some 63
      else (let i = length (takeWhile (\<lambda>d. d \<noteq> c) b64_alphabet) in if i < 64 then Some i else None))"

fun a2b_base64 :: "nat \<Rightarrow> nat \<Rightarrow> nat \<Rightarrow> string \<Rightarrow> bytes option" where
  "a2b_base64 quad leftchar pads [] = (if quad = 0 then Some [] else None)"
| "a2b_base64 quad leftchar pads (c # cs) =
     (if c = CHR ''='' then
        (if 2 \<le> quad \<and> 4 \<le> quad + Suc pads then Some []
         else a2b_base64 quad leftchar (if 2 \<le> quad then Suc pads else pads) cs)
      else
        (case b64_value c of
           None \<Rightarrow> a2b_base64 quad leftchar pads cs
         | Some v \<Rightarrow>
             if quad = 0 then a2b_base64 1 v 0 cs
             else if quad = 1 then
               map_option (\<lambda>bs. of_nat (leftchar * 4 + v div 16) # bs) (a2b_base64 2 (v mod 16) 0 cs)
             else if quad = 2 then
               map_option (\<lambda>bs. of_nat (leftchar * 16 + v div 4) # bs) (a2b_base64 3 (v mod 4) 0 cs)
             else
               map_option (\<lambda>bs. of_nat (leftchar * 64 + v) # bs) (a2b_base64 0 0 0 cs)))"

definition urlsafe_b64decode :: "string \<Rightarrow> bytes option" where
  "urlsafe_b64decode s = (if is_ascii s then a2b_base64 0 0 0 s else None)"

definition b64_padding :: "string \<Rightarrow> string" where
  "b64_padding s = replicate (nat (- int (length s) mod 4)) (CHR ''='')"

definition is_zero_byte :: "bytes \<Rightarrow> nat \<Rightarrow> bool" where
  "is_zero_byte b i \<longleftrightarrow> b ! i = 0"

text \<open>\<open>json.detect_encoding\<close> and \<open>json.loads\<close> of bytes.\<close>

definition detect_encoding :: "bytes \<Rightarrow> string" where
  "detect_encoding b =
     (if take 4 b = [0, 0, 0xFE, 0xFF] \<or> take 4 b = [0xFF, 0xFE, 0, 0] then ''utf-32''
      else if take 2 b = [0xFE, 0xFF] \<or> take 2 b = [0xFF, 0xFE] then ''utf-16''
      else if take 3 b = [0xEF, 0xBB, 0xBF] then ''utf-8-sig''
      else if 4 \<le> length b then
        (if is_zero_byte b 0 then (if is_zero_byte b 1 then ''utf-32-be'' else ''utf-16-be'')
         else if is_zero_byte b 1 then
           (if \<not> is_zero_byte b 2 \<or> \<not> is_zero_byte b 3 then ''utf-16-le'' else ''utf-32-le'')
         else ''utf-8'')
      else if length b = 2 then
        (if is_zero_byte b 0 then ''utf-16-be'' else if is_zero_byte b 1 then ''utf-16-le'' else ''utf-8'')
      else ''utf-8'')"

definition text_of_bytes :: "bytes \<Rightarrow> string" where
  "text_of_bytes b = map (\<lambda>x. char_of (unat x)) b"

definition loads_bytes ::
  "(string \<Rightarrow> pyfloat) \<Rightarrow> (string \<Rightarrow> bytes \<Rightarrow> string result) \<Rightarrow> bytes \<Rightarrow> json result" where
  "loads_bytes pf codec b =
     (let enc = detect_encoding b in
      rbind (if enc = ''utf-8'' \<and> valid_utf8 (map unat b) then Inr (text_of_bytes b) else codec enc b) (loads pf))"

section \<open>The token\<close>

definition parse_and_verify_quote_token ::
  "(string \<Rightarrow> pyfloat) \<Rightarrow> (string \<Rightarrow> bytes \<Rightarrow> string result) \<Rightarrow> string \<Rightarrow> bytes \<Rightarrow> json result" where
  "parse_and_verify_quote_token pf codec token key =
     (case split_char (CHR ''.'') token of
        [prefix, payload_b64, sig] \<Rightarrow>
          if prefix \<noteq> quote_token_prefix then Inl (ValueError ''malformed quote_token'')
          else
            (case urlsafe_b64decode (payload_b64 @ b64_padding payload_b64) of
               None \<Rightarrow> Inl (ValueError ''malformed quote_token payload'')
             | Some canonical_bytes \<Rightarrow>
                 (let quote_hash = ''sha256:'' @ hex (sha256 canonical_bytes) in
                  rbind (verify_signature quote_hash key sig) (\<lambda>ok.
                    if \<not> ok then Inl (ValueError ''quote_token signature invalid'')
                    else loads_bytes pf codec canonical_bytes)))
      | _ \<Rightarrow> Inl (ValueError ''malformed quote_token''))"

section \<open>Round trip of base64\<close>

lemma b64_value_char: "n < 64 \<Longrightarrow> b64_value (b64_alphabet ! n) = Some n \<and> b64_alphabet ! n \<noteq> CHR ''='' \<and>
    b64_alphabet ! n \<noteq> CHR ''.'' \<and> (of_char (b64_alphabet ! n) :: nat) < 128"
proof -
  have "\<forall>n\<in>set [0..<64]. b64_value (b64_alphabet ! n) = Some n \<and> b64_alphabet ! n \<noteq> CHR ''='' \<and>
    b64_alphabet ! n \<noteq> CHR ''.'' \<and> (of_char (b64_alphabet ! n) :: nat) < 128"
    by code_simp
  then show "n < 64 \<Longrightarrow> ?thesis" by simp
qed

lemma b64_value_b64_char [simp]:
  "b64_value (b64_char n) = Some (n mod 64)" "b64_char n \<noteq> CHR ''=''" "b64_char n \<noteq> CHR ''.''"
  "(of_char (b64_char n) :: nat) < 128"
  using b64_value_char [of "n mod 64"] by (simp_all add: b64_char_def)

lemma b64_split:
  "a1 * 262144 + (a0 * 16 + b1) * 4096 + (b0 * 4 + c1) * 64 + c0 =
     (4 * a1 + a0) * 65536 + (16 * b1 + b0) * 256 + (64 * c1 + c0 :: nat)"
  by (simp add: algebra_simps)

text \<open>Three bytes as four digits to the base 64.\<close>

lemma b64_digits:
  fixes a b c :: nat
  assumes "a < 256" "b < 256" "c < 256"
  defines "n \<equiv> a * 65536 + b * 256 + c"
  shows "n div 262144 mod 64 = a div 4" "n div 4096 mod 64 = a mod 4 * 16 + b div 16"
    "n div 64 mod 64 = b mod 16 * 4 + c div 64" "n mod 64 = c mod 64"
proof -
  define x y z where "x = a mod 4 * 16 + b div 16" and "y = b mod 16 * 4 + c div 64" and "z = c mod 64"
  have lt: "x < 64" "y < 64" "z < 64" using assms(1-3) by (auto simp: x_def y_def z_def)
  have n: "n = a div 4 * 262144 + x * 4096 + y * 64 + z"
    using b64_split [of "a div 4" "a mod 4" "b div 16" "b mod 16" "c div 64" "c mod 64"]
    unfolding n_def x_def y_def z_def mult_div_mod_eq by (rule sym)
  have "a div 4 < 64" using assms(1) by simp
  then show "n div 262144 mod 64 = a div 4" by (simp only: n base64_four(1) [OF lt] mod_less)
  show "n div 4096 mod 64 = a mod 4 * 16 + b div 16" unfolding n base64_four(2) [OF lt] by (rule x_def)
  show "n div 64 mod 64 = b mod 16 * 4 + c div 64" unfolding n base64_four(3) [OF lt] by (rule y_def)
  show "n mod 64 = c mod 64" unfolding n base64_four(4) [OF lt] by (rule z_def)
qed

lemma b64_recombine:
  fixes a b c :: nat
  assumes "b < 256" "c < 256"
  shows "a div 4 * 4 + (a mod 4 * 16 + b div 16) div 16 = a" "(a mod 4 * 16 + b div 16) mod 16 = b div 16"
    "b div 16 * 16 + (b mod 16 * 4 + c div 64) div 4 = b" "(b mod 16 * 4 + c div 64) mod 4 = c div 64"
    "c div 64 * 64 + c mod 64 = c"
proof -
  have "b div 16 < 16" "c div 64 < 4" using assms by simp_all
  then have "(a mod 4 * 16 + b div 16) div 16 = a mod 4" "(b mod 16 * 4 + c div 64) div 4 = b mod 16"
    by simp_all
  then show "a div 4 * 4 + (a mod 4 * 16 + b div 16) div 16 = a" "(a mod 4 * 16 + b div 16) mod 16 = b div 16"
    "b div 16 * 16 + (b mod 16 * 4 + c div 64) div 4 = b" "(b mod 16 * 4 + c div 64) mod 4 = c div 64"
    "c div 64 * 64 + c mod 64 = c"
    using \<open>b div 16 < 16\<close> \<open>c div 64 < 4\<close> by simp_all
qed

lemma a2b_quads:
  "a2b_base64 0 0 0 (b64_char w # b64_char x # b64_char y # b64_char z # cs) =
     map_option (\<lambda>bs. of_nat (w mod 64 * 4 + x mod 64 div 16) # of_nat (x mod 64 mod 16 * 16 + y mod 64 div 4) #
       of_nat (y mod 64 mod 4 * 64 + z mod 64) # bs) (a2b_base64 0 0 0 cs)"
  "a2b_base64 0 0 0 [b64_char w, b64_char x, b64_char y, CHR ''=''] =
     Some [of_nat (w mod 64 * 4 + x mod 64 div 16), of_nat (x mod 64 mod 16 * 16 + y mod 64 div 4)]"
  "a2b_base64 0 0 0 [b64_char w, b64_char x, CHR ''='', CHR ''=''] = Some [of_nat (w mod 64 * 4 + x mod 64 div 16)]"
  by (simp_all add: option.map_comp comp_def)

lemma b64_padding_simps: "b64_padding [a, b, c] = ''=''" "b64_padding [a, b] = ''==''" "b64_padding [] = []"
proof -
  have "nat (- int (length [a, b, c]) mod 4) = 1" "nat (- int (length [a, b]) mod 4) = 2" by simp_all
  then show "b64_padding [a, b, c] = ''=''" "b64_padding [a, b] = ''==''"
    by (simp_all only: b64_padding_def) (simp_all add: numeral_2_eq_2)
qed (simp add: b64_padding_def)

lemma b64_padding_cons: "b64_padding (a # b # c # d # s) = b64_padding s"
proof -
  have "- int (length (a # b # c # d # s)) = - int (length s) + (- 1) * 4" by simp
  then have "- int (length (a # b # c # d # s)) mod 4 = - int (length s) mod 4"
    by (simp only: mod_mult_self1)
  then show ?thesis by (simp only: b64_padding_def)
qed

lemma a2b_base64_encode: "a2b_base64 0 0 0 (urlsafe_b64encode_nopad bs @ b64_padding (urlsafe_b64encode_nopad bs)) = Some bs"
proof (induction bs rule: urlsafe_b64encode_nopad.induct)
  case (1 a b c bs)
  have lt: "unat a < 256" "unat b < 256" "unat c < 256"
    using unsigned_less [of a] unsigned_less [of b] unsigned_less [of c] by simp_all
  show ?case
    unfolding urlsafe_b64encode_nopad.simps Let_def append_Cons append_Nil b64_padding_cons
      a2b_quads(1) b64_digits [OF lt] b64_recombine [OF lt(2,3)] 1 [OF refl]
    by simp
next
  case (2 a b)
  have lt: "unat a < 256" "unat b < 256" "(0 :: nat) < 256" using unsigned_less [of a] unsigned_less [of b] by simp_all
  show ?case
    using b64_digits [OF lt] b64_recombine(1,2) [OF lt(2,3), of "unat a"] b64_recombine(3-5) [OF lt(2,3)]
    by (simp add: Let_def b64_padding_simps a2b_quads del: a2b_base64.simps of_nat_add of_nat_mult)
next
  case (3 a)
  have lt: "unat a < 256" "(0 :: nat) < 256" "(0 :: nat) < 256" using unsigned_less [of a] by simp_all
  show ?case
    using b64_digits [OF lt] b64_recombine(1,2) [OF lt(2,3), of "unat a"] b64_recombine(3-5) [OF lt(2,3)]
    by (simp add: Let_def b64_padding_simps a2b_quads del: a2b_base64.simps of_nat_add of_nat_mult)
qed (simp add: b64_padding_simps)

section \<open>Segments and texts\<close>

lemma split_char_append: "d \<notin> set s \<Longrightarrow> split_char d (s @ d # t) = s # split_char d t"
  by (induction s) auto

lemma split_char_last: "d \<notin> set s \<Longrightarrow> split_char d s = [s]"
  by (induction s) auto

lemma b64encode_chars: "c \<in> set (urlsafe_b64encode_nopad bs) \<Longrightarrow> c \<noteq> CHR ''.'' \<and> (of_char c :: nat) < 128"
  by (induction bs rule: urlsafe_b64encode_nopad.induct) (auto simp: Let_def)

lemma urlsafe_b64decode_encode:
  "urlsafe_b64decode (urlsafe_b64encode_nopad bs @ b64_padding (urlsafe_b64encode_nopad bs)) = Some bs"
proof -
  have "is_ascii (urlsafe_b64encode_nopad bs @ b64_padding (urlsafe_b64encode_nopad bs))"
    using b64encode_chars by (auto simp: is_ascii_def list_all_iff b64_padding_def)
  then show ?thesis by (simp add: urlsafe_b64decode_def a2b_base64_encode)
qed

lemma hex_chars: "c \<in> set (hex bs) \<Longrightarrow> c \<noteq> CHR ''.'' \<and> (of_char c :: nat) < 128"
proof -
  have "\<forall>n\<in>set [0..<16]. hex_digits ! n \<noteq> CHR ''.'' \<and> (of_char (hex_digits ! n) :: nat) < 128" by code_simp
  moreover have "unat (b :: byte) div 16 < 16" for b
  proof -
    have "unat b < 256" using unsigned_less [of b] by simp
    then show ?thesis by simp
  qed
  ultimately show "c \<in> set (hex bs) \<Longrightarrow> ?thesis" by (auto simp: hex_def hex_byte_def)
qed

lemma hex_is_ascii [simp]: "is_ascii (hex bs)"
  using hex_chars by (auto simp: is_ascii_def list_all_iff)

lemma unat_of_char_byte [simp]: "unat (of_char c :: byte) = of_char c"
proof -
  have "(of_char c :: byte) = of_nat (of_char c)" by (simp only: of_nat_of_char)
  moreover have "(of_char c :: nat) < 2 ^ LENGTH(8)" by simp
  ultimately show ?thesis by (simp add: unat_of_nat take_bit_nat_eq_self)
qed

lemma text_of_bytes_encode [simp]: "text_of_bytes (encode_utf8 s) = s"
  by (simp add: text_of_bytes_def encode_utf8_def comp_def)

lemma valid_encode_utf8: "valid_utf8 (map unat (encode_utf8 s)) = valid_text s"
  by (simp add: encode_utf8_def valid_text_def comp_def)

lemma valid_text_append: "valid_text s \<Longrightarrow> valid_text t \<Longrightarrow> valid_text (s @ t)"
  by (simp add: valid_text_def valid_utf8_append)

lemma valid_text_ascii: "list_all (\<lambda>c. (of_char c :: nat) < 0x80) s \<Longrightarrow> valid_text s"
  unfolding valid_text_def by (induction s) simp_all

text \<open>Escaping keeps texts well formed: it only replaces ASCII characters by ASCII text.\<close>

lemma esc_char_high: "0x80 \<le> (of_char c :: nat) \<Longrightarrow> esc_char c = [c]"
  by (auto simp: esc_char_def escape_map_def)

lemma esc_char_low: "(of_char c :: nat) < 0x80 \<Longrightarrow> list_all (\<lambda>c. (of_char c :: nat) < 0x80) (esc_char c)"
  using hex_chars [of _ "[of_char c]"]
  by (auto simp: esc_char_def escape_map_def list_all_iff hex_def split: option.splits if_splits)

lemma cont_byte_high: "cont_byte b \<Longrightarrow> 0x80 \<le> b"
  by (simp add: cont_byte_def)

lemma valid_text_escaped: "valid_text s \<Longrightarrow> valid_text (concat (map esc_char s))"
proof (induction "length s" arbitrary: s rule: less_induct)
  case less
  show ?case
  proof (cases s)
    case (Cons a as)
    with less.prems have "valid_utf8 (of_char a # map of_char as)" by (simp add: valid_text_def)
    then show ?thesis
    proof (cases rule: valid_utf8_ConsE)
      case one
      then have "valid_text (esc_char a)" by (intro valid_text_ascii esc_char_low) simp
      with one less.hyps [of as] Cons show ?thesis by (simp add: valid_text_def valid_utf8_append)
    next
      case (two b bs)
      then obtain b' bs' where "as = b' # bs'" "b = of_char b'" "bs = map of_char bs'" by (auto simp: map_eq_Cons_conv)
      with two less.hyps [of bs'] Cons show ?thesis
        by (simp add: valid_text_def esc_char_high cont_byte_high)
    next
      case (three b c bs)
      then obtain b' c' bs' where "as = b' # c' # bs'" "b = of_char b'" "c = of_char c'" "bs = map of_char bs'"
        by (auto simp: map_eq_Cons_conv)
      with three less.hyps [of bs'] Cons show ?thesis
        by (simp add: valid_text_def esc_char_high cont_byte_high)
    next
      case (four b c d bs)
      then obtain b' c' d' bs' where "as = b' # c' # d' # bs'" "b = of_char b'" "c = of_char c'" "d = of_char d'"
          "bs = map of_char bs'"
        by (auto simp: map_eq_Cons_conv)
      with four less.hyps [of bs'] Cons show ?thesis
        by (simp add: valid_text_def esc_char_high cont_byte_high)
    qed
  qed (simp add: valid_text_def)
qed

lemma valid_encode_string: "valid_text s \<Longrightarrow> valid_text (encode_string s)"
proof -
  assume "valid_text s"
  moreover have "valid_text [CHR 0x22]" by (simp add: valid_text_def)
  ultimately show "valid_text (encode_string s)"
    using valid_text_append [of "[CHR 0x22]"] by (simp add: encode_string_def valid_text_append valid_text_escaped)
qed

lemma valid_join: "valid_text sep \<Longrightarrow> list_all valid_text ts \<Longrightarrow> valid_text (join sep ts)"
  by (induction ts) (auto simp: join_Cons valid_text_append, simp add: valid_text_def)

lemma valid_show_int: "valid_text (show_int i)"
  using plain_show_int [of i] by (intro valid_text_ascii) (auto simp: list_all_iff plain_char_def)

lemma valid_render: "printable valid_text v \<Longrightarrow> valid_text (render v)"
proof (induction v)
  case (JList vs)
  then have "valid_text (join '','' (map render vs))"
    by (intro valid_join) (auto simp: list_all_iff, simp add: valid_text_def)
  then have "valid_text (''['' @ join '','' (map render vs) @ '']'')"
    by (intro valid_text_append) (simp_all add: valid_text_def)
  then show ?case by simp
next
  case (JObj kvs)
  let ?f = "\<lambda>(k, v). encode_string k @ '':'' @ render v"
  have "valid_text (?f (k, v))" if "(k, v) \<in> set kvs" for k v
  proof -
    have "valid_text k" "valid_text (render v)" using JObj.IH [OF that, of v] JObj.prems that by (auto simp: list_all_iff)
    then have "valid_text (encode_string k @ '':'' @ render v)"
      by (intro valid_text_append valid_encode_string) (simp_all add: valid_text_def)
    then show ?thesis by simp
  qed
  then have "valid_text (join '','' (map ?f kvs))"
    by (intro valid_join) (auto simp: list_all_iff, simp add: valid_text_def)
  then have "valid_text (''{'' @ join '','' (map ?f kvs) @ ''}'')"
    by (intro valid_text_append) (simp_all add: valid_text_def)
  then show ?case by (simp add: encode_items_def comp_def split_def)
qed (simp_all add: valid_encode_string valid_show_int, simp_all add: valid_text_def)

section \<open>Tokens\<close>

lemma wf_hashable_payload: "wf_json (hashable_payload dump_dt q)"
  unfolding hashable_payload_def wf_json.simps
  by (subst distinct_utf16_key_ascii) (simp_all add: is_ascii_def)

lemma printable_norm: "printable P v \<Longrightarrow> printable P (norm v)"
proof (induction v)
  case (JObj kvs)
  have "printable P (norm v)" if "(k, v) \<in> set kvs" for k v
    using JObj that by (fastforce simp: list_all_iff)
  then show ?case
    using JObj.prems by (auto simp: norm.simps(1) sort_items_def list_all_iff distinct_map_sort_key)
qed (auto simp: list_all_iff)

lemma hashable_payload_text:
  obtains r where "render (norm (hashable_payload dump_dt q)) = CHR ''{'' # CHR 0x22 # r" "2 \<le> length r"
proof -
  obtain k v rest where s: "norm (hashable_payload dump_dt q) = JObj ((k, v) # rest)"
  proof -
    obtain kv kvs where "hashable_payload dump_dt q = JObj (kv # kvs)" by (simp add: hashable_payload_def)
    then have "norm (hashable_payload dump_dt q) = JObj (sort_items (map (\<lambda>(k, v). (k, norm v)) (kv # kvs)))"
      by (simp only: norm.simps(1))
    moreover have "sort_items (map (\<lambda>(k, v). (k, norm v)) (kv # kvs)) \<noteq> []"
      by (metis list.simps(9) list.distinct(1) mset_sort_items mset_zero_iff)
    ultimately show ?thesis using that by (cases "sort_items (map (\<lambda>(k, v). (k, norm v)) (kv # kvs))") auto
  qed
  obtain b where b: "encode_string k = CHR 0x22 # b" "b \<noteq> []" by (simp add: encode_string_def)
  have "render (norm (hashable_payload dump_dt q)) =
      CHR ''{'' # CHR 0x22 # b @ '':'' @ render v @ (if rest = [] then [] else '','' @ join '',''
        (map (\<lambda>(k, v). encode_string k @ '':'' @ v) (map (\<lambda>(k, v). (k, render v)) rest))) @ ''}''"
    by (simp add: s encode_items_def join_Cons b)
  moreover have "2 \<le> length (b @ '':'' @ x)" for x using b by (cases b) auto
  ultimately show ?thesis using that by (metis append_assoc)
qed

lemma detect_encoding_object: "2 \<le> length r \<Longrightarrow> detect_encoding (encode_utf8 (CHR ''{'' # CHR 0x22 # r)) = ''utf-8''"
  by (simp add: detect_encoding_def encode_utf8_def is_zero_byte_def)

lemma loads_bytes_payload:
  assumes "printable valid_text (hashable_payload dump_dt q)"
  shows "loads_bytes pf codec (encode_utf8 (render (norm (hashable_payload dump_dt q)))) =
    Inr (norm (hashable_payload dump_dt q))"
proof -
  let ?v = "hashable_payload dump_dt q"
  obtain r where r: "render (norm ?v) = CHR ''{'' # CHR 0x22 # r" "2 \<le> length r" by (rule hashable_payload_text)
  have "valid_text (render (norm ?v))" using assms by (intro valid_render printable_norm)
  then have "loads_bytes pf codec (encode_utf8 (render (norm ?v))) = loads pf (render (norm ?v))"
    using detect_encoding_object [OF r(2)] r(1) by (simp add: loads_bytes_def Let_def valid_encode_utf8)
  also have "\<dots> = Inr (norm ?v)" using wf_hashable_payload by (intro loads_jcs) (simp_all add: jcs_render)
  finally show ?thesis .
qed

text \<open>The bytes that a token carries, and the byte strings that checking its signature hashes.\<close>

definition token_bytes :: "string \<Rightarrow> bytes option" where
  "token_bytes token =
     (case split_char (CHR ''.'') token of
        [prefix, payload_b64, sig] \<Rightarrow> urlsafe_b64decode (payload_b64 @ b64_padding payload_b64)
      | _ \<Rightarrow> None)"

definition token_inputs :: "bytes \<Rightarrow> bytes \<Rightarrow> bytes list" where
  "token_inputs key b =
     (let k = hmac_block_key key; h = encode_utf8 (''sha256:'' @ hex (sha256 b));
          inner = map (\<lambda>x. x XOR 0x36) k @ h
      in [b, inner, map (\<lambda>x. x XOR 0x5c) k @ sha256 inner])"

lemma signature_binds_bytes:
  assumes "sign_spec_hash (''sha256:'' @ hex (sha256 a)) key = sign_spec_hash (''sha256:'' @ hex (sha256 b)) key"
  shows "a = b \<or> collision_in (token_inputs key a) (token_inputs key b)"
proof -
  let ?C = "collision_in (token_inputs key a) (token_inputs key b)"
  let ?k = "hmac_block_key key"
  let ?inner = "\<lambda>b. map (\<lambda>x. x XOR 0x36) ?k @ encode_utf8 (''sha256:'' @ hex (sha256 b))"
  have "sha256 (map (\<lambda>x. x XOR 0x5c) ?k @ sha256 (?inner a)) = sha256 (map (\<lambda>x. x XOR 0x5c) ?k @ sha256 (?inner b))"
    using assms by (simp add: sign_spec_hash_def hmac_sha256_def Let_def)
  then have "map (\<lambda>x. x XOR 0x5c) ?k @ sha256 (?inner a) = map (\<lambda>x. x XOR 0x5c) ?k @ sha256 (?inner b) \<or> ?C"
    by (rule sha256_eqD) (simp_all add: token_inputs_def Let_def)
  then have "sha256 (?inner a) = sha256 (?inner b) \<or> ?C" by (simp only: same_append_eq)
  moreover have "?inner a = ?inner b \<or> ?C" if "sha256 (?inner a) = sha256 (?inner b)"
    using that by (rule sha256_eqD) (simp_all add: token_inputs_def Let_def)
  moreover have "a = b \<or> ?C" if "sha256 a = sha256 b"
    using that by (rule sha256_eqD) (simp_all add: token_inputs_def Let_def)
  moreover have "sha256 a = sha256 b" if "?inner a = ?inner b"
    using that by (simp only: same_append_eq encode_utf8_inj hex_inj)
  ultimately show ?thesis by blast
qed

lemma built_token_segments:
  assumes "build_quote_token dump_dt q h key = Inr t"
  shows "split_char (CHR ''.'') t =
    [quote_token_prefix, urlsafe_b64encode_nopad (encode_utf8 (render (norm (hashable_payload dump_dt q)))),
     sign_spec_hash h key]"
proof -
  let ?p = "urlsafe_b64encode_nopad (encode_utf8 (render (norm (hashable_payload dump_dt q))))"
  have "t = quote_token_prefix @ CHR ''.'' # ?p @ CHR ''.'' # sign_spec_hash h key"
    using assms by (simp add: build_quote_token_def jcs_render Let_def)
  moreover have "CHR ''.'' \<notin> set quote_token_prefix" by (simp add: quote_token_prefix_def)
  moreover have "CHR ''.'' \<notin> set ?p" using b64encode_chars by blast
  moreover have "CHR ''.'' \<notin> set (sign_spec_hash h key)" using hex_chars by (auto simp: sign_spec_hash_def)
  ultimately show ?thesis by (simp add: split_char_append split_char_last)
qed

lemma accepted_tokenD:
  assumes "parse_and_verify_quote_token pf codec t key = Inr p"
  obtains prefix b64 b where "split_char (CHR ''.'') t = [prefix, b64, sign_spec_hash (''sha256:'' @ hex (sha256 b)) key]"
    "token_bytes t = Some b" "loads_bytes pf codec b = Inr p"
  using assms
  by (auto simp: parse_and_verify_quote_token_def token_bytes_def verify_signature_def Let_def rbind_eq_Inr
      split: list.splits if_splits option.splits)

text \<open>
  C27. A quote token reads back: the token built for a quote with its own hash is accepted under the
  same key and yields exactly the quote's terms (the keys in canonical order), provided its strings are
  well-formed text; it is refused, as a \<open>ValueError\<close>, under every other key that gives another
  signature.
\<close>

theorem quote_token_roundtrip:
  assumes "compute_quote_hash dump_dt q = Inr h" "build_quote_token dump_dt q h key = Inr t"
    and "printable valid_text (hashable_payload dump_dt q)"
  shows "parse_and_verify_quote_token pf codec t key = Inr (norm (hashable_payload dump_dt q)) \<and>
    (sign_spec_hash h other \<noteq> sign_spec_hash h key \<longrightarrow>
       parse_and_verify_quote_token pf codec t other = Inl (ValueError ''quote_token signature invalid''))"
proof -
  let ?b = "encode_utf8 (render (norm (hashable_payload dump_dt q)))"
  have h: "''sha256:'' @ hex (sha256 ?b) = h"
    using assms(1) by (simp add: compute_quote_hash_def sha256_jcs_def jcs_render)
  have "verify_signature h k (sign_spec_hash h key) = Inr (sign_spec_hash h k = sign_spec_hash h key)" for k
    by (simp add: verify_signature_def compare_digest_def sign_spec_hash_def)
  then show ?thesis
    using built_token_segments [OF assms(2)] loads_bytes_payload [OF assms(3)] h
    by (simp add: parse_and_verify_quote_token_def urlsafe_b64decode_encode)
qed

theorem quote_token_roundtrip_witness:
  "\<exists>h t. compute_quote_hash show_int goa_quote = Inr h \<and> build_quote_token show_int goa_quote h [1, 2] = Inr t \<and>
     parse_and_verify_quote_token (\<lambda>s. FZero) (\<lambda>e b. Inl (ValueError e)) t [1, 2] =
       Inr (norm (hashable_payload show_int goa_quote))"
proof -
  obtain h where h: "compute_quote_hash show_int goa_quote = Inr h" using compute_quote_hash_Inr by blast
  obtain t where t: "build_quote_token show_int goa_quote h [1, 2] = Inr t" using build_quote_token_Inr by blast
  have p: "printable valid_text (hashable_payload show_int goa_quote)"
    by (simp add: hashable_payload_def goa_quote_def valid_show_int) (simp add: valid_text_def)
  show ?thesis using quote_token_roundtrip [OF h t p] h t by blast
qed

text \<open>
  C28. A token cannot be given other terms: whatever token carries the signature segment of the token
  issued for a quote and is accepted under the same key, it yields that quote's terms, unless the bytes
  it carries collide with the issued ones under SHA-256 at one of the three places where they are
  hashed.
\<close>

theorem quote_token_binds_terms:
  assumes "compute_quote_hash dump_dt q = Inr h" "build_quote_token dump_dt q h key = Inr t"
    and "printable valid_text (hashable_payload dump_dt q)"
    and "parse_and_verify_quote_token pf codec t' key = Inr p"
    and "last (split_char (CHR ''.'') t') = last (split_char (CHR ''.'') t)"
  shows "p = norm (hashable_payload dump_dt q) \<or>
    (\<exists>b b'. token_bytes t = Some b \<and> token_bytes t' = Some b' \<and> b \<noteq> b' \<and>
       collision_in (token_inputs key b) (token_inputs key b'))"
proof -
  let ?b = "encode_utf8 (render (norm (hashable_payload dump_dt q)))"
  have h: "h = ''sha256:'' @ hex (sha256 ?b)"
    using assms(1) by (simp add: compute_quote_hash_def sha256_jcs_def jcs_render)
  have t: "token_bytes t = Some ?b"
    using built_token_segments [OF assms(2)] by (simp add: token_bytes_def urlsafe_b64decode_encode)
  obtain prefix b64 b' where t': "split_char (CHR ''.'') t' = [prefix, b64, sign_spec_hash (''sha256:'' @ hex (sha256 b')) key]"
      "token_bytes t' = Some b'" "loads_bytes pf codec b' = Inr p"
    using accepted_tokenD [OF assms(4)] .
  have "?b = b' \<or> collision_in (token_inputs key ?b) (token_inputs key b')"
    using assms(5) built_token_segments [OF assms(2)] t'(1) h by (intro signature_binds_bytes) simp
  then show ?thesis
  proof
    assume "?b = b'"
    with t'(3) loads_bytes_payload [OF assms(3), of pf codec] show ?thesis by simp
  next
    assume c: "collision_in (token_inputs key ?b) (token_inputs key b')"
    show ?thesis
    proof (cases "?b = b'")
      case True
      with t'(3) loads_bytes_payload [OF assms(3), of pf codec] show ?thesis by simp
    qed (use c t t'(2) in blast)
  qed
qed

theorem quote_token_binds_terms_witness:
  "\<exists>h t. compute_quote_hash show_int goa_quote = Inr h \<and> build_quote_token show_int goa_quote h [1, 2] = Inr t \<and>
     (\<exists>p. parse_and_verify_quote_token (\<lambda>s. FZero) (\<lambda>e b. Inl (ValueError e)) t [1, 2] = Inr p \<and>
        p = norm (hashable_payload show_int goa_quote))"
proof -
  let ?parse = "parse_and_verify_quote_token (\<lambda>s. FZero) (\<lambda>e b. Inl (ValueError e))"
  obtain h where h: "compute_quote_hash show_int goa_quote = Inr h" using compute_quote_hash_Inr by blast
  obtain t where t: "build_quote_token show_int goa_quote h [1, 2] = Inr t" using build_quote_token_Inr by blast
  have p: "printable valid_text (hashable_payload show_int goa_quote)"
    by (simp add: hashable_payload_def goa_quote_def valid_show_int) (simp add: valid_text_def)
  have "?parse t [1, 2] = Inr (norm (hashable_payload show_int goa_quote))"
  proof -
    let ?b = "encode_utf8 (render (norm (hashable_payload show_int goa_quote)))"
    have "h = ''sha256:'' @ hex (sha256 ?b)"
      using h by (simp add: compute_quote_hash_def sha256_jcs_def jcs_render)
    then show ?thesis
      using built_token_segments [OF t] loads_bytes_payload [OF p]
      by (simp add: parse_and_verify_quote_token_def urlsafe_b64decode_encode verify_signature_def compare_digest_def
          sign_spec_hash_def)
  qed
  then show ?thesis using quote_token_binds_terms [OF h t p _ refl] h t by blast
qed

text \<open>
  The documented exception of a bad token is \<open>ValueError\<close>; a signature segment that is not ASCII
  raises \<open>TypeError\<close> instead, from \<open>hmac.compare_digest\<close>.
\<close>

theorem quote_token_type_error:
  "parse_and_verify_quote_token pf codec (''qt_v1..'' @ [CHR 0xC3, CHR 0xA9]) key =
     Inl (TypeError ''comparing strings with non-ASCII characters is not supported'')"
proof -
  have "split_char (CHR ''.'') (''qt_v1..'' @ [CHR 0xC3, CHR 0xA9]) = [''qt_v1'', [], [CHR 0xC3, CHR 0xA9]]" by simp
  moreover have "urlsafe_b64decode ([] @ b64_padding []) = Some []"
    by (simp add: urlsafe_b64decode_def b64_padding_simps is_ascii_def)
  ultimately show ?thesis
    by (simp add: parse_and_verify_quote_token_def quote_token_prefix_def verify_signature_def compare_digest_def is_ascii_def)
qed

end
