(* ===== verification/Catalog_Service.thy ===== *)
theory Catalog_Service
  imports Gate
begin

text \<open>
  Catalog reads and quote issuance (\<open>application/catalog_service.py\<close>) with the keyset pagination
  of \<open>CatalogRepository.list_items\<close>. The database compares skus by its collation, which is a
  parameter \<open>collation_key\<close>: the sort key of a string, injective for a deterministic collation.
  The first part shows what a client that follows \<open>next_cursor\<close> sees, on a catalog that stands
  still and on one that changes between the pages; the second what a quote pins and what a price
  change does to the quotes issued before it.
\<close>

section \<open>Cursors\<close>

definition encode_cursor :: "int \<Rightarrow> string \<Rightarrow> string" where
  "encode_cursor unit_price_minor sku = show_int unit_price_minor @ '':'' @ sku"

text \<open>\<open>int(s)\<close> for a string of ASCII digits.\<close>

definition digits_value :: "string \<Rightarrow> int" where
  "digits_value s = foldl (\<lambda>n c. 10 * n + (int (of_char c) - 48)) 0 s"

definition decode_cursor :: "string \<Rightarrow> (int \<times> string) result" where
  "decode_cursor cursor =
     (let price_str = takeWhile (\<lambda>c. c \<noteq> CHR '':'') cursor;
          sku = drop 1 (dropWhile (\<lambda>c. c \<noteq> CHR '':'') cursor)
      in if price_str = [] \<or> \<not> list_all is_dec price_str \<or> sku = []
         then Inl (ValueError (''malformed cursor: '' @ repr_str cursor))
         else Inr (digits_value price_str, sku))"

lemma digits_value_show_nat: "digits_value (show_nat n) = int n"
proof (induction n rule: show_nat.induct)
  case (1 n)
  have digit: "int (of_char (dec_digit k)) - 48 = int k" if "k < 10" for k
    using that by (simp add: dec_digit_def)
  show ?case
  proof (cases "n < 10")
    case True
    then show ?thesis by (subst show_nat.simps) (simp add: digits_value_def digit)
  next
    case False
    then have "digits_value (show_nat n) = 10 * digits_value (show_nat (n div 10)) + (int (of_char (dec_digit (n mod 10))) - 48)"
      by (subst show_nat.simps) (simp add: digits_value_def)
    moreover have "10 * int (n div 10) + int (n mod 10) = int n" by presburger
    ultimately show ?thesis using 1 [OF False] digit [of "n mod 10"] by simp
  qed
qed

lemma decode_encode_cursor:
  assumes "0 \<le> p" "sku \<noteq> []"
  shows "decode_cursor (encode_cursor p sku) = Inr (p, sku)"
proof -
  have no_colon: "c \<noteq> CHR '':''" if "c \<in> set (show_nat n)" for c n
    using show_nat_dec [OF that] by (auto simp: is_dec_def)
  have t: "takeWhile (\<lambda>c. c \<noteq> CHR '':'') (show_nat n @ '':'' @ sku) = show_nat n"
    "dropWhile (\<lambda>c. c \<noteq> CHR '':'') (show_nat n @ '':'' @ sku) = '':'' @ sku" for n
    using no_colon by (auto simp: takeWhile_append dropWhile_append)
  have "list_all is_dec (show_nat n)" for n by (simp add: list_all_iff show_nat_dec)
  then show ?thesis
    using assms t [of "nat p"] by (simp add: decode_cursor_def encode_cursor_def show_int_def Let_def digits_value_show_nat)
qed

section \<open>Listing\<close>

record catalog_query =
  cq_category :: "string option"
  cq_location_city :: "string option"
  cq_location_country :: "string option"
  cq_max_unit_minor :: "int option"
  cq_is_buyer_listable :: "bool option"
  cq_cursor :: "string option"
  cq_limit :: int

record catalog_feed =
  cf_catalog_version :: int
  cf_generated_at :: datetime
  cf_items :: "catalog_item list"
  cf_next_cursor :: "string option"

type_synonym collation = "string \<Rightarrow> nat list"

definition item_key :: "collation \<Rightarrow> catalog_item \<Rightarrow> int \<times> nat list" where
  "item_key collation_key i = (ci_unit_price_minor i, collation_key (ci_sku i))"

definition matches :: "catalog_query \<Rightarrow> catalog_item \<Rightarrow> bool" where
  "matches q i \<longleftrightarrow>
     (case cq_category q of None \<Rightarrow> True | Some c \<Rightarrow> ci_category i = c) \<and>
     (case cq_location_city q of None \<Rightarrow> True | Some c \<Rightarrow> ci_location_city i = c) \<and>
     (case cq_location_country q of None \<Rightarrow> True | Some c \<Rightarrow> ci_location_country i = c) \<and>
     (case cq_max_unit_minor q of None \<Rightarrow> True | Some m \<Rightarrow> ci_unit_price_minor i \<le> m) \<and>
     (case cq_is_buyer_listable q of None \<Rightarrow> True | Some b \<Rightarrow> ci_is_buyer_listable i = b)"

definition after_cursor :: "collation \<Rightarrow> (int \<times> string) option \<Rightarrow> catalog_item \<Rightarrow> bool" where
  "after_cursor collation_key cursor i \<longleftrightarrow>
     (case cursor of None \<Rightarrow> True | Some (price, sku) \<Rightarrow> (price, collation_key sku) < item_key collation_key i)"

text \<open>The statement of \<open>CatalogRepository.list_items\<close> on the rows of the table, without its limit.\<close>

definition select_items :: "collation \<Rightarrow> catalog_query \<Rightarrow> (int \<times> string) option \<Rightarrow> catalog_item list \<Rightarrow> catalog_item list" where
  "select_items collation_key q cursor items =
     sort_key (item_key collation_key) (filter (\<lambda>i. matches q i \<and> after_cursor collation_key cursor i) items)"

definition catalog_list_items ::
  "collation \<Rightarrow> catalog_query \<Rightarrow> (int \<times> string) option \<Rightarrow> int \<Rightarrow> ('p, catalog_item list) app" where
  "catalog_list_items collation_key q cursor limit =
     db_call (\<lambda>d. if limit < 0 then (Inl DBAPIError, d)
       else (Inr (take (nat limit) (select_items collation_key q cursor (catalog_items d))), d))"

text \<open>\<open>if query.cursor\<close>: an empty cursor is no cursor.\<close>

definition query_cursor :: "catalog_query \<Rightarrow> (int \<times> string) option result" where
  "query_cursor q =
     (case cq_cursor q of
        None \<Rightarrow> Inr None
      | Some c \<Rightarrow> if c = [] then Inr None else rbind (decode_cursor c) (\<lambda>k. Inr (Some k)))"

text \<open>\<open>rows[:limit]\<close> and the cursor of the next page.\<close>

definition split_page :: "int \<Rightarrow> catalog_item list \<Rightarrow> catalog_item list \<times> string option" where
  "split_page limit rows =
     (let page = take (nat limit) rows in
      (page,
       if int (length rows) > limit \<and> page \<noteq> []
       then Some (encode_cursor (ci_unit_price_minor (last page)) (ci_sku (last page))) else None))"

definition query_payload :: "catalog_query \<Rightarrow> int \<Rightarrow> nat \<Rightarrow> json" where
  "query_payload q current_version result_count =
     JObj [(''filters'', JObj [(''category'', jopt JStr (cq_category q)), (''location_city'', jopt JStr (cq_location_city q)),
              (''location_country'', jopt JStr (cq_location_country q)), (''max_unit_minor'', jopt JInt (cq_max_unit_minor q)),
              (''is_buyer_listable'', jopt JBool (cq_is_buyer_listable q))]),
           (''catalog_version'', JInt current_version), (''result_count'', JInt (int result_count))]"

definition list_catalog :: "collation \<Rightarrow> catalog_query \<Rightarrow> string \<Rightarrow> ('p, catalog_feed) app" where
  "list_catalog collation_key q actor_id =
     bind (new_id ''trc'') (\<lambda>trace_id.
     bind (lift_result (query_cursor q)) (\<lambda>decoded_cursor.
     bind catalog_current_version (\<lambda>current_version.
     bind (catalog_list_items collation_key q decoded_cursor (cq_limit q + 1)) (\<lambda>rows.
     let (page, next_cursor) = split_page (cq_limit q) rows in
     bind clock_now (\<lambda>now.
     let feed = \<lparr>cf_catalog_version = current_version, cf_generated_at = now, cf_items = page, cf_next_cursor = next_cursor\<rparr> in
     bind (append_entry trace_id ''agent'' actor_id CATALOG_QUERIED
             (JObj [(''category'', jopt JStr (cq_category q)), (''location'', jopt JStr (cq_location_city q))])
             (query_payload q current_version (length page))) (\<lambda>_.
     bind commit (\<lambda>_.
     return feed)))))))"

section \<open>Quotes\<close>

definition issue_quote :: "string \<Rightarrow> catalog_item \<Rightarrow> string \<Rightarrow> int \<Rightarrow> int \<Rightarrow> datetime \<Rightarrow> quote" where
  "issue_quote quote_id item mid nights current_version deadline =
     \<lparr>q_quote_id = quote_id, q_sku = ci_sku item, q_mandate_id = mid,
      q_unit_price_minor = ci_unit_price_minor item, q_nights = nights,
      q_total_minor = ci_unit_price_minor item * nights, q_currency = ''INR'', q_catalog_version = current_version,
      q_refundable = ci_refundable item, q_expires_at = deadline, q_quote_token = None, q_quote_hash = None\<rparr>"

definition create_quote :: "string \<Rightarrow> string \<Rightarrow> int \<Rightarrow> string \<Rightarrow> ('p, quote) app" where
  "create_quote mid sku nights actor_id =
     bind (new_id ''trc'') (\<lambda>trace_id.
     bind (mandates_get mid) (\<lambda>mandate.
     if mandate = None then raise (MandateNotFound (''no mandate '' @ mid))
     else
       bind (catalog_get_item sku) (\<lambda>got.
       case got of
         None \<Rightarrow> raise (SkuNotFound (''no catalog item '' @ sku))
       | Some item \<Rightarrow>
           if ci_available_units item \<le> 0 then raise (SkuUnavailable (sku @ '' has no available units''))
           else
             bind catalog_current_version (\<lambda>current_version.
             bind (new_id ''qte'') (\<lambda>quote_id.
             bind clock_now (\<lambda>now.
             bind (gets config) (\<lambda>c.
             bind (gets json_datetime) (\<lambda>dump_dt.
             let draft = issue_quote quote_id item mid nights current_version (now + timedelta_s (quote_ttl_s c)) in
             bind (lift_result (compute_quote_hash dump_dt draft)) (\<lambda>quote_hash.
             bind (lift_result (build_quote_token dump_dt draft quote_hash (encode_utf8 (quote_signing_key c)))) (\<lambda>quote_token.
             let quote = draft\<lparr>q_quote_hash := Some quote_hash, q_quote_token := Some quote_token\<rparr> in
             bind (quotes_add quote) (\<lambda>_.
             bind (append_entry trace_id ''agent'' actor_id QUOTE_ISSUED
                     (JObj [(''sku'', JStr (q_sku quote)), (''quote_id'', JStr (q_quote_id quote))])
                     (JObj [(''sku'', JStr (q_sku quote)), (''price_minor'', JInt (q_unit_price_minor quote)),
                            (''catalog_version'', JInt (q_catalog_version quote)),
                            (''expires_at'', JStr (isoformat (q_expires_at quote)))])) (\<lambda>_.
             bind commit (\<lambda>_.
             return quote)))))))))))))"

definition mutate_price_demo_only :: "string \<Rightarrow> int \<Rightarrow> string \<Rightarrow> ('p, catalog_item) app" where
  "mutate_price_demo_only sku new_unit_price_minor actor_id =
     bind (new_id ''trc'') (\<lambda>trace_id.
     if new_unit_price_minor \<le> 0 then raise (InvalidPriceMutation ''unit_price_minor must be positive'')
     else
       bind (handle (catalog_mutate_price sku new_unit_price_minor)
               (\<lambda>exc. case exc of KeyError k \<Rightarrow> raise (SkuNotFound (''no catalog item '' @ sku)) | _ \<Rightarrow> raise exc)) (\<lambda>updated.
       bind (append_entry trace_id ''admin'' actor_id CATALOG_PRICE_MUTATED (JObj [(''sku'', JStr sku)])
               (JObj [(''sku'', JStr sku), (''new_unit_price_minor'', JInt new_unit_price_minor),
                      (''catalog_version'', JInt (ci_version updated))])) (\<lambda>_.
       bind commit (\<lambda>_.
       return updated))))"

section \<open>Following the cursor\<close>

text \<open>The page a query gets from a catalog, and the items a client collects that asks for the next
  page as long as there is a cursor, the catalog being \<open>c1\<close>, then \<open>c2\<close>, and so on, at
  each request. It is \<open>None\<close> when the list of catalogs is over before the last page.\<close>

definition catalog_page :: "collation \<Rightarrow> catalog_query \<Rightarrow> catalog_item list \<Rightarrow> (catalog_item list \<times> string option) result" where
  "catalog_page collation_key q items =
     rbind (query_cursor q) (\<lambda>cursor.
       Inr (split_page (cq_limit q) (take (nat (cq_limit q + 1)) (select_items collation_key q cursor items))))"

fun fetch_pages :: "collation \<Rightarrow> catalog_query \<Rightarrow> catalog_item list list \<Rightarrow> catalog_item list option" where
  "fetch_pages collation_key q [] = None"
| "fetch_pages collation_key q (items # later) =
     (case catalog_page collation_key q items of
        Inl e \<Rightarrow> None
      | Inr (page, None) \<Rightarrow> Some page
      | Inr (page, Some c) \<Rightarrow>
          map_option (\<lambda>rest. page @ rest) (fetch_pages collation_key (q\<lparr>cq_cursor := Some c\<rparr>) later))"

lemma list_catalog_page:
  "wp (list_catalog collation_key q actor_id)
    (\<lambda>feed w'. catalog_page collation_key q (catalog_items (session w)) = Inr (cf_items feed, cf_next_cursor feed))
    (\<lambda>e w'. True) w"
proof -
  have app: "wp (append_entry t y a act subj pay) (\<lambda>r. wp (bind commit (\<lambda>u. return f)) Q (\<lambda>e w'. True)) (\<lambda>e w'. True) v"
    if "\<And>w'. Q f w'" for t y a act subj pay Q and f :: catalog_feed and v :: "'a world"
    by (rule wp_mono [OF wp_true]) (use that in simp_all)
  show ?thesis
    unfolding list_catalog_def catalog_current_version_def catalog_list_items_def
    by (auto simp: wp_db_call catalog_page_def Let_def split: option.split sum.split prod.split intro!: app)
qed

text \<open>A catalog as the table constraints leave it: one row per sku, positive prices.\<close>

definition catalog_wf :: "catalog_item list \<Rightarrow> bool" where
  "catalog_wf items \<longleftrightarrow> distinct (map ci_sku items) \<and> list_all (\<lambda>i. 0 < ci_unit_price_minor i \<and> ci_sku i \<noteq> []) items"

abbreviation before :: "collation \<Rightarrow> catalog_item \<Rightarrow> catalog_item \<Rightarrow> bool" where
  "before ck i j \<equiv> item_key ck i < item_key ck j"

lemma select_items_set [simp]:
  "set (select_items ck q cur items) = {i \<in> set items. matches q i \<and> after_cursor ck cur i}"
  by (simp add: select_items_def)

lemma select_items_sorted:
  assumes "inj ck" "catalog_wf items"
  shows "sorted_wrt (before ck) (select_items ck q cur items)"
proof -
  let ?L = "select_items ck q cur items"
  have dist: "distinct (map (item_key ck) ?L)"
  proof -
    have "distinct (map ci_sku items)" using assms(2) by (simp add: catalog_wf_def)
    then have "inj_on ci_sku (set items)" "distinct items" by (simp_all add: distinct_map)
    then have "inj_on (item_key ck) (set ?L)"
      using assms(1) by (auto simp: inj_on_def item_key_def dest: injD)
    moreover have "distinct ?L" using \<open>distinct items\<close> by (simp add: select_items_def)
    ultimately show ?thesis by (simp add: distinct_map)
  qed
  have "sorted (map (item_key ck) ?L)" by (simp add: select_items_def)
  with dist have "sorted_wrt (<) (map (item_key ck) ?L)" by (simp add: strict_sorted_iff)
  then show ?thesis by (simp add: sorted_wrt_map)
qed

text \<open>The place of the last item of a page splits the rest of the listing off.\<close>

lemma page_splits:
  assumes "sorted_wrt (before ck) L" "take n L \<noteq> []"
  shows "x \<in> set (take n L) \<Longrightarrow> item_key ck x \<le> item_key ck (last (take n L))"
    and "x \<in> set (drop n L) \<Longrightarrow> before ck (last (take n L)) x"
proof -
  have s: "sorted_wrt (before ck) (take n L @ drop n L)" using assms(1) by simp
  show "before ck (last (take n L)) x" if "x \<in> set (drop n L)"
    using s that last_in_set [OF assms(2)] unfolding sorted_wrt_append by blast
  have "sorted_wrt (before ck) (butlast (take n L) @ [last (take n L)])"
    unfolding append_butlast_last_id [OF assms(2)] using s by (simp only: sorted_wrt_append)
  then show "item_key ck x \<le> item_key ck (last (take n L))" if "x \<in> set (take n L)"
    using that append_butlast_last_id [OF assms(2)] unfolding sorted_wrt_append
    by (metis Un_iff empty_iff insert_iff less_imp_le list.set(1) list.set(2) order.refl set_append)
qed

lemma after_last: "after_cursor ck (Some (ci_unit_price_minor x, ci_sku x)) i \<longleftrightarrow> before ck x i"
  by (simp add: after_cursor_def item_key_def)

lemma next_cursor_decodes:
  assumes "catalog_wf items" "x \<in> set items"
  shows "query_cursor (q\<lparr>cq_cursor := Some (encode_cursor (ci_unit_price_minor x) (ci_sku x))\<rparr>) =
    Inr (Some (ci_unit_price_minor x, ci_sku x))"
proof -
  have "0 \<le> ci_unit_price_minor x" "ci_sku x \<noteq> []"
    using assms by (auto simp: catalog_wf_def list_all_iff)
  moreover have "encode_cursor p s \<noteq> []" for p s by (simp add: encode_cursor_def)
  ultimately show ?thesis by (simp add: query_cursor_def decode_encode_cursor)
qed

lemma matches_cursor [simp]: "matches (q\<lparr>cq_cursor := c\<rparr>) = matches q"
  by (simp add: matches_def fun_eq_iff)

text \<open>One request: the page, and how the next one continues.\<close>

lemma catalog_page_cases:
  assumes "query_cursor q = Inr cur" "0 < cq_limit q"
  obtains (last) "catalog_page ck q items = Inr (select_items ck q cur items, None)"
      "length (select_items ck q cur items) \<le> nat (cq_limit q)"
  | (more) page x where "page = take (nat (cq_limit q)) (select_items ck q cur items)" "page \<noteq> []" "x = last page"
      "nat (cq_limit q) < length (select_items ck q cur items)" "x \<in> set items"
      "catalog_page ck q items = Inr (page, Some (encode_cursor (ci_unit_price_minor x) (ci_sku x)))"
proof -
  let ?L = "select_items ck q cur items" and ?n = "nat (cq_limit q)"
  have n: "nat (cq_limit q + 1) = Suc ?n" "0 < ?n" using assms(2) by auto
  show thesis
  proof (cases "?n < length ?L")
    case True
    let ?page = "take ?n ?L"
    have ne: "?page \<noteq> []" using True n by auto
    then have "last ?page \<in> set ?L" using last_in_set in_set_takeD by metis
    moreover have "int (length (take (Suc ?n) ?L)) > cq_limit q" using True assms(2) by auto
    ultimately show thesis
      using more [of ?page "last ?page"] ne True assms(1) n
      by (simp add: catalog_page_def split_page_def Let_def min_def)
  next
    case False
    then have "\<not> int (length (take (Suc ?n) ?L)) > cq_limit q" using assms(2) by auto
    then show thesis
      using last False assms(1) n by (simp add: catalog_page_def split_page_def Let_def)
  qed
qed

lemma select_next:
  assumes "inj ck" "catalog_wf items" "take n (select_items ck q cur items) \<noteq> []"
    and x: "x = last (take n (select_items ck q cur items))"
  shows "select_items ck (q\<lparr>cq_cursor := c\<rparr>) (Some (ci_unit_price_minor x, ci_sku x)) items = drop n (select_items ck q cur items)"
proof -
  let ?L = "select_items ck q cur items"
  have split: "y \<in> set (take n ?L) \<Longrightarrow> \<not> before ck x y" "y \<in> set (drop n ?L) \<Longrightarrow> before ck x y" for y
    using page_splits [OF select_items_sorted [OF assms(1,2)] assms(3)] x by (auto simp: not_less)
  have "x \<in> set ?L" using last_in_set [OF assms(3)] x in_set_takeD by metis
  then have later: "after_cursor ck cur y" if "before ck x y" for y
    using that by (cases cur) (auto simp: after_cursor_def intro: less_trans)
  have "select_items ck (q\<lparr>cq_cursor := c\<rparr>) (Some (ci_unit_price_minor x, ci_sku x)) items = filter (before ck x) ?L"
    unfolding select_items_def filter_sort filter_filter after_last matches_cursor
    by (rule arg_cong [where f = "sort_key (item_key ck)"], rule filter_cong) (use later in auto)
  also have "\<dots> = filter (before ck x) (take n ?L) @ filter (before ck x) (drop n ?L)"
    by (metis append_take_drop_id filter_append)
  also have "\<dots> = drop n ?L" using split by (simp add: filter_empty_conv)
  finally show ?thesis .
qed

lemma fetch_pages_static:
  assumes "inj ck" "catalog_wf items" "0 < cq_limit q" "query_cursor q = Inr cur"
    and "length (select_items ck q cur items) < n"
  shows "fetch_pages ck q (replicate n items) = Some (select_items ck q cur items)"
  using assms(3-)
proof (induction n arbitrary: q cur)
  case (Suc n)
  show ?case
  proof (rule catalog_page_cases [OF Suc.prems(2,1), of ck items], goal_cases)
    case 1
    then show ?case by simp
  next
    case (2 page x)
    let ?q = "q\<lparr>cq_cursor := Some (encode_cursor (ci_unit_price_minor x) (ci_sku x))\<rparr>"
    have rest: "select_items ck ?q (Some (ci_unit_price_minor x, ci_sku x)) items = drop (nat (cq_limit q)) (select_items ck q cur items)"
      by (rule select_next [OF assms(1,2)]) (use 2 in auto)
    have "fetch_pages ck ?q (replicate n items) = Some (select_items ck ?q (Some (ci_unit_price_minor x, ci_sku x)) items)"
      by (rule Suc.IH) (use 2 Suc.prems rest next_cursor_decodes [OF assms(2)] in auto)
    then show ?case using 2 rest by simp
  qed
qed simp

text \<open>An item in front of the cursor is not listed again; one behind it is listed once.\<close>

lemma fetch_pages_behind:
  assumes "\<forall>items \<in> set cats. catalog_wf items" "inj ck" "0 < cq_limit q" "query_cursor q = Inr cur"
    and "\<not> after_cursor ck cur i" "fetch_pages ck q cats = Some xs"
  shows "i \<notin> set xs"
  using assms(1,3-)
proof (induction cats arbitrary: q cur xs)
  case (Cons items later)
  show ?case
  proof (rule catalog_page_cases [OF Cons.prems(3,2), of ck items], goal_cases)
    case 1
    then show ?case using Cons.prems by auto
  next
    case (2 page x)
    let ?q = "q\<lparr>cq_cursor := Some (encode_cursor (ci_unit_price_minor x) (ci_sku x))\<rparr>"
    have page: "y \<in> set page \<Longrightarrow> after_cursor ck cur y" for y using 2(1) by (auto dest: in_set_takeD)
    then have x: "after_cursor ck cur x" using 2(2,3) last_in_set by blast
    obtain rest where rest: "fetch_pages ck ?q later = Some rest" "xs = page @ rest"
      using Cons.prems(5) 2 by auto
    have "\<not> after_cursor ck (Some (ci_unit_price_minor x, ci_sku x)) i"
      using x Cons.prems(4) unfolding after_last by (cases cur) (auto simp: after_cursor_def intro: less_trans)
    then have "i \<notin> set rest"
      by (rule Cons.IH [where q = ?q, rotated 3]) (use Cons.prems 2 rest next_cursor_decodes [of items x q] in auto)
    then show ?case using rest(2) page Cons.prems(4) by auto
  qed
qed simp

lemma fetch_pages_once:
  assumes "\<forall>items \<in> set cats. catalog_wf items \<and> i \<in> set items" "inj ck" "matches q i" "0 < cq_limit q" "query_cursor q = Inr cur"
    and "after_cursor ck cur i" "fetch_pages ck q cats = Some xs"
  shows "count_list xs i = 1"
  using assms(1,3-)
proof (induction cats arbitrary: q cur xs)
  case (Cons items later)
  have wf: "catalog_wf items" using Cons.prems(1) by simp
  let ?L = "select_items ck q cur items"
  have L: "i \<in> set ?L" "distinct ?L" using Cons.prems wf
    by (auto simp: select_items_def catalog_wf_def distinct_map)
  have once: "count_list ys i = 1" if "distinct ys" "i \<in> set ys" for ys
    using that by (induction ys) (auto simp: count_list_0_iff)
  show ?case
  proof (rule catalog_page_cases [OF Cons.prems(4,3), of ck items], goal_cases)
    case 1
    then show ?case using Cons.prems once L by auto
  next
    case (2 page x)
    let ?n = "nat (cq_limit q)"
    let ?q = "q\<lparr>cq_cursor := Some (encode_cursor (ci_unit_price_minor x) (ci_sku x))\<rparr>"
    note parts = page_splits [OF select_items_sorted [OF assms(2) wf, of q cur], of ?n i, folded 2(1,3)]
    note cursor = next_cursor_decodes [OF wf 2(5), of q]
    obtain rest where rest: "fetch_pages ck ?q later = Some rest" "xs = page @ rest"
      using Cons.prems(6) 2 by auto
    have wfs: "\<forall>items \<in> set later. catalog_wf items" "\<forall>items \<in> set later. catalog_wf items \<and> i \<in> set items"
      using Cons.prems(1) by simp_all
    show ?case
    proof (cases "i \<in> set page")
      case True
      then have "\<not> after_cursor ck (Some (ci_unit_price_minor x, ci_sku x)) i"
        using parts(1) 2(2) unfolding after_last by (simp add: not_less)
      then have "i \<notin> set rest"
        by (rule fetch_pages_behind [OF wfs(1) assms(2), where q = ?q, rotated 2]) (use Cons.prems cursor rest in auto)
      moreover have "count_list page i = 1" using once True L(2) 2(1) by simp
      ultimately show ?thesis using rest(2) by (simp add: count_list_0_iff)
    next
      case False
      then have "i \<in> set (drop ?n ?L)"
        using L(1) 2(1) by (metis Un_iff append_take_drop_id set_append)
      then have "after_cursor ck (Some (ci_unit_price_minor x, ci_sku x)) i"
        using parts(2) 2(2) unfolding after_last by simp
      then have "count_list rest i = 1"
        by (rule Cons.IH [where q = ?q, rotated 4]) (use wfs Cons.prems cursor rest in auto)
      moreover have "count_list page i = 0" using False by (simp add: count_list_0_iff)
      ultimately show ?thesis using rest(2) by simp
    qed
  qed
qed simp

text \<open>
  C37. Paging is complete: on a catalog that does not change, a client that follows
  \<open>next_cursor\<close> from the first page reaches the last one after finitely many requests and has
  then received exactly the matching items, in the order of price and sku, whatever the page size.
\<close>

theorem paging_complete:
  assumes "inj ck" "catalog_wf items" "0 < cq_limit q" "cq_cursor q = None"
  shows "fetch_pages ck q (replicate (Suc (length items)) items) =
    Some (sort_key (item_key ck) (filter (matches q) items))"
proof -
  have "select_items ck q None items = sort_key (item_key ck) (filter (matches q) items)"
    by (simp add: select_items_def after_cursor_def)
  moreover have "length (select_items ck q None items) < Suc (length items)"
    by (simp add: select_items_def less_Suc_eq_le)
  ultimately show ?thesis
    using fetch_pages_static [OF assms(1-3), of None "Suc (length items)"] assms(4) by (simp add: query_cursor_def)
qed

text \<open>Two rooms; the bytes of a sku are its key under the C collation.\<close>

definition c_collation :: collation where
  "c_collation s = map of_char s"

lemma inj_c_collation: "inj c_collation"
  unfolding c_collation_def by (rule inj_mapI) (simp add: inj_on_def)

definition room :: "string \<Rightarrow> int \<Rightarrow> catalog_item" where
  "room sku price = sea_view\<lparr>ci_sku := sku, ci_unit_price_minor := price\<rparr>"

lemma room_simps [simp]: "ci_sku (room s p) = s" "ci_unit_price_minor (room s p) = p"
  by (simp_all add: room_def)

definition one_by_one :: catalog_query where
  "one_by_one = \<lparr>cq_category = None, cq_location_city = None, cq_location_country = None, cq_max_unit_minor = None,
     cq_is_buyer_listable = None, cq_cursor = None, cq_limit = 1\<rparr>"

lemma one_by_one_simps [simp]: "cq_limit one_by_one = 1" "cq_cursor one_by_one = None" "matches one_by_one i"
  by (simp_all add: one_by_one_def matches_def)

lemma rooms_wf: "p > 0 \<Longrightarrow> p' > 0 \<Longrightarrow> catalog_wf [room ''B'' p, room ''A'' p']"
  by (simp add: catalog_wf_def)

theorem paging_complete_witness:
  "fetch_pages c_collation one_by_one (replicate 3 [room ''B'' 200, room ''A'' 100]) = Some [room ''A'' 100, room ''B'' 200]"
  using paging_complete [OF inj_c_collation rooms_wf [of 200 100], of one_by_one]
  by (simp add: numeral_eq_Suc item_key_def)

text \<open>
  Paging while the catalog changes: whatever is added, removed or repriced between two
  requests, an item that is the same in every catalog the pages are read from, and matches the
  query, is received exactly once.
\<close>

theorem paging_keeps_unchanged_items:
  assumes "inj ck" "\<forall>items \<in> set catalogs. catalog_wf items \<and> i \<in> set items" "matches q i" "0 < cq_limit q" "cq_cursor q = None"
    and "fetch_pages ck q catalogs = Some received"
  shows "count_list received i = 1"
  by (rule fetch_pages_once [where cur = None]) (use assms in \<open>auto simp: query_cursor_def after_cursor_def\<close>)

lemma moving_room:
  "fetch_pages c_collation one_by_one
     [[room ''A'' 100, room ''B'' 200], [room ''A'' 300, room ''B'' 200], [room ''A'' 300, room ''B'' 200]] =
   Some [room ''A'' 100, room ''B'' 200, room ''A'' 300]"
  by code_simp

theorem paging_keeps_unchanged_items_witness:
  "count_list [room ''A'' 100, room ''B'' 200, room ''A'' 300] (room ''B'' 200) = 1"
  by (rule paging_keeps_unchanged_items [OF inj_c_collation _ _ _ _ moving_room]) (auto simp: catalog_wf_def)

text \<open>
  An item whose price changes between two requests can be received twice, or not at all: with
  one item per page, raising the price of an item already received lists its sku again, and lowering
  the price of an item not yet received hides it.
\<close>

theorem paging_price_change:
  "(\<exists>first later received. catalog_wf first \<and> catalog_wf later \<and> map ci_sku later = map ci_sku first \<and>
      fetch_pages c_collation one_by_one [first, later, later] = Some received \<and>
      count_list (map ci_sku received) ''A'' = 2) \<and>
   (\<exists>first later received. catalog_wf first \<and> catalog_wf later \<and> map ci_sku later = map ci_sku first \<and>
      fetch_pages c_collation one_by_one [first, later, later] = Some received \<and>
      ''B'' \<in> ci_sku ` set first \<and> ''B'' \<notin> ci_sku ` set received)"
proof
  show "\<exists>first later received. catalog_wf first \<and> catalog_wf later \<and> map ci_sku later = map ci_sku first \<and>
      fetch_pages c_collation one_by_one [first, later, later] = Some received \<and>
      count_list (map ci_sku received) ''A'' = 2"
    using moving_room by (intro exI conjI) (auto simp: catalog_wf_def)
  have "fetch_pages c_collation one_by_one
     [[room ''A'' 100, room ''B'' 200], [room ''A'' 100, room ''B'' 50], [room ''A'' 100, room ''B'' 50]] =
   Some [room ''A'' 100]" by code_simp
  then show "\<exists>first later received. catalog_wf first \<and> catalog_wf later \<and> map ci_sku later = map ci_sku first \<and>
      fetch_pages c_collation one_by_one [first, later, later] = Some received \<and>
      ''B'' \<in> ci_sku ` set first \<and> ''B'' \<notin> ci_sku ` set received"
    by (intro exI conjI) (auto simp: catalog_wf_def)
qed

section \<open>What a quote pins\<close>

text \<open>The usual end of a transaction: append an entry, commit, return a value.\<close>

definition besides_audit :: "db \<Rightarrow> db" where
  "besides_audit d = d\<lparr>audit_log := [], audit_checkpoints := []\<rparr>"

definition published :: "string \<Rightarrow> audit_action \<Rightarrow> json \<Rightarrow> 'p world \<Rightarrow> 'p world \<Rightarrow> bool" where
  "published trace act pay w w' \<longleftrightarrow>
     besides_audit (durable w') = besides_audit (session w) \<and> others w' = others w \<and> session w' = durable w' \<and>
     (\<exists>r. audit_log (durable w') = audit_log (session w) @ [r] \<and> al_trace_id r = trace \<and>
        al_action r = action_value act \<and> al_payload r = pay)"

lemma besides_audit_fields:
  assumes "besides_audit d = besides_audit e"
  shows "mandates d = mandates e" "decisions d = decisions e" "quotes d = quotes e" "catalog_meta d = catalog_meta e"
    "catalog_items d = catalog_items e" "orders d = orders e" "ledger_entries d = ledger_entries e"
    "idempotency_keys d = idempotency_keys e" "sagas d = sagas e" "webhook_events d = webhook_events e"
  using assms by (auto simp: besides_audit_def dest: arg_cong [where f = mandates] arg_cong [where f = decisions]
    arg_cong [where f = quotes] arg_cong [where f = catalog_meta] arg_cong [where f = catalog_items]
    arg_cong [where f = orders] arg_cong [where f = ledger_entries] arg_cong [where f = idempotency_keys]
    arg_cong [where f = sagas] arg_cong [where f = webhook_events])

lemma wp_append_commit:
  assumes "\<And>w'. published t act pay w w' \<Longrightarrow> Q x w'" "\<And>e w'. durable w' = durable w \<Longrightarrow> E e w'"
  shows "wp (append_entry t y b act subj pay) (\<lambda>_. wp (bind commit (\<lambda>_. return x)) Q E) E w"
proof (rule wp_mono [OF wp_conj [OF wp_conj [OF append_entry_adds local_wp [OF local_append_entry]]
      preserves_wp [OF preserves_append_entry [where f = besides_audit]]]], goal_cases)
  case (3 r u)
  then have "published t act pay w ((tick u)\<lparr>durable := session u\<rparr>)" "durable u = durable w"
    by (auto simp: published_def local_step_def)
  then show ?case using assms by simp
next
  case (4 e u)
  then show ?case using assms(2) by (simp add: local_step_def)
qed (simp_all add: besides_audit_def)

text \<open>
  C38. A quote pins what the catalog says at one instant: when \<open>create_quote\<close> returns, the
  mandate exists, the item is on offer, the price, the total, the catalog version and the deadline
  of the quote are those of the committed catalog, the clock and the settings, its hash is the hash
  of its terms, and the quote is committed under its fresh id together with one audit entry. When it
  raises, nothing is committed.
\<close>

theorem quote_pins_catalog:
  "case with_uow (create_quote mid sku nights actor) w of
     (Inr q, w') \<Rightarrow>
       (\<exists>item v h. mandates (began w) mid \<noteq> None \<and> find_item sku (catalog_items (began w)) = Some item \<and>
          0 < ci_available_units item \<and> catalog_meta (began w) = Some v \<and> q_mandate_id q = mid \<and> q_sku q = ci_sku item \<and>
          q_unit_price_minor q = ci_unit_price_minor item \<and> q_total_minor q = ci_unit_price_minor item * nights \<and>
          0 < q_total_minor q \<and> q_catalog_version q = v \<and> q_refundable q = ci_refundable item \<and>
          q_expires_at q = clock w (clock_reads w) + timedelta_s (quote_ttl_s (config w)) \<and>
          compute_quote_hash (json_datetime w) q = Inr h \<and> q_quote_hash q = Some h \<and>
          quotes (began w) (q_quote_id q) = None \<and> quotes (durable w') = (quotes (began w))(q_quote_id q \<mapsto> q) \<and>
          (\<exists>r. audit_log (durable w') = audit_log (began w) @ [r] \<and> al_action r = ''quote.issued''))
   | (Inl e, w') \<Rightarrow> durable w' = began w"
    (is "case _ of (Inr q, w') \<Rightarrow> ?P q w' | (Inl e, w') \<Rightarrow> _ w'")
proof -
  have "wp (with_uow (create_quote mid sku nights actor)) ?P (\<lambda>e w'. durable w' = began w) w"
    unfolding create_quote_def wp_with_uow began_def mandates_get_def catalog_get_item_def catalog_current_version_def quotes_add_def
    by (auto simp: wp_db_call Let_def issue_quote_def quote_row_ok_def compute_quote_hash_def hashable_payload_def
        published_def dest!: besides_audit_fields(3) split: option.split sum.split intro!: wp_append_commit)
  then show ?thesis unfolding wp_def by (simp only: prod.case_eq_if sum.case_eq_if split: if_splits)
qed

section \<open>What a price change does to quotes\<close>

text \<open>The version a quote pins is a version the catalog has had.\<close>

definition quotes_known :: "db \<Rightarrow> bool" where
  "quotes_known d \<longleftrightarrow> (\<forall>qid q. quotes d qid = Some q \<longrightarrow> (\<exists>v. catalog_meta d = Some v \<and> q_catalog_version q \<le> v))"

lemma published_quotes_known:
  assumes "published t act pay w w'"
  shows "quotes_known (durable w') = quotes_known (session w)"
proof -
  have b: "besides_audit (durable w') = besides_audit (session w)" using assms by (simp add: published_def)
  show ?thesis by (simp add: quotes_known_def besides_audit_fields [OF b])
qed

text \<open>Reads and quote issuance keep it, and so does a price change.\<close>

lemma quotes_known_append [guarded_rules]: "guarded quotes_known (append_entry t y a act subj pay)"
proof (rule yields_local [OF local_append_entry])
  fix w :: "'a world"
  assume "quotes_known (session w)"
  then show "wp (append_entry t y a act subj pay) (\<lambda>x w'. quotes_known (session w') \<and> True) (\<lambda>e w'. True) w"
    by (intro wp_mono [OF preserves_wp [OF preserves_append_entry [where f = quotes_known]]]) (simp_all add: quotes_known_def)
qed

lemma catalog_operations_keep_quotes_known:
  "guarded quotes_known (list_catalog ck q actor :: ('p, catalog_feed) app)"
  "guarded quotes_known (create_quote mid sku nights actor :: ('p, quote) app)"
proof -
  show "guarded quotes_known (list_catalog ck q actor :: ('p, catalog_feed) app)"
    unfolding list_catalog_def catalog_current_version_def catalog_list_items_def
    by (auto intro!: guarded_rules guarded_db_call simp: Let_def split: if_splits option.splits prod.split)
  have "wp (create_quote mid sku nights actor) (\<lambda>q w'. steady quotes_known w' \<and> quotes_known (session w')) (\<lambda>e w'. steady quotes_known w') w"
    if w: "steady quotes_known w" "quotes_known (session w)" for w :: "'p world"
  proof -
    have fin: "wp (append_entry t y a act subj pay) (\<lambda>_. wp (bind commit (\<lambda>_. return q))
        (\<lambda>q w'. steady quotes_known w' \<and> quotes_known (session w')) (\<lambda>e w'. steady quotes_known w')) (\<lambda>e w'. steady quotes_known w') u"
      if "steady quotes_known u" "quotes_known (session u)" for t y a act subj pay q and u :: "'p world"
      by (rule wp_mono [OF yieldsD [OF quotes_known_append that]]) (auto simp: steady_def)
    have frame: "steady quotes_known (u\<lparr>session := d\<rparr>) = steady quotes_known u" "steady quotes_known (u\<lparr>statements := n\<rparr>) = steady quotes_known u"
      "steady quotes_known (u\<lparr>ids_minted := n\<rparr>) = steady quotes_known u" "steady quotes_known (u\<lparr>clock_reads := n\<rparr>) = steady quotes_known u"
      for d n and u :: "'p world" by (simp_all add: steady_def)
    have new: "quotes_known (d\<lparr>quotes := (quotes d)(k \<mapsto> q)\<rparr>)"
      if "quotes_known d" "catalog_meta d = Some (q_catalog_version q)" for d k q
      using that by (auto simp: quotes_known_def)
    show ?thesis
      unfolding create_quote_def mandates_get_def catalog_get_item_def catalog_current_version_def quotes_add_def
      using w by (auto simp: wp_db_call Let_def issue_quote_def frame split: option.split sum.split intro!: fin new)
  qed
  then show "guarded quotes_known (create_quote mid sku nights actor :: ('p, quote) app)" by (auto intro!: yieldsI)
qed

text \<open>
  C39. A price change makes every quote issued before it worthless: once
  \<open>mutate_price_demo_only\<close> has committed, G5 of the gate lets no request pass on any quote in
  the database, whichever item it is for, until a new quote is issued; when it raises, nothing has
  changed. The versions that quotes pin never run ahead of the catalog.
\<close>

theorem price_change_stales_quotes:
  fixes w :: "'p world"
  assumes "quotes_known (began w)"
  shows "case with_uow (mutate_price_demo_only sku price actor) w of
      (Inr updated, w') \<Rightarrow>
        ci_unit_price_minor updated = price \<and> 0 < price \<and> find_item sku (catalog_items (durable w')) = Some updated \<and>
        quotes_known (durable w') \<and> quotes (durable w') = quotes (began w) \<and>
        (\<forall>req (u :: 'p world). session u = durable w' \<longrightarrow> fst (gate_g5 req u) \<noteq> Inr (Inr ()))
    | (Inl e, w') \<Rightarrow> durable w' = began w"
    (is "case _ of (Inr q, w') \<Rightarrow> ?P q w' | (Inl e, w') \<Rightarrow> _ w'")
proof -
  define P where "P q w' \<longleftrightarrow> ?P q w'" for q w'
  have stale: "fst (gate_g5 req u) \<noteq> Inr (Inr ())"
    if "\<forall>qid q. quotes (session u) qid = Some q \<longrightarrow> catalog_meta (session u) \<noteq> Some (q_catalog_version q)" for req and u :: "'p world"
    using wp_g5 [of req u] that by (auto simp: wp_def g5_passed_def split: prod.splits sum.splits)
  have find: "find_item sku (map (\<lambda>j. if ci_sku j = sku then f i else j) items) = Some (f i)"
    if "find_item sku items = Some i" "ci_sku (f i) = sku" for items i and f :: "catalog_item \<Rightarrow> catalog_item"
    using that by (induction items) (auto simp: find_item_def)
  have sku: "ci_sku i = sku" if "find_item sku items = Some i" for items i
    using that by (auto simp: find_item_def find_Some_iff)
  have committed: "P (i\<lparr>ci_unit_price_minor := price, ci_version := v + 1\<rparr>) (w'\<lparr>session := s\<rparr>)"
    if i: "find_item sku (catalog_items (began w)) = Some i" "catalog_meta (began w) = Some v" "0 < price"
      and p: "published t act pay u w'"
      and u: "session u = (began w)\<lparr>catalog_meta := Some (v + 1),
        catalog_items := map (\<lambda>j. if ci_sku j = sku then i\<lparr>ci_unit_price_minor := price, ci_version := v + 1\<rparr> else j) (catalog_items (began w))\<rparr>"
    for i v t act pay s and u w' :: "'p world"
  proof -
    have b: "besides_audit (durable w') = besides_audit (session u)" using p by (simp add: published_def)
    have old: "q_catalog_version q \<le> v" if "quotes (began w) qid = Some q" for qid q
      using assms i(2) that by (auto simp: quotes_known_def)
    then have "quotes_known (session u)" using u by (auto simp: quotes_known_def) (meson old order.trans zle_add1_eq_le zless_add1_eq)
    then have "quotes_known (durable w')" using published_quotes_known [OF p] by simp
    moreover have "catalog_meta (session x) \<noteq> Some (q_catalog_version q)"
      if "session x = durable w'" "quotes (session x) qid = Some q" for x :: "'p world" and qid q
      using that old [of qid q] by (simp add: besides_audit_fields [OF b] u)
    ultimately show ?thesis
      unfolding P_def using i stale find [OF i(1), of "\<lambda>i. i\<lparr>ci_unit_price_minor := price, ci_version := v + 1\<rparr>"] sku [OF i(1)] by (auto simp: besides_audit_fields [OF b] u)
  qed
  have "wp (with_uow (mutate_price_demo_only sku price actor)) P (\<lambda>e w'. durable w' = began w) w"
    unfolding mutate_price_demo_only_def wp_with_uow catalog_mutate_price_def began_def [symmetric]
    by (auto simp: wp_db_call Let_def catalog_item_row_ok_def split: option.split
        intro!: wp_append_commit committed)
  then show ?thesis unfolding wp_def P_def by (simp only: prod.case_eq_if sum.case_eq_if split: if_splits)
qed

theorem price_change_stales_quotes_witness:
  "case with_uow (mutate_price_demo_only ''A'' 300 ''adm_1'')
       (quiet_world 0 () (goa_db\<lparr>catalog_items := [room ''A'' 100], quotes := [''qte_1'' \<mapsto> goa_quote\<lparr>q_catalog_version := 1\<rparr>]\<rparr>)) of
      (Inr updated, w') \<Rightarrow> \<forall>req (u :: unit world). session u = durable w' \<longrightarrow> fst (gate_g5 req u) \<noteq> Inr (Inr ())
    | (Inl e, w') \<Rightarrow> True"
proof -
  let ?w = "quiet_world 0 () (goa_db\<lparr>catalog_items := [room ''A'' 100], quotes := [''qte_1'' \<mapsto> goa_quote\<lparr>q_catalog_version := 1\<rparr>]\<rparr>)"
  have "quotes_known (began ?w)" by (simp add: quotes_known_def began_def goa_db_def)
  from price_change_stales_quotes [OF this, where sku = "''A''" and price = 300 and actor = "''adm_1''"]
  show ?thesis by (auto split: prod.splits sum.splits)
qed

end
