(* ===== verification/Envelope.thy ===== *)
theory Envelope
  imports Transactions
begin

text \<open>
  Signed agent-to-agent messages: the envelope with its canonical signing bytes
  (\<open>domain/agent/envelope.py\<close>), the replay-nonce cache (\<open>infrastructure/cache/nonce.py\<close>)
  and the verification pipeline (\<open>application/agents/envelope_service.py\<close>). Ed25519 and Redis are
  not code of the repository: they are the records \<open>ed25519\<close> and \<open>redis\<close> of operations, and
  the locale \<open>expiring_keys\<close> says what \<open>SET key value NX EX ttl\<close> promises. The state of a
  process that serves agents is the state behind Redis next to the world of the application.
\<close>

section \<open>envelope.py\<close>

datatype message_type =
    CAPABILITY_DISCOVER | CATALOG_QUERY | QUOTE_REQUEST | ORDER_PROPOSE | ORDER_STATUS | RECEIPT_ISSUE | ERROR

fun message_type_value :: "message_type \<Rightarrow> string" where
  "message_type_value CAPABILITY_DISCOVER = ''capability.discover''"
| "message_type_value CATALOG_QUERY = ''catalog.query''"
| "message_type_value QUOTE_REQUEST = ''quote.request''"
| "message_type_value ORDER_PROPOSE = ''order.propose''"
| "message_type_value ORDER_STATUS = ''order.status''"
| "message_type_value RECEIPT_ISSUE = ''receipt.issue''"
| "message_type_value ERROR = ''error''"

definition request_message_types :: "message_type list" where
  "request_message_types =
     [CAPABILITY_DISCOVER, CATALOG_QUERY, QUOTE_REQUEST, ORDER_PROPOSE, ORDER_STATUS, RECEIPT_ISSUE]"

definition protocol_id :: string where
  "protocol_id = ''actl.acp/1''"

definition supported_major_versions :: "string list" where
  "supported_major_versions = [''1'']"

definition supported_algorithms :: "string list" where
  "supported_algorithms = [''Ed25519'', ''HMAC-SHA256'']"

text \<open>
  A \<open>datetime\<close> read from a message is aware, an instant and the UTC offset in seconds it was
  written with, or naive, a wall-clock reading without an offset: the field admits both.
\<close>

datatype timestamp = Aware datetime int | Naive datetime

record signature_block =
  sb_alg :: string
  sb_key_id :: string
  sb_value :: string

record agent_envelope =
  ev_protocol :: string
  ev_msg_id :: string
  ev_ts :: timestamp
  ev_from :: string
  ev_to :: string
  ev_corr_id :: string
  ev_type :: message_type
  ev_body :: "(string \<times> json) list"
  ev_sig :: "signature_block option"

text \<open>The constraints of the fields: not empty, no NUL byte.\<close>

definition field_ok :: "string \<Rightarrow> bool" where
  "field_ok s \<longleftrightarrow> s \<noteq> [] \<and> CHR 0x00 \<notin> set s"

definition signature_block_ok :: "signature_block \<Rightarrow> bool" where
  "signature_block_ok b \<longleftrightarrow> field_ok (sb_alg b) \<and> field_ok (sb_key_id b) \<and> field_ok (sb_value b)"

definition envelope_ok :: "agent_envelope \<Rightarrow> bool" where
  "envelope_ok e \<longleftrightarrow>
     field_ok (ev_protocol e) \<and> field_ok (ev_msg_id e) \<and> field_ok (ev_from e) \<and> field_ok (ev_to e) \<and>
     field_ok (ev_corr_id e) \<and> (case ev_sig e of None \<Rightarrow> True | Some b \<Rightarrow> signature_block_ok b)"

text \<open>\<open>dump_ts\<close> is pydantic's JSON form of a datetime field.\<close>

definition signable_payload :: "(timestamp \<Rightarrow> string) \<Rightarrow> agent_envelope \<Rightarrow> json" where
  "signable_payload dump_ts e =
     JObj [(''protocol'', JStr (ev_protocol e)), (''msg_id'', JStr (ev_msg_id e)), (''ts'', JStr (dump_ts (ev_ts e))),
           (''from'', JStr (ev_from e)), (''to'', JStr (ev_to e)), (''corr_id'', JStr (ev_corr_id e)),
           (''type'', JStr (message_type_value (ev_type e))), (''body'', JObj (ev_body e))]"

definition canonical_signing_bytes :: "(timestamp \<Rightarrow> string) \<Rightarrow> agent_envelope \<Rightarrow> bytes result" where
  "canonical_signing_bytes dump_ts e = rmap encode_utf8 (jcs (signable_payload dump_ts e))"

definition before_char :: "char \<Rightarrow> string \<Rightarrow> string" where
  "before_char c s = takeWhile (\<lambda>x. x \<noteq> c) s"

definition after_char :: "char \<Rightarrow> string \<Rightarrow> string" where
  "after_char c s = drop 1 (dropWhile (\<lambda>x. x \<noteq> c) s)"

definition is_known_protocol_version :: "string \<Rightarrow> bool" where
  "is_known_protocol_version protocol =
     (if CHR ''/'' \<notin> set protocol then False
      else before_char (CHR ''/'') protocol = ''actl.acp'' \<and>
        before_char (CHR ''.'') (after_char (CHR ''/'') protocol) \<in> set supported_major_versions)"

definition is_known_algorithm :: "string \<Rightarrow> bool" where
  "is_known_algorithm alg \<longleftrightarrow> alg \<in> set supported_algorithms"

record ed25519 =
  ed_load_public :: "bytes \<Rightarrow> bytes result"
  ed_load_private :: "bytes \<Rightarrow> bytes result"
  ed_sign :: "bytes \<Rightarrow> bytes \<Rightarrow> bytes"
  ed_verify :: "bytes \<Rightarrow> bytes \<Rightarrow> bytes \<Rightarrow> bool"

definition sign_envelope_ed25519 ::
  "ed25519 \<Rightarrow> (timestamp \<Rightarrow> string) \<Rightarrow> agent_envelope \<Rightarrow> bytes \<Rightarrow> string \<Rightarrow> agent_envelope result" where
  "sign_envelope_ed25519 C dump_ts e private_key key_id =
     (let unsigned = e\<lparr>ev_sig := None\<rparr> in
      rbind (canonical_signing_bytes dump_ts unsigned) (\<lambda>msg.
        Inr (unsigned\<lparr>ev_sig := Some \<lparr>sb_alg = ''Ed25519'', sb_key_id = key_id, sb_value = hex (ed_sign C private_key msg)\<rparr>\<rparr>)))"

definition verify_envelope_ed25519 ::
  "ed25519 \<Rightarrow> (timestamp \<Rightarrow> string) \<Rightarrow> agent_envelope \<Rightarrow> bytes \<Rightarrow> bool result" where
  "verify_envelope_ed25519 C dump_ts e public_key =
     (case ev_sig e of
        None \<Rightarrow> Inr False
      | Some b \<Rightarrow>
          if sb_alg b \<noteq> ''Ed25519'' then Inr False
          else (case fromhex (sb_value b) of
             None \<Rightarrow> Inr False
           | Some sig_bytes \<Rightarrow>
               rbind (canonical_signing_bytes dump_ts (e\<lparr>ev_sig := None\<rparr>)) (\<lambda>msg.
                 Inr (ed_verify C public_key sig_bytes msg))))"

definition sign_envelope_hmac ::
  "(timestamp \<Rightarrow> string) \<Rightarrow> agent_envelope \<Rightarrow> bytes \<Rightarrow> string \<Rightarrow> agent_envelope result" where
  "sign_envelope_hmac dump_ts e key key_id =
     (let unsigned = e\<lparr>ev_sig := None\<rparr> in
      rbind (canonical_signing_bytes dump_ts unsigned) (\<lambda>msg.
        Inr (unsigned\<lparr>ev_sig := Some \<lparr>sb_alg = ''HMAC-SHA256'', sb_key_id = key_id, sb_value = hex (hmac_sha256 key msg)\<rparr>\<rparr>)))"

definition verify_envelope_hmac :: "(timestamp \<Rightarrow> string) \<Rightarrow> agent_envelope \<Rightarrow> bytes \<Rightarrow> bool result" where
  "verify_envelope_hmac dump_ts e key =
     (case ev_sig e of
        None \<Rightarrow> Inr False
      | Some b \<Rightarrow>
          if sb_alg b \<noteq> ''HMAC-SHA256'' then Inr False
          else
            rbind (canonical_signing_bytes dump_ts (e\<lparr>ev_sig := None\<rparr>)) (\<lambda>msg.
              compare_digest (hex (hmac_sha256 key msg)) (sb_value b)))"

section \<open>nonce.py\<close>

text \<open>\<open>client.set(key, value, nx=True, ex=ttl)\<close>; it raises \<open>RedisError\<close> when Redis cannot be reached.\<close>

record 'r redis =
  set_nx_ex :: "string \<Rightarrow> string \<Rightarrow> int \<Rightarrow> ('r, bool) comp"

definition nonce_ttl_s :: int where
  "nonce_ttl_s = 600"

definition nonce_key :: "string \<Rightarrow> string" where
  "nonce_key msg_id = ''actl:nonce:'' @ msg_id"

definition claim :: "'r redis \<Rightarrow> string \<Rightarrow> ('r, bool) comp" where
  "claim R msg_id =
     handle (set_nx_ex R (nonce_key msg_id) ''1'' nonce_ttl_s)
       (\<lambda>exc. case exc of RedisError m \<Rightarrow> raise (NonceCacheUnavailable m) | _ \<Rightarrow> raise exc)"

section \<open>envelope\_service.py\<close>

record ('r, 'p) agent_world =
  redis_state :: 'r
  app_world :: "'p world"

type_synonym ('r, 'p, 'a) agent = "(('r, 'p) agent_world, 'a) comp"

definition in_app :: "('p, 'a) app \<Rightarrow> ('r, 'p, 'a) agent" where
  "in_app m = (\<lambda>s. case m (app_world s) of (r, w) \<Rightarrow> (r, s\<lparr>app_world := w\<rparr>))"

definition in_redis :: "('r, 'a) comp \<Rightarrow> ('r, 'p, 'a) agent" where
  "in_redis m = (\<lambda>s. case m (redis_state s) of (r, x) \<Rightarrow> (r, s\<lparr>redis_state := x\<rparr>))"

definition skew_window_s :: int where
  "skew_window_s = 120"

datatype envelope_verification =
    EnvelopeVerified agent_envelope string
  | EnvelopeRejected reason_code string bool

text \<open>
  What pydantic and the formatting of floats do on the wire: a datetime field and a rating in JSON, a
  skew printed by \<open>{x:.1f}\<close>, and the integer that an \<open>int\<close> field reads from a JSON value.
\<close>

record wire =
  dump_ts :: "timestamp \<Rightarrow> string"
  dump_rating :: "int \<Rightarrow> json"
  show_skew :: "int \<Rightarrow> string"
  read_int :: "json \<Rightarrow> int option"

definition bytes_fromhex :: "string \<Rightarrow> bytes result" where
  "bytes_fromhex s =
     (case fromhex s of None \<Rightarrow> Inl (ValueError ''non-hexadecimal number found in fromhex() arg'') | Some b \<Rightarrow> Inr b)"

definition nonempty :: "string option \<Rightarrow> bool" where
  "nonempty s \<longleftrightarrow> s \<noteq> None \<and> s \<noteq> Some []"

definition check_signature ::
  "ed25519 \<Rightarrow> wire \<Rightarrow> agent_envelope \<Rightarrow> signature_block \<Rightarrow> agent_identity \<Rightarrow> bool result" where
  "check_signature C W e b identity =
     (if ai_alg identity = ''Ed25519'' \<and> sb_alg b = ''Ed25519'' \<and> nonempty (ai_public_key_hex identity) then
        rbind (bytes_fromhex (the (ai_public_key_hex identity))) (\<lambda>raw.
        rbind (ed_load_public C raw) (\<lambda>public_key.
        verify_envelope_ed25519 C (dump_ts W) e public_key))
      else if ai_alg identity = ''HMAC-SHA256'' \<and> sb_alg b = ''HMAC-SHA256'' \<and> nonempty (ai_hmac_secret identity) then
        verify_envelope_hmac (dump_ts W) e (encode_utf8 (the (ai_hmac_secret identity)))
      else Inr False)"

text \<open>The last two checks, replay and skew.\<close>

definition check_skew :: "wire \<Rightarrow> agent_envelope \<Rightarrow> string \<Rightarrow> datetime \<Rightarrow> ('r, 'p, envelope_verification) agent" where
  "check_skew W e agent_id now =
     (case ev_ts e of
        Naive t \<Rightarrow> raise (TypeError ''can't subtract offset-naive and offset-aware datetimes'')
      | Aware t offset \<Rightarrow>
          if \<bar>now - t\<bar> > timedelta_s skew_window_s then
            return (EnvelopeRejected CLOCK_SKEW
              (''timestamp skew '' @ show_skew W \<bar>now - t\<bar> @ ''s exceeds '' @ show_int skew_window_s @ ''s'') False)
          else return (EnvelopeVerified e agent_id))"

definition check_replay ::
  "'r redis \<Rightarrow> wire \<Rightarrow> agent_envelope \<Rightarrow> string \<Rightarrow> datetime \<Rightarrow> ('r, 'p, envelope_verification) agent" where
  "check_replay R W e agent_id now =
     bind (handle (bind (in_redis (claim R (ev_msg_id e))) (\<lambda>won. return (Inr won)))
             (\<lambda>exc. case exc of
                NonceCacheUnavailable m \<Rightarrow>
                  return (Inl (EnvelopeRejected REPLAY_CHECK_UNAVAILABLE (''replay protection unavailable: '' @ m) True))
              | _ \<Rightarrow> raise exc)) (\<lambda>r.
     case r of
       Inl rejected \<Rightarrow> return rejected
     | Inr won \<Rightarrow>
         if \<not> won then return (EnvelopeRejected REPLAYED_MESSAGE (''msg_id '' @ ev_msg_id e @ '' already seen'') False)
         else check_skew W e agent_id now)"

definition check_identity ::
  "'r redis \<Rightarrow> ed25519 \<Rightarrow> wire \<Rightarrow> agent_envelope \<Rightarrow> signature_block \<Rightarrow> agent_identity option \<Rightarrow>
   ('r, 'p, envelope_verification) agent" where
  "check_identity R C W e b identity =
     (case identity of
        None \<Rightarrow> return (EnvelopeRejected IDENTITY_UNKNOWN ''unknown key_id or agent/key_id mismatch'' False)
      | Some i \<Rightarrow>
          if ai_agent_id i \<noteq> ev_from e then
            return (EnvelopeRejected IDENTITY_UNKNOWN ''unknown key_id or agent/key_id mismatch'' False)
          else if ai_status i = ''REVOKED'' then
            return (EnvelopeRejected IDENTITY_REVOKED (''identity '' @ ai_agent_id i @ '' is revoked'') False)
          else
            bind (in_app clock_now) (\<lambda>now.
            if now < ai_not_before i \<or> now \<ge> ai_expires_at i then
              return (EnvelopeRejected IDENTITY_EXPIRED (''identity '' @ ai_agent_id i @ '' is expired'') False)
            else
              bind (lift_result (check_signature C W e b i)) (\<lambda>verified.
              if \<not> verified then
                return (EnvelopeRejected SIGNATURE_INVALID ''envelope signature verification failed'' False)
              else check_replay R W e (ai_agent_id i) now)))"

definition verify_envelope ::
  "'r redis \<Rightarrow> ed25519 \<Rightarrow> wire \<Rightarrow> agent_envelope \<Rightarrow> ('r, 'p, envelope_verification) agent" where
  "verify_envelope R C W e =
     (if \<not> is_known_protocol_version (ev_protocol e) then
        return (EnvelopeRejected UNKNOWN_PROTOCOL_VERSION (''unsupported protocol '' @ repr_str (ev_protocol e)) False)
      else (case ev_sig e of
        None \<Rightarrow> return (EnvelopeRejected UNKNOWN_ALGORITHM (''unsupported signature algorithm '' @ repr_str ''<missing>'') False)
      | Some b \<Rightarrow>
          if \<not> is_known_algorithm (sb_alg b) then
            return (EnvelopeRejected UNKNOWN_ALGORITHM (''unsupported signature algorithm '' @ repr_str (sb_alg b)) False)
          else
            bind (in_app (gets config)) (\<lambda>c.
            if sb_alg b = ''HMAC-SHA256'' \<and> \<not> agent_envelope_hmac_test_only c then
              return (EnvelopeRejected UNKNOWN_ALGORITHM
                ''HMAC-SHA256 envelope signing is disabled outside test-only configuration'' False)
            else
              bind (in_app (identities_get_by_key_id (sb_key_id b))) (\<lambda>identity.
              check_identity R C W e b identity))))"

section \<open>What acceptance means\<close>

lemma wp_in_app [simp]:
  "wp (in_app m) Q E s \<longleftrightarrow> wp m (\<lambda>x w. Q x (s\<lparr>app_world := w\<rparr>)) (\<lambda>e w. E e (s\<lparr>app_world := w\<rparr>)) (app_world s)"
  by (simp add: wp_def in_app_def split: prod.split sum.split)

lemma wp_in_redis [simp]:
  "wp (in_redis m) Q E s \<longleftrightarrow>
     (case m (redis_state s) of
        (Inl e, r) \<Rightarrow> E e (s\<lparr>redis_state := r\<rparr>)
      | (Inr x, r) \<Rightarrow> Q x (s\<lparr>redis_state := r\<rparr>))"
  by (simp add: wp_def in_redis_def split: prod.split sum.split)

abbreviation next_reading :: "('r, 'p) agent_world \<Rightarrow> datetime" where
  "next_reading s \<equiv> clock (app_world s) (clock_reads (app_world s))"

text \<open>The message is authentic: everything up to the signature check holds.\<close>

definition authentic :: "ed25519 \<Rightarrow> wire \<Rightarrow> agent_envelope \<Rightarrow> ('r, 'p) agent_world \<Rightarrow> bool" where
  "authentic C W e s \<longleftrightarrow>
     is_known_protocol_version (ev_protocol e) \<and>
     (\<exists>b i. ev_sig e = Some b \<and> is_known_algorithm (sb_alg b) \<and>
        (sb_alg b = ''HMAC-SHA256'' \<longrightarrow> agent_envelope_hmac_test_only (config (app_world s))) \<and>
        find (\<lambda>i. ai_key_id i = sb_key_id b) (agent_identities (session (app_world s))) = Some i \<and>
        ai_agent_id i = ev_from e \<and> ai_status i \<noteq> ''REVOKED'' \<and>
        ai_not_before i \<le> next_reading s \<and> next_reading s < ai_expires_at i \<and>
        check_signature C W e b i = Inr True)"

definition timely :: "agent_envelope \<Rightarrow> datetime \<Rightarrow> bool" where
  "timely e now \<longleftrightarrow> (\<exists>t offset. ev_ts e = Aware t offset \<and> \<bar>now - t\<bar> \<le> timedelta_s skew_window_s)"

lemma wp_check_replay:
  "wp (check_replay R W e a now)
    (\<lambda>v s'. app_world s' = app_world s \<and>
       (\<forall>e' a'. v = EnvelopeVerified e' a' \<longrightarrow> e' = e \<and> a' = a \<and> timely e now \<and>
          claim R (ev_msg_id e) (redis_state s) = (Inr True, redis_state s')))
    (\<lambda>x s'. app_world s' = app_world s) s"
proof -
  obtain r x where "claim R (ev_msg_id e) (redis_state s) = (r, x)" by (metis prod.exhaust)
  then show ?thesis
    by (cases r) (auto simp: check_replay_def check_skew_def timely_def split: exn.split timestamp.split)
qed

lemma wp_verify_envelope:
  "wp (verify_envelope R C W e)
    (\<lambda>v s'. local_step (app_world s) (app_world s') \<and> session (app_world s') = session (app_world s) \<and>
       (redis_state s' = redis_state s \<or> authentic C W e s) \<and>
       (\<forall>e' a'. v = EnvelopeVerified e' a' \<longrightarrow> e' = e \<and> a' = ev_from e \<and> authentic C W e s \<and> timely e (next_reading s) \<and>
          claim R (ev_msg_id e) (redis_state s) = (Inr True, redis_state s')))
    (\<lambda>x s'. local_step (app_world s) (app_world s') \<and> session (app_world s') = session (app_world s) \<and>
       (redis_state s' = redis_state s \<or> authentic C W e s)) s"
  (is "wp _ ?Q ?E s")
proof -
  define Q where "Q = ?Q"
  define E where "E = ?E"
  define here where "here u \<longleftrightarrow> local_step (app_world s) (app_world u) \<and> session (app_world u) = session (app_world s) \<and>
    redis_state u = redis_state s" for u :: "('a, 'b) agent_world"
  have out: "here u \<Longrightarrow> Q (EnvelopeRejected c m t) u" "here u \<Longrightarrow> E x u" for c m t x u
    by (simp_all add: Q_def E_def here_def)
  have replay: "wp (check_replay R W e (ev_from e) (next_reading s)) Q E u" if "authentic C W e s" "here u" for u
    unfolding Q_def E_def by (rule wp_mono [OF wp_check_replay]) (use that in \<open>auto simp: here_def\<close>)
  have steps: "here (s\<lparr>app_world := tick (app_world s)\<rparr>)"
    "here (s\<lparr>app_world := (tick (app_world s))\<lparr>clock_reads := Suc (clock_reads (app_world s))\<rparr>\<rparr>)" "here s"
    by (simp_all add: here_def local_step_def)
  have "wp (verify_envelope R C W e) Q E s"
    unfolding verify_envelope_def check_identity_def identities_get_by_key_id_def
    by (auto split: option.split sum.split intro!: replay out steps simp: authentic_def not_less)
  then show ?thesis by (simp only: Q_def E_def)
qed

lemma accepted:
  assumes "verify_envelope R C W e s = (Inr (EnvelopeVerified e' a), s')"
  shows "e' = e" "authentic C W e s" "timely e (next_reading s)" "claim R (ev_msg_id e) (redis_state s) = (Inr True, redis_state s')"
  using wp_verify_envelope [of R C W e s] assms by (simp_all add: wp_def)

text \<open>
  C7. Only authentic messages are accepted: an envelope is verified only when its protocol version
  and algorithm are supported (HMAC only where the test-only setting allows it), its key belongs to a
  registered agent that is the claimed sender and is neither revoked nor outside its validity, the
  signature over the canonical bytes verifies under that key, the message id was claimed in the nonce
  cache by this very call, and the timestamp is within the skew window; the answer then names the
  sender. Whatever the outcome, the database is not changed, and a message that is not authentic
  leaves the nonce cache as it was, so it cannot use up the id of a genuine one.
\<close>

theorem only_authentic_accepted:
  "case verify_envelope R C W e s of
     (Inr (EnvelopeVerified e' agent_id), s') \<Rightarrow>
       e' = e \<and> agent_id = ev_from e \<and> authentic C W e s \<and> timely e (next_reading s) \<and>
       claim R (ev_msg_id e) (redis_state s) = (Inr True, redis_state s') \<and>
       durable (app_world s') = durable (app_world s) \<and> session (app_world s') = session (app_world s)
   | (_, s') \<Rightarrow>
       durable (app_world s') = durable (app_world s) \<and> session (app_world s') = session (app_world s) \<and>
       (redis_state s' = redis_state s \<or> authentic C W e s)"
  using wp_verify_envelope [of R C W e s]
  by (auto simp: wp_def local_step_def split: prod.splits sum.splits envelope_verification.splits)

section \<open>Replay\<close>

text \<open>
  Time as Redis sees it, and until when a key lives. A step of Redis, whoever causes it, does not
  take time back and keeps a key until its deadline.
\<close>

definition keeps_live :: "('r \<Rightarrow> datetime) \<Rightarrow> ('r \<Rightarrow> string \<Rightarrow> datetime option) \<Rightarrow> 'r \<Rightarrow> 'r \<Rightarrow> bool" where
  "keeps_live now deadline r r' \<longleftrightarrow>
     now r \<le> now r' \<and> (\<forall>k d. deadline r k = Some d \<longrightarrow> now r' < d \<longrightarrow> deadline r' k = Some d)"

locale expiring_keys =
  fixes R :: "'r redis" and now :: "'r \<Rightarrow> datetime" and deadline :: "'r \<Rightarrow> string \<Rightarrow> datetime option"
  assumes set_keeps: "keeps_live now deadline r (snd (set_nx_ex R k v ttl r))"
    and set_won: "set_nx_ex R k v ttl r = (Inr True, r') \<Longrightarrow> \<exists>d. deadline r' k = Some d \<and> now r + timedelta_s ttl \<le> d"
    and set_lost: "deadline r k = Some d \<Longrightarrow> now (snd (set_nx_ex R k v ttl r)) < d \<Longrightarrow> fst (set_nx_ex R k v ttl r) \<noteq> Inr True"
begin

lemma keeps_live_refl: "keeps_live now deadline r r"
  by (simp add: keeps_live_def)

lemma keeps_live_trans: "keeps_live now deadline r r' \<Longrightarrow> keeps_live now deadline r' r'' \<Longrightarrow> keeps_live now deadline r r''"
  unfolding keeps_live_def by (meson le_less_trans order_trans)

lemma claim_state: "snd (claim R m r) = snd (set_nx_ex R (nonce_key m) ''1'' nonce_ttl_s r)"
  by (simp add: claim_def handle_def run_simps split: prod.split sum.split exn.split)

lemma claim_won: "fst (claim R m r) = Inr True \<longleftrightarrow> fst (set_nx_ex R (nonce_key m) ''1'' nonce_ttl_s r) = Inr True"
  by (simp add: claim_def handle_def run_simps split: prod.split sum.split exn.split)

lemma claim_keeps: "keeps_live now deadline r (snd (claim R m r))"
  by (simp add: claim_state set_keeps)

text \<open>A claim that wins is the only one to win for that id in the next ten minutes.\<close>

lemma claim_once:
  assumes first: "claim R m r = (Inr True, r1)" and run: "keeps_live now deadline r1 r2"
    and soon: "now (snd (claim R m r2)) < now r + timedelta_s nonce_ttl_s"
  shows "fst (claim R m r2) \<noteq> Inr True"
proof -
  let ?set = "set_nx_ex R (nonce_key m) ''1'' nonce_ttl_s"
  have "fst (?set r) = Inr True" "snd (?set r) = r1" using first claim_won [of m r] claim_state [of m r] by simp_all
  then have "?set r = (Inr True, r1)" by (metis prod.collapse)
  then obtain d where d: "deadline r1 (nonce_key m) = Some d" "now r + timedelta_s nonce_ttl_s \<le> d"
    using set_won by blast
  have later: "now r2 \<le> now (snd (?set r2))" using set_keeps by (simp add: keeps_live_def)
  have "now (snd (?set r2)) < d" using soon d(2) by (simp add: claim_state)
  then have "deadline r2 (nonce_key m) = Some d" using run d(1) later by (simp add: keeps_live_def)
  then show ?thesis using set_lost \<open>now (snd (?set r2)) < d\<close> by (simp add: claim_won)
qed

lemma verify_keeps: "keeps_live now deadline (redis_state s) (redis_state (snd (verify_envelope R C W e s)))"
proof -
  let ?K = "\<lambda>s'. keeps_live now deadline (redis_state s) (redis_state s')"
  have replay: "wp (check_replay R W e a t) (\<lambda>v. ?K) (\<lambda>x. ?K) u" if "redis_state u = redis_state s" for a t u
  proof -
    obtain r x where c: "claim R (ev_msg_id e) (redis_state u) = (r, x)" by (metis prod.exhaust)
    then have "keeps_live now deadline (redis_state s) x" using claim_keeps [of "redis_state u" "ev_msg_id e"] that by simp
    then show ?thesis
      using c by (cases r) (auto simp: check_replay_def check_skew_def split: exn.split timestamp.split)
  qed
  have "wp (verify_envelope R C W e) (\<lambda>v. ?K) (\<lambda>x. ?K) s"
    unfolding verify_envelope_def check_identity_def identities_get_by_key_id_def
    by (auto split: option.split sum.split intro!: replay keeps_live_refl)
  then show ?thesis by (auto simp: wp_def split: prod.splits sum.splits)
qed

end

text \<open>What can happen between two messages: other messages are verified, and everything else,
  other users of Redis and of the database and the passing of time, moves the two states on.\<close>

inductive agent_steps ::
  "'r redis \<Rightarrow> ed25519 \<Rightarrow> wire \<Rightarrow> ('r \<Rightarrow> datetime) \<Rightarrow> ('r \<Rightarrow> string \<Rightarrow> datetime option) \<Rightarrow>
   ('r, 'p) agent_world \<Rightarrow> ('r, 'p) agent_world \<Rightarrow> bool"
  for R C W now deadline where
  start: "agent_steps R C W now deadline s s"
| message: "agent_steps R C W now deadline s s' \<Longrightarrow> agent_steps R C W now deadline s (snd (verify_envelope R C W e s'))"
| meanwhile: "agent_steps R C W now deadline s s' \<Longrightarrow> keeps_live now deadline (redis_state s') r \<Longrightarrow>
    agent_steps R C W now deadline s \<lparr>redis_state = r, app_world = w\<rparr>"

context expiring_keys
begin

lemma steps_keep: "agent_steps R C W now deadline s s' \<Longrightarrow> keeps_live now deadline (redis_state s) (redis_state s')"
  by (induction rule: agent_steps.induct) (auto intro: keeps_live_refl keeps_live_trans verify_keeps)

lemma accepted_once:
  assumes first: "verify_envelope R C W e s0 = (Inr (EnvelopeVerified e a), s1)"
    and steps: "agent_steps R C W now deadline s1 s2"
    and again: "verify_envelope R C W f s2 = (Inr (EnvelopeVerified f b), s3)" "ev_msg_id f = ev_msg_id e" "ev_ts f = ev_ts e"
    and clocks: "next_reading s0 - now (redis_state s0) < timedelta_s 180" "now (redis_state s3) - next_reading s2 < timedelta_s 180"
  shows False
proof -
  note one = accepted(4,3) [OF first]
  have two: "claim R (ev_msg_id e) (redis_state s2) = (Inr True, redis_state s3)" "timely e (next_reading s2)"
    using accepted(4,3) [OF again(1)] again(2,3) by (simp_all add: timely_def)
  have "now (redis_state s3) < now (redis_state s0) + timedelta_s nonce_ttl_s"
    using one(2) two(2) clocks by (auto simp: timely_def timedelta_s_def skew_window_s_def nonce_ttl_s_def)
  then have "fst (claim R (ev_msg_id e) (redis_state s2)) \<noteq> Inr True"
    using claim_once [OF one(1) steps_keep [OF steps]] two(1) by simp
  then show False using two(1) by simp
qed

end

text \<open>
  C10. No replay: once a message has been accepted, no message with the same id and timestamp is
  accepted again, whatever happens in between, as long as the clock of the application and that of
  Redis are less than 180 seconds apart when the two messages are verified (the skew window admits a
  message for four minutes, the nonce lives for ten).
\<close>

theorem no_replay:
  assumes "expiring_keys R now deadline"
    and "verify_envelope R C W e s0 = (Inr (EnvelopeVerified e a), s1)"
    and "agent_steps R C W now deadline s1 s2"
    and "verify_envelope R C W f s2 = (r, s3)" "ev_msg_id f = ev_msg_id e" "ev_ts f = ev_ts e"
    and "next_reading s0 - now (redis_state s0) < timedelta_s 180" "now (redis_state s3) - next_reading s2 < timedelta_s 180"
  shows "\<nexists>f' b. r = Inr (EnvelopeVerified f' b)"
proof
  assume "\<exists>f' b. r = Inr (EnvelopeVerified f' b)"
  then obtain f' b where r: "r = Inr (EnvelopeVerified f' b)" by blast
  then have "f' = f" using accepted(1) [of R C W f s2 f' b s3] assms(4) by simp
  then show False using expiring_keys.accepted_once [OF assms(1-3) _ assms(5-8)] assms(4) r by blast
qed

section \<open>HMAC outside of tests (config.py)\<close>

definition enforce_test_mode :: "settings \<Rightarrow> unit result" where
  "enforce_test_mode c =
     (if is_prefix ''rzp_test_'' (razorpay_key_id c) then Inr ()
      else Inl (SystemExit (''FATAL: ACTL is a test-mode-only system. Refusing to start with key id prefix '' @
        repr_str (take_chars 9 (razorpay_key_id c)) @ ''. This build has no authorisation to move real money.'')))"

text \<open>\<open>under_pytest\<close>: \<open>"PYTEST_VERSION" in os.environ\<close>.\<close>

definition enforce_no_hmac_outside_pytest :: "bool \<Rightarrow> settings \<Rightarrow> unit result" where
  "enforce_no_hmac_outside_pytest under_pytest c =
     (if agent_envelope_hmac_test_only c \<and> \<not> under_pytest
      then Inl (SystemExit (''FATAL: agent_envelope_hmac_test_only is enabled outside a pytest run. '' @
        ''The HMAC-SHA256 agent-envelope signing fallback is test-only and must '' @
        ''never be enabled in development or production.''))
      else Inr ())"

definition start_settings :: "bool \<Rightarrow> settings \<Rightarrow> settings result" where
  "start_settings under_pytest c =
     rbind (enforce_test_mode c) (\<lambda>_. rbind (enforce_no_hmac_outside_pytest under_pytest c) (\<lambda>_. Inr c))"

text \<open>
  In a process that started outside a test run, with whatever settings, only messages signed
  with Ed25519 are ever accepted, whatever identities the registry holds, and the payment key is a
  test-mode key.
\<close>

theorem only_ed25519_outside_tests:
  assumes "start_settings False c = Inr c'" "config (app_world s) = c'"
    and "verify_envelope R C W e s = (Inr (EnvelopeVerified e' a), s')"
  shows "\<exists>b. ev_sig e = Some b \<and> sb_alg b = ''Ed25519'' \<and> is_prefix ''rzp_test_'' (razorpay_key_id (config (app_world s)))"
proof -
  have c: "is_prefix ''rzp_test_'' (razorpay_key_id c')" "\<not> agent_envelope_hmac_test_only c'"
    using assms(1) by (auto simp: start_settings_def enforce_test_mode_def enforce_no_hmac_outside_pytest_def split: if_splits)
  show ?thesis
    using accepted(2) [OF assms(3)] c assms(2) by (auto simp: authentic_def is_known_algorithm_def supported_algorithms_def)
qed

section \<open>Signing and verifying\<close>

lemma is_ascii_hex: "is_ascii (hex bs)"
proof -
  have "\<forall>n \<in> set [0..<16]. (of_char (hex_digits ! n) :: nat) < 128" by code_simp
  then have d: "(of_char (hex_digits ! n) :: nat) < 128" if "n < 16" for n using that by simp
  have "is_ascii (hex_byte b)" for b
  proof -
    have "unat b < 256" using unsigned_less [of b] by simp
    then show ?thesis using d [of "unat b div 16"] d [of "unat b mod 16"] by (simp add: hex_byte_def is_ascii_def)
  qed
  then show ?thesis by (induction bs) (auto simp: hex_def is_ascii_def)
qed

lemma signed_hmac:
  assumes "sign_envelope_hmac d e k kid = Inr e'"
  shows "verify_envelope_hmac d e' k = Inr True" "e'\<lparr>ev_sig := None\<rparr> = e\<lparr>ev_sig := None\<rparr>"
  using assms by (auto simp: sign_envelope_hmac_def verify_envelope_hmac_def Let_def rbind_eq_Inr is_ascii_hex)

lemma signed_ed25519:
  assumes "sign_envelope_ed25519 C d e sk kid = Inr e'" "\<And>m. ed_verify C pk (ed_sign C sk m) m"
  shows "verify_envelope_ed25519 C d e' pk = Inr True" "e'\<lparr>ev_sig := None\<rparr> = e\<lparr>ev_sig := None\<rparr>"
  using assms by (auto simp: sign_envelope_ed25519_def verify_envelope_ed25519_def Let_def rbind_eq_Inr)

text \<open>
  What is signed verifies: signing an envelope changes nothing but its signature block, and the
  result verifies under the key, for the HMAC scheme as it is computed, and for Ed25519 whenever the
  public key accepts what the private key signs.
\<close>

theorem signed_envelopes_verify:
  "(sign_envelope_hmac d e k kid = Inr e' \<longrightarrow>
      verify_envelope_hmac d e' k = Inr True \<and> e'\<lparr>ev_sig := None\<rparr> = e\<lparr>ev_sig := None\<rparr>) \<and>
   (sign_envelope_ed25519 C d e sk kid = Inr e' \<and> (\<forall>m. ed_verify C pk (ed_sign C sk m) m) \<longrightarrow>
      verify_envelope_ed25519 C d e' pk = Inr True \<and> e'\<lparr>ev_sig := None\<rparr> = e\<lparr>ev_sig := None\<rparr>)"
  using signed_hmac [of d e k kid e'] signed_ed25519 [of C d e sk kid e' pk] by simp

section \<open>A message, an agent and a store to run the definitions on\<close>

text \<open>Keys with deadlines and a clock: \<open>SET NX EX\<close> as Redis documents it.\<close>

record key_store =
  ks_now :: datetime
  ks_deadline :: "string \<Rightarrow> datetime option"

definition ks_live :: "key_store \<Rightarrow> string \<Rightarrow> bool" where
  "ks_live r k \<longleftrightarrow> (case ks_deadline r k of None \<Rightarrow> False | Some d \<Rightarrow> ks_now r < d)"

definition key_store_redis :: "key_store redis" where
  "key_store_redis =
     \<lparr>set_nx_ex = (\<lambda>k v ttl r. if ks_live r k then (Inr False, r)
        else (Inr True, r\<lparr>ks_deadline := (ks_deadline r)(k \<mapsto> ks_now r + timedelta_s ttl)\<rparr>))\<rparr>"

interpretation key_store: expiring_keys key_store_redis ks_now ks_deadline
  by unfold_locales (auto simp: key_store_redis_def keeps_live_def ks_live_def split: if_splits option.splits)

definition stand_in :: ed25519 where
  "stand_in = \<lparr>ed_load_public = Inr, ed_load_private = Inr, ed_sign = hmac_sha256,
     ed_verify = (\<lambda>key sig msg. sig = hmac_sha256 key msg)\<rparr>"

definition sample_wire :: wire where
  "sample_wire = \<lparr>dump_ts = (\<lambda>t. case t of Aware i offset \<Rightarrow> show_int i @ ''Z'' | Naive i \<Rightarrow> show_int i),
     dump_rating = JInt, show_skew = show_int, read_int = (\<lambda>j. case j of JInt i \<Rightarrow> Some i | _ \<Rightarrow> None)\<rparr>"

definition hello :: "timestamp \<Rightarrow> agent_envelope" where
  "hello t =
     \<lparr>ev_protocol = protocol_id, ev_msg_id = ''msg_1'', ev_ts = t, ev_from = ''agt_1'', ev_to = ''agt_merchant_01'',
      ev_corr_id = ''trc_1'', ev_type = CAPABILITY_DISCOVER, ev_body = [], ev_sig = None\<rparr>"

lemma hello_signs: "\<exists>e. sign_envelope_ed25519 stand_in (dump_ts sample_wire) (hello t) [1] ''k1'' = Inr e"
  by (simp add: sign_envelope_ed25519_def Let_def canonical_signing_bytes_def signable_payload_def hello_def jcs_render)

definition signed_hello :: "timestamp \<Rightarrow> agent_envelope" where
  "signed_hello t =
     (case sign_envelope_ed25519 stand_in (dump_ts sample_wire) (hello t) [1] ''k1'' of Inr e \<Rightarrow> e | Inl x \<Rightarrow> hello t)"

lemma signed_hello:
  "sign_envelope_ed25519 stand_in (dump_ts sample_wire) (hello t) [1] ''k1'' = Inr (signed_hello t)"
  using hello_signs [of t] by (auto simp: signed_hello_def)

lemma signed_hello_fields [simp]:
  "ev_protocol (signed_hello t) = ''actl.acp/1''" "ev_msg_id (signed_hello t) = ''msg_1''" "ev_ts (signed_hello t) = t"
  "ev_from (signed_hello t) = ''agt_1''" "ev_type (signed_hello t) = CAPABILITY_DISCOVER"
  "\<exists>v. ev_sig (signed_hello t) = Some \<lparr>sb_alg = ''Ed25519'', sb_key_id = ''k1'', sb_value = v\<rparr>"
  using signed_hello [of t]
  by (auto simp: sign_envelope_ed25519_def Let_def rbind_eq_Inr hello_def protocol_id_def dest!: sym [of _ "signed_hello t"])

definition agent_db :: db where
  "agent_db = empty_db\<lparr>agent_identities :=
     [\<lparr>ai_agent_id = ''agt_1'', ai_key_id = ''k1'', ai_alg = ''Ed25519'', ai_not_before = 0, ai_expires_at = timedelta_s 1000000,
       ai_status = ''ACTIVE'', ai_public_key_hex = Some ''01'', ai_hmac_secret = None, ai_revoked_at = None\<rparr>]\<rparr>"

definition agent_start :: "(key_store, unit) agent_world" where
  "agent_start = \<lparr>redis_state = \<lparr>ks_now = 0, ks_deadline = Map.empty\<rparr>, app_world = quiet_world 0 () agent_db\<rparr>"

lemma hello_checks: "fromhex ''01'' = Some [1]" "is_known_protocol_version ''actl.acp/1''" "is_known_algorithm ''Ed25519''"
  by code_simp+

lemma hello_authentic:
  assumes "session (app_world s) = agent_db" "0 \<le> next_reading s" "next_reading s < timedelta_s 1000000"
  shows "authentic stand_in sample_wire (signed_hello t) s"
proof -
  obtain v where v: "ev_sig (signed_hello t) = Some \<lparr>sb_alg = ''Ed25519'', sb_key_id = ''k1'', sb_value = v\<rparr>"
    using signed_hello_fields(6) [of t] by blast
  have "verify_envelope_ed25519 stand_in (dump_ts sample_wire) (signed_hello t) [1] = Inr True"
    by (rule signed_ed25519(1) [OF signed_hello]) (simp add: stand_in_def)
  then show ?thesis
    using assms v hello_checks
    by (simp add: authentic_def agent_db_def check_signature_def nonempty_def bytes_fromhex_def stand_in_def)
qed

lemma authentic_run:
  assumes "authentic C W e s" "\<not> faults (app_world s) (statements (app_world s))"
  shows "verify_envelope R C W e s =
    check_replay R W e (ev_from e) (next_reading s)
      (s\<lparr>app_world := (tick (app_world s))\<lparr>clock_reads := Suc (clock_reads (app_world s))\<rparr>\<rparr>)"
proof -
  obtain b i where b: "ev_sig e = Some b" "is_known_algorithm (sb_alg b)"
      "sb_alg b = ''HMAC-SHA256'' \<longrightarrow> agent_envelope_hmac_test_only (config (app_world s))"
    and i: "find (\<lambda>i. ai_key_id i = sb_key_id b) (agent_identities (session (app_world s))) = Some i"
      "ai_agent_id i = ev_from e" "ai_status i \<noteq> ''REVOKED''" "ai_not_before i \<le> next_reading s"
      "next_reading s < ai_expires_at i" "check_signature C W e b i = Inr True"
    using assms(1) unfolding authentic_def by blast
  have p: "is_known_protocol_version (ev_protocol e)" using assms(1) by (simp add: authentic_def)
  have hmac: "\<not> (sb_alg b = ''HMAC-SHA256'' \<and> \<not> agent_envelope_hmac_test_only (config (app_world s)))" using b(3) by blast
  show ?thesis
    using b(1,2) hmac i p assms(2)
    by (simp del: de_Morgan_conj add: verify_envelope_def check_identity_def in_app_def bind_def run_simps identities_get_by_key_id_def
      db_read_def db_call_def Let_def clock_now_def not_less)
qed

text \<open>
  Verification raises on a message without a time zone: when a registered agent sends an
  authentic message whose timestamp is naive, \<open>verify_envelope\<close> does not answer with a
  rejection but raises \<open>TypeError\<close>, after the message id has been claimed.
\<close>

theorem naive_timestamp_raises:
  assumes "authentic C W e s" "\<not> faults (app_world s) (statements (app_world s))"
    and "ev_ts e = Naive t" "claim R (ev_msg_id e) (redis_state s) = (Inr True, r)"
  shows "\<exists>s'. verify_envelope R C W e s = (Inl (TypeError ''can't subtract offset-naive and offset-aware datetimes''), s') \<and>
    redis_state s' = r"
  unfolding authentic_run [OF assms(1,2)]
  using assms(3,4) by (simp add: check_replay_def check_skew_def bind_def handle_def in_redis_def run_simps)

lemma first_claim: "claim key_store_redis ''msg_1'' \<lparr>ks_now = 0, ks_deadline = Map.empty\<rparr> =
    (Inr True, \<lparr>ks_now = 0, ks_deadline = [''actl:nonce:msg_1'' \<mapsto> timedelta_s 600]\<rparr>)"
  by (simp add: claim_def key_store_redis_def ks_live_def handle_def nonce_key_def nonce_ttl_s_def)

lemma start_authentic: "authentic stand_in sample_wire (signed_hello t) agent_start"
  by (rule hello_authentic) (simp_all add: agent_start_def quiet_world_def timedelta_s_def)

lemma start_quiet: "\<not> faults (app_world agent_start) n" "next_reading agent_start = 0"
  "redis_state agent_start = \<lparr>ks_now = 0, ks_deadline = Map.empty\<rparr>"
  by (simp_all add: agent_start_def) (simp add: quiet_world_def timedelta_s_def)

theorem naive_timestamp_raises_witness:
  "\<exists>s'. verify_envelope key_store_redis stand_in sample_wire (signed_hello (Naive 5)) agent_start =
    (Inl (TypeError ''can't subtract offset-naive and offset-aware datetimes''), s') \<and>
    redis_state s' = \<lparr>ks_now = 0, ks_deadline = [''actl:nonce:msg_1'' \<mapsto> timedelta_s 600]\<rparr>"
  by (rule naive_timestamp_raises [OF start_authentic start_quiet(1)]) (simp_all add: start_quiet first_claim)

theorem signed_envelopes_verify_witness:
  "verify_envelope_ed25519 stand_in (dump_ts sample_wire) (signed_hello (Aware 0 0)) [1] = Inr True"
  using signed_envelopes_verify [of "dump_ts sample_wire" "hello (Aware 0 0)" "[1]" "''k1''" "signed_hello (Aware 0 0)" stand_in "[1]" "[1]"]
    signed_hello [of "Aware 0 0"] by (simp add: stand_in_def)

lemma hello_accepted:
  "\<exists>s1. verify_envelope key_store_redis stand_in sample_wire (signed_hello (Aware 0 0)) agent_start =
    (Inr (EnvelopeVerified (signed_hello (Aware 0 0)) ''agt_1''), s1) \<and> ks_now (redis_state s1) = 0"
  unfolding authentic_run [OF start_authentic start_quiet(1)]
  by (simp add: check_replay_def check_skew_def bind_def handle_def in_redis_def run_simps start_quiet first_claim
    timedelta_s_def skew_window_s_def)

theorem only_ed25519_outside_tests_witness:
  "\<exists>b. ev_sig (signed_hello (Aware 0 0)) = Some b \<and> sb_alg b = ''Ed25519'' \<and>
    is_prefix ''rzp_test_'' (razorpay_key_id (config (app_world agent_start)))"
proof -
  have started: "start_settings False default_settings = Inr default_settings"
    by (simp add: start_settings_def enforce_test_mode_def enforce_no_hmac_outside_pytest_def default_settings_def)
  obtain s1 where "verify_envelope key_store_redis stand_in sample_wire (signed_hello (Aware 0 0)) agent_start =
      (Inr (EnvelopeVerified (signed_hello (Aware 0 0)) ''agt_1''), s1)"
    using hello_accepted by blast
  then show ?thesis
    by (intro only_ed25519_outside_tests [OF started]) (simp_all add: agent_start_def)
qed

text \<open>The message is sent again 100 seconds later.\<close>

theorem no_replay_witness:
  "let verify = verify_envelope key_store_redis stand_in sample_wire (signed_hello (Aware 0 0));
       later = \<lparr>redis_state = (redis_state (snd (verify agent_start)))\<lparr>ks_now := timedelta_s 100\<rparr>,
                app_world = quiet_world (timedelta_s 100) () agent_db\<rparr>
   in fst (verify agent_start) = Inr (EnvelopeVerified (signed_hello (Aware 0 0)) ''agt_1'') \<and>
      (\<nexists>f' b. fst (verify later) = Inr (EnvelopeVerified f' b))"
proof -
  let ?verify = "verify_envelope key_store_redis stand_in sample_wire (signed_hello (Aware 0 0))"
  obtain s1 where s1: "?verify agent_start = (Inr (EnvelopeVerified (signed_hello (Aware 0 0)) ''agt_1''), s1)" "ks_now (redis_state s1) = 0"
    using hello_accepted by blast
  let ?s2 = "\<lparr>redis_state = (redis_state s1)\<lparr>ks_now := timedelta_s 100\<rparr>, app_world = quiet_world (timedelta_s 100) () agent_db\<rparr>"
  obtain r s3 where s3: "?verify ?s2 = (r, s3)" by (metis prod.exhaust)
  have "keeps_live ks_now ks_deadline (redis_state s1) (redis_state ?s2)"
    using s1(2) by (simp add: keeps_live_def timedelta_s_def)
  then have steps: "agent_steps key_store_redis stand_in sample_wire ks_now ks_deadline s1 ?s2"
    by (intro agent_steps.meanwhile [OF agent_steps.start]) simp
  have authentic: "authentic stand_in sample_wire (signed_hello (Aware 0 0)) ?s2"
    by (rule hello_authentic) (simp_all add: quiet_world_def timedelta_s_def)
  have stays: "ks_now (snd (claim key_store_redis m x)) = ks_now x" for m x
    by (simp add: key_store.claim_state) (simp add: key_store_redis_def)
  have "ks_now (redis_state (snd (?verify ?s2))) = timedelta_s 100"
    using stays [of "''msg_1''" "(redis_state s1)\<lparr>ks_now := timedelta_s 100\<rparr>"]
    by (subst authentic_run [OF authentic])
      (auto simp: check_replay_def check_skew_def bind_def handle_def in_redis_def run_simps split: prod.splits sum.splits exn.splits)
  then have "\<nexists>f' b. r = Inr (EnvelopeVerified f' b)"
    using no_replay [OF key_store.expiring_keys_axioms s1(1) steps s3] s3
    by (simp add: start_quiet timedelta_s_def quiet_world_def)
  then show ?thesis using s1(1) s3 by (simp add: Let_def)
qed

end
