(* ===== verification/Merchant.thy ===== *)
theory Merchant
  imports Saga Catalog_Service Envelope
begin

text \<open>
  The merchant agent (\<open>application/agents/merchant.py\<close>) with the body schemas and the dispatch
  endpoint of the agent protocol (\<open>interfaces/agent\<close>). A handler runs in the world of the
  application; the endpoint verifies the envelope first, in the state next to Redis. Bodies are JSON
  objects as lists of their items.
\<close>

section \<open>Handlers\<close>

type_synonym body = "(string \<times> json) list"

datatype handler_outcome =
    HandlerResult message_type body
  | HandlerError reason_code string bool

definition capability_document :: "settings \<Rightarrow> body" where
  "capability_document c =
     [(''protocol'', JStr ''actl.acp/1''), (''currency'', JStr ''INR''),
      (''endpoints'', JObj [(''catalog'', JStr ''/agent/v1/catalog''), (''quote'', JStr ''/agent/v1/quote''),
                            (''messages'', JStr ''/agent/v1/messages'')]),
      (''signing'', JObj [(''algorithms'', JList [JStr ''Ed25519'', JStr ''HMAC-SHA256''])]),
      (''limits'', JObj [(''quote_ttl_s'', JInt (quote_ttl_s c))])]"

definition handle_capability_discover :: "('p, handler_outcome) app" where
  "handle_capability_discover = bind (gets config) (\<lambda>c. return (HandlerResult CAPABILITY_DISCOVER (capability_document c)))"

text \<open>\<open>_to_domain_item\<close> and \<open>CatalogFeed.model_dump(mode="json", by_alias=True)\<close>.\<close>

definition item_json :: "wire \<Rightarrow> catalog_item \<Rightarrow> json" where
  "item_json W i =
     JObj [(''sku'', JStr (ci_sku i)), (''category'', JStr (ci_category i)), (''merchant_id'', JStr (ci_merchant_id i)),
           (''unit'', JStr (ci_unit i)), (''unit_price_minor'', JInt (ci_unit_price_minor i)),
           (''available_units'', JInt (ci_available_units i)),
           (''location'', JObj [(''city'', JStr (ci_location_city i)), (''country'', JStr (ci_location_country i))]),
           (''attributes'', JObj [(''rating'', dump_rating W (ci_rating i)), (''sea_facing'', JBool (ci_sea_facing i)),
                                  (''breakfast_included'', JBool (ci_breakfast_included i))]),
           (''policy'', JObj [(''refundable'', JBool (ci_refundable i)),
                              (''cancellation_window_h'', JInt (ci_cancellation_window_h i)),
                              (''instant_confirm'', JBool (ci_instant_confirm i)),
                              (''taxes_included'', JBool (ci_taxes_included i))]),
           (''version'', JInt (ci_version i)), (''quote_required'', JBool (ci_quote_required i))]"

definition feed_body :: "wire \<Rightarrow> catalog_feed \<Rightarrow> body" where
  "feed_body W f =
     [(''schema'', JStr ''actl.catalog/v1''), (''catalog_version'', JInt (cf_catalog_version f)),
      (''generated_at'', JStr (dump_ts W (Aware (cf_generated_at f) 0))), (''currency'', JStr ''INR''),
      (''items'', JList (map (item_json W) (cf_items f))), (''next_cursor'', jopt JStr (cf_next_cursor f))]"

definition handle_catalog_query :: "collation \<Rightarrow> wire \<Rightarrow> catalog_query \<Rightarrow> string \<Rightarrow> ('p, handler_outcome) app" where
  "handle_catalog_query collation_key W q actor_id =
     bind (list_catalog collation_key q actor_id) (\<lambda>feed. return (HandlerResult CATALOG_QUERY (feed_body W feed)))"

definition quote_body :: "(datetime \<Rightarrow> string) \<Rightarrow> quote \<Rightarrow> body" where
  "quote_body dump_dt q =
     (case hashable_payload dump_dt q of JObj items \<Rightarrow> items | _ \<Rightarrow> []) @
     [(''quote_token'', jopt JStr (q_quote_token q)), (''quote_hash'', jopt JStr (q_quote_hash q))]"

definition handle_quote_request :: "string \<Rightarrow> string \<Rightarrow> int \<Rightarrow> string \<Rightarrow> ('p, handler_outcome) app" where
  "handle_quote_request sku mid nights actor_id =
     bind (gets json_datetime) (\<lambda>dump_dt.
     handle
       (bind (create_quote mid sku nights actor_id) (\<lambda>quote. return (HandlerResult QUOTE_REQUEST (quote_body dump_dt quote))))
       (\<lambda>exc. case exc of
          MandateNotFound m \<Rightarrow> return (HandlerError MANDATE_INVALID (''no mandate '' @ mid) False)
        | SkuNotFound m \<Rightarrow> return (HandlerError STALE_PRICE (''no catalog item '' @ sku) False)
        | SkuUnavailable m \<Rightarrow> return (HandlerError STALE_PRICE (sku @ '' has no available units'') False)
        | _ \<Rightarrow> raise exc))"

definition reject :: "string \<Rightarrow> reason_code \<Rightarrow> handler_outcome" where
  "reject trace_id code =
     HandlerResult ORDER_PROPOSE
       [(''decision'', JStr ''reject''), (''reason_code'', JStr (reason_value code)), (''trace_id'', JStr trace_id)]"

record order_propose_body =
  op_quote_id :: string
  op_quote_hash :: string
  op_mandate_id :: string
  op_mandate_spec_hash :: string
  op_intent_hash :: string

text \<open>The intent as the merchant derives it from its own quote, mandate and catalog item.\<close>

definition derived_intent :: "mandate \<Rightarrow> quote \<Rightarrow> catalog_item \<Rightarrow> purchase_intent" where
  "derived_intent m q item =
     \<lparr>pi_currency = bounds_currency (bounds m), pi_category = ci_category item, pi_merchant = ci_merchant_id item,
      pi_unit_price_minor = q_unit_price_minor q, pi_total_minor = q_total_minor q, pi_nights = q_nights q,
      pi_rooms = intent_rooms (m_intent m), pi_refundable = q_refundable q, pi_quoted_total_minor = q_total_minor q,
      pi_current_total_minor = ci_unit_price_minor item * q_nights q, pi_catalog_version = q_catalog_version q,
      pi_mandate_spec_hash = or_empty (spec_hash m), pi_intent_hash = []\<rparr>"

text \<open>
  The first transaction of \<open>handle_order_propose\<close>: \<open>Inl code\<close> is an early rejection inside
  the unit of work, which commits nothing; otherwise the decision is recorded and committed.
\<close>

record proposal =
  pp_mandate :: mandate
  pp_quote :: quote
  pp_decision :: decision_record
  pp_intent_hash :: string

definition propose_context :: "string \<Rightarrow> datetime \<Rightarrow> int \<Rightarrow> int \<Rightarrow> settings \<Rightarrow> policy_context" where
  "propose_context decision_id now reserved_minor live_catalog_version c =
     \<lparr>pc_now = now, pc_reserved_minor = reserved_minor, pc_txn_count = 0, pc_catalog_version = live_catalog_version,
      pc_decision_id = decision_id, pc_decision_ttl_s = decision_ttl_s c\<rparr>"

fun verdict_value :: "verdict \<Rightarrow> string" where
  "verdict_value ALLOW = ''ALLOW''"
| "verdict_value DENY = ''DENY''"

definition decide_and_record ::
  "order_propose_body \<Rightarrow> string \<Rightarrow> string \<Rightarrow> mandate \<Rightarrow> quote \<Rightarrow> purchase_intent \<Rightarrow> string \<Rightarrow> int \<Rightarrow> int \<Rightarrow>
   ('p, reason_code + proposal) app" where
  "decide_and_record req trace_id actor_id m q intent_draft computed_intent_hash reserved_minor live_catalog_version =
     bind (new_id ''dec'') (\<lambda>decision_id.
     bind clock_now (\<lambda>now.
     bind (gets config) (\<lambda>c.
     bind (gets json_datetime) (\<lambda>dump_dt.
     bind (lift_result (evaluate dump_dt m (intent_draft\<lparr>pi_intent_hash := computed_intent_hash\<rparr>)
             (propose_context decision_id now reserved_minor live_catalog_version c))) (\<lambda>decision.
     bind (decisions_add decision) (\<lambda>_.
     bind (append_entry trace_id ''agent'' actor_id ORDER_PROPOSED
             (JObj [(''mandate_id'', JStr (mandate_id m)), (''quote_id'', JStr (op_quote_id req))])
             (JObj [(''mandate_id'', JStr (mandate_id m)), (''quote_id'', JStr (op_quote_id req)),
                    (''verdict'', JStr (verdict_value (dr_verdict decision))),
                    (''reason_codes'', JList (map (\<lambda>code. JStr (reason_value code)) (dr_reason_codes decision)))])) (\<lambda>_.
     bind commit (\<lambda>_.
     return (Inr \<lparr>pp_mandate = m, pp_quote = q, pp_decision = decision, pp_intent_hash = computed_intent_hash\<rparr>)))))))))"

definition propose_phase :: "order_propose_body \<Rightarrow> string \<Rightarrow> string \<Rightarrow> ('p, reason_code + proposal) app" where
  "propose_phase req trace_id actor_id =
     bind (mandates_get (op_mandate_id req)) (\<lambda>loaded.
     case loaded of
       None \<Rightarrow> return (Inl MANDATE_INVALID)
     | Some (m, status) \<Rightarrow>
         if status = REVOKED then return (Inl MANDATE_REVOKED)
         else if status \<noteq> LOCKED \<and> status \<noteq> EXECUTING then return (Inl MANDATE_INVALID)
         else
           bind clock_now (\<lambda>now.
           if now \<ge> expires_at (temporal m) then return (Inl MANDATE_EXPIRED)
           else if spec_hash m \<noteq> Some (op_mandate_spec_hash req) then return (Inl MANDATE_TAMPERED)
           else
             bind (quotes_get (op_quote_id req)) (\<lambda>found.
             case found of
               None \<Rightarrow> return (Inl STALE_PRICE)
             | Some q \<Rightarrow>
                 if q_mandate_id q \<noteq> mandate_id m then return (Inl STALE_PRICE)
                 else if q_quote_hash q \<noteq> Some (op_quote_hash req) then return (Inl STALE_PRICE)
                 else
                   bind (catalog_get_item (q_sku q)) (\<lambda>got.
                   case got of
                     None \<Rightarrow> return (Inl STALE_PRICE)
                   | Some item \<Rightarrow>
                       bind catalog_current_version (\<lambda>live_catalog_version.
                       bind (committed_total (mandate_id m)) (\<lambda>reserved_minor.
                       bind (lift_result (compute_intent_hash (derived_intent m q item))) (\<lambda>computed_intent_hash.
                       if computed_intent_hash \<noteq> op_intent_hash req then return (Inl INTENT_MISMATCH)
                       else decide_and_record req trace_id actor_id m q (derived_intent m q item) computed_intent_hash
                              reserved_minor live_catalog_version)))))))"

definition proposed_purchase :: "order_propose_body \<Rightarrow> string \<Rightarrow> string \<Rightarrow> proposal \<Rightarrow> money_action_request" where
  "proposed_purchase req trace_id actor_id p =
     \<lparr>mq_trace_id = trace_id, mq_mandate_id = mandate_id (pp_mandate p), mq_decision_id = dr_decision_id (pp_decision p),
      mq_quote_id = op_quote_id req, mq_intent_hash = pp_intent_hash p, mq_amount_minor = q_total_minor (pp_quote p),
      mq_currency = q_currency (pp_quote p), mq_attempt_no = 1, mq_actor_id = actor_id\<rparr>"

definition propose_answer :: "string \<Rightarrow> saga_snapshot \<Rightarrow> handler_outcome" where
  "propose_answer trace_id snap =
     (if ss_status snap = ''AWAITING_AUTHORIZATION'' then
        HandlerResult ORDER_PROPOSE
          [(''decision'', JStr ''accept''), (''order_id'', jopt JStr (ss_order_id snap)), (''saga_id'', JStr (ss_saga_id snap))]
      else reject trace_id (case ss_reason_code snap of None \<Rightarrow> INTERNAL_ERROR | Some code \<Rightarrow> code))"

definition handle_order_propose ::
  "'p payment_port \<Rightarrow> order_propose_body \<Rightarrow> string \<Rightarrow> string \<Rightarrow> ('p, handler_outcome) app" where
  "handle_order_propose P req trace_id actor_id =
     bind (with_uow (propose_phase req trace_id actor_id)) (\<lambda>r.
     case r of
       Inl code \<Rightarrow> return (reject trace_id code)
     | Inr p \<Rightarrow>
         if dr_verdict (pp_decision p) \<noteq> ALLOW then
           (case dr_reason_codes (pp_decision p) of
              [] \<Rightarrow> raise IndexError
            | code # _ \<Rightarrow> return (reject trace_id code))
         else
           bind (begin_purchase P (proposed_purchase req trace_id actor_id p)) (\<lambda>snap.
           return (propose_answer trace_id snap)))"

text \<open>
  \<open>get_seq_range_for_order\<close>: \<open>subject->>'order_id'\<close> is the text of the member; the subjects
  that name an order hold its id as a string.
\<close>

definition audit_get_seq_range_for_order :: "string \<Rightarrow> ('p, (int \<times> int) option) app" where
  "audit_get_seq_range_for_order order_id =
     db_read (\<lambda>d.
       let seqs = map al_seq (filter (\<lambda>r. jget ''order_id'' (al_subject r) = Some (JStr order_id)) (audit_log d)) in
       if seqs = [] then None else Some (Min (set seqs), Max (set seqs)))"

definition seq_range_items :: "(int \<times> int) option \<Rightarrow> body" where
  "seq_range_items r = [(''audit_seq_from'', jopt (\<lambda>x. JInt (fst x)) r), (''audit_seq_to'', jopt (\<lambda>x. JInt (snd x)) r)]"

definition handle_order_status :: "string \<Rightarrow> ('p, handler_outcome) app" where
  "handle_order_status order_id =
     bind (orders_get order_id) (\<lambda>found.
     case found of
       None \<Rightarrow> return (HandlerError ORDER_NOT_FOUND (''no order '' @ order_id) False)
     | Some x \<Rightarrow>
         bind (audit_get_seq_range_for_order order_id) (\<lambda>seq_range.
         return (HandlerResult ORDER_STATUS
           ([(''order_id'', JStr (or_id x)), (''status'', JStr (or_status x)), (''amount_minor'', JInt (or_amount_minor x)),
             (''currency'', JStr (or_currency x)), (''provider_payment_id'', jopt JStr (or_provider_payment_id x))] @
            seq_range_items seq_range))))"

definition handle_receipt_issue :: "string \<Rightarrow> ('p, handler_outcome) app" where
  "handle_receipt_issue order_id =
     bind (orders_get order_id) (\<lambda>found.
     case found of
       None \<Rightarrow> return (HandlerError ORDER_NOT_FOUND (''no order '' @ order_id) False)
     | Some x \<Rightarrow>
         if or_status x \<noteq> ''CAPTURED'' then
           return (HandlerError ORDER_NOT_SETTLED (''order '' @ order_id @ '' is not yet settled'') True)
         else
           bind (audit_get_seq_range_for_order order_id) (\<lambda>seq_range.
           return (HandlerResult RECEIPT_ISSUE
             ([(''order_id'', JStr (or_id x)), (''payment_id'', jopt JStr (or_provider_payment_id x)),
               (''amount_minor'', JInt (or_amount_minor x)), (''currency'', JStr (or_currency x))] @
              seq_range_items seq_range))))"

definition outcome_type :: "handler_outcome \<Rightarrow> message_type" where
  "outcome_type r = (case r of HandlerResult t b \<Rightarrow> t | HandlerError code m retry \<Rightarrow> ERROR)"

definition outcome_body :: "handler_outcome \<Rightarrow> body" where
  "outcome_body r =
     (case r of
        HandlerResult t b \<Rightarrow> b
      | HandlerError code m retry \<Rightarrow>
          [(''reason_code'', JStr (reason_value code)), (''message'', JStr m), (''retryable'', JBool retry)])"

definition build_response_envelope ::
  "ed25519 \<Rightarrow> wire \<Rightarrow> agent_envelope \<Rightarrow> handler_outcome \<Rightarrow> ('p, agent_envelope) app" where
  "build_response_envelope C W request r =
     bind (new_id ''msg'') (\<lambda>msg_id.
     bind clock_now (\<lambda>now.
     bind (gets config) (\<lambda>c.
     let draft = \<lparr>ev_protocol = protocol_id, ev_msg_id = msg_id, ev_ts = Aware now 0, ev_from = merchant_agent_id c,
                  ev_to = ev_from request, ev_corr_id = ev_corr_id request, ev_type = outcome_type r,
                  ev_body = outcome_body r, ev_sig = None\<rparr> in
     if \<not> envelope_ok draft then raise (ValueError ''validation error for AgentEnvelope'')
     else
       bind (lift_result (bytes_fromhex (merchant_private_key_hex c))) (\<lambda>raw.
       bind (lift_result (ed_load_private C raw)) (\<lambda>private_key.
       lift_result (sign_envelope_ed25519 C (dump_ts W) draft private_key (merchant_key_id c)))))))"

section \<open>What an order proposal is decided on\<close>

text \<open>The claims of the buyer match the merchant's own records, and the decision is the policy
  engine's on those records.\<close>

definition proposal_ok :: "order_propose_body \<Rightarrow> 'p world \<Rightarrow> proposal \<Rightarrow> bool" where
  "proposal_ok req w p \<longleftrightarrow>
     (\<exists>st item v.
        let m = pp_mandate p; q = pp_quote p; d = began w; intent = derived_intent m q item in
        mandates d (op_mandate_id req) = Some (m, st) \<and> (st = LOCKED \<or> st = EXECUTING) \<and>
        clock w (clock_reads w) < expires_at (temporal m) \<and> spec_hash m = Some (op_mandate_spec_hash req) \<and>
        quotes d (op_quote_id req) = Some q \<and> q_mandate_id q = mandate_id m \<and> q_quote_hash q = Some (op_quote_hash req) \<and>
        find_item (q_sku q) (catalog_items d) = Some item \<and> catalog_meta d = Some v \<and>
        compute_intent_hash intent = Inr (op_intent_hash req) \<and> pp_intent_hash p = op_intent_hash req \<and>
        evaluate (json_datetime w) m (intent\<lparr>pi_intent_hash := op_intent_hash req\<rparr>)
          (propose_context (''dec_'' @ ulids w (ids_minted w)) (clock w (Suc (clock_reads w)))
             (committed (mandate_id m) (ledger_entries d)) v (config w)) = Inr (pp_decision p))"

text \<open>The decision is recorded, with an audit entry, and nothing else.\<close>

definition recorded :: "decision_record \<Rightarrow> 'p world \<Rightarrow> 'p world \<Rightarrow> bool" where
  "recorded dec w w' \<longleftrightarrow>
     besides_audit (durable w') = besides_audit ((began w)\<lparr>decisions := (decisions (began w))(dr_decision_id dec \<mapsto> dec)\<rparr>) \<and>
     (\<exists>r. audit_log (durable w') = audit_log (began w) @ [r] \<and> al_action r = ''order.proposed'')"

lemma silent_propose: "silent (propose_phase req t a)"
  unfolding propose_phase_def decide_and_record_def by (intro silent.rules)

fun propose_post :: "order_propose_body \<Rightarrow> 'p world \<Rightarrow> reason_code + proposal \<Rightarrow> 'p world \<Rightarrow> bool" where
  "propose_post req w (Inl code) w' \<longleftrightarrow> durable w' = began w"
| "propose_post req w (Inr p) w' \<longleftrightarrow> proposal_ok req w p \<and> recorded (pp_decision p) w w'"

lemma wp_propose:
  fixes w :: "'p world"
  shows "wp (with_uow (propose_phase req t a))
    (propose_post req w)
    (\<lambda>e w'. durable w' = began w) w"
proof -
  let ?w1 = "w\<lparr>durable := began w, session := began w, transactions := Suc (transactions w)\<rparr>"
  have decided: "wp (decide_and_record req t a m q (derived_intent m q item) (op_intent_hash req) (committed (mandate_id m) (ledger_entries (began w))) v)
      (\<lambda>r w'. propose_post req w r (w'\<lparr>session := session w\<rparr>)) (\<lambda>e w'. durable w' = began w) u"
    if ok: "mandates (began w) (op_mandate_id req) = Some (m, st)" "st = LOCKED \<or> st = EXECUTING"
        "clock w (clock_reads w) < expires_at (temporal m)" "spec_hash m = Some (op_mandate_spec_hash req)"
        "quotes (began w) (op_quote_id req) = Some q" "q_mandate_id q = mandate_id m" "q_quote_hash q = Some (op_quote_hash req)"
        "find_item (q_sku q) (catalog_items (began w)) = Some item" "catalog_meta (began w) = Some v"
        "compute_intent_hash (derived_intent m q item) = Inr (op_intent_hash req)"
      and u: "local_step ?w1 u" "session u = began w" "clock_reads u = Suc (clock_reads w)" "ids_minted u = ids_minted w"
    for m st q item v u
  proof -
    let ?dec = "\<lambda>dec. \<lparr>pp_mandate = m, pp_quote = q, pp_decision = dec, pp_intent_hash = op_intent_hash req\<rparr>"
    have ok': "proposal_ok req w (?dec dec)"
      if "evaluate (json_datetime w) m ((derived_intent m q item)\<lparr>pi_intent_hash := op_intent_hash req\<rparr>)
          (propose_context (''dec_'' @ ulids w (ids_minted w)) (clock w (Suc (clock_reads w)))
             (committed (mandate_id m) (ledger_entries (began w))) v (config w)) = Inr dec" for dec
      using ok that by (auto simp: proposal_ok_def Let_def)
    have rec: "recorded dec w (w'\<lparr>session := session w\<rparr>)"
      if "published t ORDER_PROPOSED pay x w'" "session x = (began w)\<lparr>decisions := (decisions (began w))(dr_decision_id dec \<mapsto> dec)\<rparr>"
      for dec pay x and w' :: "'p world"
      using that by (auto simp: recorded_def published_def)
    show ?thesis
      using u(2-4) local_step_fields [OF u(1)]
      unfolding decide_and_record_def decisions_add_def
      by (auto simp: Let_def split: sum.split intro!: wp_append_commit ok' rec)
  qed
  show ?thesis
    unfolding propose_phase_def wp_with_uow began_def [symmetric] mandates_get_def quotes_get_def catalog_get_item_def
      catalog_current_version_def committed_total_def ledger_list_for_account_def
    by (auto simp: wp_db_call local_step_def committed_def [symmetric] split: option.split sum.split intro!: decided)
qed

lemma recorded_fields:
  assumes "recorded dec w w'"
  shows "mandates (durable w') = mandates (began w)" "orders (durable w') = orders (began w)"
    "ledger_entries (durable w') = ledger_entries (began w)" "sagas (durable w') = sagas (began w)"
    "idempotency_keys (durable w') = idempotency_keys (began w)" "quotes (durable w') = quotes (began w)"
proof -
  have b: "besides_audit (durable w') = besides_audit ((began w)\<lparr>decisions := (decisions (began w))(dr_decision_id dec \<mapsto> dec)\<rparr>)"
    using assms by (simp add: recorded_def)
  show "mandates (durable w') = mandates (began w)" "orders (durable w') = orders (began w)"
    "ledger_entries (durable w') = ledger_entries (began w)" "sagas (durable w') = sagas (began w)"
    "idempotency_keys (durable w') = idempotency_keys (began w)" "quotes (durable w') = quotes (began w)"
    by (simp_all add: besides_audit_fields [OF b])
qed

definition money_untouched :: "'p world \<Rightarrow> 'p world \<Rightarrow> bool" where
  "money_untouched w w' \<longleftrightarrow>
     provider_calls w' = provider_calls w \<and> orders (durable w') = orders (began w) \<and>
     ledger_entries (durable w') = ledger_entries (began w) \<and> sagas (durable w') = sagas (began w) \<and>
     idempotency_keys (durable w') = idempotency_keys (began w) \<and> mandates (durable w') = mandates (began w)"

lemma silent_propose_run:
  assumes "with_uow (propose_phase req t a) w = (r, w')"
  shows "provider_calls w' = provider_calls w"
  using silent_wp [OF silent.with_uow_unchanged, OF silent_propose [of req t a], where w = w] assms
  unfolding wp_snd by (auto simp: silent_step_def)

text \<open>
  C9. An order proposal is decided on the merchant's records, never on the claims of the buyer.
  Either the handler starts the purchase, and then the mandate the buyer names is stored, live,
  unexpired and of the claimed specification hash, the quote is stored for that mandate under the
  claimed quote hash, the claimed intent hash is the hash of the intent derived from the stored quote,
  mandate and catalog item, the policy engine allowed that intent with the committed total of the
  mandate's ledger, that decision is what was recorded, and amount and currency of the purchase are
  the quote's; or the answer is a rejection or an exception, the provider was not called and
  mandates, orders, sagas, ledger and idempotency keys are untouched.
\<close>

theorem order_propose_uses_own_records:
  "(\<exists>p w1. proposal_ok req w p \<and> dr_verdict (pp_decision p) = ALLOW \<and> recorded (pp_decision p) w w1 \<and>
      provider_calls w1 = provider_calls w \<and>
      handle_order_propose P req t a w =
        bind (begin_purchase P (proposed_purchase req t a p)) (\<lambda>snap. return (propose_answer t snap)) w1) \<or>
   (case handle_order_propose P req t a w of
      (Inr x, w') \<Rightarrow> (\<exists>code. x = reject t code) \<and> money_untouched w w'
    | (Inl e, w') \<Rightarrow> money_untouched w w')"
proof -
  obtain r w1 where run: "with_uow (propose_phase req t a) w = (r, w1)" by force
  note calls = silent_propose_run [OF run]
  note post = wp_propose [of req t a w, unfolded wp_def run, simplified]
  show ?thesis
  proof (cases r)
    case (Inl e)
    then show ?thesis using run calls post by (simp add: handle_order_propose_def bind_def money_untouched_def)
  next
    case (Inr x)
    show ?thesis
    proof (cases x)
      case code: (Inl code)
      then show ?thesis using Inr run calls post
        by (auto simp: handle_order_propose_def bind_def return_def money_untouched_def)
    next
      case p: (Inr p)
      have ok: "proposal_ok req w p" "recorded (pp_decision p) w w1" using Inr p post by simp_all
      then have "money_untouched w w1" using calls by (simp add: money_untouched_def recorded_fields)
      then show ?thesis using Inr p run calls ok
        by (auto simp: handle_order_propose_def bind_def return_def raise_def split: list.split)
    qed
  qed
qed

end
