(* ===== verification/Agent_Api.thy ===== *)
theory Agent_Api
  imports Merchant
begin

text \<open>
  The endpoint of the agent protocol: the request bodies (\<open>interfaces/agent/schemas.py\<close>), the
  dispatch and \<open>post_message\<close> (\<open>interfaces/agent/routes.py\<close>). An envelope is verified in a
  unit of work of its own; only then is its body validated and handled, and every outcome of the
  handling is answered with a signed envelope.
\<close>

section \<open>schemas.py\<close>

definition max_unit_price_minor :: int where
  "max_unit_price_minor = 9223372036854775807"

definition no_nul :: "string \<Rightarrow> bool" where
  "no_nul s \<longleftrightarrow> CHR 0x00 \<notin> set s"

text \<open>\<open>str = Field(min_length=1, pattern=...)\<close>, \<open>str | None\<close> with its default, and the bounded integers.\<close>

definition str_field :: "string \<Rightarrow> body \<Rightarrow> string option" where
  "str_field k b = (case map_of b k of Some (JStr s) \<Rightarrow> (if field_ok s then Some s else None) | _ \<Rightarrow> None)"

definition optional_str_field :: "string \<Rightarrow> body \<Rightarrow> string option option" where
  "optional_str_field k b =
     (case map_of b k of
        None \<Rightarrow> Some None
      | Some JNull \<Rightarrow> Some None
      | Some (JStr s) \<Rightarrow> (if no_nul s then Some (Some s) else None)
      | _ \<Rightarrow> None)"

definition int_field :: "wire \<Rightarrow> (int \<Rightarrow> bool) \<Rightarrow> json \<Rightarrow> int option" where
  "int_field W ok j = (case read_int W j of None \<Rightarrow> None | Some i \<Rightarrow> if ok i then Some i else None)"

definition capability_discover_body :: "body \<Rightarrow> string list option" where
  "capability_discover_body b =
     (case map_of b ''supported_protocols'' of
        Some (JList js) \<Rightarrow>
          if js \<noteq> [] \<and> list_all (\<lambda>j. case j of JStr s \<Rightarrow> True | _ \<Rightarrow> False) js
          then Some (map (\<lambda>j. case j of JStr s \<Rightarrow> s | _ \<Rightarrow> []) js) else None
      | _ \<Rightarrow> None)"

record catalog_query_body =
  qb_category :: "string option"
  qb_location :: "string option"
  qb_max_unit_minor :: "int option"
  qb_cursor :: "string option"
  qb_limit :: int

definition max_unit_field :: "wire \<Rightarrow> body \<Rightarrow> int option option" where
  "max_unit_field W b =
     (case map_of b ''max_unit_minor'' of
        None \<Rightarrow> Some None
      | Some JNull \<Rightarrow> Some None
      | Some j \<Rightarrow> map_option Some (int_field W (\<lambda>i. 0 < i \<and> i \<le> max_unit_price_minor) j))"

definition limit_field :: "wire \<Rightarrow> body \<Rightarrow> int option" where
  "limit_field W b =
     (case map_of b ''limit'' of None \<Rightarrow> Some 20 | Some j \<Rightarrow> int_field W (\<lambda>i. 0 < i \<and> i \<le> 100) j)"

definition parse_catalog_query :: "wire \<Rightarrow> body \<Rightarrow> catalog_query_body option" where
  "parse_catalog_query W b =
     (case (optional_str_field ''category'' b, optional_str_field ''location'' b, max_unit_field W b,
            optional_str_field ''cursor'' b, limit_field W b) of
        (Some category, Some location, Some max_unit, Some cursor, Some limit) \<Rightarrow>
          Some \<lparr>qb_category = category, qb_location = location, qb_max_unit_minor = max_unit, qb_cursor = cursor,
                qb_limit = limit\<rparr>
      | _ \<Rightarrow> None)"

record quote_request_body =
  rb_sku :: string
  rb_mandate_id :: string
  rb_nights :: int

definition parse_quote_request :: "wire \<Rightarrow> body \<Rightarrow> quote_request_body option" where
  "parse_quote_request W b =
     (case (str_field ''sku'' b, str_field ''mandate_id'' b,
            case map_of b ''nights'' of None \<Rightarrow> None | Some j \<Rightarrow> int_field W (\<lambda>i. 0 < i) j) of
        (Some sku, Some mid, Some nights) \<Rightarrow> Some \<lparr>rb_sku = sku, rb_mandate_id = mid, rb_nights = nights\<rparr>
      | _ \<Rightarrow> None)"

definition parse_order_propose :: "body \<Rightarrow> order_propose_body option" where
  "parse_order_propose b =
     (case (str_field ''quote_id'' b, str_field ''quote_hash'' b, str_field ''mandate_id'' b,
            str_field ''mandate_spec_hash'' b, str_field ''intent_hash'' b) of
        (Some qid, Some qh, Some mid, Some sh, Some ih) \<Rightarrow>
          Some \<lparr>op_quote_id = qid, op_quote_hash = qh, op_mandate_id = mid, op_mandate_spec_hash = sh, op_intent_hash = ih\<rparr>
      | _ \<Rightarrow> None)"

definition parse_order_id :: "body \<Rightarrow> string option" where
  "parse_order_id b = str_field ''order_id'' b"

section \<open>routes.py\<close>

datatype http_response = JSONResponse int json

definition rejection_status :: "reason_code \<Rightarrow> int" where
  "rejection_status code =
     (case code of
        MALFORMED_REQUEST \<Rightarrow> 400 | UNKNOWN_PROTOCOL_VERSION \<Rightarrow> 400 | UNKNOWN_ALGORITHM \<Rightarrow> 400
      | IDENTITY_UNKNOWN \<Rightarrow> 401 | SIGNATURE_INVALID \<Rightarrow> 401 | IDENTITY_REVOKED \<Rightarrow> 403 | IDENTITY_EXPIRED \<Rightarrow> 403
      | REPLAYED_MESSAGE \<Rightarrow> 409 | CLOCK_SKEW \<Rightarrow> 400 | REPLAY_CHECK_UNAVAILABLE \<Rightarrow> 503 | _ \<Rightarrow> 400)"

definition plain_error :: "reason_code \<Rightarrow> string \<Rightarrow> bool \<Rightarrow> http_response" where
  "plain_error code m retryable =
     JSONResponse (rejection_status code)
       (JObj [(''reason_code'', JStr (reason_value code)), (''message'', JStr m), (''retryable'', JBool retryable)])"

definition or_none :: "string \<Rightarrow> string option" where
  "or_none s = (if s = [] then None else Some s)"

definition split_location :: "string option \<Rightarrow> string option \<times> string option" where
  "split_location location =
     (case location of
        None \<Rightarrow> (None, None)
      | Some l \<Rightarrow>
          if l = [] then (None, None)
          else (or_none (strip (before_char (CHR '','') l)), or_none (strip (after_char (CHR '','') l))))"

definition malformed_body :: "string \<Rightarrow> handler_outcome" where
  "malformed_body ty = HandlerError MALFORMED_REQUEST (''invalid '' @ ty @ '' body'') False"

definition dispatch :: "'p payment_port \<Rightarrow> collation \<Rightarrow> wire \<Rightarrow> agent_envelope \<Rightarrow> ('p, handler_outcome) app" where
  "dispatch P collation_key W e =
     (let actor_id = ev_from e; bad = return (malformed_body (message_type_value (ev_type e))) in
      case ev_type e of
        CAPABILITY_DISCOVER \<Rightarrow>
          (case capability_discover_body (ev_body e) of None \<Rightarrow> bad | Some protocols \<Rightarrow> handle_capability_discover)
      | CATALOG_QUERY \<Rightarrow>
          (case parse_catalog_query W (ev_body e) of
             None \<Rightarrow> bad
           | Some b \<Rightarrow>
               let (city, country) = split_location (qb_location b) in
               with_uow (handle_catalog_query collation_key W
                 \<lparr>cq_category = qb_category b, cq_location_city = city, cq_location_country = country,
                  cq_max_unit_minor = qb_max_unit_minor b, cq_is_buyer_listable = None, cq_cursor = qb_cursor b,
                  cq_limit = qb_limit b\<rparr> actor_id))
      | QUOTE_REQUEST \<Rightarrow>
          (case parse_quote_request W (ev_body e) of
             None \<Rightarrow> bad
           | Some b \<Rightarrow> with_uow (handle_quote_request (rb_sku b) (rb_mandate_id b) (rb_nights b) actor_id))
      | ORDER_PROPOSE \<Rightarrow>
          (case parse_order_propose (ev_body e) of
             None \<Rightarrow> bad
           | Some b \<Rightarrow> handle_order_propose P b (ev_corr_id e) actor_id)
      | ORDER_STATUS \<Rightarrow>
          (case parse_order_id (ev_body e) of None \<Rightarrow> bad | Some oid \<Rightarrow> with_uow (handle_order_status oid))
      | RECEIPT_ISSUE \<Rightarrow>
          (case parse_order_id (ev_body e) of None \<Rightarrow> bad | Some oid \<Rightarrow> with_uow (handle_receipt_issue oid))
      | ERROR \<Rightarrow>
          return (HandlerError MALFORMED_REQUEST (''unhandled message type '' @ repr_str (message_type_value (ev_type e))) False))"

text \<open>\<open>async with UnitOfWork\<close> around code that also uses Redis.\<close>

definition agent_uow :: "('r, 'p, 'a) agent \<Rightarrow> ('r, 'p, 'a) agent" where
  "agent_uow m = (\<lambda>s.
     let w = app_world s;
         d = began w;
         w1 = w\<lparr>durable := d, session := d, transactions := Suc (transactions w)\<rparr>
     in case m (s\<lparr>app_world := w1\<rparr>) of (r, s2) \<Rightarrow> (r, s2\<lparr>app_world := (app_world s2)\<lparr>session := session w\<rparr>\<rparr>))"

definition envelope_json :: "wire \<Rightarrow> agent_envelope \<Rightarrow> json" where
  "envelope_json W e =
     (case signable_payload (dump_ts W) e of
        JObj items \<Rightarrow> JObj (items @ [(''sig'', jopt (\<lambda>b. JObj [(''alg'', JStr (sb_alg b)), (''key_id'', JStr (sb_key_id b)),
                                                         (''value'', JStr (sb_value b))]) (ev_sig e))])
      | j \<Rightarrow> j)"

definition answer :: "'p payment_port \<Rightarrow> ed25519 \<Rightarrow> collation \<Rightarrow> wire \<Rightarrow> agent_envelope \<Rightarrow> ('p, http_response) app" where
  "answer P C collation_key W e =
     bind (if ev_type e \<notin> set request_message_types then
             return (HandlerError MALFORMED_REQUEST (repr_str (message_type_value (ev_type e)) @ '' is not a request type'') False)
           else dispatch P collation_key W e) (\<lambda>r.
     bind (build_response_envelope C W e r) (\<lambda>response.
     return (JSONResponse 200 (envelope_json W response))))"

text \<open>\<open>parsed\<close> is \<open>AgentEnvelope.model_validate(raw)\<close>, or the number of its errors.\<close>

definition post_message ::
  "'r redis \<Rightarrow> ed25519 \<Rightarrow> wire \<Rightarrow> collation \<Rightarrow> 'p payment_port \<Rightarrow> nat + agent_envelope \<Rightarrow> ('r, 'p, http_response) agent" where
  "post_message R C W collation_key P parsed =
     (case parsed of
        Inl errors \<Rightarrow> return (plain_error MALFORMED_REQUEST (''malformed envelope: '' @ show_int (int errors) @ '' error(s)'') False)
      | Inr e \<Rightarrow>
          bind (agent_uow (verify_envelope R C W e)) (\<lambda>v.
          case v of
            EnvelopeRejected code m retryable \<Rightarrow> return (plain_error code m retryable)
          | EnvelopeVerified e' agent_id \<Rightarrow> in_app (answer P C collation_key W e)))"

section \<open>Nothing is handled before it is verified\<close>

definition opened :: "('r, 'p) agent_world \<Rightarrow> ('r, 'p) agent_world" where
  "opened s = s\<lparr>app_world := (app_world s)\<lparr>durable := began (app_world s), session := began (app_world s),
                  transactions := Suc (transactions (app_world s))\<rparr>\<rparr>"

lemma wp_agent_uow:
  "wp (agent_uow m) Q E s \<longleftrightarrow>
     wp m (\<lambda>x u. Q x (u\<lparr>app_world := (app_world u)\<lparr>session := session (app_world s)\<rparr>\<rparr>))
          (\<lambda>x u. E x (u\<lparr>app_world := (app_world u)\<lparr>session := session (app_world s)\<rparr>\<rparr>)) (opened s)"
  by (simp add: wp_def agent_uow_def opened_def Let_def split: prod.split sum.split)

text \<open>No commit and no call to the provider since \<open>s\<close>: the database is what other sessions made of it.\<close>

definition idle :: "('r, 'p) agent_world \<Rightarrow> ('r, 'p) agent_world \<Rightarrow> bool" where
  "idle s s' \<longleftrightarrow>
     durable (app_world s') \<in> {durable (app_world s), began (app_world s)} \<and>
     provider_calls (app_world s') = provider_calls (app_world s) \<and> provider (app_world s') = provider (app_world s)"

fun verified_post :: "ed25519 \<Rightarrow> wire \<Rightarrow> agent_envelope \<Rightarrow> ('r, 'p) agent_world \<Rightarrow> envelope_verification \<Rightarrow> ('r, 'p) agent_world \<Rightarrow> bool" where
  "verified_post C W e s (EnvelopeVerified e' agent_id) s' \<longleftrightarrow>
     idle s s' \<and> authentic C W e (opened s) \<and> timely e (next_reading s)"
| "verified_post C W e s (EnvelopeRejected code m retryable) s' \<longleftrightarrow> idle s s'"

lemma wp_verification:
  "wp (agent_uow (verify_envelope R C W e)) (verified_post C W e s) (\<lambda>x. idle s) s"
proof -
  have idle: "idle s (u\<lparr>app_world := (app_world u)\<lparr>session := d\<rparr>\<rparr>)" if "local_step (app_world (opened s)) (app_world u)" for u d
    using that by (simp add: idle_def local_step_def opened_def)
  have now: "next_reading (opened s) = next_reading s" by (simp add: opened_def)
  show ?thesis unfolding wp_agent_uow
  proof (rule wp_mono [OF wp_verify_envelope], goal_cases)
    case (1 v u)
    then show ?case by (cases v) (simp_all add: idle now)
  next
    case (2 x u)
    then show ?case by (simp add: idle)
  qed
qed

text \<open>
  C8. No message is acted on before it is verified. Either the message parses, is authentic and
  timely in the transaction that looked its sender up, and what \<open>post_message\<close> does after that is
  to answer it; or the endpoint returns a protocol-level error status or raises, having committed
  nothing and made no call to the payment provider.
\<close>

theorem unverified_does_nothing:
  "(\<exists>e s1. parsed = Inr e \<and> authentic C W e (opened s) \<and> timely e (next_reading s) \<and> idle s s1 \<and>
      post_message R C W K P parsed s = in_app (answer P C K W e) s1) \<or>
   (case post_message R C W K P parsed s of
      (Inr (JSONResponse status j), s') \<Rightarrow> status \<in> {400, 401, 403, 409, 503} \<and> idle s s'
    | (Inl x, s') \<Rightarrow> idle s s')"
proof (cases parsed)
  case (Inl n)
  then show ?thesis by (simp add: post_message_def return_def plain_error_def rejection_status_def idle_def)
next
  case (Inr e)
  obtain r s1 where run: "agent_uow (verify_envelope R C W e) s = (r, s1)" by force
  note post = wp_verification [of R C W e s, unfolded wp_def run, simplified]
  show ?thesis
  proof (cases r)
    case bad: (Inl x)
    then show ?thesis using Inr run post by (simp add: post_message_def bind_def)
  next
    case (Inr v)
    then show ?thesis using \<open>parsed = Inr e\<close> run post
      by (cases v) (auto simp: post_message_def bind_def return_def plain_error_def rejection_status_def split: reason_code.split)
  qed
qed

section \<open>The shape of an answer\<close>

definition answer_shape :: "ed25519 \<Rightarrow> wire \<Rightarrow> agent_envelope \<Rightarrow> settings \<Rightarrow> agent_envelope \<Rightarrow> bool" where
  "answer_shape C W e c env \<longleftrightarrow>
     envelope_ok (env\<lparr>ev_sig := None\<rparr>) \<and> ev_protocol env = protocol_id \<and> ev_from env = merchant_agent_id c \<and>
     ev_to env = ev_from e \<and> ev_corr_id env = ev_corr_id e \<and> (ev_type env = ev_type e \<or> ev_type env = ERROR) \<and>
     (\<exists>raw sk. bytes_fromhex (merchant_private_key_hex c) = Inr raw \<and> ed_load_private C raw = Inr sk \<and>
        sign_envelope_ed25519 C (dump_ts W) (env\<lparr>ev_sig := None\<rparr>) sk (merchant_key_id c) = Inr env)"

text \<open>A handler answers with the type of the message it handles.\<close>

definition answers :: "message_type \<Rightarrow> ('p, handler_outcome) app \<Rightarrow> bool" where
  "answers ty m \<longleftrightarrow> (\<forall>w. wp m (\<lambda>r w'. outcome_type r \<in> {ty, ERROR}) (\<lambda>e w'. True) w)"

lemma answers_basic:
  "answers ty (return (HandlerResult ty b))" "answers ty (return (HandlerError code msg retry))" "answers ty (raise e)"
  by (simp_all add: answers_def outcome_type_def)

lemma answers_bind: "(\<And>x. answers ty (k x)) \<Longrightarrow> answers ty (bind n k)"
  unfolding answers_def wp_bind by (rule allI, rule wp_mono [OF wp_true]) simp_all

lemma answers_with_uow: "answers ty m \<Longrightarrow> answers ty (with_uow m)"
  by (simp add: answers_def wp_with_uow)

lemma answers_handle: "answers ty m \<Longrightarrow> (\<And>e. answers ty (h e)) \<Longrightarrow> answers ty (handle m h)"
  unfolding answers_def wp_handle by (auto intro: wp_mono)

lemmas answers_rules = answers_basic answers_bind answers_with_uow answers_handle

lemma answers_handlers:
  "answers CAPABILITY_DISCOVER handle_capability_discover"
  "answers CATALOG_QUERY (handle_catalog_query K W q actor)"
  "answers QUOTE_REQUEST (handle_quote_request sku mid nights actor)"
  "answers ORDER_PROPOSE (handle_order_propose P req t actor)"
  "answers ORDER_STATUS (handle_order_status oid)"
  "answers RECEIPT_ISSUE (handle_receipt_issue oid)"
  unfolding handle_capability_discover_def handle_catalog_query_def handle_quote_request_def handle_order_propose_def
    handle_order_status_def handle_receipt_issue_def reject_def propose_answer_def
  by (auto intro!: answers_rules split: option.split sum.split list.split exn.split)

lemma answers_dispatch: "answers (ev_type e) (dispatch P K W e)"
  unfolding dispatch_def Let_def malformed_body_def
  by (cases "ev_type e") (auto intro!: answers_rules answers_handlers split: option.split prod.split)

lemma wp_build_response:
  "wp (build_response_envelope C W e r)
    (\<lambda>env w'. outcome_type r \<in> {ev_type e, ERROR} \<longrightarrow> answer_shape C W e (config w') env) (\<lambda>x w'. True) w"
  unfolding build_response_envelope_def
  by (auto simp: Let_def answer_shape_def sign_envelope_ed25519_def rbind_eq_Inr split: sum.split)

text \<open>
  C40. Every answer of the endpoint to a verified message is an envelope of the protocol: its fields
  satisfy the field constraints, it comes from the merchant's configured identity and goes to the
  verified sender under the correlation id of the request, its type is the type of the request or
  \<open>error\<close>, and it carries the Ed25519 signature of the merchant's private key over its other fields.
\<close>

theorem answers_are_signed_envelopes:
  "case answer P C K W e w of
     (Inr (JSONResponse status j), w') \<Rightarrow>
       status = 200 \<and> (\<exists>env. j = envelope_json W env \<and> answer_shape C W e (config w') env)
   | (Inl x, w') \<Rightarrow> True"
proof -
  let ?r = "if ev_type e \<notin> set request_message_types then
      return (HandlerError MALFORMED_REQUEST (repr_str (message_type_value (ev_type e)) @ '' is not a request type'') False)
    else dispatch P K W e"
  have "answers (ev_type e) ?r" by (auto intro: answers_rules answers_dispatch)
  then have "wp ?r (\<lambda>r w'. outcome_type r \<in> {ev_type e, ERROR}) (\<lambda>x w'. True) w" by (simp only: answers_def)
  then have "wp (answer P C K W e)
      (\<lambda>x w'. \<exists>env. x = JSONResponse 200 (envelope_json W env) \<and> answer_shape C W e (config w') env) (\<lambda>x w'. True) w"
    unfolding answer_def wp_bind
  proof (rule wp_mono, goal_cases)
    case (1 r u)
    from wp_build_response show ?case by (rule wp_mono) (use 1 in auto)
  qed simp
  then show ?thesis by (auto simp: wp_def split: prod.splits sum.splits http_response.splits)
qed

end
