(* ===== verification/Upsell.thy ===== *)
theory Upsell
  imports Catalog_Service
begin

text \<open>
  Add-on offers after a booking (\<open>application/upsell_service.py\<close>): which add-ons a settled hotel
  order is offered, at what price, and the row of \<open>addon_purchases\<close> that lets each be bought at
  most once. The rows and their repository are in \<open>Db\<close>.
\<close>

section \<open>upsell\_service.py\<close>

definition addon_category_prefix :: string where
  "addon_category_prefix = ''travel.addon.''"

definition hotel_category :: string where
  "hotel_category = ''travel.hotel''"

definition offer_titles :: "(string \<times> string) list" where
  "offer_titles =
     [(''ADDON-BREAKFAST-GOA'', ''Daily breakfast''), (''ADDON-AIRPORT-PICKUP-GOA'', ''Airport pickup''),
      (''ADDON-ROOM-UPGRADE-GOA'', ''Room upgrade'')]"

record base_order_context =
  bo_mandate_id :: string
  bo_nights :: int
  bo_rooms :: int
  bo_location_city :: string
  bo_location_country :: string

record eligible_offer =
  eo_sku :: string
  eo_category :: string
  eo_title :: string
  eo_unit_price_minor :: int
  eo_total_minor :: int
  eo_currency :: string
  eo_refundable :: bool
  eo_quantity_description :: string
  eo_quantity :: int

definition pricing_multiplier :: "string \<Rightarrow> int \<Rightarrow> int \<Rightarrow> int option" where
  "pricing_multiplier category nights rooms =
     (if category = addon_category_prefix @ ''flat'' then Some 1
      else if category = addon_category_prefix @ ''per_night'' then Some nights
      else if category = addon_category_prefix @ ''per_guest_per_night'' then Some (nights * rooms)
      else None)"

definition plural :: "int \<Rightarrow> string" where
  "plural n = (if n \<noteq> 1 then ''s'' else [])"

definition describe_quantity :: "string \<Rightarrow> int \<Rightarrow> int \<Rightarrow> string" where
  "describe_quantity category nights rooms =
     (if category = addon_category_prefix @ ''flat'' then ''one-time''
      else if category = addon_category_prefix @ ''per_night'' then show_int nights @ '' night'' @ plural nights
      else if category = addon_category_prefix @ ''per_guest_per_night'' then
        show_int rooms @ '' guest'' @ plural rooms @ '' x '' @ show_int nights @ '' night'' @ plural nights
      else [])"

definition to_offer :: "catalog_item \<Rightarrow> int \<Rightarrow> int \<Rightarrow> eligible_offer option" where
  "to_offer addon nights rooms =
     (case pricing_multiplier (ci_category addon) nights rooms of
        None \<Rightarrow> None
      | Some multiplier \<Rightarrow>
          if multiplier \<le> 0 then None
          else Some \<lparr>eo_sku = ci_sku addon, eo_category = ci_category addon,
                     eo_title = (case map_of offer_titles (ci_sku addon) of None \<Rightarrow> ci_sku addon | Some t \<Rightarrow> t),
                     eo_unit_price_minor = ci_unit_price_minor addon, eo_total_minor = ci_unit_price_minor addon * multiplier,
                     eo_currency = ''INR'', eo_refundable = ci_refundable addon,
                     eo_quantity_description = describe_quantity (ci_category addon) nights rooms, eo_quantity = multiplier\<rparr>)"

definition load_base_context :: "string \<Rightarrow> ('p, base_order_context option) app" where
  "load_base_context base_order_id =
     bind (orders_get base_order_id) (\<lambda>found.
     case found of
       None \<Rightarrow> return None
     | Some x \<Rightarrow>
         if or_status x \<noteq> ''CAPTURED'' then return None
         else
           bind (quotes_get (or_quote_id x)) (\<lambda>quoted_by.
           case quoted_by of
             None \<Rightarrow> return None
           | Some q \<Rightarrow>
               bind (catalog_get_item (q_sku q)) (\<lambda>got.
               case got of
                 None \<Rightarrow> return None
               | Some item \<Rightarrow>
                   if ci_category item \<noteq> hotel_category then return None
                   else
                     bind (mandates_get (or_mandate_id x)) (\<lambda>loaded.
                     case loaded of
                       None \<Rightarrow> return None
                     | Some (m, status) \<Rightarrow>
                         return (Some \<lparr>bo_mandate_id = mandate_id m, bo_nights = intent_nights (m_intent m),
                                       bo_rooms = intent_rooms (m_intent m), bo_location_city = ci_location_city item,
                                       bo_location_country = ci_location_country item\<rparr>)))))"

definition addon_query :: "base_order_context \<Rightarrow> catalog_query" where
  "addon_query ctx =
     \<lparr>cq_category = None, cq_location_city = Some (bo_location_city ctx), cq_location_country = Some (bo_location_country ctx),
      cq_max_unit_minor = None, cq_is_buyer_listable = None, cq_cursor = None, cq_limit = 50\<rparr>"

definition is_addon_category :: "string \<Rightarrow> bool" where
  "is_addon_category category \<longleftrightarrow> is_prefix addon_category_prefix category"

definition addon_catalog_items :: "collation \<Rightarrow> base_order_context \<Rightarrow> ('p, catalog_item list) app" where
  "addon_catalog_items collation_key ctx =
     bind (catalog_list_items collation_key (addon_query ctx) None 50) (\<lambda>all_items.
     return (filter (\<lambda>i. is_addon_category (ci_category i)) all_items))"

text \<open>The body of the loop over the add-ons: skipped, or an offer.\<close>

definition offer_unless_acted_on :: "string \<Rightarrow> base_order_context \<Rightarrow> catalog_item \<Rightarrow> ('p, eligible_offer option) app" where
  "offer_unless_acted_on base_order_id ctx addon =
     (if ci_available_units addon \<le> 0 then return None
      else
        bind (addon_get base_order_id (ci_sku addon)) (\<lambda>existing.
        case existing of
          Some x \<Rightarrow> if ap_status x \<noteq> ''offered'' then return None else return (to_offer addon (bo_nights ctx) (bo_rooms ctx))
        | None \<Rightarrow> return (to_offer addon (bo_nights ctx) (bo_rooms ctx))))"

fun eligible_among :: "string \<Rightarrow> base_order_context \<Rightarrow> catalog_item list \<Rightarrow> ('p, eligible_offer list) app" where
  "eligible_among base_order_id ctx [] = return []"
| "eligible_among base_order_id ctx (addon # addons) =
     bind (offer_unless_acted_on base_order_id ctx addon) (\<lambda>offer.
     bind (eligible_among base_order_id ctx addons) (\<lambda>offers.
     return (case offer of None \<Rightarrow> offers | Some x \<Rightarrow> x # offers)))"

definition record_offer :: "string \<Rightarrow> eligible_offer \<Rightarrow> ('p, unit) app" where
  "record_offer base_order_id offer =
     bind (new_id ''adp'') (\<lambda>aid.
     addon_record_offered aid base_order_id (eo_sku offer) (eo_total_minor offer) (eo_currency offer))"

definition list_eligible_offers :: "collation \<Rightarrow> string \<Rightarrow> ('p, (string \<times> eligible_offer list) option) app" where
  "list_eligible_offers collation_key base_order_id =
     bind (load_base_context base_order_id) (\<lambda>loaded.
     case loaded of
       None \<Rightarrow> return None
     | Some ctx \<Rightarrow>
         bind (addon_catalog_items collation_key ctx) (\<lambda>addons.
         bind (eligible_among base_order_id ctx addons) (\<lambda>offers.
         bind (if offers = [] then return ()
               else bind (for_each offers (record_offer base_order_id)) (\<lambda>_. commit)) (\<lambda>_.
         return (Some (''INR'', offers))))))"

definition price_offer_for_purchase :: "string \<Rightarrow> string \<Rightarrow> ('p, eligible_offer option) app" where
  "price_offer_for_purchase base_order_id offer_sku =
     bind (load_base_context base_order_id) (\<lambda>loaded.
     case loaded of
       None \<Rightarrow> return None
     | Some ctx \<Rightarrow>
         bind (catalog_get_item offer_sku) (\<lambda>got.
         case got of
           None \<Rightarrow> return None
         | Some addon \<Rightarrow>
             if \<not> is_addon_category (ci_category addon) then return None
             else if ci_available_units addon \<le> 0 then return None
             else return (to_offer addon (bo_nights ctx) (bo_rooms ctx))))"

section \<open>An add-on is bought at most once\<close>

text \<open>The writes to \<open>addon_purchases\<close>; the answer is whether a purchase was won.\<close>

datatype addon_op =
    RecordOffered string string string int string
  | TryMarkPending string string string string int string
  | MarkSettled string string string
  | MarkFailed string string
  | DeclineAllOffered string

fun addon_step :: "addon_op \<Rightarrow> ('p, bool) app" where
  "addon_step (RecordOffered aid oid sku price currency) = bind (addon_record_offered aid oid sku price currency) (\<lambda>_. return False)"
| "addon_step (TryMarkPending aid oid sku mid price currency) = addon_try_mark_pending aid oid sku mid price currency"
| "addon_step (MarkSettled oid sku addon_order) = bind (addon_mark_settled oid sku addon_order) (\<lambda>_. return False)"
| "addon_step (MarkFailed oid sku) = bind (addon_mark_failed oid sku) (\<lambda>_. return False)"
| "addon_step (DeclineAllOffered oid) = bind (addon_decline_all_offered oid) (\<lambda>_. return False)"

fun is_attempt :: "string \<Rightarrow> string \<Rightarrow> addon_op \<Rightarrow> bool" where
  "is_attempt oid sku (TryMarkPending aid oid' sku' mid price currency) \<longleftrightarrow> oid' = oid \<and> sku' = sku"
| "is_attempt oid sku op \<longleftrightarrow> False"

definition acted_on :: "string \<Rightarrow> string \<Rightarrow> db \<Rightarrow> bool" where
  "acted_on oid sku d \<longleftrightarrow>
     list_ex (is_addon oid sku) (addon_purchases d) \<and>
     list_all (\<lambda>x. is_addon oid sku x \<longrightarrow> ap_status x \<noteq> ''offered'') (addon_purchases d)"

text \<open>The steps run one after the other; a failed statement leaves the rows as they were.\<close>

fun addon_run :: "addon_op list \<Rightarrow> 'p world \<Rightarrow> (addon_op \<times> bool) list \<times> 'p world" where
  "addon_run [] w = ([], w)"
| "addon_run (op # ops) w =
     (case addon_step op w of
        (r, w1) \<Rightarrow> (case addon_run ops w1 of (rest, w2) \<Rightarrow> ((op, r = Inr True) # rest, w2)))"

lemma is_addon_map: "\<forall>x. ap_base_order_id (f x) = ap_base_order_id x \<and> ap_offer_sku (f x) = ap_offer_sku x \<Longrightarrow>
    list_ex (is_addon oid sku) (map f xs) = list_ex (is_addon oid sku) xs"
  by (induction xs) (auto simp: is_addon_def)

lemma acted_on_map:
  assumes "acted_on oid sku d" "\<forall>x. ap_base_order_id (f x) = ap_base_order_id x \<and> ap_offer_sku (f x) = ap_offer_sku x"
    "\<forall>x. ap_status (f x) = ''offered'' \<longrightarrow> ap_status x = ''offered''"
  shows "acted_on oid sku (d\<lparr>addon_purchases := map f (addon_purchases d)\<rparr>)"
  using assms is_addon_map [OF assms(2)] by (auto simp: acted_on_def list_all_iff is_addon_def)

lemma addon_attempt:
  assumes "addon_step op w = (Inr True, w')" "is_attempt oid sku op"
  shows "\<not> acted_on oid sku (session w)" "acted_on oid sku (session w')"
proof -
  let ?xs = "addon_purchases (session w)"
  obtain aid mid price currency where op: "op = TryMarkPending aid oid sku mid price currency"
    using assms(2) by (cases op) auto
  let ?won = "\<lambda>x. if is_addon oid sku x \<and> ap_status x = ''offered'' then x\<lparr>ap_status := ''pending'', ap_addon_mandate_id := Some mid\<rparr> else x"
  have ex: "list_ex (is_addon oid sku) (map ?won ?xs) = list_ex (is_addon oid sku) ?xs" by (rule is_addon_map) simp
  have "is_addon oid sku (?won x) \<longrightarrow> ap_status (?won x) \<noteq> ''offered''" for x
    by (cases "is_addon oid sku x \<and> ap_status x = ''offered''") (simp_all add: is_addon_def)
  then have ok: "\<forall>x\<in>set (map ?won ?xs). is_addon oid sku x \<longrightarrow> ap_status x \<noteq> ''offered''"
    unfolding set_map by blast
  consider (new) "\<not> list_ex (is_addon oid sku) ?xs"
      "session w' = (session w)\<lparr>addon_purchases := ?xs @ [\<lparr>ap_id = aid, ap_base_order_id = oid, ap_offer_sku = sku, ap_status = ''pending'',
         ap_addon_mandate_id = Some mid, ap_addon_order_id = None, ap_price_minor = price, ap_currency = currency\<rparr>]\<rparr>"
    | (won) "list_ex (\<lambda>x. is_addon oid sku x \<and> ap_status x = ''offered'') ?xs"
      "session w' = (session w)\<lparr>addon_purchases := map ?won ?xs\<rparr>"
    using assms(1) by (auto simp: op addon_try_mark_pending_def db_call_def Let_def split: if_splits)
  then have "\<not> acted_on oid sku (session w) \<and> acted_on oid sku (session w')"
  proof cases
    case new
    then show ?thesis by (auto simp: acted_on_def list_ex_iff list_all_iff is_addon_def)
  next
    case won
    then have "list_ex (is_addon oid sku) ?xs" "\<not> list_all (\<lambda>x. is_addon oid sku x \<longrightarrow> ap_status x \<noteq> ''offered'') ?xs"
      unfolding list_ex_iff list_all_iff by blast+
    moreover have "addon_purchases (session w') = map ?won ?xs" unfolding won(2) by simp
    ultimately show ?thesis unfolding acted_on_def using ex ok unfolding list_all_iff by metis
  qed
  then show "\<not> acted_on oid sku (session w)" "acted_on oid sku (session w')" by simp_all
qed

lemma addon_keeps:
  assumes "acted_on oid sku (session w)"
  shows "acted_on oid sku (session (snd (addon_step op w)))"
proof (cases op)
  case (RecordOffered aid oid' sku' price currency)
  then show ?thesis using assms
    by (auto simp: acted_on_def addon_record_offered_def db_call_def Let_def is_addon_def list_ex_iff list_all_iff bind_def run_simps)
next
  case (TryMarkPending aid oid' sku' mid price currency)
  then show ?thesis using assms acted_on_map [OF assms]
    by (auto simp: addon_try_mark_pending_def db_call_def Let_def) (auto simp: acted_on_def is_addon_def)
next
  case (MarkSettled oid' sku' addon_order)
  then show ?thesis using assms acted_on_map [OF assms]
    by (auto simp: addon_mark_settled_def db_call_def Let_def bind_def run_simps)
next
  case (MarkFailed oid' sku')
  then show ?thesis using assms acted_on_map [OF assms]
    by (auto simp: addon_mark_failed_def db_write_def db_call_def Let_def bind_def run_simps)
next
  case (DeclineAllOffered oid')
  then show ?thesis using assms acted_on_map [OF assms]
    by (auto simp: addon_decline_all_offered_def db_write_def db_call_def Let_def bind_def run_simps)
qed

lemma addon_run_acted_on:
  "addon_run ops w = (rs, w') \<Longrightarrow> acted_on oid sku (session w) \<Longrightarrow> filter (\<lambda>x. is_attempt oid sku (fst x) \<and> snd x) rs = []"
proof (induction ops arbitrary: w rs)
  case (Cons op ops)
  obtain r w1 rest w2 where s: "addon_step op w = (r, w1)" "addon_run ops w1 = (rest, w2)" by (metis prod.exhaust)
  then have rs: "rs = (op, r = Inr True) # rest" "w2 = w'" using Cons.prems(1) by simp_all
  have "acted_on oid sku (session w1)" using addon_keeps [OF Cons.prems(2), of op] s(1) by simp
  then have "filter (\<lambda>x. is_attempt oid sku (fst x) \<and> snd x) rest = []" using Cons.IH s(2) rs(2) by blast
  moreover have "\<not> (is_attempt oid sku op \<and> r = Inr True)" using addon_attempt(1) s(1) Cons.prems(2) by blast
  ultimately show ?case using rs(1) by auto
qed simp

text \<open>
  C13. Of all the attempts to buy an add-on for an order, at most one wins, however they are
  interleaved with the other writes to the table: offers, declines, settlements and failures.
\<close>

theorem addon_bought_once:
  "length (filter (\<lambda>x. is_attempt oid sku (fst x) \<and> snd x) (fst (addon_run ops w))) \<le> 1"
proof (induction ops arbitrary: w)
  case (Cons op ops)
  obtain r w1 rest w2 where s: "addon_step op w = (r, w1)" "addon_run ops w1 = (rest, w2)" by (metis prod.exhaust)
  have rest: "length (filter (\<lambda>x. is_attempt oid sku (fst x) \<and> snd x) rest) \<le> 1" using Cons.IH [of w1] s(2) by simp
  show ?case
  proof (cases "is_attempt oid sku op \<and> r = Inr True")
    case True
    then have "acted_on oid sku (session w1)" using addon_attempt(2) s(1) by blast
    then have "filter (\<lambda>x. is_attempt oid sku (fst x) \<and> snd x) rest = []" using addon_run_acted_on [OF s(2)] by blast
    then show ?thesis using s True by simp
  qed (use s rest in auto)
qed simp

section \<open>Prices come from the catalog\<close>

text \<open>The order is a settled hotel booking, with the stay of its mandate.\<close>

definition booked :: "string \<Rightarrow> db \<Rightarrow> int \<Rightarrow> int \<Rightarrow> bool" where
  "booked oid d nights rooms \<longleftrightarrow>
     (\<exists>x q item m st. find_order oid (orders d) = Some x \<and> or_status x = ''CAPTURED'' \<and> quotes d (or_quote_id x) = Some q \<and>
        find_item (q_sku q) (catalog_items d) = Some item \<and> ci_category item = hotel_category \<and>
        mandates d (or_mandate_id x) = Some (m, st) \<and> nights = intent_nights (m_intent m) \<and> rooms = intent_rooms (m_intent m))"

definition offer_priced :: "string \<Rightarrow> string \<Rightarrow> db \<Rightarrow> eligible_offer \<Rightarrow> bool" where
  "offer_priced oid sku d offer \<longleftrightarrow>
     (\<exists>addon nights rooms. booked oid d nights rooms \<and> find_item sku (catalog_items d) = Some addon \<and>
        is_addon_category (ci_category addon) \<and> 0 < ci_available_units addon \<and>
        eo_sku offer = ci_sku addon \<and> eo_category offer = ci_category addon \<and> eo_refundable offer = ci_refundable addon \<and>
        pricing_multiplier (ci_category addon) nights rooms = Some (eo_quantity offer) \<and> 0 < eo_quantity offer \<and>
        eo_unit_price_minor offer = ci_unit_price_minor addon \<and>
        eo_total_minor offer = ci_unit_price_minor addon * eo_quantity offer)"

lemma wp_load_base_context:
  "wp (load_base_context oid)
    (\<lambda>r w'. session w' = session w \<and> local_step w w' \<and> (\<forall>ctx. r = Some ctx \<longrightarrow> booked oid (session w) (bo_nights ctx) (bo_rooms ctx)))
    (\<lambda>e w'. session w' = session w \<and> local_step w w') w"
  unfolding load_base_context_def orders_get_def quotes_get_def catalog_get_item_def mandates_get_def
  by (auto simp: booked_def local_step_def split: option.split)

lemma to_offer_priced:
  assumes "to_offer addon nights rooms = Some offer" "booked oid d nights rooms" "find_item sku (catalog_items d) = Some addon"
    "is_addon_category (ci_category addon)" "0 < ci_available_units addon"
  shows "offer_priced oid sku d offer"
  using assms unfolding offer_priced_def to_offer_def
  by (intro exI [of _ addon] exI [of _ nights] exI [of _ rooms]) (auto split: option.splits if_splits)

lemma wp_price_offer:
  "wp (price_offer_for_purchase oid sku)
    (\<lambda>r w'. session w' = session w \<and> local_step w w' \<and> (\<forall>offer. r = Some offer \<longrightarrow> offer_priced oid sku (session w) offer))
    (\<lambda>e w'. session w' = session w \<and> local_step w w') w"
  unfolding price_offer_for_purchase_def wp_bind
proof (rule wp_mono [OF wp_load_base_context], goal_cases)
  case (1 r w')
  then show ?case
    unfolding catalog_get_item_def
    by (auto split: option.split simp: not_le intro!: to_offer_priced local_step_trans [of w w']) (simp_all add: local_step_def)
qed simp

end
