(* ===== verification/Draft.thy ===== *)
theory Draft
  imports Prelude Complex_Main
begin

text \<open>
  Mandate drafts (\<open>domain/mandate/draft.py\<close>): which slots are missing, which question is asked,
  and how a claimed amount is checked against the user's own words. The conversation is a Python
  \<open>str\<close> read character by character, so a text is the list of its code points; the classes of the
  Unicode database that the code relies on are the record \<open>unicode\<close>. \<open>decimal.Decimal\<close> is modelled
  as the default context has it: 28 digits, half-even rounding, exponents to 999999, with
  \<open>InvalidOperation\<close> and \<open>Overflow\<close> trapped.
\<close>

section \<open>Texts\<close>

type_synonym utext = "nat list"

record unicode =
  u_space :: "nat \<Rightarrow> bool"
  u_digit :: "nat \<Rightarrow> nat option"
  u_word :: "nat \<Rightarrow> bool"
  u_same :: "nat \<Rightarrow> nat \<Rightarrow> bool"

definition codes :: "string \<Rightarrow> utext" where
  "codes s = map of_char s"

definition strip_text :: "unicode \<Rightarrow> utext \<Rightarrow> utext" where
  "strip_text u s = rev (dropWhile (u_space u) (rev (dropWhile (u_space u) s)))"

text \<open>\<open>s[i:j]\<close> for non-negative indices.\<close>

definition slice :: "utext \<Rightarrow> nat \<Rightarrow> nat \<Rightarrow> utext" where
  "slice s i j = take (j - i) (drop i s)"

section \<open>decimal.Decimal\<close>

datatype decimal = Fin bool nat int | Infinite bool | NaN

fun num_digits :: "nat \<Rightarrow> nat" where
  "num_digits n = (if n < 10 then 1 else Suc (num_digits (n div 10)))"

declare num_digits.simps [simp del]

lemma num_digits_step: "n < 10 \<Longrightarrow> num_digits n = 1" "10 \<le> n \<Longrightarrow> num_digits n = Suc (num_digits (n div 10))"
  by (simp_all add: num_digits.simps [of n])

text \<open>What the constructor reads: spaces around, underscores anywhere, any decimal digits.\<close>

definition ascii_char :: "unicode \<Rightarrow> nat \<Rightarrow> nat option" where
  "ascii_char u c =
     (if 0 < c \<and> c \<le> 127 then Some c
      else if u_space u c then Some 32
      else map_option (\<lambda>d. 48 + d) (u_digit u c))"

definition numeric_as_ascii :: "unicode \<Rightarrow> utext \<Rightarrow> utext" where
  "numeric_as_ascii u s =
     (let cs = map (ascii_char u) (filter (\<lambda>c. c \<noteq> 95) (strip_text u s)) in
      if list_all (\<lambda>c. c \<noteq> None) cs then map the cs else [])"

definition all_digits :: "utext \<Rightarrow> bool" where
  "all_digits s \<longleftrightarrow> list_all (\<lambda>c. 48 \<le> c \<and> c \<le> 57) s"

definition digits_nat :: "utext \<Rightarrow> nat" where
  "digits_nat s = foldl (\<lambda>a c. 10 * a + (c - 48)) 0 s"

definition lower_text :: "utext \<Rightarrow> utext" where
  "lower_text s = map (\<lambda>c. if 65 \<le> c \<and> c \<le> 90 then c + 32 else c) s"

definition read_sign :: "utext \<Rightarrow> bool \<times> utext" where
  "read_sign s = (case s of [] \<Rightarrow> (False, []) | c # r \<Rightarrow> if c = 43 then (False, r) else if c = 45 then (True, r) else (False, s))"

definition read_exponent :: "utext \<Rightarrow> int option" where
  "read_exponent s =
     (case s of
        [] \<Rightarrow> Some 0
      | c # r \<Rightarrow>
          let (neg, ds) = read_sign r in
          if ds = [] \<or> \<not> all_digits ds then None
          else Some (if neg then - int (digits_nat ds) else int (digits_nat ds)))"

definition read_finite :: "bool \<Rightarrow> utext \<Rightarrow> decimal option" where
  "read_finite neg s =
     (let mantissa = takeWhile (\<lambda>c. c \<noteq> 101 \<and> c \<noteq> 69) s;
          whole = takeWhile (\<lambda>c. c \<noteq> 46) mantissa;
          fraction = tl (dropWhile (\<lambda>c. c \<noteq> 46) mantissa)
      in if whole @ fraction = [] \<or> \<not> all_digits (whole @ fraction) then None
         else map_option (\<lambda>e. Fin neg (digits_nat (whole @ fraction)) (e - int (length fraction)))
                (read_exponent (dropWhile (\<lambda>c. c \<noteq> 101 \<and> c \<noteq> 69) s)))"

definition is_nan :: "utext \<Rightarrow> bool" where
  "is_nan s \<longleftrightarrow>
     (take 3 s = codes ''nan'' \<and> all_digits (drop 3 s)) \<or> (take 4 s = codes ''snan'' \<and> all_digits (drop 4 s))"

definition read_decimal :: "utext \<Rightarrow> decimal option" where
  "read_decimal s =
     (let (neg, r) = read_sign s; word = lower_text r in
      if word = codes ''inf'' \<or> word = codes ''infinity'' then Some (Infinite neg)
      else if is_nan word then Some NaN
      else read_finite neg r)"

text \<open>
  The constructor is exact; it refuses what the widest context cannot hold. Each operation then
  brings its result into the default context.
\<close>

definition exact_range :: "nat \<Rightarrow> int \<Rightarrow> bool" where
  "exact_range c e \<longleftrightarrow>
     (let adjusted = e + int (num_digits c) - 1 in
      adjusted \<le> 999999999999999999 \<and> (-999999999999999999 \<le> adjusted \<or> -1999999999999999997 \<le> e))"

definition decimal_of :: "unicode \<Rightarrow> utext \<Rightarrow> decimal result" where
  "decimal_of u s =
     (case read_decimal (numeric_as_ascii u s) of
        None \<Rightarrow> Inl DecimalInvalidOperation
      | Some (Fin neg c e) \<Rightarrow> if exact_range c e then Inr (Fin neg c e) else Inl DecimalInvalidOperation
      | Some d \<Rightarrow> Inr d)"

definition round_half_even :: "nat \<Rightarrow> nat \<Rightarrow> nat" where
  "round_half_even c k =
     (let q = c div 10 ^ k; r = c mod 10 ^ k in if 2 * r > 10 ^ k \<or> 2 * r = 10 ^ k \<and> odd q then q + 1 else q)"

definition check_exp :: "nat \<Rightarrow> int \<Rightarrow> (nat \<times> int) result" where
  "check_exp c e =
     (let adjusted = e + int (num_digits c) - 1 in
      if adjusted > 999999 then (if c = 0 then Inr (0, 999999) else Inl DecimalOverflow)
      else if adjusted < -999999 \<and> e < -1000026 then Inr (round_half_even c (nat (-1000026 - e)), -1000026)
      else Inr (c, e))"

definition check_round :: "nat \<times> int \<Rightarrow> (nat \<times> int) result" where
  "check_round x =
     (let (c, e) = x; k = num_digits c - 28; c' = round_half_even c k in
      if k = 0 then Inr (c, e)
      else if num_digits c' > 28 then check_exp (c' div 10) (e + int k + 1)
      else Inr (c', e + int k))"

definition decimal_times :: "nat \<times> int \<Rightarrow> nat \<Rightarrow> (nat \<times> int) result" where
  "decimal_times x n = rbind (check_exp (fst x * n) (snd x)) check_round"

text \<open>\<open>x != x.to\_integral\_value()\<close> and \<open>int(x)\<close>.\<close>

definition is_integral :: "nat \<times> int \<Rightarrow> bool" where
  "is_integral x \<longleftrightarrow> 0 \<le> snd x \<or> fst x = 0 \<or> 10 ^ nat (- snd x) dvd fst x"

definition integral_value :: "nat \<times> int \<Rightarrow> int" where
  "integral_value x = int (if 0 \<le> snd x then fst x * 10 ^ nat (snd x) else if fst x = 0 then 0 else fst x div 10 ^ nat (- snd x))"

section \<open>draft.py\<close>

definition REQUIRED_SLOTS :: "string list" where
  "REQUIRED_SLOTS = [''category'', ''location'', ''check_in'', ''nights'', ''rooms'', ''currency'', ''max_total_minor'']"

definition SLOT_QUESTIONS :: "(string \<times> string) list" where
  "SLOT_QUESTIONS =
     [(''category'', ''What kind of purchase is this (e.g. a hotel stay)?''),
      (''location'', ''Which city (and country) should I book in?''),
      (''check_in'', ''What check-in date do you want?''),
      (''nights'', ''How many nights?''),
      (''rooms'', ''How many rooms?''),
      (''currency'', ''What currency is your budget in?''),
      (''max_total_minor'', ''What's your total budget for this booking?'')]"

definition QUESTION_PRIORITY :: "string list" where
  "QUESTION_PRIORITY = [''max_total_minor'', ''location'', ''check_in'', ''nights'', ''rooms'', ''category'', ''currency'']"

definition next_questions :: "string list \<Rightarrow> string list" where
  "next_questions missing =
     (case find (\<lambda>s. s \<in> set missing) QUESTION_PRIORITY of
        None \<Rightarrow> []
      | Some s \<Rightarrow> [the (map_of SLOT_QUESTIONS s)])"

record money_evidence =
  numeral_text :: utext
  me_start :: int
  me_end :: int

definition money_evidence_ok :: "money_evidence \<Rightarrow> bool" where
  "money_evidence_ok ev \<longleftrightarrow> numeral_text ev \<noteq> [] \<and> 0 \<le> me_start ev \<and> 0 < me_end ev"

record mandate_draft_slots =
  sl_category :: "string option"
  sl_location :: "string option"
  sl_check_in :: "utext option"
  sl_nights :: "int option"
  sl_rooms :: "int option"
  sl_currency :: "string option"
  sl_max_total_minor_evidence :: "money_evidence option"
  sl_max_unit_minor_evidence :: "money_evidence option"
  sl_guests :: "int option"
  sl_refundable :: "bool option"

datatype draft_outcome =
    MandateDraft mandate_draft_slots int "int option"
  | ClarificationNeeded "string list" "string list" mandate_draft_slots "int option"

definition present :: "mandate_draft_slots \<Rightarrow> string \<Rightarrow> bool" where
  "present slots k =
     (if k = ''category'' then sl_category slots \<noteq> None
      else if k = ''location'' then sl_location slots \<noteq> None
      else if k = ''check_in'' then sl_check_in slots \<noteq> None
      else if k = ''nights'' then sl_nights slots \<noteq> None
      else if k = ''rooms'' then sl_rooms slots \<noteq> None
      else if k = ''currency'' then sl_currency slots \<noteq> None
      else sl_max_total_minor_evidence slots \<noteq> None)"

definition missing_required_slots :: "mandate_draft_slots \<Rightarrow> string list" where
  "missing_required_slots slots = filter (\<lambda>s. \<not> present slots s) REQUIRED_SLOTS"

text \<open>The numeral as it is handed to \<open>Decimal\<close>, and the multiplier of a trailing k.\<close>

definition clean_numeral :: "unicode \<Rightarrow> utext \<Rightarrow> utext" where
  "clean_numeral u s =
     strip_text u (filter (\<lambda>c. c \<noteq> 44) (dropWhile (\<lambda>c. c = 8377 \<or> c = 36) (strip_text u s)))"

definition split_suffix :: "utext \<Rightarrow> utext \<times> nat" where
  "split_suffix s = (if s \<noteq> [] \<and> (last s = 107 \<or> last s = 75) then (butlast s, 1000) else (s, 1))"

definition minor_units :: "nat \<Rightarrow> decimal \<Rightarrow> int option result" where
  "minor_units multiplier d =
     (case d of
        NaN \<Rightarrow> Inl DecimalInvalidOperation
      | Infinite neg \<Rightarrow> if neg then Inr None else Inl (OverflowError ''cannot convert Infinity to integer'')
      | Fin neg c e \<Rightarrow>
          if neg \<or> c = 0 then Inr None
          else
            rbind (decimal_times (c, e) multiplier) (\<lambda>major.
            rbind (decimal_times major 100) (\<lambda>minor.
            Inr (if is_integral minor then Some (integral_value minor) else None))))"

definition verify_money_evidence :: "unicode \<Rightarrow> utext \<Rightarrow> money_evidence \<Rightarrow> int option result" where
  "verify_money_evidence u conversation_text ev =
     (if me_end ev > int (length conversation_text) then Inr None
      else if slice conversation_text (nat (me_start ev)) (nat (me_end ev)) \<noteq> numeral_text ev then Inr None
      else
        let (cleaned, multiplier) = split_suffix (clean_numeral u (numeral_text ev)) in
        (case decimal_of u cleaned of
           Inl e \<Rightarrow> Inr None
         | Inr major \<Rightarrow> minor_units multiplier major))"

definition verify_optional :: "unicode \<Rightarrow> utext \<Rightarrow> money_evidence option \<Rightarrow> int option result" where
  "verify_optional u conversation_text ev =
     (case ev of None \<Rightarrow> Inr None | Some x \<Rightarrow> verify_money_evidence u conversation_text x)"

definition build_draft :: "unicode \<Rightarrow> utext \<Rightarrow> mandate_draft_slots \<Rightarrow> draft_outcome result" where
  "build_draft u conversation_text slots =
     rbind (verify_optional u conversation_text (sl_max_total_minor_evidence slots)) (\<lambda>max_total_minor.
     rbind (verify_optional u conversation_text (sl_max_unit_minor_evidence slots)) (\<lambda>max_unit_minor.
     let claimed = missing_required_slots slots;
         missing = (if sl_max_total_minor_evidence slots \<noteq> None \<and> max_total_minor = None \<and> ''max_total_minor'' \<notin> set claimed
                    then claimed @ [''max_total_minor''] else claimed)
     in if missing \<noteq> [] then
          let ordered = filter (\<lambda>s. s \<in> set missing) REQUIRED_SLOTS in
          Inr (ClarificationNeeded ordered (next_questions ordered) slots max_total_minor)
        else
          (case max_total_minor of
             None \<Rightarrow> Inl AssertionError
           | Some amount \<Rightarrow> Inr (MandateDraft slots amount max_unit_minor))))"

section \<open>Amounts are what the user wrote\<close>

lemma num_digits_bounds: "n < 10 ^ k \<Longrightarrow> 0 < k \<Longrightarrow> num_digits n \<le> k"
proof (induction n arbitrary: k rule: num_digits.induct)
  case (1 n)
  show ?case
  proof (cases "n < 10")
    case False
    then obtain j where k: "k = Suc j" "0 < j" using 1(2,3) by (cases k; cases "k - 1") auto
    have "n div 10 < 10 ^ j" using 1(2) k by (simp add: less_mult_imp_div_less mult.commute)
    then show ?thesis using 1(1) [OF False] k by (simp add: num_digits.simps [of n] False)
  qed (use 1 in \<open>simp add: num_digits.simps [of n]\<close>)
qed

definition amount :: "nat \<times> int \<Rightarrow> rat" where
  "amount x = of_nat (fst x) * 10 powi snd x"

text \<open>Below 28 digits, and above the least exponent, a product is exact or overflows.\<close>

lemma decimal_times_exact:
  assumes "decimal_times (c, e) n = Inr x" "c * n < 10 ^ 28" "-1000026 \<le> e" "0 < c * n"
  shows "x = (c * n, e)"
proof -
  have d: "num_digits (c * n) \<le> 28" using num_digits_bounds [OF assms(2)] by simp
  have "check_exp (c * n) e = Inr (c * n, e) \<or> check_exp (c * n) e = Inl DecimalOverflow"
    using assms(3,4) by (auto simp: check_exp_def Let_def)
  then show ?thesis using assms(1) d by (auto simp: decimal_times_def check_round_def)
qed

lemma integral_amount:
  assumes "is_integral x"
  shows "of_int (integral_value x) = amount x"
proof (cases "0 \<le> snd x")
  case True
  then show ?thesis by (simp add: integral_value_def amount_def power_int_def)
next
  case False
  then show ?thesis
  proof (cases "fst x = 0")
    case nz: False
    then obtain k where k: "fst x = 10 ^ nat (- snd x) * k" using assms False by (auto simp: is_integral_def)
    then show ?thesis using False nz by (simp add: integral_value_def amount_def power_int_def field_simps)
  qed (simp add: integral_value_def amount_def)
qed

lemma minor_units_exact:
  assumes "minor_units n (Fin neg c e) = Inr (Some m)" "c < 10 ^ 23" "-1000026 \<le> e" "0 < n" "n \<le> 1000"
  shows "of_int m = 100 * (of_nat n * amount (c, e))" "0 < m" "\<not> neg"
proof -
  obtain x y where pos: "\<not> neg" "0 < c" and x: "decimal_times (c, e) n = Inr x" and y: "decimal_times x 100 = Inr y"
    and i: "is_integral y" and m: "m = integral_value y"
    using assms(1) by (auto simp: minor_units_def rbind_eq_Inr split: if_splits)
  have small: "c * n < 10 ^ 26"
  proof -
    have "c * n \<le> c * 1000" using assms(5) by simp
    also have "\<dots> < 10 ^ 26" using assms(2) by simp
    finally show ?thesis .
  qed
  have x': "x = (c * n, e)" by (rule decimal_times_exact [OF x]) (use small assms(3,4) pos in auto)
  have y': "y = (c * n * 100, e)" by (rule decimal_times_exact) (use y x' small assms(3,4) pos in auto)
  show *: "of_int m = 100 * (of_nat n * amount (c, e))"
    unfolding m integral_amount [OF i] by (simp add: y' amount_def)
  have "0 < (100 * (of_nat n * amount (c, e)) :: rat)" using pos(2) assms(4) by (simp add: amount_def)
  then show "0 < m" using * by (metis of_int_0_less_iff)
  show "\<not> neg" by (rule pos(1))
qed

lemma decimal_of_read: "decimal_of u s = Inr d \<Longrightarrow> read_decimal (numeric_as_ascii u s) = Some d"
  by (auto simp: decimal_of_def split: option.splits decimal.splits if_splits)

text \<open>
  The numeral at the named span, and what it denotes: the decimal it reads as, times a thousand for a
  trailing k, in minor units.
\<close>

definition verbatim :: "utext \<Rightarrow> money_evidence \<Rightarrow> bool" where
  "verbatim conversation_text ev \<longleftrightarrow>
     (\<exists>before after. conversation_text = before @ numeral_text ev @ after \<and> int (length before) = me_start ev \<and>
        int (length before + length (numeral_text ev)) = me_end ev)"

definition denotes :: "unicode \<Rightarrow> utext \<Rightarrow> rat \<Rightarrow> bool" where
  "denotes u s v \<longleftrightarrow>
     (\<exists>c e. read_decimal (numeric_as_ascii u (fst (split_suffix (clean_numeral u s)))) = Some (Fin False c e) \<and>
        v = of_nat (snd (split_suffix (clean_numeral u s))) * amount (c, e))"

definition ordinary :: "unicode \<Rightarrow> utext \<Rightarrow> bool" where
  "ordinary u s \<longleftrightarrow>
     (case read_decimal (numeric_as_ascii u (fst (split_suffix (clean_numeral u s)))) of
        Some (Fin neg c e) \<Rightarrow> c < 10 ^ 23 \<and> -1000026 \<le> e
      | _ \<Rightarrow> True)"

lemma slice_verbatim:
  assumes "slice t i j = s" "j \<le> length t" "s \<noteq> []"
  shows "t = take i t @ s @ drop j t" "i + length s = j" "i \<le> length t"
proof -
  have ij: "i < j" using assms(1,3) by (auto simp: slice_def)
  show "i + length s = j" "i \<le> length t" using assms ij by (auto simp: slice_def)
  have "drop i t = s @ drop j t"
    using assms(1) ij by (auto simp: slice_def) (metis append_take_drop_id drop_drop le_add_diff_inverse2 less_imp_le)
  then show "t = take i t @ s @ drop j t" by (metis append_take_drop_id)
qed

lemma verified_amount:
  assumes v: "verify_money_evidence u t ev = Inr (Some m)" and ok: "money_evidence_ok ev" and o: "ordinary u (numeral_text ev)"
  shows "verbatim t ev" "\<exists>v. denotes u (numeral_text ev) v \<and> of_int m = 100 * v" "0 < m"
proof -
  let ?s = "split_suffix (clean_numeral u (numeral_text ev))"
  from v have sl: "slice t (nat (me_start ev)) (nat (me_end ev)) = numeral_text ev" "nat (me_end ev) \<le> length t"
    by (auto simp: verify_money_evidence_def split: if_splits)
  note q = slice_verbatim [OF sl(1) sl(2)]
  show "verbatim t ev"
    unfolding verbatim_def
    by (rule exI [of _ "take (nat (me_start ev)) t"], rule exI [of _ "drop (nat (me_end ev)) t"])
      (use q ok in \<open>auto simp: money_evidence_ok_def min_absorb2\<close>)
  from v obtain d where d: "decimal_of u (fst ?s) = Inr d" and m: "minor_units (snd ?s) d = Inr (Some m)"
    by (auto simp: verify_money_evidence_def split: if_splits sum.splits prod.splits)
  then obtain neg c e where f: "d = Fin neg c e" by (cases d) (auto simp: minor_units_def split: if_splits)
  have n: "0 < snd ?s" "snd ?s \<le> 1000" by (simp_all add: split_suffix_def)
  have r: "read_decimal (numeric_as_ascii u (fst ?s)) = Some (Fin neg c e)" using decimal_of_read [OF d] f by simp
  then have "c < 10 ^ 23" "-1000026 \<le> e" using o by (simp_all add: ordinary_def)
  note x = minor_units_exact [OF m [unfolded f] this n]
  show "0 < m" by (rule x(2))
  show "\<exists>v. denotes u (numeral_text ev) v \<and> of_int m = 100 * v"
    using r x(1,3) by (auto simp: denotes_def)
qed

definition slots_ok :: "mandate_draft_slots \<Rightarrow> bool" where
  "slots_ok slots \<longleftrightarrow>
     (case sl_max_total_minor_evidence slots of None \<Rightarrow> True | Some ev \<Rightarrow> money_evidence_ok ev) \<and>
     (case sl_max_unit_minor_evidence slots of None \<Rightarrow> True | Some ev \<Rightarrow> money_evidence_ok ev)"

definition backed :: "unicode \<Rightarrow> utext \<Rightarrow> money_evidence option \<Rightarrow> int \<Rightarrow> bool" where
  "backed u t ev m \<longleftrightarrow>
     (\<exists>x. ev = Some x \<and> (ordinary u (numeral_text x) \<longrightarrow>
        verbatim t x \<and> 0 < m \<and> (\<exists>v. denotes u (numeral_text x) v \<and> of_int m = 100 * v)))"

lemma verify_optional_backed:
  assumes "verify_optional u t ev = Inr (Some m)" "case ev of None \<Rightarrow> True | Some x \<Rightarrow> money_evidence_ok x"
  shows "backed u t ev m"
  using assms verified_amount by (cases ev) (auto simp: verify_optional_def backed_def)

lemma present_total: "present slots ''max_total_minor'' \<longleftrightarrow> sl_max_total_minor_evidence slots \<noteq> None"
  by (simp add: present_def)

lemma total_required: "''max_total_minor'' \<in> set REQUIRED_SLOTS"
  by (simp add: REQUIRED_SLOTS_def)

lemma next_question: "set missing \<subseteq> set REQUIRED_SLOTS \<Longrightarrow> missing \<noteq> [] \<Longrightarrow> length (next_questions missing) = 1"
proof -
  assume a: "set missing \<subseteq> set REQUIRED_SLOTS" "missing \<noteq> []"
  have "set REQUIRED_SLOTS = set QUESTION_PRIORITY" unfolding REQUIRED_SLOTS_def QUESTION_PRIORITY_def by auto
  then have "hd missing \<in> set QUESTION_PRIORITY" using a by (metis hd_in_set subsetD)
  then have "find (\<lambda>s. s \<in> set missing) QUESTION_PRIORITY \<noteq> None" using a(2) by (metis find_None_iff hd_in_set)
  then show ?thesis by (auto simp: next_questions_def)
qed

lemma draft_said:
  assumes "slots_ok slots" "build_draft u t slots = Inr r"
  shows "case r of
      MandateDraft s total_minor unit_minor \<Rightarrow>
        s = slots \<and> (\<forall>k\<in>set REQUIRED_SLOTS. present slots k) \<and>
        backed u t (sl_max_total_minor_evidence slots) total_minor \<and>
        (\<forall>m. unit_minor = Some m \<longrightarrow> backed u t (sl_max_unit_minor_evidence slots) m)
    | ClarificationNeeded missing questions s verified \<Rightarrow>
        s = slots \<and> missing \<noteq> [] \<and> length questions = 1 \<and>
        missing = filter (\<lambda>k. \<not> present slots k \<or> k = ''max_total_minor'' \<and> verified = None) REQUIRED_SLOTS"
proof -
  obtain a b where ab: "verify_optional u t (sl_max_total_minor_evidence slots) = Inr a"
      "verify_optional u t (sl_max_unit_minor_evidence slots) = Inr b"
    using assms(2) by (auto simp: build_draft_def rbind_eq_Inr)
  let ?claimed = "missing_required_slots slots"
  define missing where "missing = (if sl_max_total_minor_evidence slots \<noteq> None \<and> a = None \<and> ''max_total_minor'' \<notin> set ?claimed
    then ?claimed @ [''max_total_minor''] else ?claimed)"
  have r: "Inr r = (if missing \<noteq> [] then
      Inr (ClarificationNeeded (filter (\<lambda>s. s \<in> set missing) REQUIRED_SLOTS) (next_questions (filter (\<lambda>s. s \<in> set missing) REQUIRED_SLOTS)) slots a)
    else (case a of None \<Rightarrow> Inl AssertionError | Some v \<Rightarrow> Inr (MandateDraft slots v b)))"
    using assms(2) [symmetric] unfolding build_draft_def missing_def ab rbind_simps Let_def .
  have mem: "k \<in> set missing \<longleftrightarrow> \<not> present slots k \<or> k = ''max_total_minor'' \<and> a = None" if "k \<in> set REQUIRED_SLOTS" for k
    using that total_required present_total [of slots] by (auto simp: missing_def missing_required_slots_def)
  have sub: "set missing \<subseteq> set REQUIRED_SLOTS" using total_required by (auto simp: missing_def missing_required_slots_def)
  show ?thesis
  proof (cases "missing = []")
    case True
    then obtain v where v: "a = Some v" "r = MandateDraft slots v b" using r by (auto split: option.splits)
    have "present slots k" if "k \<in> set REQUIRED_SLOTS" for k using mem [OF that] True by simp
    moreover have "backed u t (sl_max_total_minor_evidence slots) v"
      using verify_optional_backed [of u t "sl_max_total_minor_evidence slots" v] ab(1) v(1) assms(1) by (simp add: slots_ok_def)
    moreover have "backed u t (sl_max_unit_minor_evidence slots) m" if "b = Some m" for m
      using verify_optional_backed [of u t "sl_max_unit_minor_evidence slots" m] ab(2) that assms(1) by (simp add: slots_ok_def)
    ultimately show ?thesis using v(2) by simp
  next
    case False
    let ?o = "filter (\<lambda>s. s \<in> set missing) REQUIRED_SLOTS"
    have o: "?o = filter (\<lambda>k. \<not> present slots k \<or> k = ''max_total_minor'' \<and> a = None) REQUIRED_SLOTS"
      using mem by (rule filter_cong [OF refl])
    have ne: "?o \<noteq> []" using False sub by (metis empty_filter_conv hd_in_set subsetD)
    show ?thesis using r False o ne next_question [of ?o] by auto
  qed
qed


text \<open>Python's classes on ASCII.\<close>

definition ascii :: unicode where
  "ascii = \<lparr>u_space = (\<lambda>c. c = 32 \<or> 9 \<le> c \<and> c \<le> 13 \<or> 28 \<le> c \<and> c \<le> 31), u_digit = (\<lambda>c. if 48 \<le> c \<and> c \<le> 57 then Some (c - 48) else None),
     u_word = (\<lambda>c. 48 \<le> c \<and> c \<le> 57 \<or> 65 \<le> c \<and> c \<le> 90 \<or> c = 95 \<or> 97 \<le> c \<and> c \<le> 122),
     u_same = (\<lambda>c d. lower_text [c] = lower_text [d])\<rparr>"

definition goa_words :: utext where
  "goa_words = codes ''goa for 10k''"

definition goa_slots :: mandate_draft_slots where
  "goa_slots = \<lparr>sl_category = Some ''travel.hotel'', sl_location = Some ''Goa'', sl_check_in = Some (codes ''may 1''), sl_nights = Some 2,
     sl_rooms = Some 1, sl_currency = Some ''INR'', sl_max_total_minor_evidence = Some \<lparr>numeral_text = codes ''10k'', me_start = 8, me_end = 11\<rparr>,
     sl_max_unit_minor_evidence = None, sl_guests = None, sl_refundable = None\<rparr>"

lemmas numeral_simps = verify_money_evidence_def slice_def codes_def goa_words_def clean_numeral_def strip_text_def split_suffix_def ascii_def
  decimal_of_def numeric_as_ascii_def ascii_char_def read_decimal_def read_sign_def lower_text_def is_nan_def read_finite_def all_digits_def
  digits_nat_def read_exponent_def exact_range_def num_digits_step minor_units_def decimal_times_def check_exp_def check_round_def is_integral_def
  integral_value_def Let_def

lemma goa_numeral: "verify_money_evidence ascii goa_words \<lparr>numeral_text = codes ''10k'', me_start = 8, me_end = 11\<rparr> = Inr (Some 1000000)"
  by (simp add: numeral_simps)

lemma goa_draft: "build_draft ascii goa_words goa_slots = Inr (MandateDraft goa_slots 1000000 None)"
  using goa_numeral by (simp add: build_draft_def verify_optional_def goa_slots_def missing_required_slots_def REQUIRED_SLOTS_def present_def)


section \<open>Numerals that are not amounts\<close>

text \<open>
  A quoted word that \<open>Decimal\<close> reads as a NaN or as infinity is not refused: the check raises.
\<close>

theorem special_numerals_raise:
  assumes "me_end ev \<le> int (length t)" "slice t (nat (me_start ev)) (nat (me_end ev)) = numeral_text ev"
    "split_suffix (clean_numeral u (numeral_text ev)) = (s, n)" "read_decimal (numeric_as_ascii u s) = Some d"
  shows "(d = NaN \<longrightarrow> verify_money_evidence u t ev = Inl DecimalInvalidOperation) \<and>
    (d = Infinite False \<longrightarrow> verify_money_evidence u t ev = Inl (OverflowError ''cannot convert Infinity to integer''))"
  using assms by (auto simp: verify_money_evidence_def decimal_of_def minor_units_def)

theorem special_numerals_raise_witness:
  "verify_money_evidence ascii (codes ''under NaN'') \<lparr>numeral_text = codes ''NaN'', me_start = 6, me_end = 9\<rparr> =
     Inl DecimalInvalidOperation"
proof -
  have s: "split_suffix (clean_numeral ascii (codes ''NaN'')) = (codes ''NaN'', 1)" by (simp add: numeral_simps)
  have d: "read_decimal (numeric_as_ascii ascii (codes ''NaN'')) = Some NaN" by (simp add: numeral_simps)
  have q: "slice (codes ''under NaN'') 6 9 = codes ''NaN''" by (simp add: numeral_simps)
  show ?thesis
    using special_numerals_raise [of "\<lparr>numeral_text = codes ''NaN'', me_start = 6, me_end = 9\<rparr>" "codes ''under NaN''" ascii "codes ''NaN''" 1 NaN]
      s d q by (simp add: codes_def)
qed

end
