(* ===== verification/Llm_Clients.thy ===== *)
theory Llm_Clients
  imports Llm
begin

text \<open>
  The clients behind the port of the language model: the budget per transaction
  (\<open>application/conversation/budget.py\<close>), the cassettes of a replayed demo
  (\<open>infrastructure/llm/replay_client.py\<close>) and Groq (\<open>groq_client.py\<close>) with the cache of
  prompts (\<open>infrastructure/cache/semantic_cache.py\<close>). The Groq SDK, Redis, the rate limiter, the
  clock and the text form of JSON are parameters.
\<close>

section \<open>budget.py\<close>

record 'l budgeted =
  bg_inner :: 'l
  bg_calls_made :: int

definition budget_claim :: "int \<Rightarrow> ('l budgeted, unit) comp" where
  "budget_claim max_calls =
     bind (gets bg_calls_made) (\<lambda>calls_made.
     if calls_made \<ge> max_calls then
       raise (LLMUnavailable (''LLM call budget ('' @ show_int max_calls @ '' per transaction) already spent''))
     else modify (\<lambda>b. b\<lparr>bg_calls_made := calls_made + 1\<rparr>))"

definition on_inner :: "('l, 'a) comp \<Rightarrow> ('l budgeted, 'a) comp" where
  "on_inner m = (\<lambda>b. case m (bg_inner b) of (r, l) \<Rightarrow> (r, b\<lparr>bg_inner := l\<rparr>))"

definition budgeted_llm_client :: "int \<Rightarrow> 'l llm_client \<Rightarrow> 'l budgeted llm_client" where
  "budgeted_llm_client max_calls inner =
     \<lparr>complete_json = (\<lambda>system user max_tokens.
        bind (budget_claim max_calls) (\<lambda>_. on_inner (complete_json inner system user max_tokens))),
      complete_text = (\<lambda>system user max_tokens.
        bind (budget_claim max_calls) (\<lambda>_. on_inner (complete_text inner system user max_tokens)))\<rparr>"

section \<open>canonical\_prompt.py\<close>

text \<open>A text as the bytes of its UTF-8 form.\<close>

definition utf8_units :: "nat \<Rightarrow> nat list" where
  "utf8_units c =
     (if c < 0x80 then [c]
      else if c < 0x800 then [0xC0 + c div 64, 0x80 + c mod 64]
      else if c < 0x10000 then [0xE0 + c div 4096, 0x80 + c div 64 mod 64, 0x80 + c mod 64]
      else [0xF0 + c div 262144, 0x80 + c div 4096 mod 64, 0x80 + c div 64 mod 64, 0x80 + c mod 64])"

definition utf8_str :: "utext \<Rightarrow> string" where
  "utf8_str t = map char_of (concat (map utf8_units t))"

definition canonical_prompt_key :: "string \<Rightarrow> string \<Rightarrow> utext \<Rightarrow> utext \<Rightarrow> string result" where
  "canonical_prompt_key mode model system user =
     rmap (\<lambda>t. hex (sha256 (encode_utf8 t)))
       (jcs (JObj [(''mode'', JStr mode), (''model'', JStr model), (''system'', JStr (utf8_str system)),
                   (''user'', JStr (utf8_str user)), (''temperature'', JInt 0)]))"

section \<open>replay\_client.py\<close>

text \<open>\<open>cassettes\<close>: the parsed files of the directory by their name, without the extension.\<close>

record 'l replay =
  rl_health :: bool
  rl_rest :: 'l

definition replay_load :: "(string \<Rightarrow> json option) \<Rightarrow> string \<Rightarrow> string \<Rightarrow> utext \<Rightarrow> utext \<Rightarrow> ('l replay, json) comp" where
  "replay_load cassettes model mode system user =
     bind (lift_result (canonical_prompt_key mode model system user)) (\<lambda>cache_key.
     case cassettes cache_key of
       None \<Rightarrow> raise (LLMUnavailable (''no DEMO_REPLAY cassette recorded for this prompt ('' @ cache_key @ '')''))
     | Some cassette \<Rightarrow>
         bind (modify (\<lambda>s. s\<lparr>rl_health := True\<rparr>)) (\<lambda>_.
         case cassette of
           JObj kvs \<Rightarrow> (case map_of kvs ''response'' of None \<Rightarrow> raise (KeyError ''response'') | Some v \<Rightarrow> return v)
         | _ \<Rightarrow> raise (TypeError ''cassette is not an object'')))"

definition replay_llm_client :: "(string \<Rightarrow> json option) \<Rightarrow> string \<Rightarrow> 'l replay llm_client" where
  "replay_llm_client cassettes model =
     \<lparr>complete_json = (\<lambda>system user max_tokens.
        bind (replay_load cassettes model ''json'' system user) (\<lambda>result.
        case result of JObj kvs \<Rightarrow> return result | _ \<Rightarrow> raise (LLMUnavailable ''cassette response was not a JSON object''))),
      complete_text = (\<lambda>system user max_tokens.
        bind (replay_load cassettes model ''text'' system user) (\<lambda>result.
        case result of JStr s \<Rightarrow> return s | _ \<Rightarrow> raise (LLMUnavailable ''cassette response was not text'')))\<rparr>"

section \<open>groq\_client.py\<close>

text \<open>
  What the client is given. \<open>gx_create\<close> is the SDK's call, returning the contents of the
  choices; \<open>gx_loads\<close> and \<open>gx_dumps\<close> are \<open>json.loads\<close> and \<open>json.dumps\<close>.
\<close>

record groq_request =
  gr_model :: string
  gr_max_tokens :: int
  gr_system :: utext
  gr_user :: utext
  gr_json_object :: bool

record 'g groq_services =
  gx_redis_get :: "string \<Rightarrow> ('g, string option) comp"
  gx_redis_set :: "string \<Rightarrow> string \<Rightarrow> int \<Rightarrow> ('g, unit) comp"
  gx_try_acquire :: "('g, bool) comp"
  gx_now :: "('g, datetime) comp"
  gx_create :: "groq_request \<Rightarrow> ('g, string option list) comp"
  gx_loads :: "string \<Rightarrow> json result"
  gx_dumps :: "json \<Rightarrow> string"

record 'g groq =
  gq_outside :: 'g
  gq_breaker :: breaker
  gq_succeeded :: bool

definition reach :: "('g, 'a) comp \<Rightarrow> ('g groq, 'a) comp" where
  "reach m = (\<lambda>s. case m (gq_outside s) of (r, g) \<Rightarrow> (r, s\<lparr>gq_outside := g\<rparr>))"

definition cache_key_name :: "string \<Rightarrow> string" where
  "cache_key_name cache_key = ''actl:llm:cache:'' @ cache_key"

text \<open>A JSON null is Python's \<open>None\<close>, and so not a hit.\<close>

definition cache_get :: "'g groq_services \<Rightarrow> string \<Rightarrow> ('g groq, json option) comp" where
  "cache_get X cache_key =
     bind (handle (reach (gx_redis_get X (cache_key_name cache_key)))
             (\<lambda>e. case e of RedisError m \<Rightarrow> return None | _ \<Rightarrow> raise e)) (\<lambda>raw.
     case raw of
       None \<Rightarrow> return None
     | Some t \<Rightarrow>
         (case gx_loads X t of
            Inr v \<Rightarrow> return (if v = JNull then None else Some v)
          | Inl (TypeError m) \<Rightarrow> return None
          | Inl (ValueError m) \<Rightarrow> return None
          | Inl e \<Rightarrow> raise e))"

definition cache_set :: "'g groq_services \<Rightarrow> int \<Rightarrow> string \<Rightarrow> json \<Rightarrow> ('g groq, unit) comp" where
  "cache_set X ttl_s cache_key v =
     handle (reach (gx_redis_set X (cache_key_name cache_key) (gx_dumps X v) ttl_s))
       (\<lambda>e. case e of RedisError m \<Rightarrow> return () | _ \<Rightarrow> raise e)"

text \<open>\<open>CircuitBreaker.call\<close>, on the breaker of this client.\<close>

definition groq_breaker_call :: "'g groq_services \<Rightarrow> ('g groq, 'a) comp \<Rightarrow> ('g groq, 'a) comp" where
  "groq_breaker_call X fn =
     bind (gets gq_breaker) (\<lambda>b.
     bind (if b_state b = OPEN \<and> opened_at b \<noteq> None then reach (gx_now X) else return 0) (\<lambda>now.
     bind (lift_result (breaker_begin b now)) (\<lambda>b'.
     bind (modify (\<lambda>s. s\<lparr>gq_breaker := b'\<rparr>)) (\<lambda>_.
     handle
       (bind fn (\<lambda>x.
        bind (modify (\<lambda>s. s\<lparr>gq_breaker := breaker_finish (gq_breaker s) 0 True\<rparr>)) (\<lambda>_. return x)))
       (\<lambda>e.
        bind (gets gq_breaker) (\<lambda>c.
        bind (if consecutive_failures c + 1 \<ge> failure_threshold c \<or> b_state c = OPEN then reach (gx_now X) else return 0) (\<lambda>t.
        bind (modify (\<lambda>s. s\<lparr>gq_breaker := breaker_finish (gq_breaker s) t False\<rparr>)) (\<lambda>_. raise e))))))))"

definition groq_call :: "'g groq_services \<Rightarrow> groq_request \<Rightarrow> ('g groq, json) comp" where
  "groq_call X req =
     bind (reach (gx_create X req)) (\<lambda>choices.
     case choices of
       [] \<Rightarrow> raise IndexError
     | c # cs \<Rightarrow>
         (let content = (case c of None \<Rightarrow> [] | Some s \<Rightarrow> s) in
          if gr_json_object req then lift_result (gx_loads X content) else return (JStr content)))"

definition show_optional :: "('a \<Rightarrow> string) \<Rightarrow> 'a option \<Rightarrow> string" where
  "show_optional f x = (case x of None \<Rightarrow> ''None'' | Some y \<Rightarrow> f y)"

definition sanitized :: "exn \<Rightarrow> exn" where
  "sanitized e =
     (case e of
        CircuitOpenError m \<Rightarrow> LLMUnavailable m
      | APIError status error_type \<Rightarrow>
          LLMUnavailable (''Groq API error (status='' @ show_optional show_int status @ '', type='' @
            show_optional (\<lambda>s. s) error_type @ '')'')
      | ValueError m \<Rightarrow> LLMUnavailable m
      | _ \<Rightarrow> e)"

definition groq_complete ::
  "'g groq_services \<Rightarrow> string \<Rightarrow> int \<Rightarrow> bool \<Rightarrow> utext \<Rightarrow> utext \<Rightarrow> int \<Rightarrow> ('g groq, json) comp" where
  "groq_complete X model ttl_s as_json system user max_tokens =
     bind (lift_result (canonical_prompt_key (if as_json then ''json'' else ''text'') model system user)) (\<lambda>cache_key.
     bind (cache_get X cache_key) (\<lambda>cached.
     case cached of
       Some v \<Rightarrow> return v
     | None \<Rightarrow>
         bind (handle (reach (gx_try_acquire X))
                 (\<lambda>e. case e of RateLimitUnavailable m \<Rightarrow> raise (LLMUnavailable (''rate limiter unavailable: '' @ m)) | _ \<Rightarrow> raise e)) (\<lambda>allowed.
         if \<not> allowed then raise (LLMUnavailable ''LLM rate limit exceeded'')
         else
           bind (handle
             (groq_breaker_call X (groq_call X \<lparr>gr_model = model, gr_max_tokens = max_tokens, gr_system = system, gr_user = user,
                                                gr_json_object = as_json\<rparr>))
             (\<lambda>e. raise (sanitized e))) (\<lambda>result.
           bind (modify (\<lambda>s. s\<lparr>gq_succeeded := True\<rparr>)) (\<lambda>_.
           bind (cache_set X ttl_s cache_key result) (\<lambda>_.
           return result))))))"

definition groq_client :: "'g groq_services \<Rightarrow> string \<Rightarrow> int \<Rightarrow> 'g groq llm_client" where
  "groq_client X model ttl_s =
     \<lparr>complete_json = (\<lambda>system user max_tokens.
        bind (groq_complete X model ttl_s True system user max_tokens) (\<lambda>result.
        case result of JObj kvs \<Rightarrow> return result | _ \<Rightarrow> raise (LLMUnavailable ''Groq response was not a JSON object''))),
      complete_text = (\<lambda>system user max_tokens.
        bind (groq_complete X model ttl_s False system user max_tokens) (\<lambda>result.
        case result of JStr s \<Rightarrow> return s | _ \<Rightarrow> raise (LLMUnavailable ''Groq response was not text'')))\<rparr>"

section \<open>The budget is respected\<close>

text \<open>A client that counts the calls it gets.\<close>

definition counting :: "'l llm_client \<Rightarrow> ('l \<times> nat) llm_client" where
  "counting L =
     \<lparr>complete_json = (\<lambda>system user n (l, k). case complete_json L system user n l of (r, l') \<Rightarrow> (r, (l', Suc k))),
      complete_text = (\<lambda>system user n (l, k). case complete_text L system user n l of (r, l') \<Rightarrow> (r, (l', Suc k)))\<rparr>"

text \<open>The uses of the model in one transaction; a use that raises does not end it.\<close>

datatype llm_use =
    Extract utext
  | Rank "catalog_item list" mandate
  | Narrate audit_row

record llm_setting =
  ls_unicode :: unicode
  ls_slots :: "json \<Rightarrow> string + mandate_draft_slots"
  ls_ranking :: "json \<Rightarrow> string + (string list \<times> (string \<times> string) list)"
  ls_extract_prompts :: "utext prompts"
  ls_rank_prompts :: "catalog_item list prompts"
  ls_narrate_prompts :: "audit_row prompts"

primrec llm_use_state :: "llm_setting \<Rightarrow> 'l llm_client \<Rightarrow> llm_use \<Rightarrow> 'l \<Rightarrow> 'l" where
  "llm_use_state S L (Extract t) l = snd (extract_mandate_draft (ls_unicode S) (ls_slots S) (ls_extract_prompts S) L t l)"
| "llm_use_state S L (Rank items m) l = snd (rank_candidates (ls_ranking S) (ls_rank_prompts S) L items m l)"
| "llm_use_state S L (Narrate r) l = snd (narrate_entry (ls_narrate_prompts S) L r l)"

definition within_budget :: "int \<Rightarrow> ('l \<times> nat) budgeted \<Rightarrow> bool" where
  "within_budget max_calls b \<longleftrightarrow>
     int (snd (bg_inner b)) = bg_calls_made b \<and> (bg_calls_made b = 0 \<or> bg_calls_made b \<le> max_calls)"

lemma budgeted_keeps:
  "keeps (within_budget n) (complete_json (budgeted_llm_client n (counting L)) s u k)"
  "keeps (within_budget n) (complete_text (budgeted_llm_client n (counting L)) s u k)"
  by (auto simp: keeps_def within_budget_def budgeted_llm_client_def budget_claim_def counting_def on_inner_def bind_def run_simps
      split: prod.split)

lemma uses_keep:
  assumes "\<And>s u k. keeps I (complete_json L s u k)" "\<And>s u k. keeps I (complete_text L s u k)" "I l"
  shows "I (llm_use_state S L use l)"
proof -
  have repair: "keeps I (complete_json_with_repair L mv s u b k)" for mv :: "json \<Rightarrow> string + 'x" and s u b k
    unfolding complete_json_with_repair_def by (auto intro!: keeps_rules assms(1) split: sum.split)
  have "keeps I (extract_mandate_draft u mv R L t)" for u mv R t
    unfolding extract_mandate_draft_def catch_unavailable_def by (intro keeps_rules repair)
  moreover have "keeps I (rank_candidates mv R L items m)" for mv R items m
    unfolding rank_candidates_def catch_unavailable_def Let_def by (intro keeps_rules repair)
  moreover have "keeps I (narrate_entry R L r)" for R r
    unfolding narrate_entry_def catch_unavailable_def by (intro keeps_rules assms(2))
  ultimately show ?thesis using assms(3) by (cases "use") (simp_all add: keepsD)
qed

text \<open>
  The budget of a transaction holds. However often extraction, ranking and narration are
  used with one \<open>BudgetedLLMClient\<close>, in any order, with their repairs and whatever the model
  answers or raises: the client behind it gets at most \<open>max_calls\<close> calls.
\<close>

theorem budget_respected:
  "snd (bg_inner (fold (llm_use_state S (budgeted_llm_client max_calls (counting L))) uses \<lparr>bg_inner = (l, 0), bg_calls_made = 0\<rparr>))
     \<le> nat max_calls"
proof -
  have "within_budget max_calls (fold (llm_use_state S (budgeted_llm_client max_calls (counting L))) uses b)"
    if "within_budget max_calls b" for b
    using that by (induction uses arbitrary: b) (simp_all add: uses_keep [where I = "within_budget max_calls"] budgeted_keeps)
  from this [of "\<lparr>bg_inner = (l, 0), bg_calls_made = 0\<rparr>"] show ?thesis by (auto simp: within_budget_def)
qed

section \<open>Groq has one failure mode\<close>

definition raises_only :: "(exn \<Rightarrow> bool) \<Rightarrow> ('s, 'a) comp \<Rightarrow> bool" where
  "raises_only A m \<longleftrightarrow> (\<forall>s. wp m (\<lambda>x s'. True) (\<lambda>e s'. A e) s)"

lemma raises_bind: "raises_only A m \<Longrightarrow> (\<And>x. raises_only A (f x)) \<Longrightarrow> raises_only A (bind m f)"
  unfolding raises_only_def wp_bind by (auto intro: wp_mono)

lemma raises_handle: "raises_only B m \<Longrightarrow> (\<And>e. B e \<Longrightarrow> raises_only A (h e)) \<Longrightarrow> raises_only A (handle m h)"
  unfolding raises_only_def wp_handle by (auto intro: wp_mono)

lemma raises_basic: "raises_only A (return x)" "A e \<Longrightarrow> raises_only A (raise e)" "raises_only A (gets f)" "raises_only A (modify g)"
  by (simp_all add: raises_only_def)

lemma raises_cases:
  "raises_only A m \<Longrightarrow> raises_only A n \<Longrightarrow> raises_only A (if b then m else n)"
  "raises_only A m \<Longrightarrow> (\<And>x. raises_only A (g x)) \<Longrightarrow> raises_only A (case v of None \<Rightarrow> m | Some x \<Rightarrow> g x)"
  by (simp_all split: option.split)

lemma wp_reach:
  "wp (reach m) Q E s \<longleftrightarrow> wp m (\<lambda>x g. Q x (s\<lparr>gq_outside := g\<rparr>)) (\<lambda>e g. E e (s\<lparr>gq_outside := g\<rparr>)) (gq_outside s)"
  by (simp add: wp_def reach_def split: prod.split sum.split)

lemma raises_reach: "raises_only A m \<Longrightarrow> raises_only A (reach m)"
  by (simp add: raises_only_def wp_reach)

lemmas raises_rules = raises_bind raises_basic raises_cases raises_reach

text \<open>What the SDK, Redis and \<open>json\<close> document, and an answer with a choice in it.\<close>

definition documented :: "'g groq_services \<Rightarrow> bool" where
  "documented X \<longleftrightarrow>
     (\<forall>k. raises_only (\<lambda>e. \<exists>m. e = RedisError m) (gx_redis_get X k)) \<and>
     (\<forall>k v t. raises_only (\<lambda>e. \<exists>m. e = RedisError m) (gx_redis_set X k v t)) \<and>
     raises_only (\<lambda>e. \<exists>m. e = RateLimitUnavailable m) (gx_try_acquire X) \<and>
     raises_only (\<lambda>e. False) (gx_now X) \<and>
     (\<forall>req g. wp (gx_create X req) (\<lambda>choices g'. choices \<noteq> []) (\<lambda>e g'. \<exists>status ty. e = APIError status ty) g) \<and>
     (\<forall>t e. gx_loads X t = Inl e \<longrightarrow> (\<exists>m. e = ValueError m))"

definition caught :: "exn \<Rightarrow> bool" where
  "caught e \<longleftrightarrow> unavailable (sanitized e)"

lemma key_ok: "\<exists>k. canonical_prompt_key mode model system user = Inr k"
proof -
  have "no_floats (JObj [(''mode'', JStr mode), (''model'', JStr model), (''system'', JStr (utf8_str system)),
                   (''user'', JStr (utf8_str user)), (''temperature'', JInt 0)])" by simp
  from jcs_render [OF this] show ?thesis by (auto simp: canonical_prompt_key_def rmap_def)
qed

lemma groq_complete_fails:
  assumes "documented X"
  shows "raises_only unavailable (groq_complete X model ttl as_json system user n)"
proof -
  have get: "raises_only unavailable (cache_get X k)" for k
    using assms unfolding cache_get_def documented_def
    by (intro raises_bind raises_handle [where B = "\<lambda>e. \<exists>m. e = RedisError m"])
      (auto intro!: raises_rules split: option.split sum.split exn.split)
  have store: "raises_only unavailable (cache_set X ttl k v)" for k v
    using assms unfolding cache_set_def documented_def
    by (intro raises_handle [where B = "\<lambda>e. \<exists>m. e = RedisError m"]) (auto intro!: raises_rules)
  have call: "raises_only caught (groq_call X req)" for req
  proof -
    have create: "wp (gx_create X req) (\<lambda>choices g'. choices \<noteq> []) (\<lambda>e g'. \<exists>status ty. e = APIError status ty) g" for g
      using assms by (simp add: documented_def)
    have parsed: "caught e" if err: "gx_loads X t = Inl e" for t e
    proof -
      obtain m where "e = ValueError m" using assms err unfolding documented_def by metis
      then show ?thesis by (simp add: caught_def sanitized_def unavailable_def)
    qed
    have api: "caught (APIError status ty)" for status ty by (simp add: caught_def sanitized_def unavailable_def)
    have "wp (groq_call X req) (\<lambda>x s'. True) (\<lambda>e s'. caught e) s" for s
      unfolding groq_call_def wp_bind wp_reach
      by (rule wp_mono [OF create])
        (auto simp: Let_def api parsed split: list.split sum.split)
    then show ?thesis by (simp add: raises_only_def)
  qed
  have breaker: "raises_only caught (groq_breaker_call X (groq_call X req))" for req
  proof -
    have "raises_only (\<lambda>e. False) (gx_now X)" using assms by (simp add: documented_def)
    then have "raises_only caught (gx_now X)" unfolding raises_only_def by (auto intro: wp_mono)
    moreover have "raises_only caught (lift_result (breaker_begin b now))" for b now
      by (auto simp: raises_only_def breaker_begin_def caught_def sanitized_def unavailable_def split: sum.split breaker_state.split)
    ultimately show ?thesis unfolding groq_breaker_call_def
      by (intro raises_rules raises_handle [where B = caught] call) simp_all
  qed
  have acquire: "raises_only unavailable (handle (reach (gx_try_acquire X))
      (\<lambda>e. case e of RateLimitUnavailable m \<Rightarrow> raise (LLMUnavailable (''rate limiter unavailable: '' @ m)) | _ \<Rightarrow> raise e))"
    using assms unfolding documented_def
    by (intro raises_handle [where B = "\<lambda>e. \<exists>m. e = RateLimitUnavailable m"]) (auto intro!: raises_rules simp: unavailable_def)
  have key: "raises_only unavailable (lift_result (canonical_prompt_key mode model system user))" for mode
    using key_ok [of mode model system user] by (auto simp: raises_only_def)
  show ?thesis unfolding groq_complete_def
    by (intro raises_bind key get raises_cases acquire raises_basic store raises_handle [OF breaker]) (auto simp: unavailable_def caught_def)
qed

text \<open>
  Callers of Groq see one kind of failure. As long as the SDK, Redis and the JSON parser fail
  only with the errors they document and an answer holds a choice, \<open>complete_json\<close> and
  \<open>complete_text\<close> of \<open>GroqClient\<close> return or raise \<open>LLMUnavailable\<close>, whatever is cached, however
  the limiter and the breaker decide, and whatever the model says.
\<close>

theorem groq_fails_as_unavailable:
  assumes "documented X"
  shows "raises_only unavailable (complete_json (groq_client X model ttl) system user n) \<and>
    raises_only unavailable (complete_text (groq_client X model ttl) system user n)"
  unfolding groq_client_def
  by (auto intro!: raises_rules groq_complete_fails assms simp: unavailable_def split: json.split)

definition sample_groq :: "string option list \<Rightarrow> unit groq_services" where
  "sample_groq choices =
     \<lparr>gx_redis_get = (\<lambda>k. return None), gx_redis_set = (\<lambda>k v t. raise (RedisError ''down'')), gx_try_acquire = return True,
      gx_now = return 0, gx_create = (\<lambda>req. return choices), gx_loads = (\<lambda>t. Inl (ValueError ''Expecting value'')),
      gx_dumps = (\<lambda>j. [])\<rparr>"

theorem groq_fails_as_unavailable_witness:
  "documented (sample_groq [Some ''not JSON'']) \<and>
   raises_only unavailable (complete_json (groq_client (sample_groq [Some ''not JSON'']) ''llama'' 86400) (codes ''s'') (codes ''u'') 600) \<and>
   raises_only unavailable (complete_text (groq_client (sample_groq [Some ''not JSON'']) ''llama'' 86400) (codes ''s'') (codes ''u'') 600)"
proof -
  have doc: "documented (sample_groq [Some ''not JSON''])" by (simp add: documented_def sample_groq_def raises_only_def)
  from doc groq_fails_as_unavailable [OF doc] show ?thesis by blast
qed

text \<open>An answer without a choice, however, is an \<open>IndexError\<close> for the caller.\<close>

lemma no_choice_escapes:
  assumes "b_state b = CLOSED" "consecutive_failures b + 1 < failure_threshold b"
  shows "fst (complete_json (groq_client (sample_groq []) model ttl) system user n \<lparr>gq_outside = (), gq_breaker = b, gq_succeeded = False\<rparr>) =
    Inl IndexError"
proof -
  obtain k where k: "canonical_prompt_key ''json'' model system user = Inr k" using key_ok by blast
  have admitted: "breaker_begin b 0 = Inr b" using assms(1) by (simp add: breaker_begin_def effective_state_def split: option.split)
  show ?thesis using assms k admitted
    by (simp add: groq_client_def groq_complete_def cache_get_def sample_groq_def reach_def bind_def handle_def run_simps
        groq_breaker_call_def groq_call_def sanitized_def)
qed

end
