(* ===== verification/Buyer_Api.thy ===== *)
theory Buyer_Api
  imports Merchant Upsell Llm_Clients
begin

text \<open>
  The endpoints of the buyer's browser (\<open>interfaces/http/routers/buyer.py\<close>) and the recovery from
  a stale price (\<open>application/recovery.py\<close>). A request handler is a computation that returns the
  body of its answer or raises \<open>HTTPException\<close>; what FastAPI validates of a request body is a
  predicate on the request. A dependency on \<open>get_uow\<close> is one unit of work around the handler.
\<close>

section \<open>Requests and answers\<close>

abbreviation http_error :: "int \<Rightarrow> string \<Rightarrow> exn" where
  "http_error status detail \<equiv> HTTPException status (Inl detail)"

abbreviation http_reason :: "int \<Rightarrow> string \<Rightarrow> exn" where
  "http_reason status code \<equiv> HTTPException status (Inr [(''reason_code'', code)])"

definition goa_location :: string where
  "goa_location = ''Goa, IN''"

definition get_config :: "bool \<Rightarrow> settings \<Rightarrow> body" where
  "get_config succeeded_once c =
     [(''currency'', JStr ''INR''), (''location'', JStr goa_location), (''payment_provider'', JStr (payment_provider c)),
      (''razorpay_key_id'', if payment_provider c = ''razorpay'' then JStr (razorpay_key_id c) else JNull),
      (''quote_ttl_s'', JInt (quote_ttl_s c)),
      (''llm_status'', JStr (if \<not> llm_enabled c then ''deterministic'' else if succeeded_once then ''groq_healthy'' else ''groq_configured''))]"

section \<open>Catalog\<close>

text \<open>A unit of work around code that also asks the language model.\<close>

definition llm_uow :: "('l \<times> 'p world, 'a) comp \<Rightarrow> ('l \<times> 'p world, 'a) comp" where
  "llm_uow m = (\<lambda>(l, w).
     let d = began w; w1 = w\<lparr>durable := d, session := d, transactions := Suc (transactions w)\<rparr>
     in case m (l, w1) of (r, (l', w2)) \<Rightarrow> (r, (l', w2\<lparr>session := session w\<rparr>)))"

definition buyer_query :: catalog_query where
  "buyer_query =
     \<lparr>cq_category = Some hotel_category, cq_location_city = Some ''Goa'', cq_location_country = Some ''IN'',
      cq_max_unit_minor = None, cq_is_buyer_listable = Some True, cq_cursor = None, cq_limit = 50\<rparr>"

definition buyer_catalog_body :: "wire \<Rightarrow> catalog_feed \<Rightarrow> ranking_result option \<Rightarrow> body" where
  "buyer_catalog_body W feed ranked =
     [(''catalog_version'', JInt (cf_catalog_version feed)), (''generated_at'', JStr (isoformat (cf_generated_at feed))),
      (''currency'', JStr ''INR''), (''ranked'', JBool (ranked \<noteq> None)), (''degraded'', jopt (\<lambda>r. JBool (rr_degraded r)) ranked),
      (''items'', JList (map (item_json W) (case ranked of None \<Rightarrow> cf_items feed | Some r \<Rightarrow> rr_items r)))]"

definition get_buyer_catalog ::
  "collation \<Rightarrow> wire \<Rightarrow> (json \<Rightarrow> string + (string list \<times> (string \<times> string) list)) \<Rightarrow> catalog_item list prompts \<Rightarrow> 'l llm_client \<Rightarrow>
   string option \<Rightarrow> ('l \<times> 'p world, body) comp" where
  "get_buyer_catalog collation_key W model_validate R L mid =
     llm_uow (
       bind (on_app (list_catalog collation_key buyer_query ''web_buyer'')) (\<lambda>feed.
       if mid = None \<or> mid = Some [] then return (buyer_catalog_body W feed None)
       else
         bind (on_app (mandates_get (the mid))) (\<lambda>loaded.
         case loaded of
           None \<Rightarrow> return (buyer_catalog_body W feed None)
         | Some (m, status) \<Rightarrow>
             bind (on_llm (rank_candidates model_validate R L (cf_items feed) m)) (\<lambda>result.
             return (buyer_catalog_body W feed (Some result))))))"

section \<open>Mandates\<close>

text \<open>\<open>ExtractRequest\<close>: the conversation as FastAPI validates it.\<close>

definition extract_request_ok :: "utext \<Rightarrow> bool" where
  "extract_request_ok conversation_text \<longleftrightarrow> 1 \<le> length conversation_text \<and> length conversation_text \<le> 4000"

definition serialize_slots :: "mandate_draft_slots \<Rightarrow> json" where
  "serialize_slots slots =
     JObj [(''category'', jopt JStr (sl_category slots)), (''location'', jopt JStr (sl_location slots)),
           (''check_in'', jopt (\<lambda>t. JStr (utf8_str t)) (sl_check_in slots)), (''nights'', jopt JInt (sl_nights slots)),
           (''rooms'', jopt JInt (sl_rooms slots)), (''currency'', jopt JStr (sl_currency slots)),
           (''guests'', jopt JInt (sl_guests slots)), (''refundable'', jopt JBool (sl_refundable slots))]"

definition extract_mandate ::
  "unicode \<Rightarrow> (json \<Rightarrow> string + mandate_draft_slots) \<Rightarrow> utext prompts \<Rightarrow> 'l llm_client \<Rightarrow> utext \<Rightarrow> ('l, body) comp" where
  "extract_mandate u model_validate R L conversation_text =
     bind (extract_mandate_draft u model_validate R L conversation_text) (\<lambda>result.
     case result of
       ClarificationNeeded missing questions slots total_minor \<Rightarrow>
         return [(''status'', JStr ''clarification_needed''), (''missing_slots'', JList (map JStr missing)),
                 (''questions'', JList (map JStr questions)), (''slots'', serialize_slots slots),
                 (''max_total_minor'', jopt JInt total_minor)]
     | MandateDraft slots total_minor unit_minor \<Rightarrow>
         return [(''status'', JStr ''draft_ready''), (''max_total_minor'', JInt total_minor),
                 (''max_unit_minor'', jopt JInt unit_minor), (''slots'', serialize_slots slots)])"

record mandate_create_request =
  mc_nights :: int
  mc_rooms :: int
  mc_max_total_minor :: int
  mc_require_refundable :: bool
  mc_check_in :: string

text \<open>\<open>len(s)\<close>, in characters.\<close>

definition char_count :: "string \<Rightarrow> nat" where
  "char_count s = length (utf8_decode (map of_char s))"

definition mandate_create_ok :: "mandate_create_request \<Rightarrow> bool" where
  "mandate_create_ok b \<longleftrightarrow>
     0 < mc_nights b \<and> mc_nights b \<le> 30 \<and> 0 < mc_rooms b \<and> mc_rooms b \<le> 10 \<and> 0 < mc_max_total_minor b \<and>
     0 < char_count (mc_check_in b) \<and> char_count (mc_check_in b) \<le> 32 \<and> CHR 0x00 \<notin> set (mc_check_in b)"

text \<open>The mandate of the browser: the parts that both endpoints write the same.\<close>

definition web_mandate :: "string \<Rightarrow> datetime \<Rightarrow> settings \<Rightarrow> mandate_intent \<Rightarrow> mandate_bounds \<Rightarrow> mandate" where
  "web_mandate mid now c intent b =
     \<lparr>mandate_id = mid, version = 1, m_principal = \<lparr>principal_type = ''human'', principal_id = ''usr_web_buyer''\<rparr>,
      m_delegate = \<lparr>delegate_type = ''agent'', delegate_id = ''agt_web_buyer'', delegate_key_id = ''ed25519:web-buyer''\<rparr>,
      m_intent = intent, bounds = b,
      temporal = \<lparr>not_before = now, expires_at = now + timedelta_s (mandate_default_ttl_s c), temporal_quote_ttl_s = quote_ttl_s c\<rparr>,
      controls = \<lparr>human_confirm_required = True, revocable = True\<rparr>, spec_hash = None, signature = None\<rparr>"

definition sign_mandate :: "(datetime \<Rightarrow> string) \<Rightarrow> settings \<Rightarrow> mandate \<Rightarrow> mandate result" where
  "sign_mandate dump_dt c draft =
     rbind (compute_spec_hash dump_dt draft) (\<lambda>h.
     Inr (draft\<lparr>spec_hash := Some h,
                signature := Some \<lparr>sig_alg = ''HMAC-SHA256'', sig_key_id = ''mk_web_buyer'',
                                   sig_value = sign_spec_hash h (encode_utf8 (mandate_signing_key c))\<rparr>\<rparr>))"

definition requested_intent :: "mandate_create_request \<Rightarrow> mandate_intent" where
  "requested_intent b =
     \<lparr>intent_category = hotel_category, intent_location = goa_location, intent_check_in = mc_check_in b,
      intent_nights = mc_nights b, intent_rooms = mc_rooms b\<rparr>"

definition requested_bounds :: "mandate_create_request \<Rightarrow> mandate_bounds" where
  "requested_bounds b =
     \<lparr>bounds_currency = ''INR'', max_total_minor = mc_max_total_minor b, max_unit_minor = max (mc_max_total_minor b div mc_nights b) 1,
      max_transactions = 1, allowed_categories = [hotel_category], blocked_merchants = [],
      require_refundable = mc_require_refundable b, max_price_delta_bps = 1000\<rparr>"

definition create_mandate :: "mandate_create_request \<Rightarrow> ('p, mandate) app" where
  "create_mandate b =
     with_uow (
       bind clock_now (\<lambda>now.
       bind (new_id ''mdt'') (\<lambda>mid.
       bind (gets config) (\<lambda>c.
       bind (gets json_datetime) (\<lambda>dump_dt.
       bind (lift_result (sign_mandate dump_dt c (web_mandate mid now c (requested_intent b) (requested_bounds b)))) (\<lambda>m.
       bind (mandates_add m LOCKED) (\<lambda>_.
       bind commit (\<lambda>_.
       return m))))))))"

section \<open>Orders\<close>

definition propose_order :: "'p payment_port \<Rightarrow> string \<Rightarrow> string \<Rightarrow> ('p, body) app" where
  "propose_order P qid mid =
     bind (new_id ''trc'') (\<lambda>trace_id.
     bind (with_uow (
       bind (mandates_get mid) (\<lambda>loaded.
       case loaded of
         None \<Rightarrow> raise (http_error 404 ''mandate not found'')
       | Some (m, status) \<Rightarrow>
           bind (quotes_get qid) (\<lambda>found.
           case found of
             None \<Rightarrow> raise (http_error 404 ''quote not found'')
           | Some q \<Rightarrow>
               bind (catalog_get_item (q_sku q)) (\<lambda>got.
               case got of
                 None \<Rightarrow> raise (http_error 404 ''catalog item not found'')
               | Some item \<Rightarrow> return (m, q, item)))))) (\<lambda>(m, q, item).
     bind (lift_result (compute_intent_hash (derived_intent m q item))) (\<lambda>intent_hash.
     bind (handle_order_propose P
             \<lparr>op_quote_id = q_quote_id q, op_quote_hash = or_empty (q_quote_hash q), op_mandate_id = mandate_id m,
              op_mandate_spec_hash = or_empty (spec_hash m), op_intent_hash = intent_hash\<rparr> trace_id ''web_buyer'') (\<lambda>r.
     return (outcome_body r)))))"

definition snapshot_body :: "saga_snapshot \<Rightarrow> body" where
  "snapshot_body s =
     [(''saga_id'', JStr (ss_saga_id s)), (''mandate_id'', JStr (ss_mandate_id s)), (''status'', JStr (ss_status s)),
      (''step'', JStr (ss_step s)), (''order_id'', jopt JStr (ss_order_id s)),
      (''reason_code'', jopt (\<lambda>code. JStr (reason_value code)) (ss_reason_code s))]"

text \<open>
  \<open>payload_builder\<close> is what \<open>getattr(provider, "build_checkout_payload", None)\<close> finds at the provider: the simulator has one, the
  Razorpay adapter has none.
\<close>

definition checkout_proof ::
  "'p payment_port \<Rightarrow> ('p \<Rightarrow> string \<Rightarrow> string \<Rightarrow> string) option \<Rightarrow> string \<Rightarrow> string option \<Rightarrow> string option \<Rightarrow> ('p, string \<times> string) app" where
  "checkout_proof P payload_builder poid payment_id sig =
     (case (payment_id, sig) of
        (Some pid, Some s) \<Rightarrow> return (pid, s)
      | _ \<Rightarrow>
          (case payload_builder of
             None \<Rightarrow> raise (http_error 400 ''provider_payment_id/provider_signature required for this payment provider'')
           | Some build \<Rightarrow>
               bind (logged ''fetch_payments'' (port_fetch_payments P poid)) (\<lambda>payments.
               case payments of
                 [] \<Rightarrow> raise (http_error 409 ''no payment found for this order yet'')
               | payment # _ \<Rightarrow>
                   bind (gets provider) (\<lambda>p. return (py_id payment, build p poid (py_id payment))))))"

definition checkout ::
  "'p payment_port \<Rightarrow> ('p \<Rightarrow> string \<Rightarrow> string \<Rightarrow> string) option \<Rightarrow> string \<Rightarrow> string \<Rightarrow> string option \<Rightarrow> string option \<Rightarrow> ('p, body) app" where
  "checkout P payload_builder oid sid payment_id sig =
     bind (with_uow (orders_get oid)) (\<lambda>found.
     case (case found of None \<Rightarrow> None | Some x \<Rightarrow> or_provider_order_id x) of
       None \<Rightarrow> raise (http_error 404 ''order not found'')
     | Some poid \<Rightarrow>
         bind (checkout_proof P payload_builder poid payment_id sig) (\<lambda>(pid, s).
         bind (complete_purchase P sid poid pid s ''web_buyer'') (\<lambda>snap.
         return (snapshot_body snap))))"

definition get_order :: "string \<Rightarrow> ('p, body) app" where
  "get_order oid =
     with_uow (
       bind (handle_order_status oid) (\<lambda>r.
       case r of
         HandlerError code m retry \<Rightarrow> raise (HTTPException 404 (Inr [(''reason_code'', reason_value code), (''message'', m)]))
       | HandlerResult t b \<Rightarrow> return b))"

section \<open>Add-ons\<close>

definition serialize_offer :: "eligible_offer \<Rightarrow> json" where
  "serialize_offer o' =
     JObj [(''sku'', JStr (eo_sku o')), (''title'', JStr (eo_title o')), (''unit_price_minor'', JInt (eo_unit_price_minor o')),
           (''total_minor'', JInt (eo_total_minor o')), (''currency'', JStr (eo_currency o')),
           (''refundable'', JBool (eo_refundable o')), (''quantity_description'', JStr (eo_quantity_description o'))]"

definition get_upsell_offers :: "collation \<Rightarrow> string \<Rightarrow> ('p, body) app" where
  "get_upsell_offers collation_key oid =
     with_uow (
       bind (list_eligible_offers collation_key oid) (\<lambda>result.
       case result of
         None \<Rightarrow> return [(''base_order_id'', JStr oid), (''currency'', JStr ''INR''), (''offers'', JList [])]
       | Some (currency, offers) \<Rightarrow>
           return [(''base_order_id'', JStr oid), (''currency'', JStr currency), (''offers'', JList (map serialize_offer offers))]))"

definition decline_upsell :: "string \<Rightarrow> ('p, body) app" where
  "decline_upsell oid =
     with_uow (
       bind (addon_decline_all_offered oid) (\<lambda>_.
       bind commit (\<lambda>_.
       return [(''status'', JStr ''declined'')])))"

definition addon_intent :: "eligible_offer \<Rightarrow> mandate_intent" where
  "addon_intent o' =
     \<lparr>intent_category = eo_category o', intent_location = goa_location, intent_check_in = ''addon'',
      intent_nights = eo_quantity o', intent_rooms = 1\<rparr>"

definition addon_bounds :: "eligible_offer \<Rightarrow> mandate_bounds" where
  "addon_bounds o' =
     \<lparr>bounds_currency = eo_currency o', max_total_minor = eo_total_minor o',
      max_unit_minor = max (eo_total_minor o' div eo_quantity o') 1, max_transactions = 1,
      allowed_categories = [eo_category o'], blocked_merchants = [], require_refundable = eo_refundable o',
      max_price_delta_bps = 1000\<rparr>"

text \<open>The first unit of work: price, claim, mandate and quote.\<close>

definition upsell_phase :: "string \<Rightarrow> string \<Rightarrow> datetime \<Rightarrow> string \<Rightarrow> string \<Rightarrow> ('p, mandate \<times> quote) app" where
  "upsell_phase oid sku now mid aid =
     bind (price_offer_for_purchase oid sku) (\<lambda>priced.
     case priced of
       None \<Rightarrow> raise (http_reason 409 ''OFFER_NOT_AVAILABLE'')
     | Some offer \<Rightarrow>
         bind (addon_try_mark_pending aid oid sku mid (eo_total_minor offer) (eo_currency offer)) (\<lambda>got_lock.
         if \<not> got_lock then raise (http_reason 409 ''ALREADY_PURCHASED'')
         else
           bind (gets config) (\<lambda>c.
           bind (gets json_datetime) (\<lambda>dump_dt.
           bind (lift_result (sign_mandate dump_dt c (web_mandate mid now c (addon_intent offer) (addon_bounds offer)))) (\<lambda>m.
           bind (mandates_add m LOCKED) (\<lambda>_.
           bind (create_quote (mandate_id m) sku (eo_quantity offer) ''web_buyer'') (\<lambda>q.
           bind commit (\<lambda>_.
           return (m, q)))))))))"

definition mark_addon_failed :: "string \<Rightarrow> string \<Rightarrow> ('p, unit) app" where
  "mark_addon_failed oid sku = with_uow (bind (addon_mark_failed oid sku) (\<lambda>_. commit))"

definition body_str :: "string \<Rightarrow> body \<Rightarrow> string" where
  "body_str k b = (case map_of b k of Some (JStr s) \<Rightarrow> s | _ \<Rightarrow> ''None'')"

definition accepted_body :: "body \<Rightarrow> bool" where
  "accepted_body b \<longleftrightarrow> map_of b ''decision'' = Some (JStr ''accept'')"

definition settle_addon ::
  "'p payment_port \<Rightarrow> ('p \<Rightarrow> string \<Rightarrow> string \<Rightarrow> string) option \<Rightarrow> string \<Rightarrow> string \<Rightarrow> string \<Rightarrow> string \<Rightarrow> ('p, body) app" where
  "settle_addon P payload_builder oid sku order_id saga_id =
     bind (with_uow (orders_get order_id)) (\<lambda>found.
     case (case found of None \<Rightarrow> None | Some x \<Rightarrow> or_provider_order_id x) of
       None \<Rightarrow> bind (mark_addon_failed oid sku) (\<lambda>_. raise (http_reason 409 ''ORDER_NOT_READY''))
     | Some poid \<Rightarrow>
         bind (logged ''fetch_payments'' (port_fetch_payments P poid)) (\<lambda>payments.
         case (payments, payload_builder) of
           (payment # _, Some build) \<Rightarrow>
             bind (gets provider) (\<lambda>p.
             bind (complete_purchase P saga_id poid (py_id payment) (build p poid (py_id payment)) ''web_buyer'') (\<lambda>snap.
             bind (with_uow (
               bind (if ss_status snap = ''COMPLETED'' then addon_mark_settled oid sku order_id else addon_mark_failed oid sku) (\<lambda>_.
               commit))) (\<lambda>_.
             return
               (if ss_status snap = ''COMPLETED''
                then [(''decision'', JStr ''accept''), (''reason_code'', jopt (\<lambda>code. JStr (reason_value code)) (ss_reason_code snap)),
                      (''addon_order_id'', JStr order_id)]
                else [(''decision'', JStr ''reject''), (''reason_code'', jopt (\<lambda>code. JStr (reason_value code)) (ss_reason_code snap)),
                      (''addon_order_id'', JNull)]))))
         | _ \<Rightarrow> bind (mark_addon_failed oid sku) (\<lambda>_. raise (http_reason 409 ''PAYMENT_NOT_READY''))))"

definition purchase_upsell ::
  "'p payment_port \<Rightarrow> ('p \<Rightarrow> string \<Rightarrow> string \<Rightarrow> string) option \<Rightarrow> string \<Rightarrow> string \<Rightarrow> ('p, body) app" where
  "purchase_upsell P payload_builder oid sku =
     bind clock_now (\<lambda>now.
     bind (new_id ''trc'') (\<lambda>trace_id.
     bind (new_id ''mdt'') (\<lambda>mid.
     bind (new_id ''adp'') (\<lambda>aid.
     bind (with_uow (upsell_phase oid sku now mid aid)) (\<lambda>(m, q).
     bind (with_uow (catalog_get_item (q_sku q))) (\<lambda>got.
     case got of
       None \<Rightarrow> raise AssertionError
     | Some item \<Rightarrow>
         bind (lift_result (compute_intent_hash (derived_intent m q item))) (\<lambda>intent_hash.
         bind (handle_order_propose P
                 \<lparr>op_quote_id = q_quote_id q, op_quote_hash = or_empty (q_quote_hash q), op_mandate_id = mandate_id m,
                  op_mandate_spec_hash = or_empty (spec_hash m), op_intent_hash = intent_hash\<rparr> trace_id ''web_buyer'') (\<lambda>r.
         if \<not> accepted_body (outcome_body r) then
           bind (mark_addon_failed oid sku) (\<lambda>_.
           return [(''decision'', JStr ''reject''),
                   (''reason_code'', case map_of (outcome_body r) ''reason_code'' of None \<Rightarrow> JNull | Some j \<Rightarrow> j),
                   (''addon_order_id'', JNull)])
         else settle_addon P payload_builder oid sku (body_str ''order_id'' (outcome_body r)) (body_str ''saga_id'' (outcome_body r))))))))))"

section \<open>recovery.py\<close>

record requote_outcome =
  rq_result :: money_action_result
  rq_requoted :: bool
  rq_final_quote :: quote
  rq_saga_id :: "string option"

definition buyer_intent_hash :: "mandate \<Rightarrow> quote \<Rightarrow> ('p, string) app" where
  "buyer_intent_hash m q =
     bind (with_uow (catalog_get_item (q_sku q))) (\<lambda>got.
     case got of
       None \<Rightarrow> raise AssertionError
     | Some item \<Rightarrow> lift_result (compute_intent_hash (derived_intent m q item)))"

definition reason_codes :: "reason_code list" where
  "reason_codes =
     [OK, CURRENCY_MISMATCH, CATEGORY_NOT_ALLOWED, MERCHANT_BLOCKED, MANDATE_EXPIRED, MANDATE_NOT_YET_VALID,
      UNIT_CAP_EXCEEDED, BUDGET_EXCEEDED, TXN_LIMIT_EXCEEDED, QUANTITY_MISMATCH, REFUND_POLICY_VIOLATION, PRICE_DRIFT,
      STALE_PRICE, INTENT_MISMATCH, MANDATE_INVALID, MANDATE_TAMPERED, MANDATE_UNSIGNED, MANDATE_REVOKED, DECISION_STALE,
      QUOTE_EXPIRED, DUPLICATE_SUPPRESSED, AUDIT_UNAVAILABLE, MALFORMED_REQUEST, PROVIDER_TRANSIENT, PROVIDER_TERMINAL,
      PROVIDER_DECLINED, INTERNAL_ERROR, REPLAYED_MESSAGE, SIGNATURE_INVALID, CLOCK_SKEW, UNKNOWN_PROTOCOL_VERSION,
      UNKNOWN_ALGORITHM, IDENTITY_UNKNOWN, IDENTITY_REVOKED, IDENTITY_EXPIRED, REPLAY_CHECK_UNAVAILABLE, ORDER_NOT_FOUND,
      ORDER_NOT_SETTLED]"

text \<open>\<open>ReasonCode(s)\<close>.\<close>

definition reason_of :: "string \<Rightarrow> reason_code result" where
  "reason_of s =
     (case find (\<lambda>code. reason_value code = s) reason_codes of
        None \<Rightarrow> Inl (ValueError (repr_str s @ '' is not a valid ReasonCode''))
      | Some code \<Rightarrow> Inr code)"

definition propose_once :: "'p payment_port \<Rightarrow> mandate \<Rightarrow> quote \<Rightarrow> string \<Rightarrow> string \<Rightarrow> ('p, money_action_result \<times> string option) app" where
  "propose_once P m q actor_id trace_id =
     bind (assert_that (q_quote_hash q \<noteq> None)) (\<lambda>_.
     bind (buyer_intent_hash m q) (\<lambda>intent_hash.
     bind (handle_order_propose P
             \<lparr>op_quote_id = q_quote_id q, op_quote_hash = or_empty (q_quote_hash q), op_mandate_id = mandate_id m,
              op_mandate_spec_hash = or_empty (spec_hash m), op_intent_hash = intent_hash\<rparr> trace_id actor_id) (\<lambda>r.
     if accepted_body (outcome_body r) then
       return (\<lparr>mr_verdict = ALLOW, mr_reason_code = OK, mr_trace_id = trace_id,
                mr_order_id = Some (body_str ''order_id'' (outcome_body r)), mr_provider_order_id = None, mr_duplicate = False\<rparr>,
               Some (body_str ''saga_id'' (outcome_body r)))
     else
       bind (lift_result (reason_of (body_str ''reason_code'' (outcome_body r)))) (\<lambda>code.
       return (deny code trace_id, None)))))"

definition propose_with_one_requote_on_stale_price ::
  "'p payment_port \<Rightarrow> mandate \<Rightarrow> quote \<Rightarrow> string \<Rightarrow> string \<Rightarrow> ('p, requote_outcome) app" where
  "propose_with_one_requote_on_stale_price P m q actor_id trace_id =
     bind (propose_once P m q actor_id trace_id) (\<lambda>(first_result, first_saga_id).
     if \<not> (mr_verdict first_result = DENY \<and> mr_reason_code first_result = STALE_PRICE) then
       return \<lparr>rq_result = first_result, rq_requoted = False, rq_final_quote = q, rq_saga_id = first_saga_id\<rparr>
     else
       bind (with_uow (
         bind (create_quote (mandate_id m) (q_sku q) (q_nights q) actor_id) (\<lambda>fresh.
         bind commit (\<lambda>_.
         return fresh)))) (\<lambda>fresh_quote.
       bind (propose_once P m fresh_quote actor_id trace_id) (\<lambda>(second_result, second_saga_id).
       return \<lparr>rq_result = second_result, rq_requoted = True, rq_final_quote = fresh_quote, rq_saga_id = second_saga_id\<rparr>)))"

section \<open>A mandate signed here passes the gate\<close>

lemma signed_mandate:
  assumes "sign_mandate dump_dt c draft = Inr m"
  obtains h where "m = draft\<lparr>spec_hash := Some h, signature := Some \<lparr>sig_alg = ''HMAC-SHA256'', sig_key_id = ''mk_web_buyer'',
      sig_value = sign_spec_hash h (encode_utf8 (mandate_signing_key c))\<rparr>\<rparr>"
    "verify_spec_hash dump_dt m = Inr True" "spec_hash m = Some h"
    "verify_signature h (encode_utf8 (mandate_signing_key c)) (sign_spec_hash h (encode_utf8 (mandate_signing_key c))) = Inr True"
  using assms that by (auto simp: sign_mandate_def rbind_eq_Inr verify_spec_hash_def compute_spec_hash_def verify_signature_def
      sign_spec_hash_def is_ascii_hex)

lemma sign_mandate_Inr: "\<exists>m. sign_mandate dump_dt c draft = Inr m"
  using compute_spec_hash_Inr [of dump_dt draft] by (auto simp: sign_mandate_def)

text \<open>What the gate's first check asks of the world it runs in.\<close>

definition passes_g1 :: "mandate \<Rightarrow> 'p world \<Rightarrow> 'p world \<Rightarrow> bool" where
  "passes_g1 m w u \<longleftrightarrow>
     mandates (session u) (mandate_id m) = Some (m, LOCKED) \<and> config u = config w \<and> json_datetime u = json_datetime w \<and>
     \<not> faults u (statements u) \<and> clock u (clock_reads u) < expires_at (temporal m)"

lemma signed_passes_g1:
  assumes "sign_mandate (json_datetime w) (config w) draft = Inr m" "passes_g1 m w u" "mq_mandate_id req = mandate_id m"
  shows "fst (gate_g1 req u) = Inr (Inr (m, LOCKED))"
proof -
  obtain h where m: "m = draft\<lparr>spec_hash := Some h, signature := Some \<lparr>sig_alg = ''HMAC-SHA256'', sig_key_id = ''mk_web_buyer'',
      sig_value = sign_spec_hash h (encode_utf8 (mandate_signing_key (config w)))\<rparr>\<rparr>"
    "verify_spec_hash (json_datetime w) m = Inr True" "spec_hash m = Some h"
    "verify_signature h (encode_utf8 (mandate_signing_key (config w))) (sign_spec_hash h (encode_utf8 (mandate_signing_key (config w)))) = Inr True"
    by (rule signed_mandate [OF assms(1)])
  have sig: "signature m = Some \<lparr>sig_alg = ''HMAC-SHA256'', sig_key_id = ''mk_web_buyer'',
      sig_value = sign_spec_hash h (encode_utf8 (mandate_signing_key (config w)))\<rparr>" by (subst m(1)) simp
  show ?thesis
    using assms(2,3) m(2-4) sig
    by (simp add: gate_g1_def passes_g1_def mandates_get_def db_read_def db_call_def bind_def run_simps clock_now_def)
qed

text \<open>
  C15. What the browser locks, the gate accepts. When \<open>create_mandate\<close> returns, the mandate is
  committed as \<open>LOCKED\<close> under a fresh id with exactly the requested stay, limit and refund
  condition, one transaction, and the configured time to live; and as long as it is stored unchanged
  and has not expired, the first check of the gate, which recomputes its hash and verifies its
  signature, passes it. When it raises, nothing is committed.
\<close>

theorem locked_mandate_passes_gate:
  "case create_mandate b w of
     (Inr m, w') \<Rightarrow>
       mandates (began w) (mandate_id m) = None \<and> mandates (durable w') = (mandates (began w))(mandate_id m \<mapsto> (m, LOCKED)) \<and>
       durable w' = (began w)\<lparr>mandates := mandates (durable w')\<rparr> \<and>
       m_intent m = requested_intent b \<and> bounds m = requested_bounds b \<and> 0 < mc_max_total_minor b \<and>
       expires_at (temporal m) = clock w (clock_reads w) + timedelta_s (mandate_default_ttl_s (config w)) \<and>
       (\<forall>u req. passes_g1 m w u \<and> mq_mandate_id req = mandate_id m \<longrightarrow> fst (gate_g1 req u) = Inr (Inr (m, LOCKED)))
   | (Inl e, w') \<Rightarrow> durable w' = began w"
    (is "case _ of (Inr m, w') \<Rightarrow> ?P m w' | (Inl e, w') \<Rightarrow> _ w'")
proof -
  obtain m where m: "sign_mandate (json_datetime w) (config w)
      (web_mandate (''mdt_'' @ ulids w (ids_minted w)) (clock w (clock_reads w)) (config w) (requested_intent b) (requested_bounds b)) = Inr m"
    using sign_mandate_Inr by blast
  have fields: "m_intent m = requested_intent b" "bounds m = requested_bounds b" "spec_hash m \<noteq> None" "signature m \<noteq> None"
    "expires_at (temporal m) = clock w (clock_reads w) + timedelta_s (mandate_default_ttl_s (config w))"
    by (rule signed_mandate [OF m], simp add: web_mandate_def)+
  have "wp (create_mandate b) ?P (\<lambda>e w'. durable w' = began w) w"
    using m fields signed_passes_g1 [OF m]
    unfolding create_mandate_def wp_with_uow began_def mandates_add_def
    by (auto simp: mandate_row_ok_def requested_bounds_def) (metis option.exhaust surj_pair)
  then show ?thesis unfolding wp_def by (simp only: prod.case_eq_if sum.case_eq_if split: if_splits)
qed

definition sample_stay :: mandate_create_request where
  "sample_stay = \<lparr>mc_nights = 2, mc_rooms = 1, mc_max_total_minor = 1000000, mc_require_refundable = True, mc_check_in = ''2026-05-01''\<rparr>"

lemma sample_stay_locked:
  "\<exists>m w'. create_mandate sample_stay (quiet_world 0 () empty_db) = (Inr m, w') \<and>
    passes_g1 m (quiet_world 0 () empty_db) (w'\<lparr>session := durable w'\<rparr>)"
proof -
  let ?w = "quiet_world 0 () empty_db :: unit world"
  let ?Q = "\<lambda>m w'. passes_g1 m ?w (w'\<lparr>session := durable w'\<rparr>)"
  obtain m where m: "sign_mandate (json_datetime ?w) (config ?w) (web_mandate (''mdt_'' @ ulids ?w (ids_minted ?w)) (clock ?w (clock_reads ?w))
      (config ?w) (requested_intent sample_stay) (requested_bounds sample_stay)) = Inr m"
    using sign_mandate_Inr by blast
  have fields: "bounds m = requested_bounds sample_stay" "spec_hash m \<noteq> None" "signature m \<noteq> None"
    "expires_at (temporal m) = clock ?w (clock_reads ?w) + timedelta_s (mandate_default_ttl_s (config ?w))"
    by (rule signed_mandate [OF m], simp add: web_mandate_def)+
  have t: "clock ?w (Suc (clock_reads ?w)) < expires_at (temporal m)"
    unfolding fields(4) by (simp add: quiet_world_def timedelta_s_def default_settings_def)
  have "wp (create_mandate sample_stay) ?Q (\<lambda>e w'. False) ?w"
    using m fields(1-3) t unfolding create_mandate_def wp_with_uow mandates_add_def
    by (auto simp: mandate_row_ok_def requested_bounds_def sample_stay_def passes_g1_def empty_db_def)
  then show ?thesis by (auto simp: wp_def split: prod.splits sum.splits)
qed

theorem locked_mandate_passes_gate_witness:
  "\<exists>m w'. create_mandate sample_stay (quiet_world 0 () empty_db) = (Inr m, w') \<and> max_total_minor (bounds m) = 1000000 \<and>
    fst (gate_g1 ((sample_request 1)\<lparr>mq_mandate_id := mandate_id m\<rparr>) (w'\<lparr>session := durable w'\<rparr>)) = Inr (Inr (m, LOCKED))"
proof -
  obtain m and w' :: "unit world" where run: "create_mandate sample_stay (quiet_world 0 () empty_db) = (Inr m, w')"
      "passes_g1 m (quiet_world 0 () empty_db) (w'\<lparr>session := durable w'\<rparr>)"
    using sample_stay_locked by blast
  show ?thesis
    using locked_mandate_passes_gate [where b = sample_stay and w = "quiet_world 0 () empty_db :: unit world"] run
    by (auto simp: requested_bounds_def sample_stay_def)
qed

section \<open>What an add-on purchase commits to\<close>

definition quote_of_item :: "db \<Rightarrow> string \<Rightarrow> string \<Rightarrow> int \<Rightarrow> quote \<Rightarrow> bool" where
  "quote_of_item d mid sku nights q \<longleftrightarrow>
     (\<exists>item. find_item sku (catalog_items d) = Some item \<and> q_mandate_id q = mid \<and> q_sku q = ci_sku item \<and> q_nights q = nights \<and>
        q_unit_price_minor q = ci_unit_price_minor item \<and> q_total_minor q = ci_unit_price_minor item * nights \<and> 0 < ci_unit_price_minor item)"

definition quoted_in :: "db \<Rightarrow> string \<Rightarrow> string \<Rightarrow> int \<Rightarrow> quote \<Rightarrow> 'p world \<Rightarrow> bool" where
  "quoted_in d mid sku nights q w' \<longleftrightarrow>
     besides_audit (durable w') = besides_audit (d\<lparr>quotes := (quotes d)(q_quote_id q \<mapsto> q)\<rparr>) \<and> session w' = durable w' \<and>
     quote_of_item d mid sku nights q"

lemma wp_create_quote:
  "wp (create_quote mid sku nights actor) (\<lambda>q w'. quoted_in (session w) mid sku nights q w') (\<lambda>e w'. durable w' = durable w) w"
  unfolding create_quote_def mandates_get_def catalog_get_item_def catalog_current_version_def quotes_add_def
  by (auto simp: wp_db_call Let_def issue_quote_def quote_row_ok_def quoted_in_def quote_of_item_def published_def split: option.split sum.split
      intro!: wp_append_commit)

lemma wp_try_mark_pending:
  "wp (addon_try_mark_pending aid oid sku mid price currency)
    (\<lambda>won w'. local_step w w' \<and> (won \<longrightarrow> \<not> acted_on oid sku (session w) \<and> acted_on oid sku (session w') \<and>
       (session w')\<lparr>addon_purchases := []\<rparr> = (session w)\<lparr>addon_purchases := []\<rparr>))
    (\<lambda>e w'. local_step w w') w"
proof -
  let ?m = "addon_try_mark_pending aid oid sku mid price currency"
  have frame: "(session (snd (?m w)))\<lparr>addon_purchases := []\<rparr> = (session w)\<lparr>addon_purchases := []\<rparr>"
    by (simp add: addon_try_mark_pending_def db_call_def Let_def)
  have l: "local ?m" by (rule local_repositories)
  show ?thesis
    using local_wp [OF l, of w] frame addon_attempt [of "TryMarkPending aid oid sku mid price currency" w _ oid sku]
    by (auto simp: wp_def split: prod.splits sum.splits)
qed

definition addon_mandate :: "eligible_offer \<Rightarrow> mandate \<Rightarrow> bool" where
  "addon_mandate offer m \<longleftrightarrow> m_intent m = addon_intent offer \<and> bounds m = addon_bounds offer"

fun upsell_post :: "string \<Rightarrow> string \<Rightarrow> string \<Rightarrow> db \<Rightarrow> mandate \<times> quote \<Rightarrow> db \<Rightarrow> bool" where
  "upsell_post oid sku mid d (m, q) d' \<longleftrightarrow>
     (\<exists>offer. offer_priced oid sku d offer \<and> \<not> acted_on oid sku d \<and> acted_on oid sku d' \<and>
        mandate_id m = mid \<and> mandates d mid = None \<and> mandates d' = (mandates d)(mid \<mapsto> (m, LOCKED)) \<and> addon_mandate offer m \<and>
        quotes d' (q_quote_id q) = Some q \<and> quote_of_item d mid sku (eo_quantity offer) q)"

lemma upsell_finish:
  assumes offer: "offer_priced oid sku d offer" "\<not> acted_on oid sku d" "acted_on oid sku d2"
    and frame: "d2\<lparr>addon_purchases := []\<rparr> = d\<lparr>addon_purchases := []\<rparr>" and m: "mandate_id m = mid" "mandates d mid = None" "addon_mandate offer m"
    and q: "quoted_in (d2\<lparr>mandates := (mandates d2)(mid \<mapsto> (m, LOCKED))\<rparr>) mid sku (eo_quantity offer) q w'"
  shows "upsell_post oid sku mid d (m, q) (durable w')" "acted_on oid sku (durable w')"
proof -
  have same: "catalog_items d2 = catalog_items d" "mandates d2 = mandates d" "quotes d2 = quotes d"
    using arg_cong [OF frame, of catalog_items] arg_cong [OF frame, of mandates] arg_cong [OF frame, of quotes] by simp_all
  have b: "besides_audit (durable w') = besides_audit (d2\<lparr>mandates := (mandates d2)(mid \<mapsto> (m, LOCKED)), quotes := (quotes d2)(q_quote_id q \<mapsto> q)\<rparr>)"
    using q by (simp add: quoted_in_def)
  have "addon_purchases (durable w') = addon_purchases d2"
    using arg_cong [OF b, of addon_purchases] by (simp add: besides_audit_def)
  then show a: "acted_on oid sku (durable w')" using offer(3) by (simp add: acted_on_def)
  show "upsell_post oid sku mid d (m, q) (durable w')"
    using a offer(1,2) m same q besides_audit_fields(1,3) [OF b] by (auto simp: quoted_in_def quote_of_item_def)
qed

lemma wp_upsell_phase:
  fixes w :: "'p world"
  assumes "durable w = session w"
  shows "wp (upsell_phase oid sku now mid aid) (\<lambda>r w'. upsell_post oid sku mid (session w) r (durable w'))
    (\<lambda>e w'. durable w' = session w \<or> acted_on oid sku (durable w')) w"
proof -
  define Q where "Q = (\<lambda>r (w' :: 'p world). upsell_post oid sku mid (session w) r (durable w'))"
  define E where "E = (\<lambda>(e :: exn) (w' :: 'p world). durable w' = session w \<or> acted_on oid sku (durable w'))"
  have quote: "wp (bind (create_quote (mandate_id m) sku (eo_quantity offer) ''web_buyer'') (\<lambda>q. bind commit (\<lambda>_. return (m, q)))) Q E u"
    if "offer_priced oid sku (session w) offer" "\<not> acted_on oid sku (session w)" "acted_on oid sku d2"
      "d2\<lparr>addon_purchases := []\<rparr> = (session w)\<lparr>addon_purchases := []\<rparr>" "mandate_id m = mid" "mandates (session w) mid = None" "addon_mandate offer m"
      "session u = d2\<lparr>mandates := (mandates d2)(mid \<mapsto> (m, LOCKED))\<rparr>" "durable u = session w" for offer m d2 u
    unfolding wp_bind
  proof (rule wp_mono [OF wp_create_quote], goal_cases)
    case (1 q w')
    note f = upsell_finish [OF that(1-7) 1 [unfolded that(5,8)]]
    have "session w' = durable w'" using 1 by (simp add: quoted_in_def)
    then show ?case using f by (simp add: Q_def E_def)
  next
    case (2 e w')
    then show ?case using that(9) by (simp add: E_def)
  qed
  have won: "wp (bind (gets config) (\<lambda>c. bind (gets json_datetime) (\<lambda>dump_dt.
      bind (lift_result (sign_mandate dump_dt c (web_mandate mid now c (addon_intent offer) (addon_bounds offer)))) (\<lambda>m.
      bind (mandates_add m LOCKED) (\<lambda>_. bind (create_quote (mandate_id m) sku (eo_quantity offer) ''web_buyer'') (\<lambda>q.
      bind commit (\<lambda>_. return (m, q)))))))) Q E u"
    if "offer_priced oid sku (session w) offer" "\<not> acted_on oid sku (session w)" "acted_on oid sku (session u)"
      "(session u)\<lparr>addon_purchases := []\<rparr> = (session w)\<lparr>addon_purchases := []\<rparr>" "durable u = session w" for offer u
  proof -
    obtain m where m: "sign_mandate (json_datetime u) (config u) (web_mandate mid now (config u) (addon_intent offer) (addon_bounds offer)) = Inr m"
      using sign_mandate_Inr by blast
    have f: "mandate_id m = mid" "addon_mandate offer m" by (rule signed_mandate [OF m], simp add: web_mandate_def addon_mandate_def)+
    have none: "mandates (session w) mid = mandates (session u) mid" using arg_cong [OF that(4), of mandates] by simp
    have add: "wp (mandates_add m LOCKED) (\<lambda>_. wp (bind (create_quote (mandate_id m) sku (eo_quantity offer) ''web_buyer'') (\<lambda>q. bind commit (\<lambda>_. return (m, q)))) Q E) E u"
      using f(1) none that(5) quote [OF that(1-4) f(1) _ f(2)]
      by (cases "spec_hash m"; cases "mandates (session u) mid") (auto simp: mandates_add_def E_def simp del: wp_bind)
    show ?thesis using m add by (simp add: wp_bind [of "gets config"] wp_bind [of "gets json_datetime"] wp_bind [of "lift_result _"] wp_bind [of "mandates_add _ _"] del: wp_bind)
  qed
  have "wp (upsell_phase oid sku now mid aid) Q E w"
    unfolding upsell_phase_def wp_bind [of "price_offer_for_purchase oid sku"]
  proof (rule wp_mono [OF wp_price_offer], goal_cases)
    case (1 priced u)
    then have u: "session u = session w" "durable u = session w" using assms by (simp_all add: local_step_def)
    show ?case
    proof (cases priced)
      case None
      then show ?thesis using u by (simp add: E_def)
    next
      case (Some offer)
      have pr: "offer_priced oid sku (session w) offer" using 1 Some by simp
      show ?thesis
        unfolding Some option.case wp_bind [of "addon_try_mark_pending aid oid sku mid (eo_total_minor offer) (eo_currency offer)"]
      proof (rule wp_mono [OF wp_try_mark_pending], goal_cases)
        case (1 got u')
        then have "durable u' = session w" using u by (simp add: local_step_def)
        then show ?case using won [OF pr, of u'] 1 u(1) by (cases got) (simp_all add: E_def del: wp_bind)
      next
        case (2 e u')
        then show ?case using u by (simp add: E_def local_step_def)
      qed
    qed
  next
    case (2 e u)
    then show ?case using assms by (simp add: E_def local_step_def)
  qed
  then show ?thesis by (simp only: Q_def E_def)
qed


section \<open>Recovery\<close>

text \<open>At most one new quote, for the same room and stay, and only after a refusal for a stale price.\<close>

theorem at_most_one_requote:
  "case propose_with_one_requote_on_stale_price P m q actor t w of
     (Inr r, w') \<Rightarrow>
       (if rq_requoted r then q_mandate_id (rq_final_quote r) = mandate_id m \<and> q_nights (rq_final_quote r) = q_nights q \<and>
          (\<exists>w1 saga first. propose_once P m q actor t w = (Inr (first, saga), w1) \<and> mr_verdict first = DENY \<and> mr_reason_code first = STALE_PRICE)
        else rq_final_quote r = q)
   | (Inl e, w') \<Rightarrow> True"
proof -
  obtain r w1 where first: "propose_once P m q actor t w = (r, w1)" by force
  show ?thesis
  proof (cases r)
    case (Inl e)
    then show ?thesis by (simp add: propose_with_one_requote_on_stale_price_def bind_def first)
  next
    case (Inr x)
    obtain res saga where x: "x = (res, saga)" by (cases x)
    have fresh: "wp (with_uow (bind (create_quote (mandate_id m) (q_sku q) (q_nights q) actor) (\<lambda>fresh. bind commit (\<lambda>_. return fresh))))
        (\<lambda>f w'. q_mandate_id f = mandate_id m \<and> q_nights f = q_nights q) (\<lambda>e w'. True) w1"
      unfolding wp_with_uow wp_bind by (rule wp_mono [OF wp_create_quote]) (auto simp: quoted_in_def quote_of_item_def)
    show ?thesis
    proof (cases "mr_verdict res = DENY \<and> mr_reason_code res = STALE_PRICE")
      case True
      obtain r2 w2 where second: "with_uow (bind (create_quote (mandate_id m) (q_sku q) (q_nights q) actor) (\<lambda>fresh. bind commit (\<lambda>_. return fresh))) w1 = (r2, w2)"
        by force
      show ?thesis using True Inr x fresh
        by (cases r2) (auto simp: propose_with_one_requote_on_stale_price_def bind_def first second run_simps wp_def split: prod.split sum.split)
    next
      case False
      then show ?thesis using Inr x by (auto simp: propose_with_one_requote_on_stale_price_def bind_def first run_simps)
    qed
  qed
qed

end
