(* ===== verification/Http_Api.thy ===== *)
theory Http_Api
  imports Agent_Api Buyer_Api
begin

text \<open>
  The remaining routers with state behind them: the catalog with its entity tags and the quote
  endpoint (\<open>routers/catalog.py\<close>), the demo-only price change behind the admin token
  (\<open>routers/admin.py\<close>), the discovery document (\<open>routers/well_known.py\<close>) and the check of a
  bearer token. Headers are the strings the framework hands over.
\<close>

section \<open>catalog.py\<close>

definition parse_location :: "string option \<Rightarrow> string option \<times> string option" where
  "parse_location location =
     (case location of
        None \<Rightarrow> (None, None)
      | Some l \<Rightarrow> (or_none (before_char (CHR '','') l), or_none (after_char (CHR '','') l)))"

definition filter_payload :: "catalog_query \<Rightarrow> json" where
  "filter_payload q =
     JObj [(''category'', jopt JStr (cq_category q)), (''location_city'', jopt JStr (cq_location_city q)),
           (''location_country'', jopt JStr (cq_location_country q)), (''max_unit_minor'', jopt JInt (cq_max_unit_minor q)),
           (''cursor'', jopt JStr (cq_cursor q)), (''limit'', JInt (cq_limit q))]"

definition compute_etag :: "int \<Rightarrow> catalog_query \<Rightarrow> string result" where
  "compute_etag current_version q =
     rmap (\<lambda>t. CHR 0x22 # ''cat-v'' @ show_int current_version @ ''-'' @ take 4 (hex (sha256 (encode_utf8 t))) @ [CHR 0x22])
       (jcs (filter_payload q))"

fun split_comma :: "string \<Rightarrow> string list" where
  "split_comma [] = [[]]"
| "split_comma (c # s) =
     (if c = CHR '','' then [] # split_comma s
      else (case split_comma s of [] \<Rightarrow> [[c]] | x # xs \<Rightarrow> (c # x) # xs))"

definition if_none_match_hits :: "string \<Rightarrow> string \<Rightarrow> bool" where
  "if_none_match_hits header_value etag \<longleftrightarrow>
     (let candidates = map strip (split_comma header_value) in ''*'' \<in> set candidates \<or> etag \<in> set candidates)"

datatype catalog_response =
    NotModified string
  | Feed string body

record catalog_request =
  cr_category :: "string option"
  cr_location :: "string option"
  cr_max_unit_minor :: "int option"
  cr_cursor :: "string option"
  cr_limit :: int
  cr_if_none_match :: "string option"
  cr_agent_id :: "string option"

definition requested_query :: "catalog_request \<Rightarrow> catalog_query" where
  "requested_query r =
     (let (city, country) = parse_location (cr_location r) in
      \<lparr>cq_category = cr_category r, cq_location_city = city, cq_location_country = country,
       cq_max_unit_minor = cr_max_unit_minor r, cq_is_buyer_listable = None, cq_cursor = cr_cursor r, cq_limit = cr_limit r\<rparr>)"

definition get_catalog :: "collation \<Rightarrow> wire \<Rightarrow> catalog_request \<Rightarrow> ('p, catalog_response) app" where
  "get_catalog collation_key W r =
     with_uow (
       bind catalog_current_version (\<lambda>current_version.
       bind (lift_result (compute_etag current_version (requested_query r))) (\<lambda>etag.
       if (case cr_if_none_match r of None \<Rightarrow> False | Some h \<Rightarrow> h \<noteq> [] \<and> if_none_match_hits h etag) then return (NotModified etag)
       else
         bind (handle (list_catalog collation_key (requested_query r) (case cr_agent_id r of None \<Rightarrow> ''agt_unknown'' | Some a \<Rightarrow> a))
                 (\<lambda>exc. case exc of ValueError m \<Rightarrow> raise (http_error 400 m) | _ \<Rightarrow> raise exc)) (\<lambda>feed.
         return (Feed etag (feed_body W feed))))))"

definition post_quote :: "quote_request_body \<Rightarrow> string option \<Rightarrow> ('p, quote) app" where
  "post_quote b agent_id =
     with_uow (
       handle (create_quote (rb_mandate_id b) (rb_sku b) (rb_nights b) (case agent_id of None \<Rightarrow> ''agt_unknown'' | Some a \<Rightarrow> a))
         (\<lambda>exc. case exc of
            MandateNotFound m \<Rightarrow> raise (http_error 404 m)
          | SkuNotFound m \<Rightarrow> raise (http_error 404 m)
          | SkuUnavailable m \<Rightarrow> raise (http_error 409 m)
          | _ \<Rightarrow> raise exc))"

section \<open>admin.py, audit.py and well\_known.py\<close>

definition bearer_token :: "string option \<Rightarrow> string" where
  "bearer_token authorization =
     (let provided = (case authorization of None \<Rightarrow> [] | Some a \<Rightarrow> a); prefix = ''Bearer '' in
      if is_prefix prefix provided then drop (length prefix) provided else [])"

definition require_token :: "string \<Rightarrow> string \<Rightarrow> string option \<Rightarrow> ('p, unit) app" where
  "require_token expected m authorization =
     bind (lift_result (compare_digest (bearer_token authorization) expected)) (\<lambda>ok.
     if \<not> ok then raise (http_error 401 m) else return ())"

definition require_admin_token :: "string option \<Rightarrow> ('p, unit) app" where
  "require_admin_token authorization =
     bind (gets config) (\<lambda>c. require_token (admin_token c) ''invalid or missing admin token'' authorization)"

definition require_read_token :: "string option \<Rightarrow> ('p, unit) app" where
  "require_read_token authorization =
     bind (gets config) (\<lambda>c. require_token (read_token c) ''invalid or missing read token'' authorization)"

definition mutate_price :: "string \<Rightarrow> int \<Rightarrow> string option \<Rightarrow> string option \<Rightarrow> ('p, catalog_item) app" where
  "mutate_price sku unit_price_minor authorization admin_id =
     with_uow (
       bind (require_admin_token authorization) (\<lambda>_.
       handle (mutate_price_demo_only sku unit_price_minor (case admin_id of None \<Rightarrow> ''admin_demo'' | Some a \<Rightarrow> a))
         (\<lambda>exc. case exc of
            SkuNotFound m \<Rightarrow> raise (http_error 404 m)
          | InvalidPriceMutation m \<Rightarrow> raise (http_error 422 m)
          | _ \<Rightarrow> raise exc)))"

definition agent_commerce_document :: "settings \<Rightarrow> body" where
  "agent_commerce_document c =
     [(''protocol'', JStr ''actl.acp/1''), (''currency'', JStr ''INR''),
      (''endpoints'', JObj [(''catalog'', JStr ''/agent/v1/catalog''), (''quote'', JStr ''/agent/v1/quote''),
                            (''messages'', JStr ''/agent/v1/messages'')]),
      (''signing'', JObj [(''algorithms'', JList [JStr ''Ed25519'', JStr ''HMAC-SHA256''])]),
      (''limits'', JObj [(''quote_ttl_s'', JInt (quote_ttl_s c))])]"

text \<open>The two places that publish the capabilities publish the same ones.\<close>

lemma documents_agree: "agent_commerce_document c = capability_document c"
  by (simp add: agent_commerce_document_def capability_document_def)

section \<open>Entity tags\<close>

lemma filter_payload_plain: "no_floats (filter_payload q)"
  by (simp add: filter_payload_def jopt_def split: option.split)

lemma etag_Inr: "\<exists>t. compute_etag v q = Inr t"
proof -
  obtain s where "jcs (filter_payload q) = Inr s" using jcs_render [OF filter_payload_plain] by blast
  then show ?thesis by (simp add: compute_etag_def rmap_def)
qed

definition with_max :: "catalog_query \<Rightarrow> nat \<Rightarrow> catalog_query" where
  "with_max q n = q\<lparr>cq_max_unit_minor := Some (int n)\<rparr>"

definition tag_of :: "int \<Rightarrow> string \<Rightarrow> string" where
  "tag_of v h = CHR 0x22 # ''cat-v'' @ show_int v @ ''-'' @ h @ [CHR 0x22]"

lemma hex_no_comma: "CHR '','' \<notin> set (hex bs)"
proof -
  have digit: "CHR '','' \<noteq> hex_digits ! n" if "n < 16" for n
  proof
    assume "CHR '','' = hex_digits ! n"
    then have "hex_value (CHR '','') = Some n" using hex_digit_value [OF that] by simp
    then show False by (simp add: hex_value_def)
  qed
  have "CHR '','' \<notin> set (hex_byte b)" for b
  proof -
    have "unat b < 256" using unsigned_less [of b] by simp
    then have "unat b div 16 < 16" by simp
    from digit [OF this] digit [of "unat b mod 16"] show ?thesis by (simp add: hex_byte_def)
  qed
  then show ?thesis by (simp add: hex_def)
qed

lemma show_int_no_comma: "CHR '','' \<notin> set (show_int v)"
proof -
  have "CHR '','' \<notin> set (show_nat n)" for n using show_nat_dec [of "CHR '',''" n] by (auto simp: is_dec_def)
  then show ?thesis by (simp add: show_int_def)
qed

lemma split_comma_single: "CHR '','' \<notin> set s \<Longrightarrow> split_comma s = [s]"
  by (induction s) auto

lemma etag_matches_itself:
  assumes "compute_etag v q = Inr etag"
  shows "if_none_match_hits etag etag"
proof -
  obtain h where h: "etag = tag_of v h" "CHR '','' \<notin> set h"
    using assms hex_no_comma 
    by (auto simp: compute_etag_def tag_of_def rmap_def rbind_eq_Inr dest: in_set_takeD)
  have "strip etag = etag" by (simp add: h(1) tag_of_def strip_def is_space_def)
  moreover have "split_comma etag = [etag]"
    by (rule split_comma_single) (simp add: h tag_of_def show_int_no_comma)
  ultimately show ?thesis by (simp add: if_none_match_hits_def)
qed

lemma etag_short: "compute_etag v q \<in> (\<lambda>h. Inr (tag_of v h)) ` {h. length h \<le> 4}"
proof -
  obtain s where "jcs (filter_payload q) = Inr s" using jcs_render [OF filter_payload_plain] by blast
  then have "compute_etag v q = Inr (tag_of v (take 4 (hex (sha256 (encode_utf8 s)))))"
    by (simp add: compute_etag_def rmap_def tag_of_def)
  then show ?thesis by (auto intro!: image_eqI)
qed

text \<open>
  Entity tags of different filters collide. At every catalog version and for every filter there
  are two price limits whose queries have the same entity tag, so that \<open>If-None-Match\<close> with the tag
  of the one view is answered as a hit for the other: four hexadecimal digits of the hash tell at
  most 65536 filters apart.
\<close>

theorem etags_collide:
  "\<exists>m n etag. m \<noteq> n \<and> compute_etag v (with_max q m) = Inr etag \<and> compute_etag v (with_max q n) = Inr etag \<and>
     if_none_match_hits etag etag"
proof -
  have "finite {h :: string. length h \<le> 4}" using finite_lists_length_le [of "UNIV :: char set" 4] by simp
  then have "finite (range (\<lambda>n. compute_etag v (with_max q n)))"
    by (rule finite_subset [rotated, OF finite_imageI]) (use etag_short in blast)
  then have "\<not> inj (\<lambda>n. compute_etag v (with_max q n))" by (auto dest: finite_imageD)
  then obtain m n where mn: "m \<noteq> n" "compute_etag v (with_max q m) = compute_etag v (with_max q n)" by (auto simp: inj_on_def)
  obtain etag where e: "compute_etag v (with_max q m) = Inr etag" using etag_Inr by blast
  from e etag_matches_itself mn show ?thesis by metis
qed

section \<open>Who may change a price\<close>

text \<open>
  Only the administrator changes a price. The price endpoint commits something only when the
  request carries \<open>Bearer\<close> and the configured token, and then it is the new price of that item at
  the next catalog version, with one audit entry; without it, it answers 401 or, when the text is not
  ASCII, raises, and nothing is committed.
\<close>

theorem price_changed_by_admin_only:
  "case mutate_price sku p authorization admin_id w of
     (Inr item, w') \<Rightarrow> bearer_token authorization = admin_token (config w) \<and> 0 < p \<and> ci_sku item = sku \<and> ci_unit_price_minor item = p
   | (Inl e, w') \<Rightarrow> durable w' = began w \<and>
       (bearer_token authorization = admin_token (config w) \<or>
          e = http_error 401 ''invalid or missing admin token'' \<or> (\<exists>m. e = TypeError m))"
    (is "case _ of (Inr item, w') \<Rightarrow> ?P item | (Inl e, w') \<Rightarrow> ?E e w'")
proof -
  have found: "ci_sku i = sku" if "find_item sku items = Some i" for i items
    using that by (auto simp: find_item_def find_Some_iff)
  have "wp (mutate_price sku p authorization admin_id) (\<lambda>item w'. ?P item) ?E w"
    unfolding mutate_price_def require_admin_token_def require_token_def mutate_price_demo_only_def catalog_mutate_price_def
      wp_with_uow began_def [symmetric]
    by (auto simp: wp_db_call Let_def compare_digest_def found split: option.split sum.split exn.split intro!: wp_append_commit)
  then show ?thesis unfolding wp_def by (simp only: prod.case_eq_if sum.case_eq_if split: if_splits)
qed

end
