(* ===== verification/Endpoints.thy ===== *)
theory Endpoints
  imports Worker Http_Api
begin

text \<open>
  The whole surface of the program: the endpoints of agents, browsers and the administrator next to
  the background work, as one datatype of calls, and what stays true of the database whatever
  sequence of them is served. The locale \<open>commerce_db\<close> extends the interface of an invariant to
  the payment services by the tables that only the commerce services write.
\<close>

section \<open>Code at the end of a transaction\<close>

text \<open>
  \<open>closing J m\<close>: as the rest of a unit of work, \<open>m\<close> keeps the committed state steady. It asks
  nothing of the session afterwards, which the end of the unit of work discards, so that it also covers
  handlers that catch an exception and answer.
\<close>

definition closing :: "(db \<Rightarrow> bool) \<Rightarrow> ('p, 'a) app \<Rightarrow> bool" where
  "closing J m \<longleftrightarrow> (\<forall>w. steady J w \<longrightarrow> J (session w) \<longrightarrow> wp m (\<lambda>x w'. steady J w') (\<lambda>e w'. steady J w') w)"

lemma closing_guarded: "guarded J m \<Longrightarrow> closing J m"
  unfolding closing_def by (auto intro: wp_mono [OF yieldsD])

lemma closingD: "closing J m \<Longrightarrow> steady J w \<Longrightarrow> J (session w) \<Longrightarrow> wp m (\<lambda>x. steady J) (\<lambda>e. steady J) w"
  by (simp add: closing_def)

lemma closing_bind: "guarded J m \<Longrightarrow> (\<And>x. closing J (f x)) \<Longrightarrow> closing J (bind m f)"
  unfolding closing_def [of J "bind m f"] wp_bind
  by (intro allI impI, rule wp_mono [OF yieldsD]) (assumption | elim conjE | rule closingD)+

lemma closing_cases:
  "closing J m \<Longrightarrow> closing J n \<Longrightarrow> closing J (if b then m else n)"
  "closing J m \<Longrightarrow> (\<And>x. closing J (g x)) \<Longrightarrow> closing J (case v of None \<Rightarrow> m | Some x \<Rightarrow> g x)"
  by (simp_all split: option.split)

lemma closing_handle:
  assumes "guarded J m" "\<And>e. local (h e)"
  shows "closing J (handle m h)"
  unfolding closing_def wp_handle
proof (intro allI impI)
  fix w :: "'a world"
  assume "steady J w" "J (session w)"
  from yieldsD [OF assms(1) this]
  show "wp m (\<lambda>x w'. steady J w') (\<lambda>e. wp (h e) (\<lambda>x w'. steady J w') (\<lambda>e w'. steady J w')) w"
    by (rule wp_mono) (auto intro!: wp_mono [OF local_wp [OF assms(2)]] simp: steady_local)
qed

text \<open>\<open>except E as exc: raise F(...) from exc\<close>\<close>

lemma guarded_reraise:
  assumes "guarded J m" "\<And>e w. \<exists>e'. h e w = (Inl e', w)"
  shows "guarded J (handle m h)"
proof -
  have "wp (h e) (\<lambda>x w'. steady J w' \<and> J (session w') \<and> True) (\<lambda>e w'. steady J w') w" if "steady J w" for e w
    using assms(2) [of e w] that by (auto simp: wp_def)
  then show ?thesis unfolding yields_def wp_handle by (auto intro!: wp_mono [OF yieldsD [OF assms(1)]])
qed

lemma keeps_uow_closing:
  assumes "closing J body"
  shows "keeps (steady J) (with_uow body)"
  unfolding keeps_wp wp_with_uow
proof (intro allI impI)
  fix w :: "'a world"
  assume w: "steady J w"
  let ?d = "others w (transactions w) (durable w)"
  have "J ?d" using w by (simp add: steady_def)
  with closingD [OF assms steady_begin [OF w]]
  have "wp body (\<lambda>x. steady J) (\<lambda>e. steady J) (w\<lparr>durable := ?d, session := ?d, transactions := Suc (transactions w)\<rparr>)" by simp
  then show "wp body (\<lambda>x w'. steady J (w'\<lparr>session := session w\<rparr>)) (\<lambda>e w'. steady J (w'\<lparr>session := session w\<rparr>))
      (w\<lparr>durable := ?d, session := ?d, transactions := Suc (transactions w)\<rparr>)"
    by (rule wp_mono) (simp_all add: steady_def)
qed

text \<open>Computations next to the language model.\<close>

lemma wp_on_app: "wp (on_app m) Q E (l, w) \<longleftrightarrow> wp m (\<lambda>x w'. Q x (l, w')) (\<lambda>e w'. E e (l, w')) w"
  by (simp add: wp_def on_app_def split: prod.split sum.split)

lemma wp_on_llm: "wp (on_llm m) Q E (l, w) \<longleftrightarrow> wp m (\<lambda>x l'. Q x (l', w)) (\<lambda>e l'. E e (l', w)) l"
  by (simp add: wp_def on_llm_def split: prod.split sum.split)

lemma wp_llm_uow:
  "wp (llm_uow m) Q E (l, w) \<longleftrightarrow>
     wp m (\<lambda>x (l', u). Q x (l', u\<lparr>session := session w\<rparr>)) (\<lambda>e (l', u). E e (l', u\<lparr>session := session w\<rparr>))
       (l, w\<lparr>durable := began w, session := began w, transactions := Suc (transactions w)\<rparr>)"
  by (simp add: wp_def llm_uow_def Let_def split: prod.split sum.split)

section \<open>The interface of an invariant to the commerce services\<close>

text \<open>
  Quotes, decisions, add-ons and the catalog are free, mandates may be added, and the invariant binds
  no reference and caps no mandate: the endpoints choose both.
\<close>

locale commerce_db = purchase_db P J bound cap for P :: "'p payment_port" and J bound cap +
  assumes quotes_free: "J (d\<lparr>quotes := qs\<rparr>) = J d"
    and decisions_free: "J (d\<lparr>decisions := ds\<rparr>) = J d"
    and addons_free: "J (d\<lparr>addon_purchases := xs\<rparr>) = J d"
    and catalog_free: "J (d\<lparr>catalog_meta := v, catalog_items := is\<rparr>) = J d"
    and mandates_free: "J (d\<lparr>mandates := ms\<rparr>) = J d"
    and any_bound: "bound ref m a"
begin

lemma commerce_repositories_guarded [guarded_rules]:
  "guarded J (mandates_add m st :: ('p, unit) app)" "guarded J (decisions_add dr :: ('p, unit) app)"
  "guarded J (quotes_add q :: ('p, unit) app)" "guarded J (catalog_get_item sku :: ('p, catalog_item option) app)"
  "guarded J (catalog_list_items ck cq cur n :: ('p, catalog_item list) app)"
  "guarded J (catalog_mutate_price sku p :: ('p, catalog_item) app)"
  "guarded J (addon_get oid sku :: ('p, addon_purchase option) app)"
  "guarded J (addon_record_offered aid oid sku p c :: ('p, unit) app)"
  "guarded J (addon_try_mark_pending aid oid sku mid p c :: ('p, bool) app)"
  "guarded J (addon_mark_settled oid sku x :: ('p, unit) app)" "guarded J (addon_mark_failed oid sku :: ('p, unit) app)"
  "guarded J (addon_decline_all_offered oid :: ('p, unit) app)"
  "guarded J (committed_total mid :: ('p, int) app)"
  "guarded J (audit_get_seq_range_for_order oid :: ('p, (int \<times> int) option) app)"
  unfolding mandates_add_def decisions_add_def quotes_add_def catalog_get_item_def catalog_list_items_def catalog_mutate_price_def
    addon_get_def addon_record_offered_def addon_try_mark_pending_def addon_mark_settled_def addon_mark_failed_def
    addon_decline_all_offered_def committed_total_def ledger_list_for_account_def audit_get_seq_range_for_order_def Let_def
  by (auto intro!: guarded_rules guarded_db_call guarded_db_insert guarded_db_write
    simp: quotes_free decisions_free addons_free catalog_free mandates_free split: if_splits option.splits)

lemma catalog_guarded [guarded_rules]:
  "guarded J (list_catalog ck q actor :: ('p, catalog_feed) app)"
  "guarded J (create_quote mid sku nights actor :: ('p, quote) app)"
  unfolding list_catalog_def create_quote_def by (intro guarded_rules TrueI)+

lemma price_guarded: "guarded J (mutate_price_demo_only sku p actor :: ('p, catalog_item) app)"
  unfolding mutate_price_demo_only_def
  by (intro guarded_rules guarded_reraise TrueI) (simp add: raise_def split: exn.split)

lemma upsell_guarded [guarded_rules]:
  "guarded J (load_base_context oid :: ('p, base_order_context option) app)"
  "guarded J (price_offer_for_purchase oid sku :: ('p, eligible_offer option) app)"
  "guarded J (list_eligible_offers ck oid :: ('p, (string \<times> eligible_offer list) option) app)"
proof -
  show ctx: "guarded J (load_base_context oid :: ('p, base_order_context option) app)"
    unfolding load_base_context_def by (intro guarded_rules TrueI)
  show "guarded J (price_offer_for_purchase oid sku :: ('p, eligible_offer option) app)"
    unfolding price_offer_for_purchase_def by (intro guarded_rules ctx TrueI)
  have among: "guarded J (eligible_among oid c items :: ('p, eligible_offer list) app)" for c items
    by (induction items) (auto simp: offer_unless_acted_on_def intro!: guarded_rules)
  show "guarded J (list_eligible_offers ck oid :: ('p, (string \<times> eligible_offer list) option) app)"
    unfolding list_eligible_offers_def addon_catalog_items_def record_offer_def by (intro guarded_rules ctx among TrueI)
qed

lemma handlers_keep:
  "keeps (steady J) (handle_order_propose P req t actor)"
  "closing J (handle_quote_request sku mid nights actor :: ('p, handler_outcome) app)"
  "guarded J (handle_catalog_query ck W q actor :: ('p, handler_outcome) app)"
  "guarded J (handle_order_status oid :: ('p, handler_outcome) app)"
  "guarded J (handle_receipt_issue oid :: ('p, handler_outcome) app)"
proof -
  have phase: "guarded J (propose_phase req t actor :: ('p, reason_code + proposal) app)"
    unfolding propose_phase_def decide_and_record_def by (intro guarded_rules TrueI)
  show "keeps (steady J) (handle_order_propose P req t actor)"
    unfolding handle_order_propose_def
    by (auto intro!: keeps_rules keeps_with_uow phase begin_keeps any_bound split: sum.split list.split)
  show "closing J (handle_quote_request sku mid nights actor :: ('p, handler_outcome) app)"
    unfolding handle_quote_request_def
    by (intro closing_bind closing_handle guarded_rules) (auto intro: local_rules split: exn.split)
  show "guarded J (handle_catalog_query ck W q actor :: ('p, handler_outcome) app)"
    "guarded J (handle_order_status oid :: ('p, handler_outcome) app)"
    "guarded J (handle_receipt_issue oid :: ('p, handler_outcome) app)"
    unfolding handle_catalog_query_def handle_order_status_def handle_receipt_issue_def by (intro guarded_rules TrueI)+
qed

lemma agent_keeps: "keeps (steady J) (answer P C ck W e)"
proof -
  have discover: "keeps (steady J) (handle_capability_discover :: ('p, handler_outcome) app)"
    unfolding handle_capability_discover_def by (intro keeps_rules)
  have "keeps (steady J) (dispatch P ck W e)"
    unfolding dispatch_def Let_def malformed_body_def
    by (cases "ev_type e")
      (auto intro!: keeps_rules discover handlers_keep(1) handlers_keep(3-) [THEN keeps_with_uow]
        handlers_keep(2) [THEN keeps_uow_closing] split: option.split prod.split)
  moreover have "keeps (steady J) (build_response_envelope C W e r :: ('p, agent_envelope) app)" for r
    unfolding build_response_envelope_def Let_def by (intro keeps_rules keeps_local local_rules)
  ultimately show ?thesis unfolding answer_def by (intro keeps_rules)
qed

lemma catalog_endpoints_keep:
  "keeps (steady J) (get_catalog ck W r :: ('p, catalog_response) app)"
  "keeps (steady J) (post_quote b agent :: ('p, quote) app)"
  "keeps (steady J) (mutate_price sku p auth admin :: ('p, catalog_item) app)"
proof -
  show "keeps (steady J) (get_catalog ck W r :: ('p, catalog_response) app)"
    unfolding get_catalog_def
    by (intro keeps_with_uow guarded_rules guarded_reraise TrueI) (simp add: raise_def split: exn.split)
  show "keeps (steady J) (post_quote b agent :: ('p, quote) app)"
    unfolding post_quote_def
    by (intro keeps_uow_closing closing_handle guarded_rules) (auto intro: local_rules split: exn.split)
  show "keeps (steady J) (mutate_price sku p auth admin :: ('p, catalog_item) app)"
    unfolding mutate_price_def require_admin_token_def require_token_def
    by (intro keeps_uow_closing closing_bind closing_handle guarded_rules price_guarded TrueI)
      (auto intro: local_rules split: exn.split)
qed

lemma order_endpoints_keep:
  "keeps (steady J) (create_mandate b :: ('p, mandate) app)"
  "keeps (steady J) (propose_order P qid mid)"
  "keeps (steady J) (checkout P builder oid sid pid sig)"
  "keeps (steady J) (get_order oid :: ('p, body) app)"
proof -
  show "keeps (steady J) (create_mandate b :: ('p, mandate) app)"
    unfolding create_mandate_def by (intro keeps_with_uow guarded_rules TrueI)
  show "keeps (steady J) (propose_order P qid mid)"
    unfolding propose_order_def
    by (intro keeps_rules keeps_with_uow guarded_rules handlers_keep keeps_local local_rules TrueI)
  show "keeps (steady J) (checkout P builder oid sid pid sig)"
    unfolding checkout_def checkout_proof_def
    by (auto intro!: keeps_rules keeps_with_uow guarded_rules complete_keeps
        keeps_external [OF external_logged [OF fetch_outside]] split: option.split list.split)
  show "keeps (steady J) (get_order oid :: ('p, body) app)"
    unfolding get_order_def by (auto intro!: keeps_with_uow guarded_rules handlers_keep split: handler_outcome.split)
qed

lemma upsell_endpoints_keep:
  "keeps (steady J) (get_upsell_offers ck oid :: ('p, body) app)"
  "keeps (steady J) (decline_upsell oid :: ('p, body) app)"
  "keeps (steady J) (purchase_upsell P builder oid sku)"
proof -
  show "keeps (steady J) (get_upsell_offers ck oid :: ('p, body) app)" "keeps (steady J) (decline_upsell oid :: ('p, body) app)"
    unfolding get_upsell_offers_def decline_upsell_def by (intro keeps_with_uow guarded_rules TrueI)+
  have failed: "keeps (steady J) (mark_addon_failed oid sku :: ('p, unit) app)"
    unfolding mark_addon_failed_def by (intro keeps_with_uow guarded_rules TrueI)
  have settle: "keeps (steady J) (settle_addon P builder oid sku x y)" for x y
    unfolding settle_addon_def
    by (auto intro!: keeps_rules keeps_with_uow guarded_rules complete_keeps failed
        keeps_external [OF external_logged [OF fetch_outside]] split: option.split list.split)
  have phase: "guarded J (upsell_phase oid sku now mid aid :: ('p, mandate \<times> quote) app)" for now mid aid
    unfolding upsell_phase_def by (intro guarded_rules TrueI)
  show "keeps (steady J) (purchase_upsell P builder oid sku)"
    unfolding purchase_upsell_def
    by (intro keeps_rules keeps_with_uow phase settle guarded_rules handlers_keep failed keeps_local local_rules TrueI)
qed

text \<open>The two endpoints whose state is more than the application's: next to Redis, and next to the model.\<close>

lemma message_keeps:
  fixes s :: "('r, 'p) agent_world"
  assumes "steady J (app_world s)"
  shows "steady J (app_world (snd (post_message R C W ck P parsed s)))"
proof -
  have verify: "wp (agent_uow (verify_envelope R C W e)) (\<lambda>v s'. steady J (app_world s')) (\<lambda>x s'. steady J (app_world s')) s" for e
    unfolding wp_agent_uow
    by (rule wp_mono [OF wp_verify_envelope])
      (use assms in \<open>auto simp: steady_def local_step_def opened_def began_def\<close>)
  have answer: "wp (answer P C ck W e) (\<lambda>x. steady J) (\<lambda>x. steady J) u" if "steady J u" for e u
    using agent_keeps [unfolded keeps_wp, rule_format, OF that] .
  have "wp (post_message R C W ck P parsed) (\<lambda>x s'. steady J (app_world s')) (\<lambda>x s'. steady J (app_world s')) s"
    unfolding post_message_def
    by (cases parsed) (auto simp: assms intro!: wp_mono [OF verify] answer split: envelope_verification.split)
  then show ?thesis by (simp only: wp_snd)
qed

lemma buyer_catalog_keeps:
  fixes w :: "'p world"
  assumes "steady J w"
  shows "steady J (snd (snd (get_buyer_catalog ck W mv R L mid (l, w))))"
proof -
  let ?Q = "\<lambda>x (l' :: 'd, u :: 'p world). steady J u"
  let ?w1 = "w\<lparr>durable := began w, session := began w, transactions := Suc (transactions w)\<rparr>"
  have frame: "steady J (u\<lparr>session := d\<rparr>) = steady J u" for u :: "'p world" and d by (simp add: steady_def)
  have "steady J ?w1" "J (session ?w1)" using assms by (simp_all add: steady_def began_def)
  note feed = yieldsD [OF catalog_guarded(1) this]
  have read: "wp (on_app (mandates_get i)) (\<lambda>x. wp (f x) ?Q ?Q) ?Q (l', u)"
    if "steady J u" "J (session u)" "\<And>x u. steady J u \<Longrightarrow> wp (f x) ?Q ?Q (l', u)" for i f l' u
    unfolding wp_on_app
    by (rule wp_mono [OF yieldsD [OF purchase_repositories_guarded(1) that(1,2)]]) (use that(3) in auto)
  have "wp (get_buyer_catalog ck W mv R L mid) (\<lambda>x. \<lambda>(l', u). steady J u) (\<lambda>e. \<lambda>(l', u). steady J u) (l, w)"
    unfolding get_buyer_catalog_def wp_llm_uow wp_bind [of "on_app (list_catalog _ _ _)"] wp_on_app
    by (rule wp_mono [OF feed]) 
      (auto intro!: read simp: frame wp_on_llm wp_true split: option.split)
  then show ?thesis by (auto simp: wp_snd split_beta)
qed

end

section \<open>Serving calls\<close>

text \<open>What the endpoints are given: the services outside, and the formats of the libraries.\<close>

record ('r, 'p, 'l) services =
  sv_redis :: "'r redis"
  sv_crypto :: ed25519
  sv_wire :: wire
  sv_collation :: collation
  sv_port :: "'p payment_port"
  sv_payload_builder :: "('p \<Rightarrow> string \<Rightarrow> string \<Rightarrow> string) option"
  sv_model_validate :: "json \<Rightarrow> string + (string list \<times> (string \<times> string) list)"
  sv_prompts :: "catalog_item list prompts"
  sv_llm :: "'l llm_client"

datatype 'l endpoint_call =
    Money money_call
  | Agent_message "nat + agent_envelope"
  | Agent_catalog catalog_request
  | Agent_quote quote_request_body "string option"
  | Admin_price string int "string option" "string option"
  | Buyer_catalog 'l "string option"
  | Buyer_mandate mandate_create_request
  | Buyer_propose string string
  | Buyer_checkout string string "string option" "string option"
  | Buyer_order string
  | Buyer_offers string
  | Buyer_decline string
  | Buyer_purchase string string

definition on_world :: "('p, 'a) app \<Rightarrow> ('r, 'p) agent_world \<Rightarrow> ('r, 'p) agent_world" where
  "on_world m s = s\<lparr>app_world := snd (m (app_world s))\<rparr>"

primrec serve :: "('r, 'p, 'l) services \<Rightarrow> 'l endpoint_call \<Rightarrow> ('r, 'p) agent_world \<Rightarrow> ('r, 'p) agent_world" where
  "serve V (Money c) s = on_world (money_step (sv_port V) c) s"
| "serve V (Agent_message parsed) s =
     snd (post_message (sv_redis V) (sv_crypto V) (sv_wire V) (sv_collation V) (sv_port V) parsed s)"
| "serve V (Agent_catalog r) s = on_world (get_catalog (sv_collation V) (sv_wire V) r) s"
| "serve V (Agent_quote b agent) s = on_world (post_quote b agent) s"
| "serve V (Admin_price sku p auth admin) s = on_world (mutate_price sku p auth admin) s"
| "serve V (Buyer_catalog l mid) s =
     s\<lparr>app_world := snd (snd (get_buyer_catalog (sv_collation V) (sv_wire V) (sv_model_validate V) (sv_prompts V) (sv_llm V) mid
        (l, app_world s)))\<rparr>"
| "serve V (Buyer_mandate b) s = on_world (create_mandate b) s"
| "serve V (Buyer_propose qid mid) s = on_world (propose_order (sv_port V) qid mid) s"
| "serve V (Buyer_checkout oid sid pid sig) s = on_world (checkout (sv_port V) (sv_payload_builder V) oid sid pid sig) s"
| "serve V (Buyer_order oid) s = on_world (get_order oid) s"
| "serve V (Buyer_offers oid) s = on_world (get_upsell_offers (sv_collation V) oid) s"
| "serve V (Buyer_decline oid) s = on_world (decline_upsell oid) s"
| "serve V (Buyer_purchase oid sku) s = on_world (purchase_upsell (sv_port V) (sv_payload_builder V) oid sku) s"

definition serve_all :: "('r, 'p, 'l) services \<Rightarrow> 'l endpoint_call list \<Rightarrow> ('r, 'p) agent_world \<Rightarrow> ('r, 'p) agent_world" where
  "serve_all V calls s = fold (serve V) calls s"

context commerce_db
begin

lemma on_world_keeps: "keeps (steady J) m \<Longrightarrow> steady J (app_world s) \<Longrightarrow> steady J (app_world (on_world m s))"
  by (simp add: on_world_def keepsD)

lemma any_call: "call_bound bound c"
  by (cases c) (simp_all add: any_bound)

lemma serve_keeps:
  assumes "sv_port V = P" "steady J (app_world s)"
  shows "steady J (app_world (serve V c s))"
  using assms(2)
  by (cases c)
    (simp_all add: assms(1) message_keeps buyer_catalog_keeps on_world_keeps money_step_keeps any_call catalog_endpoints_keep
      order_endpoints_keep upsell_endpoints_keep)

lemma serve_all_keeps:
  assumes "sv_port V = P" "steady J (app_world s)"
  shows "steady J (app_world (serve_all V calls s))"
  unfolding serve_all_def using assms(2)
  by (induction calls arbitrary: s) (simp_all add: serve_keeps [OF assms(1)])

end

section \<open>The log is append-only\<close>

text \<open>A valid log that starts with the entries \<open>L\<close>.\<close>

definition log_extends :: "audit_row list \<Rightarrow> db \<Rightarrow> bool" where
  "log_extends L d \<longleftrightarrow> audit_ok d \<and> take (length L) (audit_log d) = L"

lemma log_extends_cong:
  "(audit_log d', audit_checkpoints d') = (audit_log d, audit_checkpoints d) \<Longrightarrow> log_extends L d \<Longrightarrow> log_extends L d'"
  by (simp add: log_extends_def audit_ok_def)

lemma take_extends: "take (length L) xs = L \<Longrightarrow> length L \<le> length xs"
  by (metis length_take min.cobounded1)

lemma append_extends:
  assumes "log_extends L (session w)"
  shows "wp (append_entry t y a act subj pay) (\<lambda>r w'. log_extends L (session w')) (\<lambda>e w'. True) w"
  by (rule wp_mono [OF wp_conj [OF append_entry_ok append_entry_adds]])
    (use assms in \<open>auto simp: log_extends_def dest: take_extends\<close>)

lemma extends_guarded_ledger:
  "guarded (log_extends L) (add_movements mvs rt ref)" "guarded (log_extends L) (append_entry t y a act subj pay)"
  by (rule yields_local, auto intro: local_rules wp_mono [OF preserves_wp [OF preserves_ledger(3) [where f = "\<lambda>d. (audit_log d, audit_checkpoints d)"]]]
      log_extends_cong wp_mono [OF append_extends])+

sublocale provider_port < served: commerce_db P "log_extends L" any_ref any_cap for L
proof
  show "guarded (log_extends L) (sweep ttl :: ('p, string list) app)" for ttl
    unfolding sweep_def sweep_one_def Let_def mandates_get_for_update_def ledger_list_for_ref_id_def raise_if_halted_def
      ledger_list_reservations_older_than_def integrity_get_state_def
    by (auto intro!: guarded_rules extends_guarded_ledger guarded_db_call split: option.splits)
  show "wp (append_entry t y a act subj pay) (\<lambda>r w'. log_extends L (session w')) (\<lambda>e w'. True) w"
    if "log_extends L (session w)" for w :: "'p world" and t y a act subj pay
    by (rule append_extends [OF that])
qed (auto simp: log_extends_def audit_ok_def intro!:
      preserves_keeps [OF preserves_ledger(1) [where f = "\<lambda>d. (audit_log d, audit_checkpoints d)"]]
      preserves_keeps [OF preserves_ledger(2) [where f = "\<lambda>d. (audit_log d, audit_checkpoints d)"]])

context provider_port
begin

lemmas log_kept = served.serve_all_keeps

end

text \<open>
  C2. The audit log is append-only for the whole program. Whatever sequence of agent messages, catalog,
  quote, price, mandate, order, checkout and add-on requests, webhooks and background work is served,
  with whatever faults and answers of the database, Redis, the payment provider and the language
  model: the committed log stays a valid hash chain with valid checkpoints, and every entry that was
  committed before is still there, unchanged and in its place. It is assumed that other processes do
  the same and that the provider has no access to the database.
\<close>

theorem log_is_append_only:
  assumes "provider_port (sv_port V)" "audit_ok (durable (app_world s))"
    and "\<And>n d. log_extends (audit_log (durable (app_world s))) d \<Longrightarrow>
      log_extends (audit_log (durable (app_world s))) (others (app_world s) n d)"
  shows "audit_ok (durable (app_world (serve_all V calls s))) \<and>
    (\<exists>es. audit_log (durable (app_world (serve_all V calls s))) = audit_log (durable (app_world s)) @ es)"
proof -
  let ?L = "audit_log (durable (app_world s))"
  have "steady (log_extends ?L) (app_world s)" using assms(2,3) by (simp add: steady_def log_extends_def)
  from provider_port.log_kept [OF assms(1) refl this]
  have "log_extends ?L (durable (app_world (serve_all V calls s)))" by (simp add: steady_def)
  then show ?thesis by (metis append_take_drop_id log_extends_def)
qed

text \<open>A day of trade: one call of each kind.\<close>

definition sample_services :: "(key_store, simulator, unit) services" where
  "sample_services =
     \<lparr>sv_redis = key_store_redis, sv_crypto = stand_in, sv_wire = sample_wire, sv_collation = c_collation,
      sv_port = simulator_adapter, sv_payload_builder = None, sv_model_validate = (\<lambda>j. Inl ''not a ranking''),
      sv_prompts = sample_prompts, sv_llm = sample_llm\<rparr>"

definition sample_day :: "unit endpoint_call list" where
  "sample_day =
     [Buyer_mandate sample_stay, Buyer_catalog () None, Agent_message (Inr (signed_hello (Aware 0 0))),
      Agent_quote \<lparr>rb_sku = ''goa'', rb_mandate_id = ''mdt_1'', rb_nights = 2\<rparr> None, Buyer_propose ''qte_1'' ''mdt_1'',
      Buyer_checkout ''ord_1'' ''saga_1'' None None, Buyer_offers ''ord_1'', Buyer_purchase ''ord_1'' ''spa'', Buyer_decline ''ord_1'',
      Admin_price ''goa'' 500 None None, Buyer_order ''ord_1'', Money (Begin (sample_request 1)), Money (Sweep_command 900)]"

theorem log_is_append_only_witness:
  "let s = \<lparr>redis_state = \<lparr>ks_now = 0, ks_deadline = (\<lambda>k. None)\<rparr>, app_world = quiet_world 0 (new_simulator SUCCESS 0) goa_db\<rparr>;
       d = durable (app_world (serve_all sample_services sample_day s)) in
   audit_ok d \<and> (\<exists>es. audit_log d = audit_log goa_db @ es)"
proof -
  let ?s = "\<lparr>redis_state = \<lparr>ks_now = 0, ks_deadline = (\<lambda>k. None)\<rparr>, app_world = quiet_world 0 (new_simulator SUCCESS 0) goa_db\<rparr>"
  have "provider_port (sv_port sample_services)" by (simp add: sample_services_def simulator_port)
  moreover have "audit_ok (durable (app_world ?s))" by (simp add: goa_db_def audit_ok_def)
  ultimately show ?thesis using log_is_append_only [of sample_services ?s sample_day] by simp
qed

end
