(* ===== verification/Demo_Events.thy ===== *)
theory Demo_Events
  imports Endpoints Doubles
begin

text \<open>
  The events of a live demonstration (\<open>application/demo_events.py\<close> and the parts of
  \<open>application/demo.py\<close> that narrate audit entries). A recorder is the list of its events and the wall
  clock it stamps them with; the null recorder keeps nothing.
\<close>

section \<open>demo\_events.py\<close>

datatype event_status = Ev_pending | Ev_running | Ev_passed | Ev_blocked | Ev_failed | Ev_compensated

fun event_status_value :: "event_status \<Rightarrow> string" where
  "event_status_value Ev_pending = ''pending''"
| "event_status_value Ev_running = ''running''"
| "event_status_value Ev_passed = ''passed''"
| "event_status_value Ev_blocked = ''blocked''"
| "event_status_value Ev_failed = ''failed''"
| "event_status_value Ev_compensated = ''compensated''"

record demo_evidence =
  de_order_id :: "string option"
  de_quote_id :: "string option"
  de_catalog_version :: "int option"
  de_gate :: "string option"
  de_reason_code :: "string option"
  de_payment_state :: "string option"
  de_reserved_balance_minor :: "int option"
  de_released_balance_minor :: "int option"
  de_audit_seq :: "int option"
  de_entry_hash_prefix :: "string option"
  de_checkpoint_status :: "string option"

definition no_evidence :: demo_evidence where
  "no_evidence =
     \<lparr>de_order_id = None, de_quote_id = None, de_catalog_version = None, de_gate = None, de_reason_code = None,
      de_payment_state = None, de_reserved_balance_minor = None, de_released_balance_minor = None, de_audit_seq = None,
      de_entry_hash_prefix = None, de_checkpoint_status = None\<rparr>"

text \<open>What a caller passes to \<open>emit\<close>, and the event with its number and time.\<close>

record milestone =
  ms_phase :: string
  ms_kind :: string
  ms_title :: string
  ms_detail :: string
  ms_status :: event_status
  ms_evidence :: demo_evidence

record demo_event =
  ev_seq :: int
  ev_at :: datetime
  ev_milestone :: milestone

record recorder =
  rec_live :: bool
  rec_clock :: "nat \<Rightarrow> datetime"
  rec_events :: "demo_event list"

definition emit_event :: "milestone \<Rightarrow> recorder \<Rightarrow> recorder" where
  "emit_event m r =
     (if rec_live r
      then r\<lparr>rec_events := rec_events r @
             [\<lparr>ev_seq = int (length (rec_events r)) + 1, ev_at = rec_clock r (length (rec_events r)), ev_milestone = m\<rparr>]\<rparr>
      else r)"

definition milestone_of :: "string \<Rightarrow> string \<Rightarrow> string \<Rightarrow> string \<Rightarrow> event_status \<Rightarrow> demo_evidence \<Rightarrow> milestone" where
  "milestone_of phase kind title detail status evidence =
     \<lparr>ms_phase = phase, ms_kind = kind, ms_title = title, ms_detail = detail, ms_status = status, ms_evidence = evidence\<rparr>"

section \<open>Narrating audit entries (demo.py)\<close>

definition gate_by_reason_code :: "(string \<times> string) list" where
  "gate_by_reason_code =
     [(''MANDATE_INVALID'', ''G1''), (''MANDATE_REVOKED'', ''G1''), (''MANDATE_TAMPERED'', ''G1''), (''MANDATE_UNSIGNED'', ''G1''),
      (''MANDATE_EXPIRED'', ''G1''), (''MANDATE_NOT_YET_VALID'', ''G1''), (''INTENT_MISMATCH'', ''G2''), (''DECISION_STALE'', ''G2''),
      (''BUDGET_EXCEEDED'', ''G4''), (''QUOTE_EXPIRED'', ''G5''), (''STALE_PRICE'', ''G5''), (''PROVIDER_TERMINAL'', ''G6/G7''),
      (''PROVIDER_TRANSIENT'', ''G6/G7''), (''INTERNAL_ERROR'', ''G6/G7''), (''AUDIT_UNAVAILABLE'', ''G6/G7'')]"

definition gate_for_reason :: "string \<Rightarrow> string" where
  "gate_for_reason reason_code = (case map_of gate_by_reason_code reason_code of None \<Rightarrow> ''G3'' | Some g \<Rightarrow> g)"

definition hash_prefix :: "string \<Rightarrow> string" where
  "hash_prefix entry_hash = take 23 entry_hash"

definition pstr :: "json \<Rightarrow> string \<Rightarrow> string option" where
  "pstr payload k = (case jget k payload of None \<Rightarrow> None | Some v \<Rightarrow> if v = JNull then None else Some (str_json v))"

text \<open>
  \<open>int(value)\<close> of what the payloads hold under these keys, which is an integer; text and floats, which
  \<open>int\<close> might convert, are taken as errors.
\<close>

definition pint :: "json \<Rightarrow> string \<Rightarrow> int option result" where
  "pint payload k =
     (case jget k payload of
        None \<Rightarrow> Inr None
      | Some JNull \<Rightarrow> Inr None
      | Some (JInt i) \<Rightarrow> Inr (Some i)
      | Some (JBool b) \<Rightarrow> Inr (Some (of_bool b))
      | Some v \<Rightarrow> Inl (TypeError ''int() argument''))"

definition pint_or_0 :: "json \<Rightarrow> string \<Rightarrow> int result" where
  "pint_or_0 payload k = rbind (pint payload k) (\<lambda>v. Inr (case v of None \<Rightarrow> 0 | Some i \<Rightarrow> i))"

text \<open>\<open>f"{n / 100:,.0f}"\<close> behind the sign of the rupee.\<close>

fun group_digits :: "nat \<Rightarrow> string \<Rightarrow> string" where
  "group_digits n [] = []"
| "group_digits n (c # cs) = (if n mod 3 = 0 \<and> n \<noteq> 0 then CHR '','' # c # group_digits (n + 1) cs else c # group_digits (n + 1) cs)"

definition grouped :: "int \<Rightarrow> string" where
  "grouped i = (if i < 0 then ''-'' else []) @ rev (group_digits 0 (rev (show_int \<bar>i\<bar>)))"

definition rupees :: "int \<Rightarrow> string" where
  "rupees minor = [CHR 0xE2, CHR 0x82, CHR 0xB9] @ grouped (round_half_even (round_double (of_int minor / 100)))"

definition str_opt :: "string option \<Rightarrow> string" where
  "str_opt v = (case v of None \<Rightarrow> ''None'' | Some s \<Rightarrow> s)"

definition show_opt_int :: "int option \<Rightarrow> string" where
  "show_opt_int v = (case v of None \<Rightarrow> ''None'' | Some i \<Rightarrow> show_int i)"

definition entry_evidence :: "audit_row \<Rightarrow> demo_evidence" where
  "entry_evidence e = no_evidence\<lparr>de_audit_seq := Some (al_seq e), de_entry_hash_prefix := Some (hash_prefix (al_entry_hash e))\<rparr>"

definition narrate_quote_issued :: "audit_row \<Rightarrow> milestone result" where
  "narrate_quote_issued e =
     rbind (pint (al_payload e) ''catalog_version'') (\<lambda>catalog_version.
     rbind (pint_or_0 (al_payload e) ''price_minor'') (\<lambda>price_minor.
     Inr (milestone_of ''quote'' ''quote.issued'' ''Quote issued''
       (''Pinned at catalog version '' @ show_opt_int catalog_version @ '', '' @ rupees price_minor @ ''/night.'') Ev_passed
       ((entry_evidence e)\<lparr>de_quote_id := pstr (al_subject e) ''quote_id'', de_catalog_version := catalog_version\<rparr>))))"

definition narrate_price_mutated :: "audit_row \<Rightarrow> milestone result" where
  "narrate_price_mutated e =
     rbind (pint (al_payload e) ''catalog_version'') (\<lambda>catalog_version.
     rbind (pint_or_0 (al_payload e) ''new_unit_price_minor'') (\<lambda>new_price_minor.
     Inr (milestone_of ''fault_injection'' ''catalog.price_mutated'' ''Out-of-band price change (fault injection)''
       (''Catalog moved to version '' @ show_opt_int catalog_version @ '' at '' @ rupees new_price_minor @ ''/night.'') Ev_running
       ((entry_evidence e)\<lparr>de_catalog_version := catalog_version\<rparr>))))"

definition first_reason :: "json \<Rightarrow> string option" where
  "first_reason payload = (case jget ''reason_codes'' payload of Some (JList (c # cs)) \<Rightarrow> Some (str_json c) | _ \<Rightarrow> None)"

definition narrate_order_proposed :: "audit_row \<Rightarrow> milestone" where
  "narrate_order_proposed e =
     (let reason = first_reason (al_payload e); quote = pstr (al_payload e) ''quote_id'' in
      if pstr (al_payload e) ''verdict'' = Some ''ALLOW'' then
        milestone_of ''gate'' ''order.proposed.allowed'' ''Order proposed and allowed''
          ''Mandate, decision binding, and freshness all checked -- order created.'' Ev_passed
          ((entry_evidence e)\<lparr>de_quote_id := quote, de_reason_code := reason\<rparr>)
      else
        let gate = (case reason of None \<Rightarrow> None | Some c \<Rightarrow> if c = [] then None else Some (gate_for_reason c)) in
        milestone_of ''gate'' ''order.proposed.denied''
          (case gate of None \<Rightarrow> ''Purchase blocked'' | Some g \<Rightarrow> ''Gate '' @ g @ '' blocked the purchase'')
          (''Denied with reason '' @ str_opt reason @ '' -- blocked before payment/capture.'') Ev_blocked
          ((entry_evidence e)\<lparr>de_quote_id := quote, de_gate := gate, de_reason_code := reason\<rparr>))"

definition narrate_budget_reserved :: "audit_row \<Rightarrow> milestone result" where
  "narrate_budget_reserved e =
     rbind (pint_or_0 (al_payload e) ''amount_minor'') (\<lambda>amount_minor.
     Inr (milestone_of ''ledger'' ''budget.reserved'' ''Budget reserved'' (rupees amount_minor @ '' held against the mandate.'') Ev_passed
       ((entry_evidence e)\<lparr>de_reserved_balance_minor := Some amount_minor\<rparr>)))"

definition narrate_payment_intent :: "audit_row \<Rightarrow> milestone" where
  "narrate_payment_intent e =
     milestone_of ''payment'' ''payment.intent'' ''Payment requested''
       (''Simulator payment intent created ('' @ str_opt (pstr (al_payload e) ''mode'') @ '' mode).'') Ev_running
       ((entry_evidence e)\<lparr>de_order_id := pstr (al_payload e) ''order_id'', de_payment_state := Some ''requested''\<rparr>)"

definition narrate_payment_result :: "audit_row \<Rightarrow> milestone" where
  "narrate_payment_result e =
     (let status_str = (case pstr (al_payload e) ''status'' of None \<Rightarrow> ''unknown'' | Some s \<Rightarrow> if s = [] then ''unknown'' else s);
          passed = (status_str = ''captured'') in
      milestone_of ''payment'' ''payment.result'' (if passed then ''Payment captured'' else ''Payment declined'')
        (''Simulator reported status='' @ status_str @ ''.'') (if passed then Ev_passed else Ev_blocked)
        ((entry_evidence e)\<lparr>de_payment_state := Some status_str\<rparr>))"

definition narrate_settlement_closed :: "audit_row \<Rightarrow> milestone result" where
  "narrate_settlement_closed e =
     rbind (pint_or_0 (al_payload e) ''amount_minor'') (\<lambda>amount_minor.
     Inr (milestone_of ''settlement'' ''settlement.closed'' ''Order settled''
       (rupees amount_minor @ '' moved from reserved to settled.'') Ev_passed
       ((entry_evidence e)\<lparr>de_order_id := pstr (al_payload e) ''order_id'', de_reserved_balance_minor := Some 0\<rparr>)))"

definition narrate_compensation :: "audit_row \<Rightarrow> milestone result" where
  "narrate_compensation e =
     rbind (pint (al_payload e) ''amount_minor'') (\<lambda>released.
     let reason = pstr (al_payload e) ''reason'' in
     Inr (milestone_of ''compensation'' ''compensation.applied'' ''Compensation applied''
       (''Reservation released -- reason: '' @ str_opt reason @ ''.'') Ev_compensated
       ((entry_evidence e)\<lparr>de_order_id := pstr (al_payload e) ''order_id'', de_released_balance_minor := released,
          de_reserved_balance_minor := Some 0,
          de_reason_code := (if reason = Some ''payment_declined'' then Some ''PROVIDER_DECLINED'' else None)\<rparr>)))"

definition narrate_released :: "audit_row \<Rightarrow> milestone" where
  "narrate_released e =
     milestone_of ''compensation'' ''reservation.released'' ''Reservation released''
       (''Held funds returned to the mandate'' @ [CHR 0x27] @ ''s available balance.'') Ev_compensated
       ((entry_evidence e)\<lparr>de_reserved_balance_minor := Some 0\<rparr>)"

text \<open>The chain of \<open>elif action == ...\<close>; \<open>None\<close> is an action that is not narrated.\<close>

definition narrate :: "audit_row \<Rightarrow> milestone option result" where
  "narrate e =
     (let action = al_action e; some = (\<lambda>r. rbind r (\<lambda>m. Inr (Some m))) in
      if action = action_value QUOTE_ISSUED then some (narrate_quote_issued e)
      else if action = action_value CATALOG_PRICE_MUTATED then some (narrate_price_mutated e)
      else if action = action_value ORDER_PROPOSED then Inr (Some (narrate_order_proposed e))
      else if action = action_value BUDGET_RESERVED then some (narrate_budget_reserved e)
      else if action = action_value PAYMENT_INTENT then Inr (Some (narrate_payment_intent e))
      else if action = action_value PAYMENT_RESULT then Inr (Some (narrate_payment_result e))
      else if action = action_value SETTLEMENT_CLOSED then some (narrate_settlement_closed e)
      else if action = action_value COMPENSATION_APPLIED then some (narrate_compensation e)
      else if action = action_value RESERVATION_RELEASED then Inr (Some (narrate_released e))
      else Inr None)"

fun emit_events_for_entries :: "audit_row list \<Rightarrow> (recorder, unit) comp" where
  "emit_events_for_entries [] = return ()"
| "emit_events_for_entries (e # es) =
     bind (lift_result (narrate e)) (\<lambda>m.
     bind (modify (\<lambda>r. case m of None \<Rightarrow> r | Some x \<Rightarrow> emit_event x r)) (\<lambda>_.
     emit_events_for_entries es))"

definition emit_mandate_locked :: "mandate \<Rightarrow> milestone" where
  "emit_mandate_locked m =
     milestone_of ''setup'' ''mandate.locked'' ''Mandate locked''
       (''Budget cap '' @ rupees (max_total_minor (bounds m)) @ '', per-night cap '' @ rupees (max_unit_minor (bounds m)) @ ''.'')
       Ev_passed no_evidence"

end
