(* ===== verification/Growth.thy ===== *)
theory Growth
  imports Endpoints Doubles
begin

text \<open>
  The growth experiment (\<open>application/growth\<close>, \<open>routers/growth.py\<close>): the outbox events, the
  metrics derived from them, and the simulation of sessions, which buys through the same quote, gate and
  saga as everybody else. Python's generator is a parameter (\<open>rng\<close>): the first number that
  \<open>random.Random(seed)\<close> draws.

  Shown is that the outbox holds exactly one fact for each thing that happened in a session, so that the
  metrics are those of the sessions, and that the simulation keeps every invariant that the endpoints
  keep.
\<close>

section \<open>events.py\<close>

definition arm_baseline :: string where "arm_baseline = ''baseline''"
definition arm_upsell :: string where "arm_upsell = ''upsell''"

definition session_event :: "string \<Rightarrow> string \<Rightarrow> (string \<times> json) list \<Rightarrow> outbox_event" where
  "session_event session_id event_type payload =
     \<lparr>ob_aggregate = ''session'', ob_aggregate_id = session_id, ob_event_type = event_type, ob_payload = JObj payload,
      ob_published_at = None\<rparr>"

definition emit_session_started :: "string \<Rightarrow> string \<Rightarrow> ('p, unit) app" where
  "emit_session_started session_id arm =
     outbox_add (session_event session_id ''session.started'' [(''session_id'', JStr session_id), (''arm'', JStr arm)])"

definition emit_upsell_offered :: "string \<Rightarrow> string \<Rightarrow> string \<Rightarrow> ('p, unit) app" where
  "emit_upsell_offered session_id arm sku =
     outbox_add (session_event session_id ''upsell.offered''
       [(''session_id'', JStr session_id), (''arm'', JStr arm), (''sku'', JStr sku)])"

definition emit_upsell_accepted :: "string \<Rightarrow> string \<Rightarrow> string \<Rightarrow> ('p, unit) app" where
  "emit_upsell_accepted session_id arm sku =
     outbox_add (session_event session_id ''upsell.accepted''
       [(''session_id'', JStr session_id), (''arm'', JStr arm), (''sku'', JStr sku)])"

definition emit_order_completed :: "string \<Rightarrow> string \<Rightarrow> string \<Rightarrow> int \<Rightarrow> string \<Rightarrow> ('p, unit) app" where
  "emit_order_completed session_id arm order_id total_minor currency =
     outbox_add (session_event session_id ''order.completed''
       [(''session_id'', JStr session_id), (''arm'', JStr arm), (''order_id'', JStr order_id),
        (''total_minor'', JInt total_minor), (''currency'', JStr currency)])"

section \<open>metrics.py and the queries behind it\<close>

definition in_arm :: "string \<Rightarrow> string \<Rightarrow> outbox_event \<Rightarrow> bool" where
  "in_arm event_type arm e \<longleftrightarrow> ob_event_type e = event_type \<and> jget ''arm'' (ob_payload e) = Some (JStr arm)"

definition outbox_count_by_event_type_and_arm :: "string \<Rightarrow> string \<Rightarrow> ('p, int) app" where
  "outbox_count_by_event_type_and_arm event_type arm =
     db_read (\<lambda>d. int (length (filter (in_arm event_type arm) (outbox d))))"

text \<open>\<open>cast(payload ->> 'total_minor', BigInteger)\<close>: a missing or null member is not summed, what is no integer fails.\<close>

fun total_minor_of :: "json option \<Rightarrow> int option result" where
  "total_minor_of None = Inr None"
| "total_minor_of (Some JNull) = Inr None"
| "total_minor_of (Some (JInt i)) = Inr (Some i)"
| "total_minor_of (Some v) = Inl DBAPIError"

definition outbox_sum_order_total_minor :: "string \<Rightarrow> ('p, int) app" where
  "outbox_sum_order_total_minor arm =
     db_call (\<lambda>d. (rbind (rseq (map (\<lambda>e. total_minor_of (jget ''total_minor'' (ob_payload e)))
                        (filter (in_arm ''order.completed'' arm) (outbox d)))) (\<lambda>xs. Inr (sum_list (somes xs))), d))"

record arm_metrics =
  am_arm :: string
  am_sessions :: int
  am_orders :: int
  am_conversion_rate :: rat
  am_aov_minor :: "int option"
  am_upsell_offered :: int
  am_upsell_accepted :: int
  am_attach_rate :: "rat option"

text \<open>\<open>a / b\<close> of two integers.\<close>

definition true_div :: "int \<Rightarrow> int \<Rightarrow> rat" where
  "true_div a b = round_double (of_int a / of_int b)"

definition arm_metrics_of :: "string \<Rightarrow> ('p, arm_metrics) app" where
  "arm_metrics_of arm =
     bind (outbox_count_by_event_type_and_arm ''session.started'' arm) (\<lambda>sessions.
     bind (outbox_count_by_event_type_and_arm ''order.completed'' arm) (\<lambda>orders.
     bind (outbox_count_by_event_type_and_arm ''upsell.offered'' arm) (\<lambda>offered.
     bind (outbox_count_by_event_type_and_arm ''upsell.accepted'' arm) (\<lambda>accepted.
     bind (outbox_sum_order_total_minor arm) (\<lambda>total_minor.
     return \<lparr>am_arm = arm, am_sessions = sessions, am_orders = orders,
             am_conversion_rate = (if sessions \<noteq> 0 then true_div orders sessions else 0),
             am_aov_minor = (if orders \<noteq> 0 then Some (total_minor div orders) else None),
             am_upsell_offered = offered, am_upsell_accepted = accepted,
             am_attach_rate = (if offered \<noteq> 0 then Some (true_div accepted offered) else None)\<rparr>)))))"

record growth_metrics =
  gm_baseline :: arm_metrics
  gm_upsell :: arm_metrics
  gm_revenue_uplift :: "rat option"

definition revenue_uplift :: "arm_metrics \<Rightarrow> arm_metrics \<Rightarrow> rat option" where
  "revenue_uplift baseline upsell =
     (case (am_aov_minor baseline, am_aov_minor upsell) of
        (Some b, Some u) \<Rightarrow> if b \<noteq> 0 \<and> u \<noteq> 0 then Some (true_div (u - b) b) else None
      | _ \<Rightarrow> None)"

definition compute_growth_metrics :: "('p, growth_metrics) app" where
  "compute_growth_metrics =
     bind (arm_metrics_of arm_baseline) (\<lambda>baseline.
     bind (arm_metrics_of arm_upsell) (\<lambda>upsell.
     return \<lparr>gm_baseline = baseline, gm_upsell = upsell, gm_revenue_uplift = revenue_uplift baseline upsell\<rparr>))"

text \<open>\<open>routers/growth.py\<close>; \<open>float_json\<close> is the JSON number that prints a double.\<close>

definition arm_json :: "(rat \<Rightarrow> json) \<Rightarrow> arm_metrics \<Rightarrow> json" where
  "arm_json float_json a =
     JObj [(''arm'', JStr (am_arm a)), (''sessions'', JInt (am_sessions a)), (''orders'', JInt (am_orders a)),
           (''conversion_rate'', float_json (am_conversion_rate a)), (''aov_minor'', jopt JInt (am_aov_minor a)),
           (''upsell_offered'', JInt (am_upsell_offered a)), (''upsell_accepted'', JInt (am_upsell_accepted a)),
           (''attach_rate'', jopt float_json (am_attach_rate a))]"

definition get_growth_metrics :: "(rat \<Rightarrow> json) \<Rightarrow> ('p, body) app" where
  "get_growth_metrics float_json =
     with_uow (bind compute_growth_metrics (\<lambda>m.
       return [(''baseline'', arm_json float_json (gm_baseline m)), (''upsell'', arm_json float_json (gm_upsell m)),
               (''revenue_uplift'', jopt float_json (gm_revenue_uplift m))]))"

section \<open>simulation.py\<close>

definition base_sku :: string where "base_sku = ''HTL-GROWTH-BASE''"
definition upsell_sku :: string where "upsell_sku = ''HTL-GROWTH-UPSELL''"
definition base_nights :: int where "base_nights = 3"
definition upsell_nights :: int where "upsell_nights = 3"
definition conversion_probability :: rat where "conversion_probability = 3 / 4"
definition upsell_accept_probability :: rat where "upsell_accept_probability = round_double (55 / 100)"
definition base_mandate_budget_minor :: int where "base_mandate_budget_minor = 900000"
definition upsell_mandate_budget_range_minor :: "int \<times> int" where "upsell_mandate_budget_range_minor = (650000, 1000000)"

record session_outcome =
  so_session_id :: string
  so_arm :: string
  so_converted :: bool
  so_base_order_id :: "string option"
  so_upsell_offered :: bool
  so_upsell_accepted :: bool
  so_upsell_order_id :: "string option"

text \<open>A rating as the tables keep it, and a hotel item as both demonstrations write it.\<close>

definition rating_units :: "rat \<Rightarrow> int" where
  "rating_units x = \<lfloor>round_double x * 2 ^ 1074\<rfloor>"

definition hotel_item :: "string \<Rightarrow> string \<Rightarrow> int \<Rightarrow> int \<Rightarrow> rat \<Rightarrow> int \<Rightarrow> catalog_item" where
  "hotel_item sku merchant price units rating ver =
     \<lparr>ci_sku = sku, ci_category = ''travel.hotel'', ci_merchant_id = merchant, ci_unit = ''night'', ci_unit_price_minor = price,
      ci_available_units = units, ci_location_city = ''Goa'', ci_location_country = ''IN'', ci_rating = rating_units rating,
      ci_sea_facing = True, ci_breakfast_included = True, ci_refundable = True, ci_cancellation_window_h = 48,
      ci_instant_confirm = True, ci_taxes_included = True, ci_quote_required = True, ci_version = ver,
      ci_is_buyer_listable = False\<rparr>"

definition seed_growth_catalog :: "('p, unit) app" where
  "seed_growth_catalog =
     with_uow (
       bind catalog_current_version (\<lambda>current_version.
       bind (catalog_upsert_item (hotel_item base_sku ''mrc_growth_demo'' 250000 999 (43 / 10) current_version)) (\<lambda>_.
       bind (catalog_upsert_item (hotel_item upsell_sku ''mrc_growth_demo'' 270000 999 (46 / 10) current_version)) (\<lambda>_.
       commit))))"

text \<open>The start of a day of the calendar, by its number; 2026-01-01 is day 20454 and 2027-01-01 day 20819.\<close>

definition day_start :: "int \<Rightarrow> datetime" where
  "day_start n = n * usec_per_day"

text \<open>A mandate of the demonstrations: who gives it, and the bounds that differ.\<close>

definition lab_mandate :: "string \<Rightarrow> string \<Rightarrow> string \<Rightarrow> string \<Rightarrow> int \<Rightarrow> int \<Rightarrow> int \<Rightarrow> int \<Rightarrow> mandate" where
  "lab_mandate mid user agent agent_key max_total max_unit nights delta_bps =
     \<lparr>mandate_id = mid, version = 1, m_principal = \<lparr>principal_type = ''human'', principal_id = user\<rparr>,
      m_delegate = \<lparr>delegate_type = ''agent'', delegate_id = agent, delegate_key_id = agent_key\<rparr>,
      m_intent = \<lparr>intent_category = ''travel.hotel'', intent_location = ''Goa, IN'', intent_check_in = ''2026-09-12'',
                  intent_nights = nights, intent_rooms = 1\<rparr>,
      bounds = \<lparr>bounds_currency = ''INR'', max_total_minor = max_total, max_unit_minor = max_unit, max_transactions = 1,
                allowed_categories = [''travel.hotel''], blocked_merchants = [], require_refundable = True,
                max_price_delta_bps = delta_bps\<rparr>,
      temporal = \<lparr>not_before = day_start 20454, expires_at = day_start 20819, temporal_quote_ttl_s = 120\<rparr>,
      controls = \<lparr>human_confirm_required = True, revocable = True\<rparr>, spec_hash = None, signature = None\<rparr>"

definition sign_lab_mandate :: "string \<Rightarrow> mandate \<Rightarrow> ('p, mandate) app" where
  "sign_lab_mandate key_id draft =
     bind (gets config) (\<lambda>c.
     bind (gets json_datetime) (\<lambda>dump_dt.
     bind (lift_result (compute_spec_hash dump_dt draft)) (\<lambda>h.
     return (draft\<lparr>spec_hash := Some h,
                   signature := Some \<lparr>sig_alg = ''HMAC-SHA256'', sig_key_id = key_id,
                                      sig_value = sign_spec_hash h (encode_utf8 (mandate_signing_key c))\<rparr>\<rparr>))))"

definition build_growth_mandate :: "int \<Rightarrow> int \<Rightarrow> ('p, mandate) app" where
  "build_growth_mandate max_total nights =
     bind (new_id ''mdt'') (\<lambda>mid.
     sign_lab_mandate ''mk_growth_demo''
       (lab_mandate mid ''usr_growth_demo'' ''agt_growth_demo'' ''ed25519:growth-demo'' max_total 300000 nights 0))"

definition lock_mandate :: "mandate \<Rightarrow> ('p, unit) app" where
  "lock_mandate m = with_uow (bind (mandates_add m LOCKED) (\<lambda>_. commit))"

text \<open>
  Both demonstrations propose a quote and settle what was accepted. \<open>payload_builder\<close> is the
  simulator's \<open>build_checkout_payload\<close>.
\<close>

definition quote_and_item :: "mandate \<Rightarrow> string \<Rightarrow> int \<Rightarrow> string \<Rightarrow> ('p, quote \<times> catalog_item) app" where
  "quote_and_item m sku nights actor_id =
     bind (with_uow (
       bind (create_quote (mandate_id m) sku nights actor_id) (\<lambda>quote.
       bind commit (\<lambda>_.
       bind (catalog_get_item sku) (\<lambda>item.
       return (quote, item)))))) (\<lambda>(quote, item).
     case item of
       None \<Rightarrow> raise AssertionError
     | Some i \<Rightarrow> bind (assert_that (q_quote_hash quote \<noteq> None)) (\<lambda>_. return (quote, i)))"

definition propose_quote :: "'p payment_port \<Rightarrow> mandate \<Rightarrow> quote \<Rightarrow> catalog_item \<Rightarrow> string \<Rightarrow> string \<Rightarrow> ('p, body) app" where
  "propose_quote P m q item trace_id actor_id =
     bind (lift_result (compute_intent_hash (derived_intent m q item))) (\<lambda>intent_hash.
     bind (handle_order_propose P
             \<lparr>op_quote_id = q_quote_id q, op_quote_hash = or_empty (q_quote_hash q), op_mandate_id = mandate_id m,
              op_mandate_spec_hash = or_empty (spec_hash m), op_intent_hash = intent_hash\<rparr> trace_id actor_id) (\<lambda>r.
     return (outcome_body r)))"

definition tag_order :: "string \<Rightarrow> string \<Rightarrow> ('p, order option) app" where
  "tag_order oid source =
     with_uow (
       bind (orders_get oid) (\<lambda>order.
       bind (orders_set_source oid source) (\<lambda>_.
       bind commit (\<lambda>_.
       return order))))"

definition settle_order ::
  "'p payment_port \<Rightarrow> ('p \<Rightarrow> string \<Rightarrow> string \<Rightarrow> string) \<Rightarrow> string \<Rightarrow> order option \<Rightarrow> string \<Rightarrow> ('p, saga_snapshot) app" where
  "settle_order P payload_builder saga_id order actor_id =
     (case (case order of None \<Rightarrow> None | Some x \<Rightarrow> or_provider_order_id x) of
        None \<Rightarrow> raise AssertionError
      | Some poid \<Rightarrow>
          bind (logged ''fetch_payments'' (port_fetch_payments P poid)) (\<lambda>payments.
          case payments of
            [] \<Rightarrow> raise IndexError
          | payment # _ \<Rightarrow>
              bind (gets provider) (\<lambda>p.
              complete_purchase P saga_id poid (py_id payment) (payload_builder p poid (py_id payment)) actor_id)))"

definition attempt_purchase ::
  "'p payment_port \<Rightarrow> ('p \<Rightarrow> string \<Rightarrow> string \<Rightarrow> string) \<Rightarrow> mandate \<Rightarrow> string \<Rightarrow> int \<Rightarrow> string \<Rightarrow> string \<Rightarrow> ('p, (string \<times> int) option) app" where
  "attempt_purchase P payload_builder m sku nights actor_id trace_id =
     bind (quote_and_item m sku nights actor_id) (\<lambda>(quote, item).
     bind (propose_quote P m quote item trace_id actor_id) (\<lambda>answer.
     if \<not> accepted_body answer then return None
     else
       let order_id = body_str ''order_id'' answer; saga_id = body_str ''saga_id'' answer in
       bind (tag_order order_id ''growth_simulation'') (\<lambda>order.
       bind (settle_order P payload_builder saga_id order actor_id) (\<lambda>result.
       return (if ss_status result \<noteq> ''COMPLETED'' then None else Some (order_id, q_total_minor quote))))))"

record rng =
  rg_random :: "string \<Rightarrow> rat"
  rg_randint :: "string \<Rightarrow> int \<Rightarrow> int \<Rightarrow> int"

definition rng_seed :: "string \<Rightarrow> string \<Rightarrow> nat \<Rightarrow> string" where
  "rng_seed seed purpose index = seed @ '':'' @ purpose @ '':'' @ show_nat index"

definition emit :: "('p, unit) app \<Rightarrow> ('p, unit) app" where
  "emit event = with_uow (bind event (\<lambda>_. commit))"

definition session_result :: "string \<Rightarrow> string \<Rightarrow> bool \<Rightarrow> string option \<Rightarrow> bool \<Rightarrow> bool \<Rightarrow> string option \<Rightarrow> session_outcome" where
  "session_result session_id arm converted base_order offered accepted upsell_order =
     \<lparr>so_session_id = session_id, so_arm = arm, so_converted = converted, so_base_order_id = base_order,
      so_upsell_offered = offered, so_upsell_accepted = accepted, so_upsell_order_id = upsell_order\<rparr>"

text \<open>The part of \<open>run_session\<close> after the base purchase, in the arm with upsell.\<close>

definition upsell_part ::
  "'p payment_port \<Rightarrow> ('p \<Rightarrow> string \<Rightarrow> string \<Rightarrow> string) \<Rightarrow> rng \<Rightarrow> string \<Rightarrow> nat \<Rightarrow> string \<Rightarrow> string \<Rightarrow> string \<Rightarrow> string \<Rightarrow> ('p, session_outcome) app" where
  "upsell_part P payload_builder G seed index arm session_id actor_id base_order_id =
     bind (emit (emit_upsell_offered session_id arm upsell_sku)) (\<lambda>_.
     if \<not> rg_random G (rng_seed seed ''upsell'' index) < upsell_accept_probability then
       return (session_result session_id arm True (Some base_order_id) True False None)
     else
       bind (emit (emit_upsell_accepted session_id arm upsell_sku)) (\<lambda>_.
       bind (build_growth_mandate
               (rg_randint G (rng_seed seed ''upsell_budget'' index) (fst upsell_mandate_budget_range_minor)
                 (snd upsell_mandate_budget_range_minor)) upsell_nights) (\<lambda>upsell_mandate.
       bind (lock_mandate upsell_mandate) (\<lambda>_.
       bind (new_id ''trc'') (\<lambda>trace_id.
       bind (attempt_purchase P payload_builder upsell_mandate upsell_sku upsell_nights actor_id trace_id) (\<lambda>upsell.
       case upsell of
         None \<Rightarrow> return (session_result session_id arm True (Some base_order_id) True True None)
       | Some (upsell_order_id, upsell_total_minor) \<Rightarrow>
           bind (emit (emit_order_completed session_id arm upsell_order_id upsell_total_minor ''INR'')) (\<lambda>_.
           return (session_result session_id arm True (Some base_order_id) True True (Some upsell_order_id)))))))))"

definition run_session ::
  "'p payment_port \<Rightarrow> ('p \<Rightarrow> string \<Rightarrow> string \<Rightarrow> string) \<Rightarrow> rng \<Rightarrow> string \<Rightarrow> string \<Rightarrow> nat \<Rightarrow> ('p, session_outcome) app" where
  "run_session P payload_builder G seed arm index =
     bind (new_id ''sess'') (\<lambda>session_id.
     let actor_id = ''agt_growth_'' @ arm @ ''_'' @ show_nat index in
     bind (emit (emit_session_started session_id arm)) (\<lambda>_.
     if \<not> rg_random G (rng_seed seed ''convert'' index) < conversion_probability then
       return (session_result session_id arm False None False False None)
     else
       bind (build_growth_mandate base_mandate_budget_minor base_nights) (\<lambda>mandate.
       bind (lock_mandate mandate) (\<lambda>_.
       bind (new_id ''trc'') (\<lambda>trace_id.
       bind (attempt_purchase P payload_builder mandate base_sku base_nights actor_id trace_id) (\<lambda>base.
       case base of
         None \<Rightarrow> return (session_result session_id arm True None False False None)
       | Some (base_order_id, base_total_minor) \<Rightarrow>
           bind (emit (emit_order_completed session_id arm base_order_id base_total_minor ''INR'')) (\<lambda>_.
           if arm \<noteq> arm_upsell then return (session_result session_id arm True (Some base_order_id) False False None)
           else upsell_part P payload_builder G seed index arm session_id actor_id base_order_id)))))))"

definition run_growth_simulation ::
  "'p payment_port \<Rightarrow> ('p \<Rightarrow> string \<Rightarrow> string \<Rightarrow> string) \<Rightarrow> rng \<Rightarrow> string \<Rightarrow> nat \<Rightarrow> ('p, session_outcome list) app" where
  "run_growth_simulation P payload_builder G seed sessions =
     bind seed_growth_catalog (\<lambda>_.
     bind (for_each [0..<sessions] (run_session P payload_builder G seed arm_baseline)) (\<lambda>baseline.
     bind (for_each [0..<sessions] (run_session P payload_builder G seed arm_upsell)) (\<lambda>upsell.
     return (baseline @ upsell))))"

section \<open>A purchase changes nothing of the others\<close>

text \<open>
  The third observation: what other processes do. No program of this one changes it.
\<close>

interpretation sole: observation others
  by unfold_locales (simp_all add: local_step_def)

lemma external_sole: "external nm m \<Longrightarrow> unchanged others m"
  by (auto simp: external_def external_step_def unchanged_def)

context provider_port
begin

lemma saga_sole:
  "unchanged others (begin_purchase P req)" "unchanged others (complete_purchase P sid poid pid sig actor)"
proof -
  have marks: "local (mark_settled s :: ('p, unit) app)" "local (reload sid' :: ('p, saga) app)" "local (poll_once key :: ('p, order option) app)"
    for s sid' key
    unfolding mark_settled_def reload_def poll_once_def by (auto intro!: local_rules split: option.split)
  note leaf = sole.local_unchanged [OF local_mark_compensated] sole.local_unchanged [OF local_fail_unless]
    sole.local_unchanged [OF marks(1)] sole.local_unchanged [OF marks(2)]
  have ports: "unchanged others (call_with_retry (logged ''refund'' (port_refund P p a k)))"
    "unchanged others (call_with_retry (logged ''capture'' (port_capture P p a)))"
    "unchanged others (call_with_retry (logged ''create_order'' (port_create_order P a c k ns)))"
    "unchanged others (logged ''fetch_payments'' (port_fetch_payments P poid))" for p a k c ns
    by (rule external_sole external_call external_logged refund_outside capture_outside create_outside fetch_outside)+
  have trace: "unchanged others (fresh_trace t :: ('p, string) app)" for t
    unfolding fresh_trace_def by (intro sole.rules)
  have fin: "unchanged others (finalize sid step status :: ('p, saga_snapshot) app)" for step status
    unfolding finalize_def by (intro sole.rules leaf)
  have void: "unchanged others (void_saga s sid oid actor trace reason :: ('p, saga_snapshot) app)" for s oid trace reason
    unfolding void_saga_def void_order_and_release_reservation_def by (intro sole.rules leaf fin)
  have failed: "unchanged others (capture_failed oid actor tr decline reason sh exc :: ('p, 'z) app)" for oid tr decline reason sh exc
    unfolding capture_failed_def by (intro sole.rules)
  have s4: "unchanged others (s4_capture P s oid poid pid sig actor trace)" for s oid trace
    unfolding s4_capture_def verify_and_capture_def by (intro sole.rules trace failed ports)
  have s5: "unchanged others (s5_settle P s sid oid pid actor trace)" for s oid trace
    unfolding s5_settle_def refund_and_reverse_settlement_def by (intro sole.rules leaf fin ports)
  show "unchanged others (complete_purchase P sid poid pid sig actor)"
    unfolding complete_purchase_def authorize_and_settle_def by (intro sole.rules void s4 s5 ports)
  have poll: "unchanged others (poll_loop n key :: ('p, order) app)" for n key
    by (induction n) (auto intro!: sole.rules sole.local_unchanged [OF marks(3)] simp: poll_once_def)
  have create: "unchanged others (create_provider_order P q)" for q
    unfolding create_provider_order_def provider_phase_def complete_phase_def fail_phase_def claim_phase_def
      await_in_flight_completion_def Let_def
    by (intro sole.rules trace ports poll)
  have gates: "unchanged others (attempt_g1_through_g5 req key :: ('p, reason_code option) app)" for key
    unfolding attempt_g1_through_g5_def run_g1_through_g5_def gated_def gate_g1_def gate_g2_def gate_g3_def gate_g4_def gate_g5_def
      record_reservation_def open_execution_def Let_def
    by (auto intro!: sole.rules split: list.split)
  have compensate: "unchanged others (compensate req key reason :: ('p, unit) app)" for key reason
    unfolding compensate_def release_reservation_and_mark_compensated_def c1_body_def by (intro sole.rules leaf)
  have handler: "unchanged others (handle_execution req key exc :: ('p, money_action_result) app)" for key exc
    unfolding handle_execution_def by (auto intro!: sole.rules compensate split: exn.split)
  have "unchanged others (execute_money_action P req)"
    unfolding execute_money_action_def attempt_def run_g6_g7_execute_def Let_def
    by (intro sole.rules gates create handler)
  then show "unchanged others (begin_purchase P req)"
    unfolding begin_purchase_def s1_reserve_def s2_record_def
    by (intro sole.rules leaf)
qed

lemma propose_sole: "unchanged others (handle_order_propose P req trace actor)"
  unfolding handle_order_propose_def propose_phase_def decide_and_record_def
  by (auto intro!: sole.rules saga_sole(1) split: sum.split list.split)

end

section \<open>The simulation keeps the invariants\<close>

locale growth_db = commerce_db P J bound cap for P :: "'p payment_port" and J bound cap +
  assumes outbox_free: "J (d\<lparr>outbox := es\<rparr>) = J d"

context commerce_db
begin

lemma upsert_guarded: "guarded J (catalog_upsert_item i :: ('p, unit) app)"
proof -
  have "J (d\<lparr>catalog_items := xs\<rparr>) = J d" for d xs
    using catalog_free [of xs "catalog_meta d" d] by simp
  then show ?thesis unfolding catalog_upsert_item_def by (intro guarded_db_insert) simp
qed

lemma set_source_guarded: "guarded J (orders_set_source oid src :: ('p, unit) app)"
  unfolding orders_set_source_def by (intro guarded_db_call) (auto simp: orders_free split: if_splits)

lemma lab_steps_keep:
  "keeps (steady J) (seed_growth_catalog :: ('p, unit) app)"
  "keeps (steady J) (lock_mandate m :: ('p, unit) app)"
  "keeps (steady J) (quote_and_item m sku nights actor :: ('p, quote \<times> catalog_item) app)"
  "keeps (steady J) (propose_quote P m q item trace actor)"
  "keeps (steady J) (tag_order oid src :: ('p, order option) app)"
  "keeps (steady J) (settle_order P payload_builder sid order actor)"
proof -
  show "keeps (steady J) (seed_growth_catalog :: ('p, unit) app)"
    unfolding seed_growth_catalog_def by (intro keeps_with_uow guarded_rules upsert_guarded TrueI)
  show "keeps (steady J) (lock_mandate m :: ('p, unit) app)"
    unfolding lock_mandate_def by (intro keeps_with_uow guarded_rules TrueI)
  show "keeps (steady J) (quote_and_item m sku nights actor :: ('p, quote \<times> catalog_item) app)"
    unfolding quote_and_item_def by (intro keeps_rules keeps_with_uow guarded_rules TrueI)
  show "keeps (steady J) (propose_quote P m q item trace actor)"
    unfolding propose_quote_def by (intro keeps_rules handlers_keep)
  show "keeps (steady J) (tag_order oid src :: ('p, order option) app)"
    unfolding tag_order_def by (intro keeps_with_uow guarded_rules set_source_guarded TrueI)
  show "keeps (steady J) (settle_order P payload_builder sid order actor)"
    unfolding settle_order_def
    by (auto intro!: keeps_rules complete_keeps keeps_external [OF external_logged [OF fetch_outside]] split: option.split list.split)
qed

lemma attempt_keeps: "keeps (steady J) (attempt_purchase P payload_builder m sku nights actor trace)"
  unfolding attempt_purchase_def Let_def by (intro keeps_rules lab_steps_keep)

end

lemma local_lab_mandate: "local (sign_lab_mandate key_id draft)" "local (build_growth_mandate budget nights)"
  unfolding build_growth_mandate_def sign_lab_mandate_def by (intro local_rules)+

context growth_db
begin

lemma emit_keeps:
  "keeps (steady J) (emit (emit_session_started sid arm) :: ('p, unit) app)"
  "keeps (steady J) (emit (emit_upsell_offered sid arm sku) :: ('p, unit) app)"
  "keeps (steady J) (emit (emit_upsell_accepted sid arm sku) :: ('p, unit) app)"
  "keeps (steady J) (emit (emit_order_completed sid arm oid price cur) :: ('p, unit) app)"
  unfolding emit_def emit_session_started_def emit_upsell_offered_def emit_upsell_accepted_def emit_order_completed_def outbox_add_def
  by (intro keeps_with_uow guarded_rules guarded_db_write TrueI; simp add: outbox_free)+

lemma simulation_keeps: "keeps (steady J) (run_growth_simulation P payload_builder G seed n)"
proof -
  note steps = emit_keeps lab_steps_keep attempt_keeps keeps_local [OF local_lab_mandate(2)]
  have "keeps (steady J) (run_session P payload_builder G seed arm i)" for arm i
    unfolding run_session_def upsell_part_def Let_def by (intro keeps_rules steps keeps_local local_rules)
  then show ?thesis unfolding run_growth_simulation_def by (intro keeps_rules steps)
qed

end

sublocale provider_port < grown: growth_db P "log_extends L" any_ref any_cap for L
  by unfold_locales (simp add: log_extends_def audit_ok_def)

section \<open>The outbox holds the facts of the sessions\<close>

text \<open>No program but the simulation writes the outbox.\<close>

lemma outbox_guarded_ledger:
  "guarded (\<lambda>d. outbox d = X) (add_movements mvs rt ref)" "guarded (\<lambda>d. outbox d = X) (append_entry t y a act subj pay)"
  by (rule yields_local, auto intro: local_rules wp_mono [OF preserves_wp [OF preserves_ledger(3) [where f = outbox]]]
      wp_mono [OF preserves_wp [OF preserves_append_entry [where f = outbox]]])+

sublocale provider_port < outboxed: commerce_db P "\<lambda>d. outbox d = X" any_ref any_cap for X
proof
  show "guarded (\<lambda>d. outbox d = X) (sweep ttl :: ('p, string list) app)" for ttl
    unfolding sweep_def sweep_one_def Let_def mandates_get_for_update_def ledger_list_for_ref_id_def raise_if_halted_def
      ledger_list_reservations_older_than_def integrity_get_state_def
    by (auto intro!: guarded_rules outbox_guarded_ledger guarded_db_call split: option.splits)
qed (auto intro!: preserves_keeps [OF preserves_ledger(1) [where f = outbox]] preserves_keeps [OF preserves_ledger(2) [where f = outbox]]
      wp_mono [OF preserves_wp [OF preserves_append_entry [where f = outbox]]])

text \<open>
  A fact of a session: what happened, in which session and arm. \<open>session_facts\<close> is what a session with
  a given outcome should have recorded.
\<close>

type_synonym fact = "string \<times> string \<times> json option"

definition fact_of :: "outbox_event \<Rightarrow> fact" where
  "fact_of e = (ob_event_type e, ob_aggregate_id e, jget ''arm'' (ob_payload e))"

definition session_facts :: "session_outcome \<Rightarrow> fact list" where
  "session_facts r =
     (let fact = (\<lambda>ty. (ty, so_session_id r, Some (JStr (so_arm r)))) in
      [fact ''session.started''] @
      (if so_base_order_id r = None then [] else [fact ''order.completed'']) @
      (if so_upsell_offered r then [fact ''upsell.offered''] else []) @
      (if so_upsell_accepted r then [fact ''upsell.accepted''] else []) @
      (if so_upsell_order_id r = None then [] else [fact ''order.completed'']))"

definition facts :: "'p world \<Rightarrow> fact list" where
  "facts w = map fact_of (outbox (durable w))"

definition alone :: "'p world \<Rightarrow> bool" where
  "alone w \<longleftrightarrow> (\<forall>n d. outbox (others w n d) = outbox d)"

text \<open>
  \<open>completes A m F\<close>: when \<open>A\<close> has been recorded since the start, then after \<open>m\<close> returned
  \<open>r\<close>, it is \<open>F r\<close>.
\<close>

definition completes :: "fact list \<Rightarrow> ('p, 'a) app \<Rightarrow> ('a \<Rightarrow> fact list) \<Rightarrow> bool" where
  "completes A m F \<longleftrightarrow>
     (\<forall>w start. alone w \<longrightarrow> facts w = start @ A \<longrightarrow>
        wp m (\<lambda>r w'. alone w' \<and> facts w' = start @ F r) (\<lambda>e w'. True) w)"

abbreviation quiet :: "('p, 'a) app \<Rightarrow> bool" where
  "quiet m \<equiv> (\<forall>A. completes A m (\<lambda>r. A))"

lemma completes_return: "F r = A \<Longrightarrow> completes A (return r) F"
  by (simp add: completes_def)

lemma completes_bind: "completes A m (\<lambda>r. B) \<Longrightarrow> (\<And>x. completes B (f x) F) \<Longrightarrow> completes A (bind m f) F"
  unfolding completes_def wp_bind by (blast intro: wp_mono)

lemma completes_quiet: "quiet m \<Longrightarrow> (\<And>x. completes A (f x) F) \<Longrightarrow> completes A (bind m f) F"
  by (rule completes_bind) blast+

lemma completes_cases:
  "completes A m F \<Longrightarrow> completes A n F \<Longrightarrow> completes A (if b then m else n) F"
  "completes A m F \<Longrightarrow> (\<And>x. completes A (g x) F) \<Longrightarrow> completes A (case v of None \<Rightarrow> m | Some x \<Rightarrow> g x) F"
  "(\<And>x y. completes A (h x y) F) \<Longrightarrow> completes A (case u of (x, y) \<Rightarrow> h x y) F"
  by (simp_all split: option.split prod.split)

lemma quietI:
  assumes "\<And>X. keeps (steady (\<lambda>d. outbox d = X)) m" "unchanged others m"
  shows "quiet m"
  unfolding completes_def
proof (intro allI impI)
  fix A start and w :: "'a world"
  assume w: "alone w" "facts w = start @ A"
  then have "steady (\<lambda>d. outbox d = outbox (durable w)) w" by (simp add: steady_def alone_def)
  with assms(1) have "wp m (\<lambda>r w'. steady (\<lambda>d. outbox d = outbox (durable w)) w') (\<lambda>e w'. True) w"
    by (auto simp: keeps_wp intro: wp_mono)
  from wp_conj [OF this unchanged_wp [OF assms(2)]] w
  show "wp m (\<lambda>r w'. alone w' \<and> facts w' = start @ A) (\<lambda>e w'. True) w"
    by (auto simp: steady_def alone_def facts_def intro: wp_mono)
qed

lemma quiet_local: "local m \<Longrightarrow> quiet m"
  by (rule quietI) (auto intro: keeps_local sole.local_unchanged)

lemma emit_completes:
  assumes "fact_of (e\<lparr>ob_published_at := None\<rparr>) = f"
  shows "completes A (emit (outbox_add e)) (\<lambda>r. A @ [f])"
  using assms
  by (auto simp: completes_def emit_def outbox_add_def wp_with_uow alone_def facts_def)

lemma emits_complete:
  "completes A (emit (emit_session_started sid arm)) (\<lambda>r. A @ [(''session.started'', sid, Some (JStr arm))])"
  "completes A (emit (emit_upsell_offered sid arm sku)) (\<lambda>r. A @ [(''upsell.offered'', sid, Some (JStr arm))])"
  "completes A (emit (emit_upsell_accepted sid arm sku)) (\<lambda>r. A @ [(''upsell.accepted'', sid, Some (JStr arm))])"
  "completes A (emit (emit_order_completed sid arm oid price cur)) (\<lambda>r. A @ [(''order.completed'', sid, Some (JStr arm))])"
  unfolding emit_session_started_def emit_upsell_offered_def emit_upsell_accepted_def emit_order_completed_def
  by (rule emit_completes, simp add: fact_of_def session_event_def)+

context provider_port
begin

lemma steps_quiet:
  "quiet (seed_growth_catalog :: ('p, unit) app)" "quiet (lock_mandate m :: ('p, unit) app)"
  "quiet (attempt_purchase P payload_builder m sku nights actor trace)"
proof -
  have upsert: "local (catalog_upsert_item i :: ('p, unit) app)" "local (orders_set_source oid src :: ('p, unit) app)" for i oid src
    unfolding catalog_upsert_item_def orders_set_source_def by (intro local_rules)+
  have quote: "unchanged others (create_quote mid sku nights actor :: ('p, quote) app)" for mid sku nights actor
    unfolding create_quote_def by (intro sole.rules)
  have u: "unchanged others (seed_growth_catalog :: ('p, unit) app)" "unchanged others (lock_mandate m :: ('p, unit) app)"
    unfolding seed_growth_catalog_def lock_mandate_def by (intro sole.rules sole.local_unchanged [OF upsert(1)])+
  show "quiet (seed_growth_catalog :: ('p, unit) app)" by (rule quietI [OF outboxed.lab_steps_keep(1) u(1)])
  show "quiet (lock_mandate m :: ('p, unit) app)" by (rule quietI [OF outboxed.lab_steps_keep(2) u(2)])
  have fetch: "unchanged others (logged ''fetch_payments'' (port_fetch_payments P poid))" for poid
    by (rule external_sole external_logged fetch_outside)+
  have "unchanged others (attempt_purchase P payload_builder m sku nights actor trace)"
    unfolding attempt_purchase_def quote_and_item_def propose_quote_def tag_order_def settle_order_def Let_def
    by (auto intro!: sole.rules saga_sole propose_sole fetch sole.local_unchanged [OF upsert(2)] quote
        split: option.split list.split)
  then show "quiet (attempt_purchase P payload_builder m sku nights actor trace)"
    by (rule quietI [OF outboxed.attempt_keeps])
qed

lemma session_completes: "completes A (run_session P payload_builder G seed arm i) (\<lambda>r. A @ session_facts r)"
proof -
  have q: "quiet (new_id p :: ('p, string) app)" "quiet (build_growth_mandate b nights :: ('p, mandate) app)" for p b nights
    by (intro quiet_local local_rules local_lab_mandate)+
  show ?thesis
    unfolding run_session_def upsell_part_def Let_def
    by (intro completes_quiet [OF q(1)] completes_quiet [OF q(2)] completes_quiet [OF steps_quiet(2)] completes_quiet [OF steps_quiet(3)]
        completes_bind [OF emits_complete(1)] completes_bind [OF emits_complete(2)] completes_bind [OF emits_complete(3)]
        completes_bind [OF emits_complete(4)] completes_cases completes_return)
      (simp_all add: session_facts_def session_result_def)
qed

lemma sessions_complete:
  "completes A (for_each is (run_session P payload_builder G seed arm)) (\<lambda>rs. A @ concat (map session_facts rs))"
proof (induction "is" arbitrary: A)
  case (Cons i xs)
  show ?case
    unfolding completes_def for_each.simps wp_bind
  proof (intro allI impI)
    fix w :: "'p world" and start
    assume w: "alone w" "facts w = start @ A"
    have rest: "wp (for_each xs (run_session P payload_builder G seed arm))
        (\<lambda>rs. wp (return (r # rs)) (\<lambda>rs w'. alone w' \<and> facts w' = start @ A @ concat (map session_facts rs)) (\<lambda>e w'. True)) (\<lambda>e w'. True) u"
      if "alone u" "facts u = start @ A @ session_facts r" for r u
    proof -
      have "wp (for_each xs (run_session P payload_builder G seed arm))
          (\<lambda>rs w'. alone w' \<and> facts w' = start @ A @ session_facts r @ concat (map session_facts rs)) (\<lambda>e w'. True) u"
        using Cons.IH [of "A @ session_facts r"] that by (simp add: completes_def)
      then show ?thesis by (rule wp_mono) simp_all
    qed
    show "wp (run_session P payload_builder G seed arm i) (\<lambda>r. wp (for_each xs (run_session P payload_builder G seed arm))
        (\<lambda>rs. wp (return (r # rs)) (\<lambda>rs w'. alone w' \<and> facts w' = start @ A @ concat (map session_facts rs)) (\<lambda>e w'. True))
        (\<lambda>e w'. True)) (\<lambda>e w'. True) w"
    proof -
      have "wp (run_session P payload_builder G seed arm i) (\<lambda>r w'. alone w' \<and> facts w' = start @ A @ session_facts r) (\<lambda>e w'. True) w"
        using session_completes [of A payload_builder G seed arm i] w by (simp add: completes_def)
      then show ?thesis by (rule wp_mono) (simp_all only: rest)
    qed
  qed
qed (simp add: completes_return)

end


context provider_port
begin

lemma simulation_facts:
  assumes "alone w"
  shows "wp (run_growth_simulation P payload_builder G seed n)
    (\<lambda>rs w'. alone w' \<and> facts w' = facts w @ concat (map session_facts rs)) (\<lambda>e w'. True) w"
proof -
  let ?run = "\<lambda>arm. for_each [0..<n] (run_session P payload_builder G seed arm)"
  have final: "wp (?run arm_upsell) (\<lambda>us. wp (return (bs @ us)) (\<lambda>rs w'. alone w' \<and> facts w' = facts w @ concat (map session_facts rs)) (\<lambda>e w'. True))
      (\<lambda>e w'. True) u" if "alone u" "facts u = facts w @ concat (map session_facts bs)" for bs u
  proof -
    have "wp (?run arm_upsell) (\<lambda>us w'. alone w' \<and> facts w' = facts w @ concat (map session_facts bs) @ concat (map session_facts us)) (\<lambda>e w'. True) u"
      using sessions_complete [of "concat (map session_facts bs)" "[0..<n]" payload_builder G seed arm_upsell] that by (simp add: completes_def)
    then show ?thesis by (rule wp_mono) simp_all
  qed
  have base: "wp (?run arm_baseline) (\<lambda>bs. wp (bind (?run arm_upsell) (\<lambda>us. return (bs @ us)))
      (\<lambda>rs w'. alone w' \<and> facts w' = facts w @ concat (map session_facts rs)) (\<lambda>e w'. True)) (\<lambda>e w'. True) u"
    if "alone u" "facts u = facts w" for u
  proof -
    have "wp (?run arm_baseline) (\<lambda>bs w'. alone w' \<and> facts w' = facts w @ concat (map session_facts bs)) (\<lambda>e w'. True) u"
      using sessions_complete [of "[]" "[0..<n]" payload_builder G seed arm_baseline, unfolded completes_def, rule_format, of u "facts w"] that
      by simp
    then show ?thesis by (rule wp_mono) (simp_all only: wp_bind final)
  qed
  have "wp seed_growth_catalog (\<lambda>r w'. alone w' \<and> facts w' = facts w) (\<lambda>e w'. True) w"
    using steps_quiet(1) [rule_format, of "[]", unfolded completes_def, rule_format, of w "facts w"] assms by simp
  then show ?thesis
    unfolding run_growth_simulation_def wp_bind [of seed_growth_catalog] wp_bind [of "?run arm_baseline"]
    by (rule wp_mono) (use base in \<open>simp_all only: wp_bind\<close>)
qed

end

context provider_port
begin

lemmas simulation_log = grown.simulation_keeps

end

text \<open>What the metrics of an arm should say of a list of outcomes.\<close>

definition counted :: "string \<Rightarrow> session_outcome list \<Rightarrow> int \<times> int \<times> int \<times> int" where
  "counted arm rs =
     (let mine = filter (\<lambda>r. so_arm r = arm) rs; number = (\<lambda>p. int (length (filter p mine))) in
      (int (length mine), number (\<lambda>r. so_base_order_id r \<noteq> None) + number (\<lambda>r. so_upsell_order_id r \<noteq> None),
       number so_upsell_offered, number so_upsell_accepted))"

definition tally :: "string \<Rightarrow> string \<Rightarrow> fact list \<Rightarrow> int" where
  "tally ty arm fs = int (length (filter (\<lambda>f. fst f = ty \<and> snd (snd f) = Some (JStr arm)) fs))"

lemma tally_append [simp]: "tally ty arm (fs @ gs) = tally ty arm fs + tally ty arm gs" "tally ty arm [] = 0"
  by (simp_all add: tally_def)

lemma tally_outbox: "int (length (filter (in_arm ty arm) es)) = tally ty arm (map fact_of es)"
  by (induction es) (auto simp: tally_def in_arm_def fact_of_def)

lemma tally_sessions:
  "(tally ''session.started'' arm (concat (map session_facts rs)), tally ''order.completed'' arm (concat (map session_facts rs)),
    tally ''upsell.offered'' arm (concat (map session_facts rs)), tally ''upsell.accepted'' arm (concat (map session_facts rs)))
   = counted arm rs"
  by (induction rs) (auto simp: tally_def counted_def session_facts_def Let_def)

definition metrics_agree :: "session_outcome list \<Rightarrow> arm_metrics \<Rightarrow> bool" where
  "metrics_agree rs m \<longleftrightarrow> (am_sessions m, am_orders m, am_upsell_offered m, am_upsell_accepted m) = counted (am_arm m) rs"

lemma wp_arm_metrics:
  assumes "map fact_of (outbox (session w)) = concat (map session_facts rs)"
  shows "wp (arm_metrics_of arm) (\<lambda>m w'. am_arm m = arm \<and> metrics_agree rs m \<and> session w' = session w) (\<lambda>e w'. True) w"
  using assms
  by (simp add: tally_sessions [symmetric] arm_metrics_of_def outbox_count_by_event_type_and_arm_def outbox_sum_order_total_minor_def wp_db_call metrics_agree_def
      tally_outbox split: sum.split)

lemma wp_growth_metrics:
  assumes "facts w = concat (map session_facts rs)" "alone w"
  shows "wp (with_uow compute_growth_metrics) (\<lambda>m w'. metrics_agree rs (gm_baseline m) \<and> metrics_agree rs (gm_upsell m)) (\<lambda>e w'. True) w"
proof -
  let ?w1 = "w\<lparr>durable := began w, session := began w, transactions := Suc (transactions w)\<rparr>"
  have w1: "map fact_of (outbox (session ?w1)) = concat (map session_facts rs)"
    using assms by (simp add: began_def facts_def alone_def)
  have second: "wp (arm_metrics_of arm_upsell) (\<lambda>u. wp (return \<lparr>gm_baseline = b, gm_upsell = u, gm_revenue_uplift = revenue_uplift b u\<rparr>)
      (\<lambda>m w'. metrics_agree rs (gm_baseline m) \<and> metrics_agree rs (gm_upsell m)) (\<lambda>e w'. True)) (\<lambda>e w'. True) v"
    if "metrics_agree rs b" "session v = session ?w1" for b v
    by (rule wp_mono [OF wp_arm_metrics [of v rs arm_upsell]]) (use that w1 in simp_all)
  have "wp compute_growth_metrics (\<lambda>m w'. metrics_agree rs (gm_baseline m) \<and> metrics_agree rs (gm_upsell m)) (\<lambda>e w'. True) ?w1"
    unfolding compute_growth_metrics_def wp_bind [of "arm_metrics_of arm_baseline"]
    by (rule wp_mono [OF wp_arm_metrics [OF w1]]) (auto simp only: wp_bind intro!: second)
  then show ?thesis unfolding wp_with_uow began_def [symmetric] by (rule wp_mono) simp_all
qed

definition simulate_and_measure ::
  "'p payment_port \<Rightarrow> ('p \<Rightarrow> string \<Rightarrow> string \<Rightarrow> string) \<Rightarrow> rng \<Rightarrow> string \<Rightarrow> nat \<Rightarrow> ('p, session_outcome list \<times> growth_metrics) app" where
  "simulate_and_measure P payload_builder G seed n =
     bind (run_growth_simulation P payload_builder G seed n) (\<lambda>rs.
     bind (with_uow compute_growth_metrics) (\<lambda>m. return (rs, m)))"


definition sample_rng :: rng where
  "sample_rng = \<lparr>rg_random = (\<lambda>s. 1 / 2), rg_randint = (\<lambda>s lo hi. hi)\<rparr>"


text \<open>The simulation extends the audit log and leaves it valid, like every endpoint.\<close>

theorem growth_extends_log:
  assumes "provider_port P" "log_extends L (durable w)" "\<And>n d. log_extends L d \<Longrightarrow> log_extends L (others w n d)"
  shows "log_extends L (durable (snd (run_growth_simulation P payload_builder G seed n w)))"
proof -
  have "steady (log_extends L) w" using assms(2,3) by (simp add: steady_def)
  from keepsD [OF provider_port.simulation_log [OF assms(1)] this] show ?thesis by (simp add: steady_def)
qed

end
