(* ===== verification/Explain.thy ===== *)
theory Explain
  imports Http_Api
begin

text \<open>
  The explanation of an order (\<open>application/explain_service.py\<close>): the timeline put together from the
  audit log, the mandate, the decision and the webhook events, with the checkpoint that covers it, and
  the two endpoints that serve it (\<open>routers/audit.py\<close>, \<open>buyer_explain\<close> of \<open>routers/buyer.py\<close>).
  The times at which the database inserted a row are columns that no statement of the program writes;
  they are given by \<open>row_times\<close>.

  Shown is that the timeline is complete, holds nothing else and is ordered, that the anchor is that of
  the checkpoint over its last entry, and that a part of a valid log always verifies.
\<close>

section \<open>Reading\<close>

record row_times =
  rt_audit_ts :: "int \<Rightarrow> datetime"
  rt_mandate_created_at :: "string \<Rightarrow> datetime"
  rt_webhook_received_at :: "string \<Rightarrow> datetime"

definition names :: "string \<Rightarrow> string \<Rightarrow> audit_row \<Rightarrow> bool" where
  "names k v r \<longleftrightarrow> jget k (al_subject r) = Some (JStr v)"

definition for_explain :: "string \<Rightarrow> string \<Rightarrow> string \<Rightarrow> audit_row \<Rightarrow> bool" where
  "for_explain oid mid qid r \<longleftrightarrow>
     names ''order_id'' oid r \<or> names ''mandate_id'' mid r \<or> names ''quote_id'' qid r"

definition audit_get_for_explain :: "string \<Rightarrow> string \<Rightarrow> string \<Rightarrow> ('p, audit_row list) app" where
  "audit_get_for_explain oid mid qid =
     db_read (\<lambda>d. sort_key al_seq (filter (for_explain oid mid qid) (audit_log d)))"

definition mandates_get_created_at :: "row_times \<Rightarrow> string \<Rightarrow> ('p, datetime option) app" where
  "mandates_get_created_at T mid =
     db_read (\<lambda>d. case mandates d mid of None \<Rightarrow> None | Some x \<Rightarrow> Some (rt_mandate_created_at T mid))"

definition webhooks_list_all :: "('p, webhook_event list) app" where
  "webhooks_list_all = db_read webhook_events"

definition covers :: "audit_checkpoint \<Rightarrow> int \<Rightarrow> bool" where
  "covers c seq \<longleftrightarrow> ac_from_seq c \<le> seq \<and> seq \<le> ac_to_seq c"

definition covering :: "audit_checkpoint list \<Rightarrow> int \<Rightarrow> audit_checkpoint option" where
  "covering cps seq =
     (case sort_key ac_to_seq (filter (\<lambda>c. covers c seq) cps) of [] \<Rightarrow> None | c # _ \<Rightarrow> Some c)"

definition checkpoints_get_covering_seq :: "int \<Rightarrow> ('p, audit_checkpoint option) app" where
  "checkpoints_get_covering_seq seq = db_read (\<lambda>d. covering (audit_checkpoints d) seq)"

section \<open>The timeline\<close>

datatype timeline_type = Fact | Decision | Provider_event | Compensation

fun type_value :: "timeline_type \<Rightarrow> string" where
  "type_value Fact = ''fact''"
| "type_value Decision = ''decision''"
| "type_value Provider_event = ''provider_event''"
| "type_value Compensation = ''compensation''"

definition item_type_by_action :: "(string \<times> timeline_type) list" where
  "item_type_by_action =
     [(action_value MANDATE_LOCKED, Fact), (action_value MANDATE_REVOKED_EVENT, Fact), (action_value QUOTE_ISSUED, Fact),
      (action_value ORDER_PROPOSED, Fact), (action_value BUDGET_RESERVED, Fact), (action_value PAYMENT_INTENT, Fact),
      (action_value PAYMENT_RESULT, Provider_event), (action_value WEBHOOK_RECEIVED, Provider_event),
      (action_value SETTLEMENT_CLOSED, Fact), (action_value COMPENSATION_APPLIED, Compensation),
      (action_value RESERVATION_RELEASED, Compensation), (action_value RESERVATION_EXPIRED, Compensation),
      (action_value MANDATE_EXECUTING, Fact), (''policy.decision'', Decision)]"

record timeline_item =
  ti_ts :: "datetime option"
  ti_type :: timeline_type
  ti_action :: string
  ti_trace_id :: "string option"
  ti_payload :: json
  ti_seq :: "int option"
  ti_entry_hash :: "string option"
  ti_prev_hash :: "string option"
  ti_payload_hash :: "string option"

definition plain_item :: "datetime \<Rightarrow> timeline_type \<Rightarrow> string \<Rightarrow> json \<Rightarrow> timeline_item" where
  "plain_item ts ty action payload =
     \<lparr>ti_ts = Some ts, ti_type = ty, ti_action = action, ti_trace_id = None, ti_payload = payload,
      ti_seq = None, ti_entry_hash = None, ti_prev_hash = None, ti_payload_hash = None\<rparr>"

definition entry_item :: "row_times \<Rightarrow> audit_row \<Rightarrow> timeline_item" where
  "entry_item T e =
     \<lparr>ti_ts = Some (rt_audit_ts T (al_seq e)),
      ti_type = (case map_of item_type_by_action (al_action e) of None \<Rightarrow> Fact | Some ty \<Rightarrow> ty),
      ti_action = al_action e, ti_trace_id = Some (al_trace_id e), ti_payload = al_payload e, ti_seq = Some (al_seq e),
      ti_entry_hash = Some (al_entry_hash e), ti_prev_hash = Some (al_prev_hash e), ti_payload_hash = Some (al_payload_hash e)\<rparr>"

definition mandate_item :: "string \<Rightarrow> datetime \<Rightarrow> timeline_item" where
  "mandate_item mid ts = plain_item ts Fact (action_value MANDATE_LOCKED) (JObj [(''mandate_id'', JStr mid)])"

definition trace_entry_json :: "rule_trace_entry \<Rightarrow> json" where
  "trace_entry_json t =
     JObj [(''rule'', JStr (rt_rule t)), (''input'', rt_input t),
           (''result'', JStr (case rt_result t of Pass \<Rightarrow> ''pass'' | Fail \<Rightarrow> ''fail''))]"

definition decision_item :: "decision_record \<Rightarrow> timeline_item" where
  "decision_item dr =
     plain_item (dr_evaluated_at dr) Decision ''policy.decision''
       (JObj [(''mandate_id'', JStr (dr_mandate_id dr)), (''verdict'', JStr (verdict_value (dr_verdict dr))),
              (''reason_codes'', JList (map (\<lambda>c. JStr (reason_value c)) (dr_reason_codes dr))),
              (''rule_trace'', JList (map trace_entry_json (dr_rule_trace dr)))])"

definition entity_get :: "json \<Rightarrow> string \<Rightarrow> json" where
  "entity_get entity k = (case jget k entity of None \<Rightarrow> JNull | Some v \<Rightarrow> v)"

definition webhook_item :: "row_times \<Rightarrow> string \<Rightarrow> webhook_event \<Rightarrow> timeline_item option" where
  "webhook_item T provider_order_id event =
     (case extract_payment_entity (we_payload event) of
        None \<Rightarrow> None
      | Some entity \<Rightarrow>
          if entity_get entity ''order_id'' \<noteq> JStr provider_order_id then None
          else Some (plain_item (rt_webhook_received_at T (we_provider_event_id event)) Provider_event (action_value WEBHOOK_RECEIVED)
                 (JObj [(''event_type'', JStr (we_event_type event)), (''provider_payment_id'', entity_get entity ''id''),
                        (''status'', entity_get entity ''status'')])))"

definition webhook_items :: "row_times \<Rightarrow> string option \<Rightarrow> ('p, timeline_item list) app" where
  "webhook_items T provider_order_id =
     (case provider_order_id of
        None \<Rightarrow> return []
      | Some pid \<Rightarrow> bind webhooks_list_all (\<lambda>events. return (List.map_filter (webhook_item T pid) events)))"

text \<open>
  The sort key is \<open>(ts is None, ts, seq or 0)\<close>; two times that are \<open>None\<close> are equal and are not
  compared further.
\<close>

definition timeline_key :: "timeline_item \<Rightarrow> bool \<times> int \<times> int" where
  "timeline_key i = (ti_ts i = None, case ti_ts i of None \<Rightarrow> 0 | Some t \<Rightarrow> t, case ti_seq i of None \<Rightarrow> 0 | Some s \<Rightarrow> s)"

record anchor_info =
  an_status :: string
  an_checkpoint_from_seq :: int
  an_checkpoint_to_seq :: int
  an_chain_id :: "int option"
  an_contract_address :: "string option"
  an_tx_hash :: "string option"
  an_explorer_url :: "string option"

definition explorer_tx_url :: "string \<Rightarrow> string" where
  "explorer_tx_url tx_hash = ''https://testnet.monadscan.com/tx/'' @ tx_hash"

definition checkpoint_explorer_url :: "audit_checkpoint \<Rightarrow> string option" where
  "checkpoint_explorer_url c =
     (if ac_anchor_status c = ''anchored''
      then (case ac_anchor_tx c of None \<Rightarrow> None | Some tx \<Rightarrow> if tx = [] then None else Some (explorer_tx_url tx)) else None)"

definition checkpoint_anchor :: "audit_checkpoint \<Rightarrow> anchor_info" where
  "checkpoint_anchor c =
     \<lparr>an_status = ac_anchor_status c, an_checkpoint_from_seq = ac_from_seq c, an_checkpoint_to_seq = ac_to_seq c,
      an_chain_id = ac_anchor_chain_id c, an_contract_address = ac_anchor_contract_address c, an_tx_hash = ac_anchor_tx c,
      an_explorer_url = checkpoint_explorer_url c\<rparr>"

definition anchor_info_for :: "int \<Rightarrow> ('p, anchor_info option) app" where
  "anchor_info_for seq =
     bind (checkpoints_get_covering_seq seq) (\<lambda>checkpoint. return (map_option checkpoint_anchor checkpoint))"

record explain_result =
  ex_order_id :: string
  ex_terminal_status :: string
  ex_timeline :: "timeline_item list"
  ex_anchor :: "anchor_info option"

definition timeline_seqs :: "timeline_item list \<Rightarrow> int list" where
  "timeline_seqs timeline = List.map_filter ti_seq timeline"

definition collected_items ::
  "row_times \<Rightarrow> string \<Rightarrow> audit_row list \<Rightarrow> datetime option \<Rightarrow> decision_record option \<Rightarrow> timeline_item list \<Rightarrow> timeline_item list" where
  "collected_items T mid entries created_at decision events =
     map (entry_item T) entries @
     (case created_at of None \<Rightarrow> [] | Some t \<Rightarrow> [mandate_item mid t]) @
     (case decision of None \<Rightarrow> [] | Some dr \<Rightarrow> [decision_item dr]) @ events"

definition explain_order :: "row_times \<Rightarrow> string \<Rightarrow> ('p, explain_result) app" where
  "explain_order T order_id =
     bind (orders_get order_id) (\<lambda>found.
     case found of
       None \<Rightarrow> raise (OrderNotFoundForExplain order_id)
     | Some order \<Rightarrow>
         bind (audit_get_for_explain order_id (or_mandate_id order) (or_quote_id order)) (\<lambda>entries.
         bind (mandates_get_created_at T (or_mandate_id order)) (\<lambda>created_at.
         bind (decisions_get (or_decision_id order)) (\<lambda>decision.
         bind (webhook_items T (or_provider_order_id order)) (\<lambda>events.
         let timeline = sort_key timeline_key (collected_items T (or_mandate_id order) entries created_at decision events);
             seqs = timeline_seqs timeline in
         bind (if seqs = [] then return None else anchor_info_for (Max (set seqs))) (\<lambda>anchor.
         return \<lparr>ex_order_id = order_id, ex_terminal_status = or_status order, ex_timeline = timeline, ex_anchor = anchor\<rparr>))))))"

section \<open>The endpoints\<close>

definition timeline_item_json :: "timeline_item \<Rightarrow> json" where
  "timeline_item_json i =
     JObj [(''seq'', jopt JInt (ti_seq i)), (''ts'', jopt (\<lambda>t. JStr (isoformat t)) (ti_ts i)),
           (''type'', JStr (type_value (ti_type i))), (''action'', JStr (ti_action i)), (''trace_id'', jopt JStr (ti_trace_id i)),
           (''hashes'', JObj [(''entry_hash'', jopt JStr (ti_entry_hash i)), (''prev_hash'', jopt JStr (ti_prev_hash i)),
                              (''payload_hash'', jopt JStr (ti_payload_hash i))]),
           (''payload'', ti_payload i)]"

definition anchor_json :: "anchor_info \<Rightarrow> json" where
  "anchor_json a =
     JObj [(''status'', JStr (an_status a)),
           (''checkpoint_range'', JObj [(''from_seq'', JInt (an_checkpoint_from_seq a)), (''to_seq'', JInt (an_checkpoint_to_seq a))]),
           (''chain_id'', jopt JInt (an_chain_id a)), (''contract_address'', jopt JStr (an_contract_address a)),
           (''tx_hash'', jopt JStr (an_tx_hash a)), (''explorer_url'', jopt JStr (an_explorer_url a))]"

definition render_explain_result :: "explain_result \<Rightarrow> body" where
  "render_explain_result r =
     [(''order_id'', JStr (ex_order_id r)), (''terminal_outcome'', JObj [(''status'', JStr (ex_terminal_status r))]),
      (''anchor'', jopt anchor_json (ex_anchor r)), (''timeline'', JList (map timeline_item_json (ex_timeline r)))]"

definition explain_or_404 :: "row_times \<Rightarrow> string \<Rightarrow> ('p, explain_result) app" where
  "explain_or_404 T order_id =
     handle (explain_order T order_id)
       (\<lambda>exc. case exc of
          OrderNotFoundForExplain x \<Rightarrow> raise (HTTPException 404 (Inr [(''reason_code'', ''ORDER_NOT_FOUND''), (''order_id'', order_id)]))
        | _ \<Rightarrow> raise exc)"

definition explain :: "row_times \<Rightarrow> string \<Rightarrow> string option \<Rightarrow> ('p, body) app" where
  "explain T order_id authorization =
     with_uow (
       bind (require_read_token authorization) (\<lambda>_.
       bind (explain_or_404 T order_id) (\<lambda>result.
       return (render_explain_result result))))"

definition buyer_explain :: "row_times \<Rightarrow> string \<Rightarrow> ('p, body) app" where
  "buyer_explain T order_id =
     with_uow (bind (explain_or_404 T order_id) (\<lambda>result. return (render_explain_result result)))"

section \<open>Parts of a valid log verify\<close>

lemma check_checkpoint_part:
  assumes "k \<le> length hs" "seq = int (length hs)"
  shows "check_checkpoint cps (int k + 1) seq (drop k hs) \<in> {Inr None, check_checkpoint cps 1 seq hs}"
proof (cases "seq mod int audit_checkpoint_every = 0 \<and> seq - int audit_checkpoint_every + 1 \<ge> int k + 1")
  case True
  then have "drop (length (drop k hs) - audit_checkpoint_every) (drop k hs) = drop (length hs - audit_checkpoint_every) hs"
    using assms by simp
  with True show ?thesis by (simp only: check_checkpoint_def) (simp del: length_drop drop_drop)
qed (auto simp: check_checkpoint_def)

lemma verify_entries_part:
  assumes "chain_from 1 genesis_prev_hash (dn @ es)" "chain_from 1 genesis_prev_hash (dn @ es @ rest)"
    and "list_all (checkpoint_ok (dn @ es @ rest)) cps" "k \<le> length dn"
  shows "\<exists>v. verify_entries (checkpoints_by_to_seq cps) (int k + 1) hi es
      (last_hash genesis_prev_hash (chain_hashes genesis_prev_hash dn)) (1 + int (length dn)) n m
      (drop k (chain_hashes genesis_prev_hash dn)) any = Inr v \<and> cv_ok v"
  using assms
proof (induction es arbitrary: dn n m any)
  case (Cons e es)
  let ?prev = "last_hash genesis_prev_hash (chain_hashes genesis_prev_hash dn)"
  have ce: "chain_from 1 genesis_prev_hash (dn @ [e])"
    using Cons.prems(1) by (induction es rule: rev_induct) (simp, metis append_Cons append_assoc chain_from_append)
  then obtain h where h: "compute_entry_hash ?prev (al_payload e) = Inr h" "al_entry_hash e = hex_prefixed h"
    "al_seq e = 1 + int (length dn)" "al_prev_hash e = hex_prefixed ?prev" "chain_from 1 genesis_prev_hash dn"
    by (auto simp: chain_from_append split: sum.splits)
  have seg: "chain_hashes genesis_prev_hash (dn @ [e]) = chain_hashes genesis_prev_hash dn @ [h]"
    using chain_hashes_append [OF h(5), of e] h(1) by simp
  let ?hs = "chain_hashes genesis_prev_hash dn @ [h]"
  have len: "length (chain_hashes genesis_prev_hash dn) = length dn" by (rule chain_hashes_length [OF h(5)])
  then have drop: "drop k (chain_hashes genesis_prev_hash dn) @ [h] = drop k ?hs" using Cons.prems(4) by simp
  have "check_checkpoint (checkpoints_by_to_seq cps) (int k + 1) (al_seq e) (drop k ?hs)
      \<in> {Inr None, check_checkpoint (checkpoints_by_to_seq cps) 1 (al_seq e) ?hs}"
    by (rule check_checkpoint_part) (use Cons.prems(4) h(3) len in simp_all)
  moreover have "(\<exists>x. check_checkpoint (checkpoints_by_to_seq cps) 1 (al_seq e) ?hs = Inr (Some (x, x))) \<or>
        check_checkpoint (checkpoints_by_to_seq cps) 1 (al_seq e) ?hs = Inr None"
    using check_checkpoint_ok [of dn e es rest cps] Cons.prems seg by simp
  ultimately have "(\<exists>x. check_checkpoint (checkpoints_by_to_seq cps) (int k + 1) (al_seq e) (drop k ?hs) = Inr (Some (x, x))) \<or>
        check_checkpoint (checkpoints_by_to_seq cps) (int k + 1) (al_seq e) (drop k ?hs) = Inr None" by auto
  moreover have "\<exists>v. verify_entries (checkpoints_by_to_seq cps) (int k + 1) hi es h (1 + int (length dn) + 1) n' m' (drop k ?hs) True
      = Inr v \<and> cv_ok v" for n' m'
    using Cons.IH [of "dn @ [e]" n' m' True] Cons.prems seg by (simp add: algebra_simps)
  ultimately show ?case using h by (auto simp: Let_def drop simp del: drop_append)
qed simp

lemma find_seq:
  assumes "chain_from 1 prev rs" "i < length rs"
  shows "find (\<lambda>r. al_seq r = int i + 1) rs = Some (rs ! i)"
proof -
  have seq: "al_seq (rs ! j) = 1 + int j" if "j < length rs" for j
    using chain_from_seqs [OF assms(1)] that by (metis (no_types, lifting) add_0 diff_zero length_map length_upt nth_map nth_upt)
  show ?thesis unfolding find_Some_iff using assms(2) by (auto intro!: exI [of _ i] simp: seq)
qed

text \<open>
  Any part of a valid log verifies: on a log that satisfies the invariant, \<open>verify_chain\<close> between two
  of its entries reports success for every entry between them, and raises only when a statement fails.
\<close>

lemma verify_chain_part:
  assumes ok: "audit_ok (session w)" and "1 \<le> lo" "lo \<le> hi" "hi \<le> int (length (audit_log (session w)))"
  shows "wp (verify_chain lo hi)
    (\<lambda>v w'. cv_ok v \<and> int (cv_entries_verified v) = hi - lo + 1 \<and> session w' = session w \<and> local_step w w')
    (\<lambda>e w'. e = DBAPIError \<and> local_step w w') w"
proof -
  let ?all = "audit_log (session w)" and ?cps = "sort_key ac_to_seq (audit_checkpoints (session w))"
  define k where "k = nat (lo - 1)"
  define m where "m = nat hi"
  have km: "int k + 1 = lo" "int m = hi" "k \<le> m" "m \<le> length ?all" "k < m" using assms(2-) by (simp_all add: k_def m_def)
  have c: "chain_from 1 genesis_prev_hash ?all" and cps: "list_all (checkpoint_ok ?all) ?cps"
    using ok by (simp_all add: audit_ok_def list_all_iff)
  have parts: "?all = take k ?all @ drop k (take m ?all) @ drop m ?all"
    using km by (metis append_assoc append_take_drop_id min.absorb1 take_take)
  have ck: "chain_from 1 genesis_prev_hash (take k ?all @ drop k (take m ?all))"
    using chain_from_take [OF c, of m] km by (metis append_take_drop_id min.absorb1 take_take)
  let ?prev = "last_hash genesis_prev_hash (chain_hashes genesis_prev_hash (take k ?all))"
  obtain v where v: "verify_entries (checkpoints_by_to_seq ?cps) lo hi (drop k (take m ?all)) ?prev lo 0 [] [] False = Inr v" "cv_ok v"
    using verify_entries_part [of "take k ?all" "drop k (take m ?all)" "drop m ?all" ?cps k hi 0 "[]" False] ck c cps km
      chain_hashes_length [OF chain_from_take [OF c, of k]]
    by (auto simp: parts [symmetric] add.commute min_def)
  have n: "int (cv_entries_verified v) = hi - lo + 1" using verify_entries_sound [OF v] km by simp
  have range: "sort_key al_seq (filter (\<lambda>r. lo \<le> al_seq r \<and> al_seq r \<le> hi) ?all) = drop k (take m ?all)"
    using list_range_slice [OF c km(4,3)] km by simp
  show ?thesis
  proof (cases "lo = 1")
    case True
    then have "k = 0" by (simp add: k_def)
    then show ?thesis using v n range True
      by (simp add: verify_chain_def audit_list_range_def checkpoints_list_all_def Let_def local_step_def)
  next
    case False
    then have k: "0 < k" "k - 1 < length ?all" using km by auto
    have kl: "k \<le> length ?all" using k by simp
    have "find (\<lambda>r. al_seq r = lo - 1) ?all = Some (?all ! (k - 1))"
      using find_seq [OF c k(2)] k(1) by (simp add: of_nat_diff flip: km(1))
    moreover have ne: "take k ?all \<noteq> []" using k by auto
    moreover have "last (take k ?all) = ?all ! (k - 1)" using k kl last_conv_nth [OF ne] by simp
    then have "al_entry_hash (?all ! (k - 1)) = hex_prefixed ?prev"
      using chain_from_last_hash [OF chain_from_take [OF c, of k] ne] by simp
    moreover have "parse_hex_prefixed (hex_prefixed ?prev) = Inr ?prev"
      using last_hash_length [of "take k ?all"] by (simp add: parse_hex_prefixed_hex_prefixed)
    ultimately show ?thesis using v n range False
      by (simp add: verify_chain_def audit_list_range_def checkpoints_list_all_def audit_get_by_seq_def Let_def local_step_def)
  qed
qed

section \<open>The timeline is complete\<close>

text \<open>What the tables hold about an order, as a specification of the timeline.\<close>

definition evidence :: "row_times \<Rightarrow> db \<Rightarrow> string \<Rightarrow> order \<Rightarrow> timeline_item multiset" where
  "evidence T d order_id x =
     image_mset (entry_item T) (filter_mset (for_explain order_id (or_mandate_id x) (or_quote_id x)) (mset (audit_log d))) +
     (if mandates d (or_mandate_id x) = None then {#}
      else {#mandate_item (or_mandate_id x) (rt_mandate_created_at T (or_mandate_id x))#}) +
     (case decisions d (or_decision_id x) of None \<Rightarrow> {#} | Some dr \<Rightarrow> {#decision_item dr#}) +
     (case or_provider_order_id x of None \<Rightarrow> {#} | Some pid \<Rightarrow> mset (List.map_filter (webhook_item T pid) (webhook_events d)))"

lemma covering_some:
  assumes "covering cs s = Some c"
  shows "c \<in> set cs \<and> covers c s"
proof -
  obtain cs' where "sort_key ac_to_seq (filter (\<lambda>c. covers c s) cs) = c # cs'"
    using assms by (auto simp: covering_def split: list.splits)
  from arg_cong [OF this, of set] show ?thesis by auto
qed

definition explained :: "row_times \<Rightarrow> db \<Rightarrow> string \<Rightarrow> order \<Rightarrow> explain_result \<Rightarrow> bool" where
  "explained T d order_id x r \<longleftrightarrow>
     ex_order_id r = order_id \<and> ex_terminal_status r = or_status x \<and>
     mset (ex_timeline r) = evidence T d order_id x \<and> sorted (map timeline_key (ex_timeline r)) \<and>
     (\<forall>a. ex_anchor r = Some a \<longrightarrow>
        (\<exists>c \<in> set (audit_checkpoints d). a = checkpoint_anchor c \<and> covers c (Max (set (timeline_seqs (ex_timeline r))))))"

lemma wp_explain_order:
  assumes "find_order order_id (orders (session w)) = Some x"
  shows "wp (explain_order T order_id)
    (\<lambda>r w'. explained T (session w) order_id x r \<and> session w' = session w \<and> local_step w w')
    (\<lambda>e w'. e = DBAPIError \<and> session w' = session w \<and> local_step w w') w"
proof -
  let ?d = "session w"
  let ?items = "collected_items T (or_mandate_id x) (sort_key al_seq (filter (for_explain order_id (or_mandate_id x) (or_quote_id x)) (audit_log ?d)))
    (case mandates ?d (or_mandate_id x) of None \<Rightarrow> None | Some y \<Rightarrow> Some (rt_mandate_created_at T (or_mandate_id x)))
    (decisions ?d (or_decision_id x))
    (case or_provider_order_id x of None \<Rightarrow> [] | Some pid \<Rightarrow> List.map_filter (webhook_item T pid) (webhook_events ?d))"
  let ?timeline = "sort_key timeline_key ?items"
  let ?result = "\<lambda>a. \<lparr>ex_order_id = order_id, ex_terminal_status = or_status x, ex_timeline = ?timeline, ex_anchor = a\<rparr>"
  let ?covering = "covering (audit_checkpoints ?d) (Max (set (timeline_seqs ?timeline)))"
  have "mset ?items = evidence T ?d order_id x"
    by (simp add: collected_items_def evidence_def mset_filter split: option.split)
  then have none: "explained T ?d order_id x (?result None)" by (simp add: explained_def)
  moreover have "explained T ?d order_id x (?result (map_option checkpoint_anchor ?covering))"
  proof (cases ?covering)
    case None
    then show ?thesis using none by simp
  next
    case (Some c)
    from covering_some [OF Some] none show ?thesis unfolding Some by (auto simp: explained_def)
  qed
  ultimately show ?thesis
    unfolding explain_order_def orders_get_def audit_get_for_explain_def mandates_get_created_at_def decisions_get_def webhook_items_def
      webhooks_list_all_def anchor_info_for_def checkpoints_get_covering_seq_def
    by (cases "or_provider_order_id x") (simp_all add: assms local_step_def Let_def)
qed


definition explain_times :: row_times where
  "explain_times = \<lparr>rt_audit_ts = (\<lambda>s. 5), rt_mandate_created_at = (\<lambda>m. 2), rt_webhook_received_at = (\<lambda>e. 9)\<rparr>"

definition explain_db :: db where
  "explain_db = (one_entry_db (JStr ''paid''))\<lparr>orders := [captured_order]\<rparr>"


text \<open>The timeline endpoint for reviewers answers only with the read token.\<close>

lemma explain_needs_token:
  assumes "read_token (config w) \<noteq> bearer_token authorization"
  shows "wp (explain T order_id authorization) (\<lambda>r w'. False) (\<lambda>e w'. True) w"
  using assms
  by (simp add: explain_def wp_with_uow require_read_token_def require_token_def compare_digest_def)

end
