(* ===== verification/Audit_Bundle.thy ===== *)
theory Audit_Bundle
  imports Audit_Service Quote_Token
begin

text \<open>
  The offline evidence bundle (\<open>scripts/export_audit_bundle.py\<close>): the export of a range of the
  audit log as files, and the verifier that the bundle carries, which needs neither the database nor the
  program. Files are texts by name; the row timestamps, the two times of export and the wording of the
  generated script are arguments. The verifier is modelled by its exit status; an exception that escapes
  it is a value too. Numbers of a bundle are compared as Python compares them: a boolean is 0 or 1, and
  \<open>float_int\<close> gives the integer a float equals, if any.

  Shown are that the verifier accepts what was exported from a valid log, and that a bundle it accepts
  cannot differ from the log with the same head.
\<close>

section \<open>Exporting\<close>

type_synonym files = "(string \<times> string) list"

definition opt_str :: "string option \<Rightarrow> json" where
  "opt_str s = (case s of None \<Rightarrow> JNull | Some t \<Rightarrow> JStr t)"

definition bundle_row :: "(int \<Rightarrow> string option) \<Rightarrow> audit_row \<Rightarrow> json" where
  "bundle_row row_ts e =
     JObj [(''seq'', JInt (al_seq e)), (''ts'', opt_str (row_ts (al_seq e))), (''trace_id'', JStr (al_trace_id e)),
           (''actor_type'', JStr (al_actor_type e)), (''actor_id'', JStr (al_actor_id e)),
           (''action'', JStr (al_action e)), (''subject'', al_subject e), (''payload'', al_payload e),
           (''payload_hash'', JStr (al_payload_hash e)), (''prev_hash'', JStr (al_prev_hash e)),
           (''entry_hash'', JStr (al_entry_hash e))]"

definition ndjson_text :: "(int \<Rightarrow> string option) \<Rightarrow> audit_row list \<Rightarrow> string" where
  "ndjson_text row_ts entries = concat (map (\<lambda>e. dumps (sort_keys (bundle_row row_ts e)) @ [CHR 0x0A]) entries)"

definition checkpoint_json :: "audit_checkpoint \<Rightarrow> json" where
  "checkpoint_json c =
     JObj [(''from_seq'', JInt (ac_from_seq c)), (''to_seq'', JInt (ac_to_seq c)), (''merkle_root'', JStr (ac_merkle_root c))]"

definition relevant_checkpoints :: "int \<Rightarrow> int \<Rightarrow> audit_checkpoint list \<Rightarrow> audit_checkpoint list" where
  "relevant_checkpoints from_seq to_seq cps = filter (\<lambda>c. from_seq \<le> ac_from_seq c \<and> ac_to_seq c \<le> to_seq) cps"

definition metadata_json :: "string \<Rightarrow> int \<Rightarrow> int \<Rightarrow> audit_row list \<Rightarrow> json" where
  "metadata_json exported_at from_seq to_seq entries =
     JObj [(''exported_at'', JStr exported_at), (''from_seq'', JInt from_seq), (''to_seq'', JInt to_seq),
           (''entry_count'', JInt (int (length entries))),
           (''head_entry_hash'', if entries = [] then JNull else JStr (al_entry_hash (last entries))),
           (''checkpoint_every'', JInt (int audit_checkpoint_every))]"

definition file_hash :: "string \<Rightarrow> string" where
  "file_hash content = ''sha256:'' @ hex (sha256 (encode_utf8 content))"

definition manifest_json :: "string \<Rightarrow> files \<Rightarrow> json" where
  "manifest_json generated_at fs =
     JObj [(''generated_at'', JStr generated_at), (''files'', JObj (map (\<lambda>(name, content). (name, JStr (file_hash content))) fs))]"

text \<open>
  \<open>_embed_module_source\<close> drops the future import and the imports of the program, and
  \<open>_build_verify_script\<close> puts the three modules between the header and the main part.
\<close>

definition startswith :: "string \<Rightarrow> string \<Rightarrow> bool" where
  "startswith s p \<longleftrightarrow> take (length p) s = p"

text \<open>\<open>str.splitlines\<close>; the modules have no line boundary but the newline.\<close>

definition splitlines :: "string \<Rightarrow> string list" where
  "splitlines text = (let ps = split_char (CHR 0x0A) text in if last ps = [] then butlast ps else ps)"

definition embed_module_source :: "string \<Rightarrow> string" where
  "embed_module_source text =
     join [CHR 0x0A]
       (filter (\<lambda>line. strip line \<noteq> ''from __future__ import annotations'' \<and> \<not> startswith line ''from actl.'')
          (splitlines text))"

definition build_verify_script :: "string \<Rightarrow> string \<Rightarrow> string \<Rightarrow> string \<Rightarrow> string \<Rightarrow> string" where
  "build_verify_script header main canonical_src chain_src merkle_src =
     header @ ''# ---- actl/domain/audit/canonical.py (verbatim) ----'' @ [CHR 0x0A] @
     embed_module_source canonical_src @ [CHR 0x0A, CHR 0x0A] @
     ''# ---- actl/domain/audit/chain.py (verbatim) ----'' @ [CHR 0x0A] @
     embed_module_source chain_src @ [CHR 0x0A, CHR 0x0A] @
     ''# ---- actl/domain/audit/merkle.py (verbatim) ----'' @ [CHR 0x0A] @
     embed_module_source merkle_src @ main"

definition evidence_files ::
  "(int \<Rightarrow> string option) \<Rightarrow> string \<Rightarrow> int \<Rightarrow> int \<Rightarrow> audit_row list \<Rightarrow> audit_checkpoint list \<Rightarrow> files" where
  "evidence_files row_ts exported_at from_seq to_seq entries cps =
     [(''audit_log.ndjson'', ndjson_text row_ts entries),
      (''checkpoints.json'', dumps_indent (JList (map checkpoint_json (relevant_checkpoints from_seq to_seq cps)))),
      (''metadata.json'', dumps_indent (metadata_json exported_at from_seq to_seq entries))]"

definition bundle_files ::
  "(int \<Rightarrow> string option) \<Rightarrow> string \<Rightarrow> string \<Rightarrow> string \<Rightarrow> int \<Rightarrow> int \<Rightarrow> audit_row list \<Rightarrow> audit_checkpoint list \<Rightarrow> files" where
  "bundle_files row_ts exported_at generated_at script from_seq to_seq entries cps =
     (let evidence = evidence_files row_ts exported_at from_seq to_seq entries cps
      in evidence @ [(''verify_bundle.py'', script),
           (''manifest.json'', dumps_indent (manifest_json generated_at evidence))])"

definition export_bundle ::
  "(int \<Rightarrow> string option) \<Rightarrow> string \<Rightarrow> string \<Rightarrow> string \<Rightarrow> int \<Rightarrow> int \<Rightarrow> ('p, files) app" where
  "export_bundle row_ts exported_at generated_at script from_seq to_seq =
     bind (with_uow (bind (audit_list_range from_seq to_seq) (\<lambda>entries.
                     bind checkpoints_list_all (\<lambda>cps. return (entries, cps))))) (\<lambda>(entries, cps).
     return (bundle_files row_ts exported_at generated_at script from_seq to_seq entries cps))"

section \<open>Verifying offline\<close>

definition json_item :: "string \<Rightarrow> json \<Rightarrow> json result" where
  "json_item k v =
     (case v of
        JObj kvs \<Rightarrow> (case map_of kvs k of Some x \<Rightarrow> Inr x | None \<Rightarrow> Inl (KeyError k))
      | _ \<Rightarrow> Inl (TypeError ''not subscriptable by a string''))"

definition as_int :: "(pyfloat \<Rightarrow> int option) \<Rightarrow> json \<Rightarrow> int option" where
  "as_int float_int v =
     (case v of
        JInt i \<Rightarrow> Some i
      | JBool b \<Rightarrow> Some (if b then 1 else 0)
      | JFloat x \<Rightarrow> float_int x
      | _ \<Rightarrow> None)"

definition py_eq :: "(pyfloat \<Rightarrow> int option) \<Rightarrow> json \<Rightarrow> json \<Rightarrow> bool" where
  "py_eq float_int a b =
     (case (as_int float_int a, as_int float_int b) of
        (Some i, Some j) \<Rightarrow> i = j
      | (None, None) \<Rightarrow> a = b \<and> a \<noteq> JFloat FNaN
      | _ \<Rightarrow> False)"

text \<open>The lines of a text file, stripped, without the empty ones; a carriage return ends a line too.\<close>

definition text_lines :: "string \<Rightarrow> string list" where
  "text_lines s =
     filter (\<lambda>l. l \<noteq> []) (map strip (split_char (CHR 0x0A) (map (\<lambda>c. if c = CHR 0x0D then CHR 0x0A else c) s)))"

definition read_file :: "files \<Rightarrow> string \<Rightarrow> string result" where
  "read_file fs name =
     (case map_of fs name of Some t \<Rightarrow> Inr t | None \<Rightarrow> Inl (RuntimeError (''FileNotFoundError: '' @ name)))"

definition load_ndjson :: "(string \<Rightarrow> pyfloat) \<Rightarrow> string \<Rightarrow> json list result" where
  "load_ndjson pf text = rseq (map (loads pf) (text_lines text))"

fun check_files :: "files \<Rightarrow> (string \<times> json) list \<Rightarrow> bool" where
  "check_files fs [] = True"
| "check_files fs ((name, expected) # rest) =
     (case map_of fs name of
        None \<Rightarrow> False
      | Some content \<Rightarrow> if JStr (file_hash content) \<noteq> expected then False else check_files fs rest)"

definition verify_manifest :: "(string \<Rightarrow> pyfloat) \<Rightarrow> files \<Rightarrow> bool result" where
  "verify_manifest pf fs =
     (case map_of fs ''manifest.json'' of
        None \<Rightarrow> Inr False
      | Some text \<Rightarrow>
          rbind (loads pf text) (\<lambda>manifest.
          rbind (json_item ''files'' manifest) (\<lambda>listed.
          case listed of
            JObj kvs \<Rightarrow> Inr (check_files fs kvs)
          | _ \<Rightarrow> Inl (TypeError ''files has no items''))))"

text \<open>\<open>{c["to_seq"]: c for c in checkpoints}\<close> and its \<open>get\<close>: the last checkpoint with that key.\<close>

definition checkpoints_of :: "json \<Rightarrow> (json \<times> json) list result" where
  "checkpoints_of v =
     (case v of
        JList cs \<Rightarrow> rseq (map (\<lambda>c. rmap (\<lambda>k. (k, c)) (json_item ''to_seq'' c)) cs)
      | _ \<Rightarrow> Inl (TypeError ''not a list of checkpoints''))"

definition find_checkpoint :: "(pyfloat \<Rightarrow> int option) \<Rightarrow> (json \<times> json) list \<Rightarrow> json \<Rightarrow> json option" where
  "find_checkpoint float_int cps seq = map_option snd (List.find (\<lambda>(k, c). py_eq float_int k seq) (rev cps))"

definition last_slice :: "int \<Rightarrow> 'a list \<Rightarrow> 'a list" where
  "last_slice k xs = (if 0 < k then drop (length xs - nat k) xs else drop (nat (- k)) xs)"

text \<open>The check of a Merkle root after an entry: \<open>True\<close> when there is none to check or it matches.\<close>

definition bundle_checkpoint ::
  "(pyfloat \<Rightarrow> int option) \<Rightarrow> (json \<times> json) list \<Rightarrow> json \<Rightarrow> int \<Rightarrow> int \<Rightarrow> bytes list \<Rightarrow> bool result" where
  "bundle_checkpoint float_int cps metadata from_seq seq segment =
     rbind (json_item ''checkpoint_every'' metadata) (\<lambda>every_json.
     case as_int float_int every_json of
       None \<Rightarrow> Inl (TypeError ''checkpoint_every'')
     | Some every \<Rightarrow>
         if every = 0 then Inl ZeroDivisionError
         else if seq mod every = 0 \<and> from_seq \<le> seq - every + 1 then
           (case find_checkpoint float_int cps (JInt seq) of
              None \<Rightarrow> Inr True
            | Some c \<Rightarrow>
                rbind (merkle_root (last_slice every segment)) (\<lambda>root.
                rmap (\<lambda>stored. stored = JStr (hex_prefixed root)) (json_item ''merkle_root'' c)))
         else Inr True)"

text \<open>
  The loop over the entries: \<open>None\<close> when the chain is broken, otherwise the last hash.
  \<open>expected\<close> is the expected sequence number, \<open>from_seq\<close> its initial value.
\<close>

fun bundle_loop ::
  "(pyfloat \<Rightarrow> int option) \<Rightarrow> (json \<times> json) list \<Rightarrow> json \<Rightarrow> json \<Rightarrow> json list \<Rightarrow> bytes \<Rightarrow> json \<Rightarrow> bytes list \<Rightarrow>
   bytes option result" where
  "bundle_loop float_int cps metadata from_seq [] prev expected segment = Inr (Some prev)"
| "bundle_loop float_int cps metadata from_seq (entry # entries) prev expected segment =
     rbind (json_item ''seq'' entry) (\<lambda>seq.
     if \<not> py_eq float_int seq expected then Inr None
     else
       rbind (json_item ''payload'' entry) (\<lambda>payload.
       rbind (compute_entry_hash prev payload) (\<lambda>recomputed.
       rbind (json_item ''prev_hash'' entry) (\<lambda>stored_prev.
       rbind (if stored_prev \<noteq> JStr (hex_prefixed prev) then Inr True
              else rmap (\<lambda>h. h \<noteq> JStr (hex_prefixed recomputed)) (json_item ''entry_hash'' entry)) (\<lambda>broken.
       if broken then Inr None
       else
         (case (as_int float_int expected, as_int float_int from_seq) of
            (Some i, Some lo) \<Rightarrow>
              rbind (bundle_checkpoint float_int cps metadata lo i (segment @ [recomputed])) (\<lambda>ok.
              if \<not> ok then Inr None
              else bundle_loop float_int cps metadata from_seq entries recomputed (JInt (i + 1)) (segment @ [recomputed]))
          | _ \<Rightarrow> Inl (TypeError ''seq''))))))) "

definition start_hash :: "(pyfloat \<Rightarrow> int option) \<Rightarrow> json \<Rightarrow> json list \<Rightarrow> bytes result" where
  "start_hash float_int from_seq entries =
     (if as_int float_int from_seq = Some 1 then Inr genesis_prev_hash
      else (case entries of
              [] \<Rightarrow> Inr genesis_prev_hash
            | e # es \<Rightarrow>
                rbind (json_item ''prev_hash'' e) (\<lambda>p.
                case p of
                  JStr s \<Rightarrow>
                    (case fromhex (drop (length hex_prefix) s) of
                       None \<Rightarrow> Inl (ValueError ''non-hexadecimal number found'')
                     | Some b \<Rightarrow> Inr b)
                | _ \<Rightarrow> Inl (TypeError ''prev_hash''))))"

text \<open>\<open>main\<close> of the generated script: 0 when the bundle is intact, 1 when it is not.\<close>

definition verify_bundle :: "(string \<Rightarrow> pyfloat) \<Rightarrow> (pyfloat \<Rightarrow> int option) \<Rightarrow> files \<Rightarrow> nat result" where
  "verify_bundle pf float_int fs =
     rbind (verify_manifest pf fs) (\<lambda>intact.
     if \<not> intact then Inr 1
     else
       rbind (rbind (read_file fs ''audit_log.ndjson'') (load_ndjson pf)) (\<lambda>entries.
       rbind (rbind (read_file fs ''checkpoints.json'') (loads pf)) (\<lambda>checkpoints.
       rbind (rbind (read_file fs ''metadata.json'') (loads pf)) (\<lambda>metadata.
       rbind (checkpoints_of checkpoints) (\<lambda>cps.
       rbind (json_item ''from_seq'' metadata) (\<lambda>from_seq.
       rbind (start_hash float_int from_seq entries) (\<lambda>prev.
       rbind (bundle_loop float_int cps metadata from_seq entries prev from_seq []) (\<lambda>out.
       case out of
         None \<Rightarrow> Inr 1
       | Some head \<Rightarrow>
           rbind (json_item ''head_entry_hash'' metadata) (\<lambda>stored_head.
           if stored_head \<noteq> (if entries = [] then JNull else JStr (hex_prefixed head)) then Inr 1
           else rmap (\<lambda>_. 0) (json_item ''to_seq'' metadata))))))))))"

section \<open>Reading the files back\<close>

lemma json_item_JObj [simp]:
  "json_item k (JObj kvs) = (case map_of kvs k of Some x \<Rightarrow> Inr x | None \<Rightarrow> Inl (KeyError k))"
  by (simp add: json_item_def)

lemma json_item_sort_keys:
  assumes "distinct (map fst kvs)"
  shows "json_item k (sort_keys (JObj kvs)) = rmap sort_keys (json_item k (JObj kvs))"
proof -
  let ?s = "sort_key (\<lambda>kv. map of_char (fst kv) :: nat list) kvs"
  have "distinct (map fst ?s)" using assms by (simp add: distinct_map_sort_key)
  then have "map_of ?s = map_of kvs" using assms by (subst map_of_inject_set) simp_all
  then show ?thesis unfolding sort_keys_items by (simp add: map_of_map split: option.split)
qed

lemma printable_no_floats: "printable P v \<Longrightarrow> no_floats v"
  by (induction v) (fastforce simp: list_all_iff)+

lemma compute_entry_hash_sort_keys:
  "wf_json v \<Longrightarrow> no_floats v \<Longrightarrow> compute_entry_hash prev (sort_keys v) = compute_entry_hash prev v"
  by (simp add: compute_entry_hash_def payload_hash_def jcs_render norm_sort_keys)

lemma valid_hex: "valid_text (hex b)"
  using hex_chars by (intro valid_text_ascii) (auto simp: list_all_iff)

lemma valid_file_hash: "valid_text (file_hash c)"
proof -
  have "valid_text (''sha256:'' @ hex (sha256 (encode_utf8 c)))"
    by (intro valid_text_append valid_hex) (simp add: valid_text_def)
  then show ?thesis by (simp add: file_hash_def)
qed

text \<open>What an exported row must be: text that is text, distinct keys, no floats.\<close>

definition exportable :: "(int \<Rightarrow> string option) \<Rightarrow> audit_row \<Rightarrow> bool" where
  "exportable row_ts r \<longleftrightarrow> printable valid_text (bundle_row row_ts r) \<and> wf_json (al_payload r)"

lemma exportable_payload: "exportable row_ts r \<Longrightarrow> wf_json (al_payload r) \<and> no_floats (al_payload r)"
  by (auto simp: exportable_def bundle_row_def printable_no_floats)

lemma bundle_row_items:
  "json_item ''seq'' (sort_keys (bundle_row row_ts r)) = Inr (JInt (al_seq r))"
  "json_item ''payload'' (sort_keys (bundle_row row_ts r)) = Inr (sort_keys (al_payload r))"
  "json_item ''prev_hash'' (sort_keys (bundle_row row_ts r)) = Inr (JStr (al_prev_hash r))"
  "json_item ''entry_hash'' (sort_keys (bundle_row row_ts r)) = Inr (JStr (al_entry_hash r))"
  unfolding bundle_row_def by (subst json_item_sort_keys; simp)+

lemma split_char_lines:
  assumes "list_all (list_all (\<lambda>c. c \<noteq> d)) ls"
  shows "split_char d (concat (map (\<lambda>l. l @ [d]) ls)) = ls @ [[]]"
  using assms
proof (induction ls)
  case (Cons l ls)
  then have "d \<notin> set l" by (auto simp: list_all_iff)
  with Cons show ?case by (simp add: split_char_append)
qed simp

lemma strip_plain:
  assumes "s \<noteq> []" "\<not> is_space (hd s)" "\<not> is_space (last s)"
  shows "strip s = s"
proof -
  have "dropWhile is_space s = s" using assms by (cases s) auto
  moreover have "dropWhile is_space (rev s) = rev s" using assms by (cases "rev s") (auto simp: hd_rev [symmetric])
  ultimately show ?thesis by (simp add: strip_def)
qed

lemma dumps_object:
  assumes "kvs \<noteq> []"
  obtains t where "dumps (JObj kvs) = CHR ''{'' # t @ ''}''"
  using assms by (simp add: dumps_def compact_simps)

lemma sort_keys_bundle_row: obtains kvs where "sort_keys (bundle_row row_ts r) = JObj kvs" "kvs \<noteq> []"
proof -
  obtain kv kvs where b: "bundle_row row_ts r = JObj (kv # kvs)" by (simp add: bundle_row_def)
  have "sort_key (\<lambda>kv. map of_char (fst kv) :: nat list) (kv # kvs) \<noteq> []"
    by (metis list.distinct(1) mset_sort mset_zero_iff)
  then show ?thesis using that unfolding b sort_keys_items by blast
qed

lemma ndjson_lines:
  assumes "list_all (exportable row_ts) es"
  shows "text_lines (ndjson_text row_ts es) = map (\<lambda>e. dumps (sort_keys (bundle_row row_ts e))) es"
proof -
  let ?d = "\<lambda>e. dumps (sort_keys (bundle_row row_ts e))"
  let ?f = "\<lambda>c. if c = CHR 0x0D then CHR 0x0A else c"
  have plain: "list_all plain_char (?d e)" if "e \<in> set es" for e
    using assms that unfolding dumps_def
    by (intro plain_compact) (auto simp: list_all_iff exportable_def dest: printable_no_floats)
  have nl: "\<not> plain_char (CHR 0x0A)" "\<not> plain_char (CHR 0x0D)" by (simp_all add: plain_char_def)
  have "map ?f (?d e) = ?d e" if "e \<in> set es" for e
    using plain [OF that] nl by (intro map_idI) (auto simp: list_all_iff)
  then have e1: "map ?f (ndjson_text row_ts es) = concat (map (\<lambda>l. l @ [CHR 0x0A]) (map ?d es))"
    by (auto simp: ndjson_text_def map_concat comp_def intro!: arg_cong [where f = concat])
  have "list_all (list_all (\<lambda>c. c \<noteq> CHR 0x0A)) (map ?d es)"
    using plain nl(1) by (auto simp: list_all_iff)
  then have sp: "split_char (CHR 0x0A) (map ?f (ndjson_text row_ts es)) = map ?d es @ [[]]"
    unfolding e1 by (rule split_char_lines)
  have s: "strip (?d e) = ?d e \<and> ?d e \<noteq> []" for e
  proof -
    obtain kvs where k: "sort_keys (bundle_row row_ts e) = JObj kvs" "kvs \<noteq> []" by (rule sort_keys_bundle_row)
    obtain t where t: "dumps (JObj kvs) = CHR ''{'' # t @ ''}''" using dumps_object [OF k(2)] .
    have "\<not> is_space (CHR ''{'')" "\<not> is_space (CHR ''}'')" by (simp_all add: is_space_def)
    then have "strip (dumps (JObj kvs)) = dumps (JObj kvs)" by (intro strip_plain) (simp_all add: t)
    then show ?thesis using k t by simp
  qed
  have "strip [] = []" by (simp add: strip_def)
  with s show ?thesis unfolding text_lines_def sp by (simp add: comp_def)
qed

lemma load_ndjson_export:
  assumes "list_all (exportable row_ts) es"
  shows "load_ndjson pf (ndjson_text row_ts es) = Inr (map (\<lambda>e. sort_keys (bundle_row row_ts e)) es)"
proof -
  have "loads pf (dumps (sort_keys (bundle_row row_ts e))) = Inr (sort_keys (bundle_row row_ts e))" if "e \<in> set es" for e
    using assms that by (intro loads_dumps) (auto simp: list_all_iff exportable_def printable_sort_keys)
  then show ?thesis
    using rseq_map_Inr [of es "\<lambda>e. loads pf (dumps (sort_keys (bundle_row row_ts e)))"]
    by (simp add: load_ndjson_def ndjson_lines [OF assms] comp_def)
qed

lemma valid_hex_prefixed: "valid_text (hex_prefixed d)"
proof -
  have "valid_text (hex_prefix @ hex d)" by (intro valid_text_append valid_hex) (simp add: valid_text_def hex_prefix_def)
  then show ?thesis by (simp add: hex_prefixed_def)
qed

lemma checkpoint_ok_root: "checkpoint_ok rows c \<Longrightarrow> valid_text (ac_merkle_root c)"
  by (auto simp: checkpoint_ok_def Let_def valid_hex_prefixed split: sum.splits)

lemma loads_checkpoints:
  assumes "list_all (checkpoint_ok rows) cps"
  shows "loads pf (dumps_indent (JList (map checkpoint_json cps))) = Inr (JList (map checkpoint_json cps))"
  using assms
  by (intro loads_dumps_indent)
    (auto simp: list_all_iff checkpoint_json_def checkpoint_ok_root, auto simp: valid_text_def)

lemma checkpoints_of_json:
  "checkpoints_of (JList (map checkpoint_json cps)) = Inr (map (\<lambda>c. (JInt (ac_to_seq c), checkpoint_json c)) cps)"
  unfolding checkpoints_of_def json.case map_map
  by (rule rseq_map_Inr) (simp add: checkpoint_json_def)

lemma find_checkpoint_json:
  "find_checkpoint fi (map (\<lambda>c. (JInt (ac_to_seq c), checkpoint_json c)) cps) (JInt seq) =
     map_option checkpoint_json (checkpoints_by_to_seq cps seq)"
proof -
  have "map_option snd (List.find (\<lambda>(k, c). py_eq fi k (JInt seq)) (map (\<lambda>c. (JInt (ac_to_seq c), checkpoint_json c)) xs)) =
      map_option checkpoint_json (map_of (map (\<lambda>c. (ac_to_seq c, c)) xs) seq)" for xs
    by (induction xs) (auto simp: py_eq_def as_int_def)
  from this [of "rev cps"] show ?thesis
    by (simp add: find_checkpoint_def checkpoints_by_to_seq_def rev_map)
qed

lemma metadata_items:
  "json_item ''from_seq'' (metadata_json t lo hi es) = Inr (JInt lo)"
  "json_item ''to_seq'' (metadata_json t lo hi es) = Inr (JInt hi)"
  "json_item ''head_entry_hash'' (metadata_json t lo hi es) =
     Inr (if es = [] then JNull else JStr (al_entry_hash (last es)))"
  "json_item ''checkpoint_every'' (metadata_json t lo hi es) = Inr (JInt (int audit_checkpoint_every))"
  by (simp_all add: metadata_json_def)

lemma loads_metadata:
  assumes "valid_text t" "es \<noteq> [] \<Longrightarrow> valid_text (al_entry_hash (last es))"
  shows "loads pf (dumps_indent (metadata_json t lo hi es)) = Inr (metadata_json t lo hi es)"
  using assms by (intro loads_dumps_indent) (auto simp: metadata_json_def, auto simp: valid_text_def)

lemma merkle_root_item: "json_item ''merkle_root'' (checkpoint_json c) = Inr (JStr (ac_merkle_root c))"
  by (simp add: checkpoint_json_def)

text \<open>The verifier's check of a checkpoint agrees with that of \<open>verify_chain\<close>.\<close>

lemma bundle_checkpoint_agrees:
  "bundle_checkpoint fi (map (\<lambda>c. (JInt (ac_to_seq c), checkpoint_json c)) cps) (metadata_json t lo hi es) from_seq seq segment =
     rmap (\<lambda>cp. case cp of None \<Rightarrow> True | Some (stored, root) \<Rightarrow> stored = root)
       (check_checkpoint (checkpoints_by_to_seq cps) from_seq seq segment)"
proof -
  have "(0 :: nat) < audit_checkpoint_every" by (simp add: audit_checkpoint_every_def)
  moreover have "last_slice (int audit_checkpoint_every) segment =
      drop (length segment - audit_checkpoint_every) segment"
    by (simp add: last_slice_def audit_checkpoint_every_def)
  ultimately show ?thesis
    by (cases "checkpoints_by_to_seq cps seq"; cases "merkle_root (drop (length segment - audit_checkpoint_every) segment)")
      (simp_all add: bundle_checkpoint_def metadata_items as_int_def find_checkpoint_json check_checkpoint_def merkle_root_item)
qed

lemma bundle_loop_complete:
  assumes "chain_from 1 genesis_prev_hash (dn @ es)" "chain_from 1 genesis_prev_hash (dn @ es @ rest)"
    and "list_all (checkpoint_ok (dn @ es @ rest)) cps" "list_all (exportable row_ts) es"
  shows "bundle_loop fi (map (\<lambda>c. (JInt (ac_to_seq c), checkpoint_json c)) cps) (metadata_json t 1 hi all) (JInt 1)
      (map (\<lambda>e. sort_keys (bundle_row row_ts e)) es)
      (last_hash genesis_prev_hash (chain_hashes genesis_prev_hash dn)) (JInt (1 + int (length dn)))
      (chain_hashes genesis_prev_hash dn) =
    Inr (Some (last_hash genesis_prev_hash (chain_hashes genesis_prev_hash (dn @ es))))"
  using assms
proof (induction es arbitrary: dn)
  case (Cons e es)
  let ?prev = "last_hash genesis_prev_hash (chain_hashes genesis_prev_hash dn)"
  have ce: "chain_from 1 genesis_prev_hash (dn @ [e])"
    using Cons.prems(1) by (induction es rule: rev_induct) (simp, metis append_Cons append_assoc chain_from_append)
  then obtain h where h: "compute_entry_hash ?prev (al_payload e) = Inr h" "al_entry_hash e = hex_prefixed h"
    "al_seq e = 1 + int (length dn)" "al_prev_hash e = hex_prefixed ?prev" "chain_from 1 genesis_prev_hash dn"
    by (auto simp: chain_from_append split: sum.splits)
  have seg: "chain_hashes genesis_prev_hash (dn @ [e]) = chain_hashes genesis_prev_hash dn @ [h]"
    using chain_hashes_append [OF h(5), of e] h(1) by simp
  have "compute_entry_hash ?prev (sort_keys (al_payload e)) = Inr h"
    using Cons.prems(4) h(1) exportable_payload [of row_ts e] by (simp add: compute_entry_hash_sort_keys)
  moreover have "bundle_checkpoint fi (map (\<lambda>c. (JInt (ac_to_seq c), checkpoint_json c)) cps) (metadata_json t 1 hi all) 1
      (1 + int (length dn)) (chain_hashes genesis_prev_hash dn @ [h]) = Inr True"
    using check_checkpoint_ok [of dn e es rest cps "chain_hashes genesis_prev_hash (dn @ [e])"] Cons.prems(1-3) seg h(3)
    by (auto simp: bundle_checkpoint_agrees)
  moreover have "bundle_loop fi (map (\<lambda>c. (JInt (ac_to_seq c), checkpoint_json c)) cps) (metadata_json t 1 hi all) (JInt 1)
      (map (\<lambda>e. sort_keys (bundle_row row_ts e)) es) h (JInt (1 + int (length dn) + 1)) (chain_hashes genesis_prev_hash dn @ [h]) =
    Inr (Some (last_hash genesis_prev_hash (chain_hashes genesis_prev_hash (dn @ e # es))))"
    using Cons.IH [of "dn @ [e]"] Cons.prems seg by (simp add: algebra_simps)
  ultimately show ?case using h by (simp add: bundle_row_items py_eq_def as_int_def)
qed simp

section \<open>What was exported is accepted\<close>

lemma manifest_accepts:
  assumes "valid_text ga" "evidence = evidence_files row_ts ea lo hi es cps"
    and "fs = bundle_files row_ts ea ga script lo hi es cps"
  shows "verify_manifest pf fs = Inr True"
proof -
  have "loads pf (dumps_indent (manifest_json ga evidence)) = Inr (manifest_json ga evidence)"
    using assms(1,2)
    by (intro loads_dumps_indent) (simp add: manifest_json_def evidence_files_def valid_file_hash, simp add: valid_text_def)
  moreover have "map_of fs ''manifest.json'' = Some (dumps_indent (manifest_json ga evidence))"
    using assms(2,3) by (simp add: bundle_files_def evidence_files_def Let_def)
  moreover have "check_files fs (map (\<lambda>(name, content). (name, JStr (file_hash content))) evidence)"
    using assms(2,3) by (simp add: bundle_files_def evidence_files_def Let_def)
  ultimately show ?thesis by (simp add: verify_manifest_def manifest_json_def)
qed

lemma bundle_accepts:
  assumes c: "chain_from 1 genesis_prev_hash (es @ rest)" and cps: "list_all (checkpoint_ok (es @ rest)) cps"
    and ex: "list_all (exportable row_ts) es" and t: "valid_text ea" "valid_text ga"
  shows "verify_bundle pf fi (bundle_files row_ts ea ga script 1 hi es cps) = Inr 0"
proof -
  let ?fs = "bundle_files row_ts ea ga script 1 hi es cps"
  let ?cps = "relevant_checkpoints 1 hi cps"
  have rel: "list_all (checkpoint_ok (es @ rest)) ?cps" using cps by (auto simp: relevant_checkpoints_def list_all_iff)
  have ce: "chain_from 1 genesis_prev_hash es" using chain_from_take [OF c, of "length es"] by simp
  have files: "read_file ?fs ''audit_log.ndjson'' = Inr (ndjson_text row_ts es)"
    "read_file ?fs ''checkpoints.json'' = Inr (dumps_indent (JList (map checkpoint_json ?cps)))"
    "read_file ?fs ''metadata.json'' = Inr (dumps_indent (metadata_json ea 1 hi es))"
    by (simp_all add: read_file_def bundle_files_def evidence_files_def Let_def)
  have "es \<noteq> [] \<Longrightarrow> valid_text (al_entry_hash (last es))"
    using chain_from_last_hash [OF ce] valid_hex_prefixed by metis
  then have meta: "loads pf (dumps_indent (metadata_json ea 1 hi es)) = Inr (metadata_json ea 1 hi es)"
    by (rule loads_metadata [OF t(1)])
  have loop: "bundle_loop fi (map (\<lambda>c. (JInt (ac_to_seq c), checkpoint_json c)) ?cps) (metadata_json ea 1 hi es) (JInt 1)
      (map (\<lambda>e. sort_keys (bundle_row row_ts e)) es) genesis_prev_hash (JInt 1) [] =
    Inr (Some (last_hash genesis_prev_hash (chain_hashes genesis_prev_hash es)))"
    using bundle_loop_complete [of "[]" es rest ?cps row_ts] c ce rel ex by simp
  show ?thesis
    unfolding verify_bundle_def manifest_accepts [OF t(2) refl refl] rbind_simps files load_ndjson_export [OF ex]
      loads_checkpoints [OF rel] meta checkpoints_of_json metadata_items start_hash_def
    using loop chain_from_last_hash [OF ce]
    by (auto simp: as_int_def)
qed

text \<open>
  C24. A bundle exported from a valid log verifies: for every upper bound, the files that
  \<open>export_bundle\<close> writes for the entries from the first one on make the generated verifier exit with
  0, whatever float conversion it uses, provided the rows are text with distinct keys and no floats.
\<close>

theorem exported_bundle_verifies:
  assumes "d = others w (transactions w) (durable w)" "audit_ok d" "list_all (exportable row_ts) (audit_log d)"
    and "valid_text exported_at" "valid_text generated_at" "0 \<le> hi"
  shows "wp (export_bundle row_ts exported_at generated_at script 1 hi)
    (\<lambda>files w'. verify_bundle pf fi files = Inr 0 \<and> durable w' = d) (\<lambda>e w'. e = DBAPIError) w"
proof -
  let ?k = "min (nat hi) (length (audit_log d))"
  let ?es = "take ?k (audit_log d)"
  have c: "chain_from 1 genesis_prev_hash (audit_log d)" and cps: "list_all (checkpoint_ok (audit_log d)) (audit_checkpoints d)"
    using assms(2) by (simp_all add: audit_ok_def)
  have range: "sort_key al_seq (filter (\<lambda>r. 1 \<le> al_seq r \<and> al_seq r \<le> hi) (audit_log d)) = ?es"
  proof (cases "nat hi \<le> length (audit_log d)")
    case True
    then show ?thesis using list_range_slice [OF c True, of 0] assms(6) by (simp add: min_def)
  next
    case False
    then show ?thesis using list_range_all [OF c, of hi] by (simp add: min_def)
  qed
  have "verify_bundle pf fi (bundle_files row_ts exported_at generated_at script 1 hi ?es
      (sort_key ac_to_seq (audit_checkpoints d))) = Inr 0"
    using c cps assms(3-5)
    by (intro bundle_accepts [where rest = "drop ?k (audit_log d)"]) (auto simp: list_all_iff dest: in_set_takeD)
  then show ?thesis
    unfolding export_bundle_def audit_list_range_def checkpoints_list_all_def
    using range by (simp add: wp_with_uow assms(1) [symmetric])
qed

theorem exported_bundle_verifies_witness:
  "wp (export_bundle (\<lambda>s. None) ''2026-01-15'' ''2026-01-15'' [] 1 5)
     (\<lambda>files w'. verify_bundle (\<lambda>s. FZero) (\<lambda>x. None) files = Inr 0 \<and> durable w' = one_entry_db (JStr ''paid''))
     (\<lambda>e w'. e = DBAPIError) (quiet_world 0 () (one_entry_db (JStr ''paid'')))"
proof -
  have "valid_text (al_entry_hash (one_entry (JStr ''paid'')))" "valid_text (hex_prefixed genesis_prev_hash)"
    by (simp_all add: one_entry_def compute_entry_hash_no_floats valid_hex_prefixed)
  then have "exportable (\<lambda>s. None) (one_entry (JStr ''paid''))"
    by (simp add: exportable_def bundle_row_def opt_str_def) (simp add: one_entry_def valid_text_def)
  then show ?thesis
    by (intro exported_bundle_verifies) (simp_all add: quiet_world_def valid_text_def)
qed

section \<open>What is accepted is the log\<close>

definition bundle_json :: "(string \<Rightarrow> pyfloat) \<Rightarrow> files \<Rightarrow> string \<Rightarrow> json result" where
  "bundle_json pf fs name = rbind (read_file fs name) (loads pf)"

definition bundle_payloads :: "(string \<Rightarrow> pyfloat) \<Rightarrow> files \<Rightarrow> json list result" where
  "bundle_payloads pf fs =
     rbind (rbind (read_file fs ''audit_log.ndjson'') (load_ndjson pf)) (\<lambda>entries.
       rseq (map (json_item ''payload'') entries))"

lemma bundle_loop_sound:
  "bundle_loop fi cps meta lo entries prev expected seg = Inr (Some h) \<Longrightarrow>
   \<exists>ps. rseq (map (json_item ''payload'') entries) = Inr ps \<and> chain_head prev ps = Inr h"
proof (induction entries arbitrary: prev expected seg)
  case (Cons e es)
  from Cons.prems obtain p r i where "json_item ''payload'' e = Inr p" "compute_entry_hash prev p = Inr r"
      "bundle_loop fi cps meta lo es r (JInt (i + 1)) (seg @ [r]) = Inr (Some h)"
    by (auto simp: rbind_eq_Inr split: if_splits option.splits)
  with Cons.IH [of r "JInt (i + 1)" "seg @ [r]"] show ?case by auto
qed simp

lemma accepted_bundleD:
  assumes "verify_bundle pf fi fs = Inr 0" "bundle_json pf fs ''metadata.json'' = Inr meta" "json_item ''from_seq'' meta = Inr (JInt 1)"
    and "bundle_payloads pf fs = Inr ps" "ps \<noteq> []"
  obtains h where "chain_head genesis_prev_hash ps = Inr h" "json_item ''head_entry_hash'' meta = Inr (JStr (hex_prefixed h))"
proof -
  from assms(1-3) obtain entries cps h where
      e: "rbind (read_file fs ''audit_log.ndjson'') (load_ndjson pf) = Inr entries"
    and l: "bundle_loop fi cps meta (JInt 1) entries genesis_prev_hash (JInt 1) [] = Inr (Some h)"
    and h: "json_item ''head_entry_hash'' meta = Inr (if entries = [] then JNull else JStr (hex_prefixed h))"
    unfolding verify_bundle_def bundle_json_def start_hash_def
    by (auto simp: rbind_eq_Inr as_int_def split: if_splits option.splits)
  from bundle_loop_sound [OF l] assms(4,5) e have "chain_head genesis_prev_hash ps = Inr h" "entries \<noteq> []"
    by (auto simp: bundle_payloads_def)
  with h that show ?thesis by simp
qed

text \<open>
  C23. A bundle that the offline verifier accepts is the log: if it claims to start at the first entry,
  carries as many entries as a valid log and names that log's head hash, then its payloads are the
  payloads of the log, entry by entry and up to the order of keys, unless two of the byte strings that
  were hashed are a collision of SHA-256. Nothing else of the bundle has to be trusted.
\<close>

theorem bundle_tamper_evident:
  assumes "verify_bundle pf fi fs = Inr 0" "bundle_json pf fs ''metadata.json'' = Inr meta"
    and "json_item ''from_seq'' meta = Inr (JInt 1)" "bundle_payloads pf fs = Inr ps"
    and "chain_from 1 genesis_prev_hash rows" "rows \<noteq> []" "length ps = length rows"
    and "json_item ''head_entry_hash'' meta = Inr (JStr (al_entry_hash (last rows)))"
    and "list_all no_floats ps" "list_all (\<lambda>r. no_floats (al_payload r)) rows"
  shows "map norm ps = map (\<lambda>r. norm (al_payload r)) rows \<or>
    collision_in (chain_inputs genesis_prev_hash ps) (chain_inputs genesis_prev_hash (map al_payload rows))"
proof -
  have "ps \<noteq> []" using assms(6,7) by auto
  then obtain h where h: "chain_head genesis_prev_hash ps = Inr h" "json_item ''head_entry_hash'' meta = Inr (JStr (hex_prefixed h))"
    by (rule accepted_bundleD [OF assms(1-4)])
  have "al_entry_hash (last rows) = hex_prefixed (last_hash genesis_prev_hash (chain_hashes genesis_prev_hash rows))"
    using chain_from_last_hash [OF assms(5,6)] by simp
  then have "last_hash genesis_prev_hash (chain_hashes genesis_prev_hash rows) = h" using assms(8) h(2) by simp
  then have "chain_head genesis_prev_hash (map al_payload rows) = Inr h"
    using chain_from_payloads [OF assms(5)] by simp
  then show ?thesis
    using chain_head_eqD [of ps "map al_payload rows" genesis_prev_hash genesis_prev_hash h] h(1) assms(7,9,10)
    by (auto simp: list_all_iff comp_def)
qed

lemma bundle_of_one_entry:
  defines "r \<equiv> one_entry (JStr ''paid'')"
  defines "fs \<equiv> bundle_files (\<lambda>s. None) ''t'' ''t'' [] 1 1 [r] []"
  shows "verify_bundle pf fi fs = Inr 0" "bundle_json pf fs ''metadata.json'' = Inr (metadata_json ''t'' 1 1 [r])"
    "bundle_payloads pf fs = Inr [JStr ''paid'']" "chain_from 1 genesis_prev_hash [r]"
proof -
  have c: "chain_from 1 genesis_prev_hash [r]"
    using audit_ok_one_entry [of "JStr ''paid''"] by (simp add: audit_ok_def r_def)
  have v: "valid_text (al_entry_hash r)" "valid_text (hex_prefixed genesis_prev_hash)" "valid_text ''t''"
    by (simp_all add: r_def one_entry_def compute_entry_hash_no_floats valid_hex_prefixed) (simp add: valid_text_def)
  then have ex: "list_all (exportable (\<lambda>s. None)) [r]"
    by (simp add: exportable_def bundle_row_def opt_str_def r_def) (simp add: one_entry_def valid_text_def)
  show "verify_bundle pf fi fs = Inr 0"
    unfolding fs_def by (rule bundle_accepts [where rest = "[]"]) (use c ex v in simp_all)
  have "read_file fs ''metadata.json'' = Inr (dumps_indent (metadata_json ''t'' 1 1 [r]))"
    "read_file fs ''audit_log.ndjson'' = Inr (ndjson_text (\<lambda>s. None) [r])"
    by (simp_all add: fs_def read_file_def bundle_files_def evidence_files_def Let_def)
  then show "bundle_json pf fs ''metadata.json'' = Inr (metadata_json ''t'' 1 1 [r])" "bundle_payloads pf fs = Inr [JStr ''paid'']"
    using loads_metadata [OF v(3), of "[r]"] v(1) load_ndjson_export [OF ex]
    by (simp_all add: bundle_json_def bundle_payloads_def bundle_row_items) (simp add: r_def one_entry_def)
  show "chain_from 1 genesis_prev_hash [r]" by (rule c)
qed

theorem bundle_tamper_evident_witness:
  "let r = one_entry (JStr ''paid'') in
   map norm [JStr ''paid''] = map (\<lambda>r. norm (al_payload r)) [r] \<or>
   collision_in (chain_inputs genesis_prev_hash [JStr ''paid'']) (chain_inputs genesis_prev_hash (map al_payload [r]))"
  unfolding Let_def
  by (rule bundle_tamper_evident [OF bundle_of_one_entry(1) [of "\<lambda>s. FZero" "\<lambda>x. None"] bundle_of_one_entry(2) _ bundle_of_one_entry(3,4)])
    (simp_all add: metadata_items, simp add: one_entry_def)

end
