(* ===== verification/Demo.thy ===== *)
theory Demo
  imports Demo_Events Growth Explain Audit_Bundle
begin

text \<open>
  The demonstrations (\<open>application/demo.py\<close>) and their background runs (\<open>application/demo_runs.py\<close>). A scenario runs on a
  database like the endpoints do, with a clock that stands still, a fresh simulator and breaker, ids derived from a seed, and a
  recorder of events beside the world.
\<close>

section \<open>The set of a demonstration\<close>

definition scenarios :: "string list" where
  "scenarios = [''happy_path'', ''over_cap'', ''stale_price'', ''declined'', ''llm_down'']"

definition verify_chain_item :: string where
  "verify_chain_item = ''verify_chain''"

definition demo_items :: "string list" where
  "demo_items = scenarios @ [verify_chain_item]"

text \<open>2026-01-15T09:00:00Z.\<close>

definition demo_now :: datetime where
  "demo_now = day_start 20468 + 9 * 3600 * 1000000"

record demo_result =
  dm_scenario :: string
  dm_detected_fault :: "string option"
  dm_terminal_outcome :: string
  dm_recovery_action :: string
  dm_reserved_balance_minor :: int
  dm_mandate_id :: string
  dm_trace_id :: string
  dm_seq_range :: "(int \<times> int) option"
  dm_chain :: "chain_verification option"
  dm_order_id :: "string option"

type_synonym 'a act = "(recorder \<times> simulator world, 'a) comp"

text \<open>
  \<open>seed_deterministic_ids\<close> replaces the generator of ids of the process, \<open>reset_ids\<close> in the \<open>finally\<close> clause
  puts the random one back.
\<close>

definition with_seeded_ids :: "string \<Rightarrow> ('r \<times> 'p world, 'a) comp \<Rightarrow> ('r \<times> 'p world, 'a) comp" where
  "with_seeded_ids seed m = (\<lambda>(r, w).
     case m (r, w\<lparr>ulids := (\<lambda>n. ulid_deterministic seed (Suc n)), ids_minted := 0\<rparr>) of
       (x, (r', w')) \<Rightarrow> (x, (r', w'\<lparr>ulids := ulids w, ids_minted := ids_minted w\<rparr>)))"

text \<open>
  The objects a scenario makes for itself, \<open>FrozenClock\<close>, \<open>SimulatorAdapter\<close> and \<open>CircuitBreaker\<close>, used in place
  of the process's own; the database and the generator of ids are shared.
\<close>

definition lab_world :: "string \<Rightarrow> scenario \<Rightarrow> 'p world \<Rightarrow> simulator world" where
  "lab_world name sc w =
     \<lparr>session = session w, durable = durable w, clock = (\<lambda>n. demo_now), clock_reads = 0, ulids = ulids w,
      ids_minted = ids_minted w, faults = faults w, statements = statements w, others = others w,
      transactions = transactions w, circuit = new_breaker (''demo-'' @ name) 5 (timedelta_s 30),
      provider = new_simulator sc 0, provider_calls = [], config = config w, json_datetime = json_datetime w\<rparr>"

definition leave_lab :: "'p world \<Rightarrow> simulator world \<Rightarrow> 'p world" where
  "leave_lab w v =
     w\<lparr>session := session v, durable := durable v, ids_minted := ids_minted v, statements := statements v,
       transactions := transactions v\<rparr>"

definition in_lab :: "string \<Rightarrow> scenario \<Rightarrow> 'a act \<Rightarrow> (recorder \<times> 'p world, 'a) comp" where
  "in_lab name sc m = (\<lambda>(r, w). case m (r, lab_world name sc w) of (x, (r', v)) \<Rightarrow> (x, (r', leave_lab w v)))"

definition build_demo_mandate :: "int \<Rightarrow> int \<Rightarrow> int \<Rightarrow> ('p, mandate) app" where
  "build_demo_mandate max_total max_unit nights =
     bind (new_id ''mdt'') (\<lambda>mid.
     sign_lab_mandate ''mk_demo'' (lab_mandate mid ''usr_demo'' ''agt_demo'' ''ed25519:demo'' max_total max_unit nights 1000))"

definition seed_item :: "string \<Rightarrow> int \<Rightarrow> ('p, unit) app" where
  "seed_item sku unit_price =
     with_uow (
       bind catalog_current_version (\<lambda>current_version.
       bind (catalog_upsert_item (hotel_item sku ''mrc_demo'' unit_price 5 (44 / 10) current_version)) (\<lambda>_.
       commit)))"

definition reserved_balance :: "string \<Rightarrow> ('p, int) app" where
  "reserved_balance mid =
     bind (with_uow (ledger_list_for_account (account mid ''reserved''))) (\<lambda>entries. return (balance_of entries))"

definition chain_status :: "(int \<times> int) option \<Rightarrow> ('p, chain_verification option) app" where
  "chain_status seq_range =
     (case seq_range of
        None \<Rightarrow> return None
      | Some (lo, hi) \<Rightarrow> with_uow (bind (verify_chain lo hi) (\<lambda>v. return (Some v))))"

text \<open>\<open>recorder.emit(...)\<close>.\<close>

definition show_event :: "milestone \<Rightarrow> (recorder \<times> 'p world, unit) comp" where
  "show_event m = on_llm (modify (emit_event m))"

definition sweep_new_audit_entries :: "int \<Rightarrow> (recorder \<times> 'p world, int) comp" where
  "sweep_new_audit_entries after_seq =
     bind (on_app (with_uow (
       bind audit_get_tail (\<lambda>tail.
       case tail of
         None \<Rightarrow> return None
       | Some (seq, h) \<Rightarrow>
           if seq \<le> after_seq then return None
           else bind (audit_list_range (after_seq + 1) seq) (\<lambda>entries. return (Some (seq, entries))))))) (\<lambda>found.
     case found of
       None \<Rightarrow> return after_seq
     | Some (seq, entries) \<Rightarrow> bind (on_llm (emit_events_for_entries entries)) (\<lambda>_. return seq))"

definition current_tail_seq :: "('p, int) app" where
  "current_tail_seq = bind (with_uow audit_get_tail) (\<lambda>tail. return (case tail of None \<Rightarrow> 0 | Some (seq, h) \<Rightarrow> seq))"

record purchase =
  pu_order_id :: "string option"
  pu_saga_id :: "string option"
  pu_quote_total_minor :: int
  pu_settled :: bool
  pu_deny_reason :: "reason_code option"

text \<open>\<open>ReasonCode(str(outcome.body["reason\_code"]))\<close>.\<close>

definition denied_reason :: "body \<Rightarrow> reason_code result" where
  "denied_reason b =
     (case map_of b ''reason_code'' of None \<Rightarrow> Inl (KeyError ''reason_code'') | Some v \<Rightarrow> reason_of (str_json v))"

text \<open>\<open>order is not None and order.provider\_order\_id is not None\<close>.\<close>

definition order_ready :: "order option \<Rightarrow> bool" where
  "order_ready order \<longleftrightarrow> (case order of None \<Rightarrow> False | Some x \<Rightarrow> or_provider_order_id x \<noteq> None)"

definition propose_and_settle :: "mandate \<Rightarrow> string \<Rightarrow> int \<Rightarrow> string \<Rightarrow> string \<Rightarrow> int \<Rightarrow> purchase act" where
  "propose_and_settle m sku nights actor_id trace_id cursor_seq =
     bind (on_app (quote_and_item m sku nights actor_id)) (\<lambda>(quote, item).
     bind (sweep_new_audit_entries cursor_seq) (\<lambda>seq1.
     bind (on_app (propose_quote simulator_adapter m quote item trace_id actor_id)) (\<lambda>answer.
     if \<not> accepted_body answer then
       bind (lift_result (denied_reason answer)) (\<lambda>reason.
       bind (sweep_new_audit_entries seq1) (\<lambda>_.
       return \<lparr>pu_order_id = None, pu_saga_id = None, pu_quote_total_minor = q_total_minor quote, pu_settled = False,
               pu_deny_reason = Some reason\<rparr>))
     else
       let order_id = body_str ''order_id'' answer; saga_id = body_str ''saga_id'' answer in
       bind (on_app (tag_order order_id ''demo_lab'')) (\<lambda>order.
       bind (assert_that (order_ready order)) (\<lambda>_.
       bind (sweep_new_audit_entries seq1) (\<lambda>seq2.
       bind (on_app (settle_order simulator_adapter build_checkout_payload saga_id order actor_id)) (\<lambda>result.
       bind (sweep_new_audit_entries seq2) (\<lambda>_.
       return \<lparr>pu_order_id = Some order_id, pu_saga_id = Some saga_id, pu_quote_total_minor = q_total_minor quote,
               pu_settled = (ss_status result = ''COMPLETED''), pu_deny_reason = None\<rparr>))))))))"

section \<open>The scenarios\<close>

definition outcome_of :: "string \<Rightarrow> string option \<Rightarrow> string \<Rightarrow> string \<Rightarrow> int \<Rightarrow> mandate \<Rightarrow> string \<Rightarrow> string option \<Rightarrow> demo_result" where
  "outcome_of name fault terminal action balance m trace order =
     \<lparr>dm_scenario = name, dm_detected_fault = fault, dm_terminal_outcome = terminal, dm_recovery_action = action,
      dm_reserved_balance_minor = balance, dm_mandate_id = mandate_id m, dm_trace_id = trace, dm_seq_range = None,
      dm_chain = None, dm_order_id = order\<rparr>"

definition captured_or_denied :: "purchase \<Rightarrow> string" where
  "captured_or_denied p =
     (if pu_settled p then ''CAPTURED''
      else ''DENY '' @ (case pu_deny_reason p of None \<Rightarrow> ''None'' | Some c \<Rightarrow> reason_value c))"

text \<open>The mandate is locked, shown, and one item bought within it: the common part of four scenarios.\<close>

definition locked_demo_mandate :: "int \<Rightarrow> string \<Rightarrow> int \<Rightarrow> mandate act" where
  "locked_demo_mandate nights sku unit_price =
     bind (on_app (build_demo_mandate 900000 300000 nights)) (\<lambda>m.
     bind (on_app (seed_item sku unit_price)) (\<lambda>_.
     bind (on_app (lock_mandate m)) (\<lambda>_.
     bind (show_event (emit_mandate_locked m)) (\<lambda>_.
     return m))))"

definition happy_path :: "int \<Rightarrow> demo_result act" where
  "happy_path start_seq =
     bind (on_app (new_id ''trc'')) (\<lambda>trace_id.
     bind (locked_demo_mandate 3 ''HTL-DEMO-HAPPY'' 280000) (\<lambda>m.
     bind (propose_and_settle m ''HTL-DEMO-HAPPY'' 3 ''agt_demo_happy_path'' trace_id start_seq) (\<lambda>p.
     bind (on_app (reserved_balance (mandate_id m))) (\<lambda>balance.
     return (outcome_of ''happy_path'' None (captured_or_denied p)
       ''none (no fault injected) -- 7 gates pass end to end'' balance m trace_id (pu_order_id p))))))"

definition over_cap :: "int \<Rightarrow> demo_result act" where
  "over_cap start_seq =
     bind (on_app (new_id ''trc'')) (\<lambda>trace_id.
     bind (locked_demo_mandate 1 ''HTL-DEMO-OVERCAP'' 500000) (\<lambda>m.
     bind (propose_and_settle m ''HTL-DEMO-OVERCAP'' 1 ''agt_demo_over_cap'' trace_id start_seq) (\<lambda>p.
     bind (assert_that (pu_deny_reason p = Some UNIT_CAP_EXCEEDED)) (\<lambda>_.
     bind (on_app (reserved_balance (mandate_id m))) (\<lambda>balance.
     return (outcome_of ''over_cap'' (Some (reason_value UNIT_CAP_EXCEEDED)) ''DENY (rejected by the policy engine, before G4)''
       ''none needed -- no reservation taken, no provider call made'' balance m trace_id None))))))"

text \<open>The price change behind the back of the quote.\<close>

definition fault_injection :: "string \<Rightarrow> int \<Rightarrow> string \<Rightarrow> string \<Rightarrow> ('p, unit) app" where
  "fault_injection sku new_price trace_id actor_id =
     with_uow (
       bind (catalog_mutate_price sku new_price) (\<lambda>updated.
       bind (append_entry trace_id ''system'' actor_id CATALOG_PRICE_MUTATED (JObj [(''sku'', JStr sku)])
               (JObj [(''sku'', JStr sku), (''new_unit_price_minor'', JInt new_price),
                      (''catalog_version'', JInt (ci_version updated))])) (\<lambda>_.
       commit)))"

definition settle_requoted :: "requote_outcome \<Rightarrow> string \<Rightarrow> int \<Rightarrow> string option act" where
  "settle_requoted out actor_id cursor_seq =
     (case (mr_verdict (rq_result out), rq_saga_id out, mr_order_id (rq_result out)) of
        (ALLOW, Some sid, Some (c # cs)) \<Rightarrow>
          bind (on_app (tag_order (c # cs) ''demo_lab'')) (\<lambda>order.
          bind (assert_that (order_ready order)) (\<lambda>_.
          bind (on_app (settle_order simulator_adapter build_checkout_payload sid order actor_id)) (\<lambda>_.
          bind (sweep_new_audit_entries cursor_seq) (\<lambda>_.
          return (Some (c # cs))))))
      | _ \<Rightarrow> return None)"

definition lock_and_quote :: "mandate \<Rightarrow> string \<Rightarrow> string \<Rightarrow> ('p, quote) app" where
  "lock_and_quote m sku actor_id =
     with_uow (
       bind (mandates_add m LOCKED) (\<lambda>_.
       bind (create_quote (mandate_id m) sku 3 actor_id) (\<lambda>pinned.
       bind commit (\<lambda>_.
       return pinned))))"

definition stale_price :: "int \<Rightarrow> demo_result act" where
  "stale_price start_seq =
     (let actor_id = ''agt_demo_stale_price''; sku = ''HTL-DEMO-STALE'' in
      bind (on_app (new_id ''trc'')) (\<lambda>trace_id.
      bind (on_app (build_demo_mandate 900000 300000 3)) (\<lambda>m.
      bind (on_app (seed_item sku 280000)) (\<lambda>_.
      bind (on_app (lock_and_quote m sku actor_id)) (\<lambda>pinned_quote.
      bind (show_event (emit_mandate_locked m)) (\<lambda>_.
      bind (sweep_new_audit_entries start_seq) (\<lambda>seq1.
      bind (on_app (fault_injection sku 292000 trace_id actor_id)) (\<lambda>_.
      bind (sweep_new_audit_entries seq1) (\<lambda>seq2.
      bind (on_app (propose_with_one_requote_on_stale_price simulator_adapter m pinned_quote actor_id trace_id)) (\<lambda>out.
      bind (sweep_new_audit_entries seq2) (\<lambda>seq3.
      bind (settle_requoted out actor_id seq3) (\<lambda>order.
      bind (on_app (reserved_balance (mandate_id m))) (\<lambda>balance.
      return (outcome_of ''stale_price'' (Some (reason_value STALE_PRICE @ '' (catalog_version mismatch)''))
        (if mr_verdict (rq_result out) = ALLOW then ''CAPTURED'' else reason_value (mr_reason_code (rq_result out)))
        (''auto re-quote once -> re-evaluated at '' @ show_int (q_total_minor (rq_final_quote out)) @ '' -> '' @
         verdict_value (mr_verdict (rq_result out)))
        balance m trace_id order))))))))))))))"

definition declined :: "int \<Rightarrow> demo_result act" where
  "declined start_seq =
     bind (on_app (new_id ''trc'')) (\<lambda>trace_id.
     bind (locked_demo_mandate 3 ''HTL-DEMO-DECLINED'' 280000) (\<lambda>m.
     bind (propose_and_settle m ''HTL-DEMO-DECLINED'' 3 ''agt_demo_declined'' trace_id start_seq) (\<lambda>p.
     bind (assert_that (\<not> pu_settled p)) (\<lambda>_.
     bind (on_app (with_uow (mandates_get (mandate_id m)))) (\<lambda>final.
     case final of
       None \<Rightarrow> raise AssertionError
     | Some (m', status) \<Rightarrow>
         bind (on_app (reserved_balance (mandate_id m))) (\<lambda>balance.
         return (outcome_of ''declined'' (Some (reason_value PROVIDER_DECLINED)) (''mandate -> '' @ status_value status)
           ''compensations applied in reverse, reservation released, no blind retry'' balance m trace_id (pu_order_id p))))))))"

text \<open>What the calls of the language model take from outside: the Unicode database, the validation of an answer, the prompts.\<close>

record llm_texts =
  lt_unicode :: unicode
  lt_slots :: "json \<Rightarrow> string + mandate_draft_slots"
  lt_extraction :: "utext prompts"
  lt_ranking :: "json \<Rightarrow> string + (string list \<times> (string \<times> string) list)"
  lt_candidates :: "catalog_item list prompts"

definition fallback_event :: "string \<Rightarrow> string \<Rightarrow> string \<Rightarrow> milestone" where
  "fallback_event kind title detail = milestone_of ''fallback'' kind title detail Ev_passed no_evidence"

definition asks_back :: "draft_outcome \<Rightarrow> bool" where
  "asks_back d \<longleftrightarrow> (case d of ClarificationNeeded _ _ _ _ \<Rightarrow> True | MandateDraft _ _ _ \<Rightarrow> False)"

definition lock_and_read :: "mandate \<Rightarrow> string \<Rightarrow> ('p, catalog_item option) app" where
  "lock_and_read m sku =
     with_uow (
       bind (mandates_add m LOCKED) (\<lambda>_.
       bind (catalog_get_item sku) (\<lambda>item.
       bind commit (\<lambda>_.
       return item))))"

definition llm_down :: "llm_texts \<Rightarrow> int \<Rightarrow> demo_result act" where
  "llm_down X start_seq =
     (let sku = ''HTL-DEMO-LLMDOWN'' in
      bind (on_app (new_id ''trc'')) (\<lambda>trace_id.
      bind (on_llm (extract_mandate_draft (lt_unicode X) (lt_slots X) (lt_extraction X) null_llm_client
              (codes ''book me something nice in Goa''))) (\<lambda>extraction.
      bind (assert_that (asks_back extraction)) (\<lambda>_.
      bind (show_event (fallback_event ''llm.extraction_fallback'' ''LLM unavailable -- deterministic extraction used''
              ''Every U1 call fails by design; the real, non-LLM fallback path answered instead.'')) (\<lambda>_.
      bind (on_app (build_demo_mandate 900000 300000 3)) (\<lambda>m.
      bind (on_app (seed_item sku 280000)) (\<lambda>_.
      bind (on_app (lock_and_read m sku)) (\<lambda>found.
      case found of
        None \<Rightarrow> raise AssertionError
      | Some item \<Rightarrow>
          bind (on_llm (rank_candidates (lt_ranking X) (lt_candidates X) null_llm_client [item] m)) (\<lambda>ranking.
          bind (assert_that (rr_degraded ranking)) (\<lambda>_.
          bind (show_event (fallback_event ''llm.ranking_fallback'' ''Deterministic ranking used''
                  ''Every U2 call fails by design; candidates ranked without the LLM (degraded=true).'')) (\<lambda>_.
          bind (show_event (emit_mandate_locked m)) (\<lambda>_.
          bind (propose_and_settle m sku 3 ''agt_demo_llm_down'' trace_id start_seq) (\<lambda>p.
          bind (on_app (reserved_balance (mandate_id m))) (\<lambda>balance.
          return (outcome_of ''llm_down'' (Some ''LLM_UNAVAILABLE (every U1/U2 call)'') (captured_or_denied p)
            ''deterministic fallback path used for extraction+ranking, degraded=true'' balance m trace_id
            (pu_order_id p))))))))))))))))"

definition runner :: "llm_texts \<Rightarrow> string \<Rightarrow> int \<Rightarrow> (recorder \<times> 'p world, demo_result) comp" where
  "runner X name start_seq =
     (if name = ''happy_path'' then in_lab name SUCCESS (happy_path start_seq)
      else if name = ''over_cap'' then in_lab name SUCCESS (over_cap start_seq)
      else if name = ''stale_price'' then in_lab name SUCCESS (stale_price start_seq)
      else if name = ''declined'' then in_lab name DECLINE (declined start_seq)
      else in_lab name SUCCESS (llm_down X start_seq))"

definition demo_seed :: "string \<Rightarrow> string option \<Rightarrow> string" where
  "demo_seed name run_id = ''actl-demo:'' @ name @ (case run_id of None \<Rightarrow> [] | Some r \<Rightarrow> '':'' @ r)"

definition run_scenario :: "llm_texts \<Rightarrow> string \<Rightarrow> string option \<Rightarrow> (recorder \<times> 'p world, demo_result) comp" where
  "run_scenario X name run_id =
     (if name \<notin> set scenarios then raise (UnknownScenario name)
      else
        with_seeded_ids (demo_seed name run_id) (
          bind (on_app current_tail_seq) (\<lambda>start_seq.
          bind (runner X name start_seq) (\<lambda>result.
          bind (on_app (with_uow audit_get_tail)) (\<lambda>end_tail.
          let end_seq = (case end_tail of None \<Rightarrow> start_seq | Some (seq, h) \<Rightarrow> seq);
              seq_range = (if start_seq < end_seq then Some (start_seq + 1, end_seq) else None) in
          bind (on_app (chain_status seq_range)) (\<lambda>verdict.
          return (result\<lparr>dm_seq_range := seq_range, dm_chain := verdict\<rparr>)))))))"

section \<open>Traces\<close>

definition exported_entry :: "audit_row \<Rightarrow> json" where
  "exported_entry e =
     JObj [(''seq'', JInt (al_seq e)), (''trace_id'', JStr (al_trace_id e)), (''actor_type'', JStr (al_actor_type e)),
           (''actor_id'', JStr (al_actor_id e)), (''action'', JStr (al_action e)), (''subject'', al_subject e),
           (''payload'', al_payload e), (''payload_hash'', JStr (al_payload_hash e)), (''prev_hash'', JStr (al_prev_hash e)),
           (''entry_hash'', JStr (al_entry_hash e))]"

definition export_entries :: "(int \<times> int) option \<Rightarrow> ('p, json list) app" where
  "export_entries seq_range =
     (case seq_range of
        None \<Rightarrow> return []
      | Some (lo, hi) \<Rightarrow> bind (with_uow (audit_list_range lo hi)) (\<lambda>rows. return (map exported_entry rows)))"

definition export_scenario_trace :: "demo_result \<Rightarrow> ('p, json) app" where
  "export_scenario_trace result =
     bind (export_entries (dm_seq_range result)) (\<lambda>entries.
     return (JObj [(''scenario'', JStr (dm_scenario result)), (''detected_fault'', opt_str (dm_detected_fault result)),
       (''terminal_outcome'', JStr (dm_terminal_outcome result)), (''recovery_action'', JStr (dm_recovery_action result)),
       (''reserved_balance_minor'', JInt (dm_reserved_balance_minor result)), (''mandate_id'', JStr (dm_mandate_id result)),
       (''trace_id'', JStr (dm_trace_id result)), (''entries'', JList entries)]))"

definition export_chain_trace :: "int \<Rightarrow> ('p, json) app" where
  "export_chain_trace from_seq =
     bind (with_uow audit_get_tail) (\<lambda>tail.
     let to_seq = (case tail of None \<Rightarrow> from_seq - 1 | Some (seq, h) \<Rightarrow> seq); head_hash = map_option snd tail in
     bind (export_entries (if from_seq \<le> to_seq then Some (from_seq, to_seq) else None)) (\<lambda>entries.
     return (JObj [(''scenario'', JStr verify_chain_item), (''detected_fault'', JNull),
       (''terminal_outcome'', JStr (if head_hash \<noteq> None then ''CHAIN VALID'' else ''CHAIN EMPTY'')),
       (''recovery_action'', JStr (''none -- read-only verification of the five scenarios'' @ [CHR 0x27] @ '' combined chain'')),
       (''reserved_balance_minor'', JInt 0), (''mandate_id'', JNull), (''trace_id'', JNull), (''from_seq'', JInt from_seq),
       (''to_seq'', JInt to_seq), (''head_entry_hash'', opt_str head_hash), (''entries'', JList entries)])))"

fun offline_loop :: "nat \<Rightarrow> bytes \<Rightarrow> json list \<Rightarrow> (bool \<times> string option) result" where
  "offline_loop i prev [] = Inr (True, None)"
| "offline_loop i prev (entry # entries) =
     (let mismatch = (\<lambda>column. Inr (False, Some (''entry '' @ show_nat i @ '': '' @ column @ '' mismatch''))) in
      rbind (json_item ''payload'' entry) (\<lambda>payload.
      rbind (payload_hash payload) (\<lambda>recomputed.
      rbind (json_item ''payload_hash'' entry) (\<lambda>stored.
      if JStr (hex_prefixed recomputed) \<noteq> stored then mismatch ''payload_hash''
      else
        rbind (json_item ''prev_hash'' entry) (\<lambda>stored_prev.
        if JStr (hex_prefixed prev) \<noteq> stored_prev then mismatch ''prev_hash''
        else
          rbind (compute_entry_hash prev payload) (\<lambda>entry_hash.
          rbind (json_item ''entry_hash'' entry) (\<lambda>stored_hash.
          if JStr (hex_prefixed entry_hash) \<noteq> stored_hash then mismatch ''entry_hash''
          else offline_loop (Suc i) entry_hash entries)))))))"

definition verify_trace_offline :: "json \<Rightarrow> (bool \<times> string option) result" where
  "verify_trace_offline trace =
     (case jget ''entries'' trace of
        Some (JList (e # es)) \<Rightarrow>
          rbind (json_item ''prev_hash'' e) (\<lambda>first.
          rbind (parse_hex_prefixed (str_json first)) (\<lambda>prev.
          offline_loop 0 prev (e # es)))
      | _ \<Rightarrow> Inr (True, None))"

section \<open>Background runs (demo\_runs.py)\<close>

definition verify_chain_run_kind :: string where
  "verify_chain_run_kind = ''verify_chain''"

definition runnable_kinds :: "string list" where
  "runnable_kinds = [''stale_price'', ''declined'', ''llm_down'', verify_chain_run_kind]"

datatype run_status = Run_queued | Run_running | Run_passed | Run_failed

fun run_status_value :: "run_status \<Rightarrow> string" where
  "run_status_value Run_queued = ''queued''"
| "run_status_value Run_running = ''running''"
| "run_status_value Run_passed = ''passed''"
| "run_status_value Run_failed = ''failed''"

record demo_run =
  dn_run_id :: string
  dn_scenario :: string
  dn_status :: run_status
  dn_started_at :: datetime
  dn_completed_at :: "datetime option"
  dn_events :: "demo_event list"
  dn_result :: "demo_result option"
  dn_order_id :: "string option"
  dn_error :: "string option"

definition anchor_detail :: "string \<Rightarrow> string" where
  "anchor_detail status =
     (if status = ''anchored'' then ''Anchored on Monad Testnet.''
      else if status = ''conflict'' then ''Anchor conflict detected -- local root does not match the on-chain record.''
      else ''Not anchored (ANCHOR_PROVIDER=noop by default).'')"

definition verify_event :: "string \<Rightarrow> string \<Rightarrow> string \<Rightarrow> event_status \<Rightarrow> demo_evidence \<Rightarrow> (recorder \<times> 'p world, unit) comp" where
  "verify_event kind title detail status ev = show_event (milestone_of ''verify'' kind title detail status ev)"

definition passed_if :: "bool \<Rightarrow> event_status" where
  "passed_if b = (if b then Ev_passed else Ev_failed)"

definition show_checkpoint :: "audit_checkpoint \<Rightarrow> (recorder \<times> 'p world, unit) comp" where
  "show_checkpoint c =
     verify_event ''checkpoint.merkle_matched''
       (''Checkpoint seq '' @ show_int (ac_from_seq c) @ ''-'' @ show_int (ac_to_seq c) @ '' Merkle root matches'')
       (anchor_detail (ac_anchor_status c)) (passed_if (ac_anchor_status c \<noteq> ''conflict''))
       (no_evidence\<lparr>de_checkpoint_status := Some (ac_anchor_status c)\<rparr>)"

fun show_matched :: "(int \<Rightarrow> audit_checkpoint option) \<Rightarrow> int list \<Rightarrow> (recorder \<times> 'p world, unit) comp" where
  "show_matched by_to_seq [] = return ()"
| "show_matched by_to_seq (n # ns) =
     (case by_to_seq n of
        None \<Rightarrow> show_matched by_to_seq ns
      | Some c \<Rightarrow> bind (show_checkpoint c) (\<lambda>_. show_matched by_to_seq ns))"

definition show_checkpoints :: "chain_verification \<Rightarrow> (recorder \<times> 'p world, unit) comp" where
  "show_checkpoints v =
     (if cv_checkpoints_matched v \<noteq> [] then
        bind (on_app (with_uow checkpoints_list_all)) (\<lambda>cps.
        show_matched (checkpoints_by_to_seq cps) (cv_checkpoints_matched v))
      else
        verify_event ''checkpoint.none_yet'' ''No checkpoint covers this range yet''
          (''Checkpoints are written every N entries -- this segment hasn'' @ [CHR 0x27] @ ''t reached one.'') Ev_passed no_evidence)"

definition chain_terminal :: "chain_verification \<Rightarrow> string" where
  "chain_terminal v =
     (if cv_ok v then ''CHAIN VALID''
      else ''CHAIN BROKEN at seq '' @ (case cv_break v of None \<Rightarrow> ''?'' | Some b \<Rightarrow> show_int (cb_seq b)))"

definition verification_result :: "string option \<Rightarrow> string \<Rightarrow> string \<Rightarrow> (int \<times> int) option \<Rightarrow> chain_verification option \<Rightarrow> demo_result" where
  "verification_result fault terminal action seq_range v =
     \<lparr>dm_scenario = verify_chain_run_kind, dm_detected_fault = fault, dm_terminal_outcome = terminal,
      dm_recovery_action = action, dm_reserved_balance_minor = 0, dm_mandate_id = [], dm_trace_id = [],
      dm_seq_range = seq_range, dm_chain = v, dm_order_id = None\<rparr>"

text \<open>The part of \<open>\_run\_verify\_chain\<close> after the verification.\<close>

definition report_verdict :: "int \<Rightarrow> chain_verification \<Rightarrow> (recorder \<times> 'p world, demo_result) comp" where
  "report_verdict to_seq v =
     bind (verify_event ''chain.entries_verified'' (show_nat (cv_entries_verified v) @ '' entries independently recomputed'')
             ''Every entry_hash/prev_hash link recomputed from scratch and compared.'' (passed_if (cv_ok v))
             (no_evidence\<lparr>de_audit_seq := Some (cv_to_seq v)\<rparr>)) (\<lambda>_.
     bind (show_checkpoints v) (\<lambda>_.
     bind (verify_event ''chain.terminal'' (chain_terminal v)
             ''Independent, read-only re-verification -- never trips the integrity halt.'' (passed_if (cv_ok v)) no_evidence) (\<lambda>_.
     return (verification_result (if cv_ok v then None else Some ''CHAIN_BREAK'') (chain_terminal v)
               ''none -- read-only verification'' (Some (1, to_seq)) (Some v)))))"

definition run_verify_chain :: "(recorder \<times> 'p world, demo_result) comp" where
  "run_verify_chain =
     bind (on_app (with_uow audit_get_tail)) (\<lambda>tail.
     case tail of
       None \<Rightarrow>
         bind (verify_event ''chain.empty'' ''Chain is empty'' ''No audit entries exist yet in this environment.'' Ev_passed no_evidence) (\<lambda>_.
         return (verification_result None ''CHAIN EMPTY'' ''none -- nothing to verify yet'' None None))
     | Some (to_seq, h) \<Rightarrow>
         bind (verify_event ''chain.scan_started'' ''Chain scan started''
                 (''Recomputing every hash from seq 1 to '' @ show_int to_seq @ ''.'') Ev_running no_evidence) (\<lambda>_.
         bind (on_app (with_uow (verify_chain 1 to_seq))) (\<lambda>v.
         report_verdict to_seq v)))"

text \<open>
  The registry of runs, and the run that a background task executes. \<open>now\<close> and \<open>wall\<close> are readings of the system's clock,
  \<open>class_name\<close> the name of an exception's class. \<open>except Exception\<close> lets \<open>SystemExit\<close> pass.
\<close>

type_synonym runs = "(string \<times> demo_run) list"

definition get_run :: "runs \<Rightarrow> string \<Rightarrow> demo_run option" where
  "get_run rs run_id = map_of rs run_id"

definition start_demo_run :: "datetime \<Rightarrow> string \<Rightarrow> (runs \<times> 'p world, demo_run) comp" where
  "start_demo_run now name =
     (if name \<notin> set runnable_kinds then raise (UnknownScenario name)
      else
        bind (on_app (new_id ''run'')) (\<lambda>run_id.
        let r = \<lparr>dn_run_id = run_id, dn_scenario = name, dn_status = Run_queued, dn_started_at = now, dn_completed_at = None,
                 dn_events = [], dn_result = None, dn_order_id = None, dn_error = None\<rparr> in
        bind (on_llm (modify (dict_set run_id r))) (\<lambda>_.
        return r)))"

definition run_body :: "llm_texts \<Rightarrow> demo_run \<Rightarrow> (recorder \<times> 'p world, demo_result) comp" where
  "run_body X r =
     (if dn_scenario r = verify_chain_run_kind then run_verify_chain else run_scenario X (dn_scenario r) (Some (dn_run_id r)))"

definition execute_run ::
  "llm_texts \<Rightarrow> (exn \<Rightarrow> string) \<Rightarrow> (nat \<Rightarrow> datetime) \<Rightarrow> datetime \<Rightarrow> (demo_run \<times> 'p world, unit) comp" where
  "execute_run X class_name wall finished = (\<lambda>(r, w).
     case run_body X r (\<lparr>rec_live = True, rec_clock = wall, rec_events = []\<rparr>, w) of
       (out, (rec, w')) \<Rightarrow>
         (let ended = (\<lambda>s. r\<lparr>dn_status := s, dn_events := rec_events rec, dn_completed_at := Some finished\<rparr>) in
          case out of
            Inr res \<Rightarrow> (Inr (), ((ended Run_passed)\<lparr>dn_result := Some res, dn_order_id := dm_order_id res\<rparr>, w'))
          | Inl (SystemExit s) \<Rightarrow> (Inl (SystemExit s), (ended Run_running, w'))
          | Inl e \<Rightarrow>
              (Inr (), ((ended Run_failed)\<lparr>dn_error :=
                 Some (class_name e @ '': this run failed -- see server logs for detail.'')\<rparr>, w'))))"

definition or_null :: "string \<Rightarrow> json" where
  "or_null s = (if s = [] then JNull else JStr s)"

definition result_json :: "demo_result option \<Rightarrow> json" where
  "result_json res =
     (case res of
        None \<Rightarrow> JNull
      | Some r \<Rightarrow>
          JObj [(''scenario'', JStr (dm_scenario r)), (''detected_fault'', opt_str (dm_detected_fault r)),
                (''terminal_outcome'', JStr (dm_terminal_outcome r)), (''recovery_action'', JStr (dm_recovery_action r)),
                (''reserved_balance_minor'', JInt (dm_reserved_balance_minor r)), (''mandate_id'', or_null (dm_mandate_id r)),
                (''trace_id'', or_null (dm_trace_id r)), (''order_id'', opt_str (dm_order_id r)),
                (''seq_range'', (case dm_seq_range r of None \<Rightarrow> JNull | Some (lo, hi) \<Rightarrow> JList [JInt lo, JInt hi])),
                (''chain_verified'', (case dm_chain r of None \<Rightarrow> JNull | Some v \<Rightarrow> JBool (cv_ok v))),
                (''entries_verified'', (case dm_chain r of None \<Rightarrow> JNull | Some v \<Rightarrow> JInt (int (cv_entries_verified v))))])"

definition evidence_json :: "demo_evidence \<Rightarrow> json" where
  "evidence_json e =
     (let text = map_option JStr; num = map_option JInt in
      JObj (concat (map (\<lambda>(k, v). case v of None \<Rightarrow> [] | Some x \<Rightarrow> [(k, x)])
        [(''order_id'', text (de_order_id e)), (''quote_id'', text (de_quote_id e)), (''catalog_version'', num (de_catalog_version e)),
         (''gate'', text (de_gate e)), (''reason_code'', text (de_reason_code e)), (''payment_state'', text (de_payment_state e)),
         (''reserved_balance_minor'', num (de_reserved_balance_minor e)),
         (''released_balance_minor'', num (de_released_balance_minor e)), (''audit_seq'', num (de_audit_seq e)),
         (''entry_hash_prefix'', text (de_entry_hash_prefix e)), (''checkpoint_status'', text (de_checkpoint_status e))])))"

definition event_json :: "demo_event \<Rightarrow> json" where
  "event_json ev =
     (let m = ev_milestone ev in
      JObj [(''seq'', JInt (ev_seq ev)), (''ts'', JStr (isoformat (ev_at ev))), (''phase'', JStr (ms_phase m)),
            (''kind'', JStr (ms_kind m)), (''title'', JStr (ms_title m)), (''detail'', JStr (ms_detail m)),
            (''status'', JStr (event_status_value (ms_status m))), (''evidence'', evidence_json (ms_evidence m))])"

definition demo_run_json :: "demo_run \<Rightarrow> json" where
  "demo_run_json r =
     JObj [(''run_id'', JStr (dn_run_id r)), (''scenario'', JStr (dn_scenario r)), (''status'', JStr (run_status_value (dn_status r))),
           (''started_at'', JStr (isoformat (dn_started_at r))), (''completed_at'', opt_str (map_option isoformat (dn_completed_at r))),
           (''events'', JList (map event_json (dn_events r))), (''result'', result_json (dn_result r)),
           (''order_id'', opt_str (dn_order_id r)), (''error'', opt_str (dn_error r))]"

section \<open>What a demonstration cannot break\<close>

context commerce_db
begin

lemma demo_steps_keep:
  "keeps (steady J) (seed_item sku p :: ('p, unit) app)"
  "keeps (steady J) (fault_injection sku p trace actor :: ('p, unit) app)"
  "keeps (steady J) (propose_with_one_requote_on_stale_price P m q actor trace)"
  "keeps (steady J) (lock_and_quote m sku actor :: ('p, quote) app)"
  "keeps (steady J) (lock_and_read m sku :: ('p, catalog_item option) app)"
proof -
  show "keeps (steady J) (lock_and_quote m sku actor :: ('p, quote) app)"
    "keeps (steady J) (lock_and_read m sku :: ('p, catalog_item option) app)"
    unfolding lock_and_quote_def lock_and_read_def by (intro keeps_with_uow guarded_rules TrueI)+
  show "keeps (steady J) (seed_item sku p :: ('p, unit) app)"
    unfolding seed_item_def by (intro keeps_with_uow guarded_rules upsert_guarded TrueI)
  show "keeps (steady J) (fault_injection sku p trace actor :: ('p, unit) app)"
    unfolding fault_injection_def by (intro keeps_with_uow guarded_rules TrueI)
  show "keeps (steady J) (propose_with_one_requote_on_stale_price P m q actor trace)"
    unfolding propose_with_one_requote_on_stale_price_def propose_once_def buyer_intent_hash_def
    by (intro keeps_rules keeps_with_uow guarded_rules handlers_keep TrueI)
qed

end

lemma upsert_local: "local (catalog_upsert_item i)" "local (orders_set_source oid src)" "local (catalog_mutate_price sku p)"
  unfolding catalog_upsert_item_def orders_set_source_def catalog_mutate_price_def by (intro local_rules)+

context provider_port
begin

lemma demo_steps_sole:
  "unchanged others (quote_and_item m sku nights actor :: ('p, quote \<times> catalog_item) app)"
  "unchanged others (propose_quote P m q item trace actor)"
  "unchanged others (tag_order oid src :: ('p, order option) app)"
  "unchanged others (settle_order P payload_builder sid order actor)"
  "unchanged others (lock_mandate m :: ('p, unit) app)"
  "unchanged others (seed_item sku p :: ('p, unit) app)"
  "unchanged others (fault_injection sku p trace actor :: ('p, unit) app)"
  "unchanged others (propose_with_one_requote_on_stale_price P m q actor trace)"
  "unchanged others (lock_and_quote m sku actor :: ('p, quote) app)"
  "unchanged others (lock_and_read m sku :: ('p, catalog_item option) app)"
proof -
  note leaf = sole.local_unchanged [OF upsert_local(1)] sole.local_unchanged [OF upsert_local(2)] sole.local_unchanged [OF upsert_local(3)]
  have quote: "unchanged others (create_quote mid sku nights actor :: ('p, quote) app)" for mid sku nights
    unfolding create_quote_def by (intro sole.rules)
  have fetch: "unchanged others (logged ''fetch_payments'' (port_fetch_payments P poid))" for poid
    by (rule external_sole external_logged fetch_outside)+
  show "unchanged others (quote_and_item m sku nights actor :: ('p, quote \<times> catalog_item) app)"
    "unchanged others (propose_quote P m q item trace actor)"
    "unchanged others (tag_order oid src :: ('p, order option) app)"
    "unchanged others (settle_order P payload_builder sid order actor)"
    "unchanged others (lock_mandate m :: ('p, unit) app)"
    "unchanged others (seed_item sku p :: ('p, unit) app)"
    "unchanged others (fault_injection sku p trace actor :: ('p, unit) app)"
    "unchanged others (propose_with_one_requote_on_stale_price P m q actor trace)"
  "unchanged others (lock_and_quote m sku actor :: ('p, quote) app)"
  "unchanged others (lock_and_read m sku :: ('p, catalog_item option) app)"
    unfolding quote_and_item_def propose_quote_def tag_order_def settle_order_def lock_mandate_def seed_item_def fault_injection_def
      propose_with_one_requote_on_stale_price_def propose_once_def buyer_intent_hash_def lock_and_quote_def lock_and_read_def Let_def
    by (auto intro!: sole.rules saga_sole propose_sole fetch leaf quote split: option.split list.split)
qed

end

text \<open>
  An invariant of the database beside a recorder: the committed state satisfies it, and what other processes do is a fixed
  function \<open>O\<close> that keeps it.
\<close>

definition lab_inv :: "(db \<Rightarrow> bool) \<Rightarrow> (nat \<Rightarrow> db \<Rightarrow> db) \<Rightarrow> 'r \<times> 'p world \<Rightarrow> bool" where
  "lab_inv J O' = (\<lambda>(r, w). steady J w \<and> others w = O')"

named_theorems lab_rules

lemma lab_on_app: "keeps (steady J) m \<Longrightarrow> unchanged others m \<Longrightarrow> keeps (lab_inv J O') (on_app m)"
  by (auto simp: keeps_def lab_inv_def on_app_def unchanged_def split: prod.split) (metis snd_conv)+

lemma lab_on_llm [lab_rules]: "keeps (lab_inv J O') (on_llm m)"
  by (auto simp: keeps_def lab_inv_def on_llm_def split: prod.split)

lemma lab_local: "local m \<Longrightarrow> keeps (lab_inv J O') (on_app m)"
  by (intro lab_on_app keeps_local sole.local_unchanged)

lemma keeps_uow_local:
  fixes m :: "('p, 'a) app"
  assumes m: "local m"
  shows "keeps (steady J) (with_uow m)"
proof (rule keepsI)
  fix w :: "'p world"
  assume "steady J w"
  moreover obtain x w' where "with_uow m w = (x, w')" by (cases "with_uow m w")
  ultimately show "steady J (snd (with_uow m w))"
    using with_uow_local(1,5) [OF m] by (simp add: steady_def began_def)
qed

lemma lab_read: "local m \<Longrightarrow> keeps (lab_inv J O') (on_app (with_uow m))"
  by (intro lab_on_app keeps_uow_local sole.rules sole.local_unchanged)

lemma lab_in_lab [lab_rules]:
  assumes "keeps (lab_inv J O') m"
  shows "keeps (lab_inv J O') (in_lab name sc m)"
proof (rule keepsI)
  fix s :: "recorder \<times> 'p world"
  assume "lab_inv J O' s"
  moreover obtain r w where "s = (r, w)" by (cases s)
  ultimately have "lab_inv J O' (r, lab_world name sc w)" by (auto simp: lab_inv_def steady_def lab_world_def)
  from keepsD [OF assms this] show "lab_inv J O' (snd (in_lab name sc m s))"
    using \<open>s = (r, w)\<close> \<open>lab_inv J O' s\<close>
    by (auto simp: in_lab_def lab_inv_def steady_def leave_lab_def split: prod.split)
qed

lemma lab_seeded [lab_rules]:
  fixes m :: "('r \<times> 'p world, 'a) comp"
  assumes "keeps (lab_inv J O') m"
  shows "keeps (lab_inv J O') (with_seeded_ids seed m)"
proof (rule keepsI)
  fix s :: "'r \<times> 'p world"
  assume "lab_inv J O' s"
  moreover obtain r w where "s = (r, w)" by (cases s)
  ultimately have "lab_inv J O' (r, w\<lparr>ulids := (\<lambda>n. ulid_deterministic seed (Suc n)), ids_minted := 0\<rparr>)"
    by (auto simp: lab_inv_def steady_def)
  from keepsD [OF assms this] show "lab_inv J O' (snd (with_seeded_ids seed m s))"
    using \<open>s = (r, w)\<close> \<open>lab_inv J O' s\<close>
    by (auto simp: with_seeded_ids_def lab_inv_def steady_def split: prod.split)
qed

lemma local_verify_chain: "local (verify_chain lo hi)"
  unfolding verify_chain_def Let_def by (auto intro!: local_rules split: option.split)

lemma lab_reads [lab_rules]:
  "keeps (lab_inv J O') (on_app (reserved_balance mid))" "keeps (lab_inv J O') (on_app current_tail_seq)"
  "keeps (lab_inv J O') (on_app (chain_status seq_range))"
  unfolding reserved_balance_def current_tail_seq_def chain_status_def
  by (intro lab_on_app keeps_rules keeps_uow_local sole.rules sole.local_unchanged local_rules local_verify_chain)+

lemma lab_sweep [lab_rules]: "keeps (lab_inv J O') (sweep_new_audit_entries seq)"
  unfolding sweep_new_audit_entries_def
  by (intro keeps_rules lab_rules lab_read local_rules)

text \<open>What the scenarios do to the database, with the simulator as their provider.\<close>

lemma lab_steps:
  assumes J: "commerce_db simulator_adapter J bound cap"
  shows "keeps (lab_inv J O') (on_app (quote_and_item m sku nights actor) :: (quote \<times> catalog_item) act)"
    "keeps (lab_inv J O') (on_app (propose_quote simulator_adapter m q item trace actor) :: body act)"
    "keeps (lab_inv J O') (on_app (tag_order oid src) :: order option act)"
    "keeps (lab_inv J O') (on_app (settle_order simulator_adapter builder sid order actor) :: saga_snapshot act)"
    "keeps (lab_inv J O') (on_app (lock_mandate m) :: unit act)"
    "keeps (lab_inv J O') (on_app (seed_item sku p) :: unit act)"
    "keeps (lab_inv J O') (on_app (fault_injection sku p trace actor) :: unit act)"
    "keeps (lab_inv J O') (on_app (propose_with_one_requote_on_stale_price simulator_adapter m q actor trace) :: requote_outcome act)"
    "keeps (lab_inv J O') (on_app (lock_and_quote m sku actor) :: quote act)"
    "keeps (lab_inv J O') (on_app (lock_and_read m sku) :: catalog_item option act)"
  by (rule lab_on_app, rule commerce_db.lab_steps_keep [OF J] commerce_db.demo_steps_keep [OF J], rule simulator.demo_steps_sole)+

lemma lab_show [lab_rules]: "keeps (lab_inv J O') (show_event m)"
  unfolding show_event_def by (rule lab_on_llm)

lemma local_demo_mandate: "local (build_demo_mandate max_total max_unit nights)"
  unfolding build_demo_mandate_def by (intro local_rules local_lab_mandate)

lemma lab_new_id [lab_rules]: "keeps (lab_inv J O') (on_app (new_id p))"
  by (intro lab_local local_rules)

lemma lab_purchase:
  assumes J: "commerce_db simulator_adapter J bound cap"
  shows "keeps (lab_inv J O') (propose_and_settle m sku nights actor trace seq)"
    "keeps (lab_inv J O') (locked_demo_mandate nights sku p)"
    "keeps (lab_inv J O') (settle_requoted out actor seq)"
  unfolding propose_and_settle_def locked_demo_mandate_def settle_requoted_def Let_def
  by (auto intro!: keeps_rules lab_rules lab_steps [OF J] lab_local [OF local_demo_mandate] split: verdict.split option.split list.split)

lemma lab_scenarios:
  assumes J: "commerce_db simulator_adapter J bound cap"
  shows "keeps (lab_inv J O') (happy_path seq)" "keeps (lab_inv J O') (over_cap seq)" "keeps (lab_inv J O') (stale_price seq)"
    "keeps (lab_inv J O') (declined seq)" "keeps (lab_inv J O') (llm_down X seq)"
proof -
  note rules = keeps_rules lab_rules lab_purchase [OF J] lab_steps [OF J] lab_local [OF local_demo_mandate] lab_read local_rules
  show "keeps (lab_inv J O') (happy_path seq)" unfolding happy_path_def by (intro rules)
  show "keeps (lab_inv J O') (over_cap seq)" unfolding over_cap_def by (intro rules)
  show "keeps (lab_inv J O') (stale_price seq)" unfolding stale_price_def Let_def by (intro rules)
  show "keeps (lab_inv J O') (declined seq)" unfolding declined_def by (intro rules)
  show "keeps (lab_inv J O') (llm_down X seq)" unfolding llm_down_def Let_def by (intro rules)
qed

lemma lab_runner:
  "commerce_db simulator_adapter J bound cap \<Longrightarrow> keeps (lab_inv J O') (runner X name seq)"
  unfolding runner_def by (intro keeps_rules lab_in_lab lab_scenarios)

lemma lab_run_scenario:
  assumes "commerce_db simulator_adapter J bound cap"
  shows "keeps (lab_inv J O') (run_scenario X name rid)"
  unfolding run_scenario_def Let_def
  by (intro keeps_rules lab_rules lab_runner [OF assms] lab_read local_rules)

lemma lab_verify_event [lab_rules]: "keeps (lab_inv J O') (verify_event k t d s e)"
  unfolding verify_event_def by (rule lab_show)

lemma lab_report: "keeps (lab_inv J O') (report_verdict n v)"
proof -
  have matched: "keeps (lab_inv J O') (show_matched f ns)" for f ns
    by (induction ns) (auto intro!: keeps_rules lab_rules simp: show_checkpoint_def split: option.split)
  have "keeps (lab_inv J O') (show_checkpoints v)"
    unfolding show_checkpoints_def by (intro keeps_rules lab_rules matched lab_read local_rules)
  then show ?thesis unfolding report_verdict_def by (intro keeps_rules lab_rules)
qed

lemma report_value:
  "wp (report_verdict n v) (\<lambda>res s. dm_seq_range res = Some (1, n) \<and> dm_chain res = Some v) (\<lambda>e s. True) s"
  unfolding report_verdict_def
  by (auto simp: wp_def bind_def return_def verification_result_def split: prod.split sum.split)

section \<open>The verdict of a demonstration\<close>

text \<open>Other processes append to the log, at most.\<close>

definition appending :: "(nat \<Rightarrow> db \<Rightarrow> db) \<Rightarrow> bool" where
  "appending O' \<longleftrightarrow> (\<forall>L n d. log_extends L d \<longrightarrow> log_extends L (O' n d))"

lemma lab_inv_appending:
  "appending O' \<Longrightarrow> lab_inv (log_extends L) O' (r, w) \<longleftrightarrow> log_extends L (durable w) \<and> others w = O'"
  by (auto simp: lab_inv_def steady_def appending_def)

context provider_port
begin

lemma log_commerce: "commerce_db P (log_extends L) any_ref any_cap"
  by unfold_locales

end

lemmas simulator_log = provider_port.log_commerce [OF simulator_port]

lemma tail_of_valid_log:
  assumes "audit_ok d"
  shows "map_option (\<lambda>r. (al_seq r, al_entry_hash r)) (max_seq_row (audit_log d)) =
    (if audit_log d = [] then None else Some (int (length (audit_log d)), al_entry_hash (last (audit_log d))))"
proof (cases "audit_log d" rule: rev_cases)
  case (snoc rs x)
  have c: "chain_from 1 genesis_prev_hash (audit_log d)" using assms by (simp add: audit_ok_def)
  then have "al_seq x = 1 + int (length rs)" using snoc by (simp add: chain_from_append)
  then show ?thesis using max_seq_row_chain [OF c] snoc by simp
qed simp

lemma wp_tail:
  assumes "appending O'" "lab_inv (log_extends L) O' (r, w)"
  shows "wp (on_app (with_uow audit_get_tail))
    (\<lambda>t (r', w'). lab_inv (log_extends L) O' (r', w') \<and>
       (case t of None \<Rightarrow> True | Some (seq, h) \<Rightarrow> 1 \<le> seq \<and> seq = int (length (audit_log (durable w')))))
    (\<lambda>e. lab_inv (log_extends L) O') (r, w)"
proof -
  have d: "log_extends L (others w (transactions w) (durable w))" using assms by (auto simp: lab_inv_appending appending_def)
  then have "audit_ok (others w (transactions w) (durable w))" by (simp add: log_extends_def)
  from tail_of_valid_log [OF this] d assms show ?thesis
    by (auto simp: wp_on_app wp_with_uow audit_get_tail_def lab_inv_appending Suc_le_eq)
qed

definition verdict_holds :: "db \<Rightarrow> demo_result \<Rightarrow> bool" where
  "verdict_holds d res \<longleftrightarrow>
     (case dm_seq_range res of
        None \<Rightarrow> dm_chain res = None
      | Some (lo, hi) \<Rightarrow>
          1 \<le> lo \<and> lo \<le> hi \<and> hi \<le> int (length (audit_log d)) \<and>
          (\<exists>v. dm_chain res = Some v \<and> cv_ok v \<and> int (cv_entries_verified v) = hi - lo + 1))"

lemma log_extends_length: "log_extends L d \<Longrightarrow> length L \<le> length (audit_log d)"
  unfolding log_extends_def by (metis length_take min.cobounded1)

lemma wp_verified:
  assumes O': "appending O'" "lab_inv (log_extends L) O' (r, w)"
    and range: "1 \<le> lo" "lo \<le> hi" "hi \<le> int (length (audit_log (durable w)))"
  shows "wp (on_app (with_uow (verify_chain lo hi)))
    (\<lambda>v (r', w'). lab_inv (log_extends L) O' (r', w') \<and> hi \<le> int (length (audit_log (durable w'))) \<and>
       cv_ok v \<and> int (cv_entries_verified v) = hi - lo + 1)
    (\<lambda>e. lab_inv (log_extends L) O') (r, w)"
proof -
  let ?d = "others w (transactions w) (durable w)"
  let ?w = "w\<lparr>durable := ?d, session := ?d, transactions := Suc (transactions w)\<rparr>"
  have ext: "log_extends L ?d" using O' by (auto simp: lab_inv_appending appending_def)
  have "log_extends (audit_log (durable w)) (durable w)" using O' by (simp add: lab_inv_appending log_extends_def)
  then have "log_extends (audit_log (durable w)) ?d" using O' by (auto simp: lab_inv_appending appending_def)
  from log_extends_length [OF this] range have b: "hi \<le> int (length (audit_log ?d))" by simp
  have "audit_ok (session ?w)" using ext by (simp add: log_extends_def)
  from verify_chain_part [OF this range(1,2)] b
  have "wp (verify_chain lo hi)
    (\<lambda>v w'. cv_ok v \<and> int (cv_entries_verified v) = hi - lo + 1 \<and> local_step ?w w') (\<lambda>e w'. local_step ?w w') ?w"
    by (auto elim: wp_mono)
  then have "wp (verify_chain lo hi)
    (\<lambda>v w'. cv_ok v \<and> int (cv_entries_verified v) = hi - lo + 1 \<and> durable w' = ?d \<and> others w' = O')
    (\<lambda>e w'. durable w' = ?d \<and> others w' = O') ?w"
    by (rule wp_mono) (use O' in \<open>simp_all add: local_step_def lab_inv_def\<close>)
  then show ?thesis
    unfolding wp_on_app wp_with_uow by (rule wp_mono) (use b ext O'(1) in \<open>simp_all add: lab_inv_appending\<close>)
qed

lemma wp_chain_status:
  assumes O': "appending O'" "lab_inv (log_extends L) O' (r, w)"
    and range: "\<And>lo hi. seq_range = Some (lo, hi) \<Longrightarrow> 1 \<le> lo \<and> lo \<le> hi \<and> hi \<le> int (length (audit_log (durable w)))"
  shows "wp (on_app (chain_status seq_range))
    (\<lambda>v (r', w'). lab_inv (log_extends L) O' (r', w') \<and>
       verdict_holds (durable w') (res\<lparr>dm_seq_range := seq_range, dm_chain := v\<rparr>))
    (\<lambda>e. lab_inv (log_extends L) O') (r, w)"
proof (cases seq_range)
  case None
  then show ?thesis using O'(2) by (simp add: chain_status_def wp_on_app verdict_holds_def)
next
  case (Some p)
  then obtain lo hi where lh: "seq_range = Some (lo, hi)" by (cases p) auto
  with range have b: "1 \<le> lo" "lo \<le> hi" "hi \<le> int (length (audit_log (durable w)))" by simp_all
  from wp_verified [OF O' b] show ?thesis
    unfolding lh chain_status_def option.case prod.case wp_on_app wp_with_uow wp_bind wp_return
    by (rule wp_mono) (use b in \<open>simp_all add: verdict_holds_def\<close>)
qed

lemma wp_seeded:
  "wp (with_seeded_ids seed m) Q E (r, w) \<longleftrightarrow>
     wp m (\<lambda>x (r', w'). Q x (r', w'\<lparr>ulids := ulids w, ids_minted := ids_minted w\<rparr>))
       (\<lambda>e (r', w'). E e (r', w'\<lparr>ulids := ulids w, ids_minted := ids_minted w\<rparr>))
       (r, w\<lparr>ulids := (\<lambda>n. ulid_deterministic seed (Suc n)), ids_minted := 0\<rparr>)"
  by (simp add: wp_def with_seeded_ids_def split: prod.split sum.split)

lemma wp_current_tail:
  assumes "appending O'" "lab_inv (log_extends L) O' (r, w)"
  shows "wp (on_app current_tail_seq) (\<lambda>seq s. lab_inv (log_extends L) O' s \<and> 0 \<le> seq) (\<lambda>e. lab_inv (log_extends L) O') (r, w)"
proof -
  have "wp (on_app (with_uow audit_get_tail))
    (\<lambda>t s. lab_inv (log_extends L) O' s \<and> 0 \<le> (case t of None \<Rightarrow> 0 | Some (seq, h) \<Rightarrow> seq))
    (\<lambda>e. lab_inv (log_extends L) O') (r, w)"
    by (rule wp_mono [OF wp_tail [OF assms]]) (auto split: option.splits)
  then show ?thesis
    unfolding wp_on_app current_tail_seq_def wp_bind by (rule wp_mono) simp_all
qed

lemma wp_run_scenario:
  fixes w :: "'p world"
  assumes O': "appending O'" "lab_inv (log_extends L) O' (r, w)"
  shows "wp (run_scenario X name rid)
    (\<lambda>res (r', w'). lab_inv (log_extends L) O' (r', w') \<and> verdict_holds (durable w') res)
    (\<lambda>e. lab_inv (log_extends L) O') (r, w)"
proof -
  let ?I = "lab_inv (log_extends L) O'"
  let ?Q = "\<lambda>res (r', w'). ?I (r', w') \<and> verdict_holds (durable w') res"
  let ?last = "\<lambda>start res end_tail.
    let end_seq = (case end_tail of None \<Rightarrow> start | Some (seq, h) \<Rightarrow> seq);
        seq_range = (if start < end_seq then Some (start + 1, end_seq) else None) in
    bind (on_app (chain_status seq_range)) (\<lambda>verdict. return (res\<lparr>dm_seq_range := seq_range, dm_chain := verdict\<rparr>))"
  have last: "wp (?last start res t) ?Q (\<lambda>e. ?I) (r', w')"
    if "0 \<le> start" "?I (r', w')" "case t of None \<Rightarrow> True | Some (seq, h) \<Rightarrow> 1 \<le> seq \<and> seq = int (length (audit_log (durable w')))"
    for start res t r' w'
    unfolding Let_def wp_bind wp_return
    by (rule wp_mono [OF wp_chain_status [OF O'(1) that(2), where res = res]])
      (use that in \<open>auto split: if_splits option.splits\<close>)
  have tail: "wp (bind (on_app (with_uow audit_get_tail)) (?last start res)) ?Q (\<lambda>e. ?I) s"
    if "0 \<le> start" "?I s" for start res and s :: "recorder \<times> 'p world"
  proof -
    obtain r' w' where s: "s = (r', w')" by (cases s)
    with that(2) have "?I (r', w')" by simp
    show ?thesis unfolding wp_bind [of "on_app (with_uow audit_get_tail)"] s
      by (rule wp_mono [OF wp_tail [OF O'(1) \<open>?I (r', w')\<close>]]) (use last [OF that(1)] in auto)
  qed
  have body: "wp (bind (on_app current_tail_seq) (\<lambda>start. bind (runner X name start) (\<lambda>res.
      bind (on_app (with_uow audit_get_tail)) (?last start res)))) ?Q (\<lambda>e. ?I) (r', w')" if "?I (r', w')" for r' and w' :: "'p world"
  proof -
    have run: "wp (bind (runner X name start) (\<lambda>res. bind (on_app (with_uow audit_get_tail)) (?last start res))) ?Q (\<lambda>e. ?I) s"
      if "0 \<le> start" "?I s" for start and s :: "recorder \<times> 'p world"
      using lab_runner [OF simulator_log, of L O' X name start] that(2) tail [OF that(1)]
      unfolding wp_bind [of "runner X name start"] keeps_wp by (blast intro: wp_mono)
    show ?thesis unfolding wp_bind [of "on_app current_tail_seq"]
      by (rule wp_mono [OF wp_current_tail [OF O'(1) that]]) (use run in auto)
  qed
  have seeded: "?I (r, w\<lparr>ulids := u, ids_minted := n\<rparr>) = ?I (r, w)" for r :: recorder and u n and w :: "'p world"
    using O'(1) by (simp add: lab_inv_appending)
  show ?thesis
  proof (cases "name \<in> set scenarios")
    case True
    have "?I (r, w\<lparr>ulids := (\<lambda>n. ulid_deterministic (demo_seed name rid) (Suc n)), ids_minted := 0\<rparr>)"
      using O' by (simp add: lab_inv_appending)
    from body [OF this] True show ?thesis
      unfolding run_scenario_def by (simp only: not_True_eq_False if_False not_not wp_seeded) (erule wp_mono; auto simp: seeded)
  qed (use O'(2) in \<open>simp add: run_scenario_def\<close>)
qed

text \<open>
  C29. A demonstration never breaks the log, and its verdict is always that of a valid chain. On a valid log to which other
  processes at most append, every scenario, known or not, however it ends and whatever fails on the way, leaves a valid
  log that starts with the entries that were there; and when it returns, the range it reports lies in the log and every entry
  of it was verified.
\<close>

theorem demonstration_verdict:
  assumes "audit_ok (durable w)" "appending (others w)"
  shows "case run_scenario X name run_id (r, w) of (out, (r', w')) \<Rightarrow>
    log_extends (audit_log (durable w)) (durable w') \<and>
    (case out of Inl e \<Rightarrow> True | Inr res \<Rightarrow> verdict_holds (durable w') res)"
proof -
  have "lab_inv (log_extends (audit_log (durable w))) (others w) (r, w)"
    using assms by (simp add: lab_inv_appending log_extends_def)
  from wp_run_scenario [OF assms(2) this, of X name run_id] show ?thesis
    using assms(2) by (auto simp: wp_def lab_inv_appending split: prod.splits sum.splits)
qed

definition sample_texts :: llm_texts where
  "sample_texts = \<lparr>lt_unicode = ascii, lt_slots = (\<lambda>j. Inr goa_slots), lt_extraction = sample_prompts,
     lt_ranking = (\<lambda>j. Inl ''no ranking''), lt_candidates = sample_prompts\<rparr>"

lemma appending_alone: "appending (\<lambda>n d. d)"
  by (simp add: appending_def)

theorem demonstration_verdict_witness:
  "case run_scenario sample_texts ''declined'' None
      (\<lparr>rec_live = False, rec_clock = (\<lambda>n. 0), rec_events = []\<rparr>, quiet_world 0 () goa_db) of (out, (r', w')) \<Rightarrow>
    log_extends (audit_log (durable (quiet_world 0 () goa_db))) (durable w') \<and>
    (case out of Inl e \<Rightarrow> True | Inr res \<Rightarrow> verdict_holds (durable w') res)"
  by (rule demonstration_verdict) (simp_all add: appending_alone quiet_world_def)

lemma wp_report:
  assumes O': "appending O'" "lab_inv (log_extends L) O' (r, w)"
    and v: "1 \<le> hi" "hi \<le> int (length (audit_log (durable w)))" "cv_ok v" "int (cv_entries_verified v) = hi"
  shows "wp (report_verdict hi v)
    (\<lambda>res (r', w'). lab_inv (log_extends L) O' (r', w') \<and> verdict_holds (durable w') res)
    (\<lambda>e. lab_inv (log_extends L) O') (r, w)"
proof -
  let ?L = "audit_log (durable w)"
  have "lab_inv (log_extends ?L) O' (r, w)" using O' by (simp add: lab_inv_appending log_extends_def)
  moreover have "wp (report_verdict hi v) (\<lambda>x. lab_inv J O') (\<lambda>e. lab_inv J O') (r, w)" if "lab_inv J O' (r, w)" for J
    using lab_report that unfolding keeps_wp by blast
  ultimately have "wp (report_verdict hi v) (\<lambda>x. lab_inv (log_extends ?L) O') (\<lambda>e. lab_inv (log_extends ?L) O') (r, w)"
    "wp (report_verdict hi v) (\<lambda>x. lab_inv (log_extends L) O') (\<lambda>e. lab_inv (log_extends L) O') (r, w)"
    using O'(2) by blast+
  from wp_conj [OF wp_conj [OF this] report_value [of hi v]] show ?thesis
    by (rule wp_mono) (use v O'(1) in \<open>auto simp: verdict_holds_def lab_inv_appending dest!: log_extends_length\<close>)
qed

lemma wp_verify_run:
  fixes w :: "'p world"
  assumes O': "appending O'" "lab_inv (log_extends L) O' (r, w)"
  shows "wp run_verify_chain
    (\<lambda>res (r', w'). lab_inv (log_extends L) O' (r', w') \<and> verdict_holds (durable w') res)
    (\<lambda>e. lab_inv (log_extends L) O') (r, w)"
proof -
  let ?I = "lab_inv (log_extends L) O' :: recorder \<times> 'p world \<Rightarrow> bool"
  let ?Q = "\<lambda>res (r', w'). ?I (r', w') \<and> verdict_holds (durable w') res"
  have event: "wp (bind (verify_event k t d s e) f) ?Q (\<lambda>e. ?I) (r1, w1)" if "\<And>r2. wp (f ()) ?Q (\<lambda>e. ?I) (r2, w1)" for k t d s e f r1 w1
    using that by (simp add: wp_bind verify_event_def show_event_def wp_on_llm)
  have verify: "wp (bind (on_app (with_uow (verify_chain 1 hi))) (report_verdict hi)) ?Q (\<lambda>e. ?I) (r1, w1)"
    if "?I (r1, w1)" "1 \<le> hi" "hi \<le> int (length (audit_log (durable w1)))" for hi r1 w1
    unfolding wp_bind [of "on_app (with_uow (verify_chain 1 hi))"]
    by (rule wp_mono [OF wp_verified [OF O'(1) that(1) order_refl that(2,3)]]) (use that(2) in \<open>auto intro!: wp_report [OF O'(1)]\<close>)
  have scan: "wp (bind (verify_event k t d s e) (\<lambda>_. bind (on_app (with_uow (verify_chain 1 hi))) (report_verdict hi))) ?Q (\<lambda>e. ?I) (r1, w1)"
    if "?I (r1, w1)" "1 \<le> hi" "hi = int (length (audit_log (durable w1)))" for k t d s e hi r1 w1
    by (rule event, rule verify) (use that in \<open>simp_all add: lab_inv_def\<close>)
  have empty: "wp (bind (verify_event k t d s e) (\<lambda>_. return (verification_result None x y None None))) ?Q (\<lambda>e. ?I) (r1, w1)"
    if "?I (r1, w1)" for k t d s e x y r1 w1
    by (rule event) (use that in \<open>simp add: verdict_holds_def verification_result_def lab_inv_def\<close>)
  show ?thesis
    unfolding run_verify_chain_def wp_bind [of "on_app (with_uow audit_get_tail)"]
  proof (rule wp_mono [OF wp_tail [OF O']], goal_cases)
    case (1 t s)
    obtain r1 w1 where "s = (r1, w1)" by (cases s)
    with 1 have t: "?I (r1, w1)" "case t of None \<Rightarrow> True | Some (seq, h) \<Rightarrow> 1 \<le> seq \<and> seq = int (length (audit_log (durable w1)))"
      by simp_all
    show ?case
    proof (cases t)
      case None
      show ?thesis unfolding None \<open>s = (r1, w1)\<close> option.case by (rule empty [OF t(1)])
    next
      case (Some p)
      obtain n h where p: "p = (n, h)" by (cases p)
      show ?thesis unfolding Some p \<open>s = (r1, w1)\<close> option.case prod.case
        by (rule scan [OF t(1)]) (use t(2) in \<open>simp_all add: Some p\<close>)
    qed
  qed
qed

text \<open>
  C30. A background run settles, and what it reports is true of the log. On a valid log to which other processes at most append,
  executing a queued run of any kind leaves a valid log that starts with the entries that were there. Unless the interpreter is
  told to exit, no exception escapes: the run has passed with a result, whose chain verdict holds, or failed with an error and
  none, and its time of completion is set.
\<close>

theorem demo_run_settles:
  assumes "audit_ok (durable w)" "appending (others w)" "dn_result q = None" "dn_error q = None"
  shows "case execute_run X class_name wall finished (q, w) of (out, (q', w')) \<Rightarrow>
    log_extends (audit_log (durable w)) (durable w') \<and> dn_completed_at q' = Some finished \<and>
    (case out of
       Inl e \<Rightarrow> (\<exists>s. e = SystemExit s)
     | Inr u \<Rightarrow>
         (case dn_result q' of
            Some res \<Rightarrow> dn_status q' = Run_passed \<and> dn_error q' = None \<and> dn_order_id q' = dm_order_id res \<and> verdict_holds (durable w') res
          | None \<Rightarrow> dn_status q' = Run_failed \<and> dn_error q' \<noteq> None))"
proof -
  let ?r = "\<lparr>rec_live = True, rec_clock = wall, rec_events = []\<rparr>"
  have I: "lab_inv (log_extends (audit_log (durable w))) (others w) (?r, w)"
    using assms by (simp add: lab_inv_appending log_extends_def)
  have "wp (run_body X q) (\<lambda>res (r', w'). lab_inv (log_extends (audit_log (durable w))) (others w) (r', w') \<and> verdict_holds (durable w') res)
    (\<lambda>e. lab_inv (log_extends (audit_log (durable w))) (others w)) (?r, w)"
    unfolding run_body_def using wp_run_scenario [OF assms(2) I] wp_verify_run [OF assms(2) I] by simp
  then show ?thesis
    using assms by (auto simp: execute_run_def wp_def lab_inv_appending Let_def split: prod.splits sum.splits exn.splits option.splits)
qed

definition queued_run :: demo_run where
  "queued_run = \<lparr>dn_run_id = ''run_1'', dn_scenario = ''verify_chain'', dn_status = Run_queued, dn_started_at = 0,
     dn_completed_at = None, dn_events = [], dn_result = None, dn_order_id = None, dn_error = None\<rparr>"

theorem demo_run_settles_witness:
  "case execute_run sample_texts (\<lambda>e. ''Exception'') (\<lambda>n. 0) 1 (queued_run, quiet_world 0 () goa_db) of (out, (q', w')) \<Rightarrow>
    log_extends (audit_log (durable (quiet_world 0 () goa_db))) (durable w') \<and> dn_completed_at q' = Some 1 \<and>
    (case out of
       Inl e \<Rightarrow> (\<exists>s. e = SystemExit s)
     | Inr u \<Rightarrow>
         (case dn_result q' of
            Some res \<Rightarrow> dn_status q' = Run_passed \<and> dn_error q' = None \<and> dn_order_id q' = dm_order_id res \<and> verdict_holds (durable w') res
          | None \<Rightarrow> dn_status q' = Run_failed \<and> dn_error q' \<noteq> None))"
  by (rule demo_run_settles) (simp_all add: appending_alone quiet_world_def queued_run_def)

section \<open>A trace verifies offline\<close>

text \<open>The column of payload hashes, which the chain itself does not constrain.\<close>

definition hashes_right :: "audit_row list \<Rightarrow> bool" where
  "hashes_right rows \<longleftrightarrow> list_all (\<lambda>r. rmap hex_prefixed (payload_hash (al_payload r)) = Inr (al_payload_hash r)) rows"

lemma offline_chain:
  "chain_from seq prev rows \<Longrightarrow> hashes_right rows \<Longrightarrow> offline_loop i prev (map exported_entry rows) = Inr (True, None)"
proof (induction rows arbitrary: seq prev i)
  case (Cons r rows)
  obtain h ph where h: "compute_entry_hash prev (al_payload r) = Inr h" "al_entry_hash r = hex_prefixed h" "chain_from (seq + 1) h rows"
    and ph: "payload_hash (al_payload r) = Inr ph" "al_payload_hash r = hex_prefixed ph"
    using Cons.prems by (cases "payload_hash (al_payload r)") (auto simp: hashes_right_def rmap_def split: sum.splits)
  have "hashes_right rows" using Cons.prems(2) by (simp add: hashes_right_def)
  from Cons.IH [OF h(3) this] h ph Cons.prems(1) show ?case
    by (simp add: exported_entry_def json_item_def Let_def)
qed simp

lemma chain_from_drop:
  "chain_from seq prev rows \<Longrightarrow> length prev = 32 \<Longrightarrow> \<exists>seq' prev'. chain_from seq' prev' (drop k rows) \<and> length prev' = 32"
proof (induction k arbitrary: seq prev rows)
  case (Suc k)
  show ?case
  proof (cases rows)
    case (Cons r rs)
    with Suc.prems(1) obtain h where "compute_entry_hash prev (al_payload r) = Inr h" "chain_from (seq + 1) h rs"
      by (auto split: sum.splits)
    with Suc.IH [of "seq + 1" h rs] Cons show ?thesis by (simp add: compute_entry_hash_length)
  qed (use Suc.prems in auto)
qed auto

lemma offline_accepts:
  assumes "chain_from seq prev rows" "length prev = 32" "hashes_right rows" "jget ''entries'' t = Some (JList (map exported_entry rows))"
  shows "verify_trace_offline t = Inr (True, None)"
proof (cases rows)
  case (Cons r rs)
  then have "al_prev_hash r = hex_prefixed prev" using assms(1) by simp
  then show ?thesis
    using offline_chain [OF assms(1,3), of 0] assms(2,4) Cons
    by (simp add: verify_trace_offline_def exported_entry_def json_item_def str_json_def parse_hex_prefixed_hex_prefixed del: offline_loop.simps)
qed (use assms in \<open>simp add: verify_trace_offline_def\<close>)

text \<open>
  What a demonstration exports verifies without the database: on a valid log with its payload hashes, the trace of a
  result whose verdict holds passes \<open>verify_trace_offline\<close>, whatever part of the log it covers.
\<close>

theorem exported_trace_verifies:
  assumes "audit_ok (began w)" "hashes_right (audit_log (began w))" "verdict_holds (began w) res"
  shows "wp (export_scenario_trace res) (\<lambda>t w'. verify_trace_offline t = Inr (True, None)) (\<lambda>e w'. e = DBAPIError) w"
proof (cases "dm_seq_range res")
  case None
  then show ?thesis by (simp add: export_scenario_trace_def export_entries_def wp_bind verify_trace_offline_def)
next
  case (Some p)
  then obtain lo hi where lh: "dm_seq_range res = Some (lo, hi)" "1 \<le> lo" "lo \<le> hi" "hi \<le> int (length (audit_log (began w)))"
    using assms(3) by (cases p) (auto simp: verdict_holds_def)
  define k m where "k = nat (lo - 1)" and "m = nat hi"
  let ?all = "audit_log (began w)" and ?rows = "drop k (take m (audit_log (began w)))"
  have km: "int k + 1 = lo" "int m = hi" "k \<le> m" "m \<le> length ?all" using lh by (simp_all add: k_def m_def)
  have c: "chain_from 1 genesis_prev_hash ?all" using assms(1) by (simp add: audit_ok_def)
  have rows: "sort_key al_seq (filter (\<lambda>r. lo \<le> al_seq r \<and> al_seq r \<le> hi) ?all) = ?rows"
    using list_range_slice [OF c km(4,3)] km by simp
  obtain seq' prev' where "chain_from seq' prev' ?rows" "length prev' = 32"
    using chain_from_drop [OF chain_from_take [OF c, of m], of k] by (auto simp: genesis_prev_hash_def)
  moreover have "hashes_right ?rows"
    using assms(2) by (auto simp: hashes_right_def list_all_iff dest: in_set_dropD in_set_takeD)
  ultimately have "verify_trace_offline t = Inr (True, None)" if "jget ''entries'' t = Some (JList (map exported_entry ?rows))" for t
    using offline_accepts that by blast
  then show ?thesis
    unfolding export_scenario_trace_def export_entries_def lh(1) audit_list_range_def
    using rows by (simp add: wp_bind wp_with_uow began_def [symmetric])
qed

definition paid_entry :: audit_row where
  "paid_entry = (one_entry (JStr ''paid''))\<lparr>al_payload_hash :=
     (case payload_hash (JStr ''paid'') of Inl e \<Rightarrow> [] | Inr h \<Rightarrow> hex_prefixed h)\<rparr>"

definition paid_result :: demo_result where
  "paid_result = (verification_result None ''CHAIN VALID'' [] (Some (1, 1))
     (Some \<lparr>cv_ok = True, cv_from_seq = 1, cv_to_seq = 1, cv_entries_verified = 1, cv_checkpoints_matched = [],
            cv_head_entry_hash = None, cv_break = None\<rparr>))"

theorem exported_trace_verifies_witness:
  "wp (export_scenario_trace paid_result) (\<lambda>t w'. verify_trace_offline t = Inr (True, None)) (\<lambda>e w'. e = DBAPIError)
     (quiet_world 0 () (empty_db\<lparr>audit_log := [paid_entry]\<rparr>))"
proof -
  have b: "began (quiet_world 0 () d) = d" for d by (simp add: began_def quiet_world_def)
  have "payload_hash (JStr ''paid'') = Inr (sha256 (jcs_bytes (JStr ''paid'')))"
    by (simp add: payload_hash_def jcs_render jcs_bytes_render)
  then have "hashes_right [paid_entry]" by (simp add: hashes_right_def paid_entry_def one_entry_def rmap_def)
  moreover have "audit_ok (empty_db\<lparr>audit_log := [paid_entry]\<rparr>)"
    using audit_ok_one_entry [of "JStr ''paid''"]
    by (auto simp: audit_ok_def paid_entry_def one_entry_db_def one_entry_def empty_db_def split: sum.splits)
  ultimately show ?thesis
    by (intro exported_trace_verifies) (simp_all add: b verdict_holds_def paid_result_def verification_result_def)
qed

end
