(* ===== verification/Dashboard.thy ===== *)
theory Dashboard
  imports Demo
begin

text \<open>
  The merchant's dashboard (\<open>interfaces/http/routers/merchant.py\<close>) with the queries behind it
  (\<open>repositories/orders.py\<close>, \<open>decisions.py\<close>, \<open>addon_purchases.py\<close>): health, orders, the audit of one
  order, key figures, the state of the chain, and the guarded routes that start demonstrations. Shown is
  that the guard lets nothing happen outside a safe environment, and that the audit of an order never
  reports a broken chain on a valid log.
\<close>

section \<open>Queries\<close>

text \<open>Orders of one time are listed in the order of their insertion, which SQL leaves open.\<close>

definition organic_match :: "bool option \<Rightarrow> order \<Rightarrow> bool" where
  "organic_match organic_only x =
     (case organic_only of None \<Rightarrow> True | Some True \<Rightarrow> or_source x = None | Some False \<Rightarrow> or_source x \<noteq> None)"

definition orders_list_recent :: "int \<Rightarrow> bool option \<Rightarrow> ('p, order list) app" where
  "orders_list_recent limit organic_only =
     db_read (\<lambda>d. take (nat limit) (sort_key (\<lambda>x. - or_created_at x) (filter (organic_match organic_only) (orders d))))"

definition captured_orders :: "bool \<Rightarrow> order list \<Rightarrow> order list" where
  "captured_orders organic_only xs =
     filter (\<lambda>x. or_status x = ''CAPTURED'' \<and> (organic_only \<longrightarrow> or_source x = None)) xs"

definition orders_count_and_sum_captured :: "bool \<Rightarrow> ('p, int \<times> int) app" where
  "orders_count_and_sum_captured organic_only =
     db_read (\<lambda>d. let xs = captured_orders organic_only (orders d) in (int (length xs), sum_list (map or_amount_minor xs)))"

definition decisions_count_denied :: "('p, int) app" where
  "decisions_count_denied = db_read (\<lambda>d. int (card {i. \<exists>dr. decisions d i = Some dr \<and> dr_verdict dr \<noteq> ALLOW}))"

definition addon_count_all :: "('p, int) app" where
  "addon_count_all = db_read (\<lambda>d. int (length (addon_purchases d)))"

definition addon_count_by_statuses :: "string list \<Rightarrow> ('p, int) app" where
  "addon_count_by_statuses ss = db_read (\<lambda>d. int (length (filter (\<lambda>a. ap_status a \<in> set ss) (addon_purchases d))))"

definition addon_count_by_status :: "string \<Rightarrow> ('p, int) app" where
  "addon_count_by_status s = db_read (\<lambda>d. int (length (filter (\<lambda>a. ap_status a = s) (addon_purchases d))))"

definition addon_sum_price_minor_by_status :: "string \<Rightarrow> ('p, int) app" where
  "addon_sum_price_minor_by_status s =
     db_read (\<lambda>d. sum_list (map ap_price_minor (filter (\<lambda>a. ap_status a = s) (addon_purchases d))))"

section \<open>Reading routes\<close>

text \<open>\<open>pong\<close> tells whether the ping of Redis returns. Only \<open>Exception\<close> is caught.\<close>

definition chain_health :: "('p, string \<times> string) app" where
  "chain_health =
     handle (bind audit_get_tail (\<lambda>tail. return (''ok'', if tail \<noteq> None then ''ok'' else ''empty'')))
       (\<lambda>exc. case exc of SystemExit s \<Rightarrow> raise exc | _ \<Rightarrow> return (''error'', ''error''))"

definition get_health :: "bool \<Rightarrow> ('p, body) app" where
  "get_health pong =
     with_uow (
       bind chain_health (\<lambda>(database, audit_chain).
       bind (gets config) (\<lambda>c.
       return [(''api'', JStr ''ok''), (''database'', JStr database), (''redis'', JStr (if pong then ''ok'' else ''error'')),
               (''audit_chain'', JStr audit_chain), (''payment_mode'', JStr (payment_provider c)),
               (''anchor_mode'', JStr (anchor_provider c))])))"

datatype order_scope = Scope_organic | Scope_demo | Scope_all

fun organic_only_by_scope :: "order_scope \<Rightarrow> bool option" where
  "organic_only_by_scope Scope_organic = Some True"
| "organic_only_by_scope Scope_demo = Some False"
| "organic_only_by_scope Scope_all = None"

definition order_line :: "order \<Rightarrow> ('p, json) app" where
  "order_line x =
     bind (quotes_get (or_quote_id x)) (\<lambda>q.
     return (JObj [(''order_id'', JStr (or_id x)), (''sku'', opt_str (map_option q_sku q)), (''amount_minor'', JInt (or_amount_minor x)),
       (''currency'', JStr (or_currency x)), (''status'', JStr (or_status x)), (''decline_reason'', opt_str (or_decline_reason x)),
       (''source'', opt_str (or_source x)), (''created_at'', JStr (isoformat (or_created_at x)))]))"

text \<open>A request with a limit outside 1 to 200 is refused before the handler runs.\<close>

definition list_orders :: "int \<Rightarrow> order_scope \<Rightarrow> ('p, body) app" where
  "list_orders limit scope =
     with_uow (
       bind (orders_list_recent limit (organic_only_by_scope scope)) (\<lambda>found.
       bind (for_each found order_line) (\<lambda>items.
       return [(''items'', JList items)])))"

definition get_order_audit :: "row_times \<Rightarrow> string \<Rightarrow> ('p, body) app" where
  "get_order_audit T order_id =
     with_uow (
       bind (explain_or_404 T order_id) (\<lambda>result.
       let seqs = timeline_seqs (ex_timeline result) in
       bind (if seqs = [] then return None
             else bind (verify_chain (Min (set seqs)) (Max (set seqs))) (\<lambda>v. return (Some (cv_ok v)))) (\<lambda>chain_verified.
       return (render_explain_result result @ [(''chain_verified'', jopt JBool chain_verified)]))))"

definition get_kpis :: "(rat \<Rightarrow> json) \<Rightarrow> ('p, body) app" where
  "get_kpis float_json =
     with_uow (
       bind compute_growth_metrics (\<lambda>m.
       bind decisions_count_denied (\<lambda>blocked.
       bind addon_count_all (\<lambda>offered.
       bind (addon_count_by_statuses [''pending'', ''settled'', ''failed'']) (\<lambda>accepted.
       bind (addon_count_by_status ''settled'') (\<lambda>settled.
       bind (addon_count_by_status ''declined'') (\<lambda>declined.
       bind (addon_sum_price_minor_by_status ''settled'') (\<lambda>revenue.
       bind (orders_count_and_sum_captured True) (\<lambda>(n, gross).
       return
         [(''baseline'', arm_json float_json (gm_baseline m)), (''upsell'', arm_json float_json (gm_upsell m)),
          (''revenue_uplift'', jopt float_json (gm_revenue_uplift m)), (''protected_offers_blocked'', JInt blocked),
          (''real_upsell'', JObj [(''offered'', JInt offered), (''accepted'', JInt accepted), (''settled'', JInt settled),
             (''declined'', JInt declined), (''attach_rate'', jopt float_json (if 0 < offered then Some (true_div settled offered) else None)),
             (''settled_revenue_minor'', JInt revenue)]),
          (''organic'', JObj [(''orders'', JInt n), (''gross_sales_minor'', JInt gross)])])))))))))"

definition latest_checkpoint_json :: "audit_checkpoint \<Rightarrow> json" where
  "latest_checkpoint_json c =
     JObj [(''from_seq'', JInt (ac_from_seq c)), (''to_seq'', JInt (ac_to_seq c)), (''merkle_root'', JStr (ac_merkle_root c)),
           (''anchor_status'', JStr (ac_anchor_status c)), (''anchor_tx'', opt_str (ac_anchor_tx c)),
           (''anchor_chain_id'', jopt JInt (ac_anchor_chain_id c)),
           (''anchor_contract_address'', opt_str (ac_anchor_contract_address c)),
           (''anchored_at'', opt_str (map_option isoformat (ac_anchored_at c))),
           (''explorer_url'', opt_str (checkpoint_explorer_url c))]"

definition get_trust_summary :: "('p, body) app" where
  "get_trust_summary =
     with_uow (
       bind audit_get_tail (\<lambda>tail.
       bind checkpoints_list_all (\<lambda>cps.
       bind (gets config) (\<lambda>c.
       return [(''chain_head_seq'', jopt JInt (map_option fst tail)), (''chain_head_hash'', opt_str (map_option snd tail)),
               (''checkpoint_count'', JInt (int (length cps))),
               (''latest_checkpoint'', if cps = [] then JNull else latest_checkpoint_json (last cps)),
               (''anchor_provider'', JStr (anchor_provider c))]))))"

section \<open>The guarded routes\<close>

definition safe_demo_app_envs :: "string list" where
  "safe_demo_app_envs = [''local'', ''ci'']"

definition safe_environment :: "settings \<Rightarrow> bool" where
  "safe_environment c \<longleftrightarrow> app_env c \<in> set safe_demo_app_envs \<and> payment_provider c = ''simulator''"

definition demo_refused :: "settings \<Rightarrow> exn" where
  "demo_refused c =
     HTTPException 403 (Inl (''Demo Lab requires APP_ENV in {'' @ repr_str ''local'' @ '', '' @ repr_str ''ci'' @
       ''} and PAYMENT_PROVIDER=simulator; this process is app_env='' @ repr_str (app_env c) @
       '' payment_provider='' @ repr_str (payment_provider c) @ ''.''))"

definition require_safe_demo_environment :: "('p, unit) app" where
  "require_safe_demo_environment =
     bind (gets config) (\<lambda>c. if \<not> safe_environment c then raise (demo_refused c) else return ())"

definition demo_result_json :: "demo_result \<Rightarrow> body" where
  "demo_result_json r =
     [(''scenario'', JStr (dm_scenario r)), (''detected_fault'', opt_str (dm_detected_fault r)),
      (''terminal_outcome'', JStr (dm_terminal_outcome r)), (''recovery_action'', JStr (dm_recovery_action r)),
      (''reserved_balance_minor'', JInt (dm_reserved_balance_minor r)), (''mandate_id'', JStr (dm_mandate_id r)),
      (''trace_id'', JStr (dm_trace_id r)),
      (''seq_range'', (case dm_seq_range r of None \<Rightarrow> JNull | Some (lo, hi) \<Rightarrow> JList [JInt lo, JInt hi])),
      (''chain_verified'', (case dm_chain r of None \<Rightarrow> JNull | Some v \<Rightarrow> JBool (cv_ok v))),
      (''entries_verified'', (case dm_chain r of None \<Rightarrow> JNull | Some v \<Rightarrow> JInt (int (cv_entries_verified v))))]"

text \<open>\<open>str(exc)\<close> of \<open>UnknownScenario\<close>.\<close>

definition unknown_scenario_text :: "string \<Rightarrow> string" where
  "unknown_scenario_text name = ''unknown scenario '' @ repr_str name @ '' -- choices: '' @ join '', '' scenarios"

definition unknown_is_404 :: "('s, 'a) comp \<Rightarrow> ('s, 'a) comp" where
  "unknown_is_404 m =
     handle m (\<lambda>exc. case exc of UnknownScenario n \<Rightarrow> raise (HTTPException 404 (Inl (unknown_scenario_text n))) | _ \<Rightarrow> raise exc)"

definition run_demo_scenario :: "llm_texts \<Rightarrow> string \<Rightarrow> (recorder \<times> 'p world, body) comp" where
  "run_demo_scenario X name =
     bind (on_app require_safe_demo_environment) (\<lambda>_.
     bind (unknown_is_404 (bind (on_app (new_id ''run'')) (\<lambda>run_id. run_scenario X name (Some run_id)))) (\<lambda>result.
     return (demo_result_json result)))"

definition demo_stale_price :: "llm_texts \<Rightarrow> (recorder \<times> 'p world, body) comp" where
  "demo_stale_price X = run_demo_scenario X ''stale_price''"

definition demo_payment_decline :: "llm_texts \<Rightarrow> (recorder \<times> 'p world, body) comp" where
  "demo_payment_decline X = run_demo_scenario X ''declined''"

definition demo_llm_unavailable :: "llm_texts \<Rightarrow> (recorder \<times> 'p world, body) comp" where
  "demo_llm_unavailable X = run_demo_scenario X ''llm_down''"

definition demo_verify_chain :: "('p, body) app" where
  "demo_verify_chain =
     with_uow (
       bind require_safe_demo_environment (\<lambda>_.
       bind audit_get_tail (\<lambda>tail.
       case tail of
         None \<Rightarrow> return [(''ok'', JBool True), (''from_seq'', JNull), (''to_seq'', JNull), (''entries_verified'', JInt 0)]
       | Some (seq, h) \<Rightarrow>
           bind (verify_chain 1 seq) (\<lambda>v.
           return [(''ok'', JBool (cv_ok v)), (''from_seq'', JInt (cv_from_seq v)), (''to_seq'', JInt (cv_to_seq v)),
                   (''entries_verified'', JInt (int (cv_entries_verified v))),
                   (''checkpoints_matched'', JList (map JInt (cv_checkpoints_matched v))),
                   (''head_entry_hash'', opt_str (cv_head_entry_hash v))]))))"

definition start_demo_run_route :: "datetime \<Rightarrow> string \<Rightarrow> (runs \<times> 'p world, json) comp" where
  "start_demo_run_route now name =
     bind (on_app require_safe_demo_environment) (\<lambda>_.
     bind (unknown_is_404 (start_demo_run now name)) (\<lambda>r.
     return (demo_run_json r)))"

definition get_demo_run_route :: "string \<Rightarrow> (runs \<times> 'p world, json) comp" where
  "get_demo_run_route run_id =
     bind (on_app require_safe_demo_environment) (\<lambda>_.
     bind (on_llm (gets (\<lambda>rs. get_run rs run_id))) (\<lambda>found.
     case found of
       None \<Rightarrow> raise (HTTPException 404 (Inr [(''reason_code'', ''RUN_NOT_FOUND''), (''run_id'', run_id)]))
     | Some r \<Rightarrow> return (demo_run_json r)))"

section \<open>The guard holds\<close>

text \<open>
  Outside a safe environment every route of the demonstrations is refused with 403 before anything
  happens: no row, no id, no run, no event.
\<close>

theorem demo_lab_guarded:
  assumes "\<not> safe_environment (config w)"
  shows "run_demo_scenario X name (r, w) = (Inl (demo_refused (config w)), (r, w)) \<and>
    start_demo_run_route now name (rs, w) = (Inl (demo_refused (config w)), (rs, w)) \<and>
    get_demo_run_route rid (rs, w) = (Inl (demo_refused (config w)), (rs, w)) \<and>
    fst (demo_verify_chain w) = Inl (demo_refused (config w)) \<and> durable (snd (demo_verify_chain w)) = began w"
  using assms
  by (simp add: run_demo_scenario_def start_demo_run_route_def get_demo_run_route_def demo_verify_chain_def
      require_safe_demo_environment_def on_app_def bind_def run_simps with_uow_def began_def Let_def)

theorem demo_lab_guarded_witness:
  "run_demo_scenario sample_texts ''declined'' (\<lparr>rec_live = False, rec_clock = (\<lambda>n. 0), rec_events = []\<rparr>, quiet_world 0 () goa_db) =
    (Inl (demo_refused (config (quiet_world 0 () goa_db))),
     (\<lparr>rec_live = False, rec_clock = (\<lambda>n. 0), rec_events = []\<rparr>, quiet_world 0 () goa_db))"
proof -
  have "\<not> safe_environment (config (quiet_world 0 () goa_db))"
    by (simp add: safe_environment_def quiet_world_def default_settings_def)
  from demo_lab_guarded [OF this] show ?thesis by blast
qed

section \<open>The audit of an order\<close>

lemma timeline_seqs_in_log:
  assumes "explained T d order_id x r"
  shows "set (timeline_seqs (ex_timeline r)) \<subseteq> al_seq ` set (audit_log d)"
proof
  fix s
  assume "s \<in> set (timeline_seqs (ex_timeline r))"
  then obtain i where i: "i \<in># mset (ex_timeline r)" "ti_seq i = Some s"
    by (auto simp: timeline_seqs_def List.map_filter_def)
  have "mset (ex_timeline r) = evidence T d order_id x" using assms by (simp add: explained_def)
  with i(1) have "i \<in># evidence T d order_id x" by metis
  with i(2) show "s \<in> al_seq ` set (audit_log d)"
    by (auto simp: evidence_def entry_item_def mandate_item_def decision_item_def webhook_item_def plain_item_def List.map_filter_def
        Let_def split: if_splits option.splits)
qed

lemma log_seq_bounds: "audit_ok d \<Longrightarrow> s \<in> al_seq ` set (audit_log d) \<Longrightarrow> 1 \<le> s \<and> s \<le> int (length (audit_log d))"
proof -
  assume "audit_ok d" "s \<in> al_seq ` set (audit_log d)"
  then have "s \<in> set (map (\<lambda>i. 1 + int i) [0..<length (audit_log d)])"
    using chain_from_seqs [of 1 genesis_prev_hash "audit_log d"] by (simp add: audit_ok_def flip: set_map)
  then show ?thesis by auto
qed

text \<open>
  On a valid log the audit of an order never shows a broken chain: whatever entries the timeline of the
  order has, verifying the log between the first and the last of them succeeds. The route writes nothing,
  and an order that does not exist is the error 404.
\<close>

theorem order_audit_never_broken:
  assumes "audit_ok (began w)"
  shows "wp (get_order_audit T order_id)
    (\<lambda>b w'. map_of b ''chain_verified'' \<in> {Some JNull, Some (JBool True)} \<and> durable w' = began w)
    (\<lambda>e w'. (e = DBAPIError \<or> (\<exists>d. e = HTTPException 404 d)) \<and> durable w' = began w) w"
proof -
  let ?d = "began w"
  let ?w = "w\<lparr>durable := ?d, session := ?d, transactions := Suc (transactions w)\<rparr>"
  let ?Q = "\<lambda>b w'. map_of b ''chain_verified'' \<in> {Some JNull, Some (JBool True)} \<and> durable w' = ?d"
  let ?E = "\<lambda>e w'. (e = DBAPIError \<or> (\<exists>d. e = HTTPException 404 d)) \<and> durable w' = ?d"
  let ?verdict = "\<lambda>seqs. if seqs = [] then return None
    else bind (verify_chain (Min (set seqs)) (Max (set seqs))) (\<lambda>v. return (Some (cv_ok v)))"
  have verdict: "wp (?verdict seqs) (\<lambda>v w'. v \<noteq> Some False \<and> durable w' = ?d) ?E w'"
    if "set seqs \<subseteq> al_seq ` set (audit_log ?d)" "session w' = ?d" "durable w' = ?d" for seqs w'
  proof (cases "seqs = []")
    case False
    have "Min (set seqs) \<in> set seqs" "Max (set seqs) \<in> set seqs" "Min (set seqs) \<le> Max (set seqs)" using False by simp_all
    with log_seq_bounds [OF assms] that(1)
    have b: "1 \<le> Min (set seqs)" "Min (set seqs) \<le> Max (set seqs)" "Max (set seqs) \<le> int (length (audit_log (session w')))"
      unfolding that(2) by blast+
    from verify_chain_part [OF _ b] assms that(2)
    have "wp (verify_chain (Min (set seqs)) (Max (set seqs)))
      (\<lambda>v u. cv_ok v \<and> local_step w' u) (\<lambda>e u. e = DBAPIError \<and> local_step w' u) w'" by (auto elim: wp_mono)
    then show ?thesis using False that(3) by (auto simp: wp_bind local_step_def elim!: wp_mono)
  qed (use that in simp)
  have explained: "wp (explain_or_404 T order_id)
      (\<lambda>r w'. set (timeline_seqs (ex_timeline r)) \<subseteq> al_seq ` set (audit_log ?d) \<and> session w' = ?d \<and> durable w' = ?d) ?E ?w"
  proof (cases "find_order order_id (orders ?d)")
    case None
    then show ?thesis
      by (simp add: explain_or_404_def explain_order_def wp_handle wp_bind orders_get_def)
  next
    case (Some x)
    then have "find_order order_id (orders (session ?w)) = Some x" by simp
    from wp_explain_order [OF this, of T] show ?thesis
      unfolding explain_or_404_def wp_handle
      by (rule wp_mono) (auto simp: local_step_def dest: timeline_seqs_in_log [THEN subsetD])
  qed
  have rest: "wp (bind (?verdict (timeline_seqs (ex_timeline r)))
      (\<lambda>cv. return (render_explain_result r @ [(''chain_verified'', jopt JBool cv)]))) ?Q ?E w'"
    if "set (timeline_seqs (ex_timeline r)) \<subseteq> al_seq ` set (audit_log ?d)" "session w' = ?d" "durable w' = ?d" for r w'
    unfolding wp_bind [of "?verdict (timeline_seqs (ex_timeline r))"] wp_return
    by (rule wp_mono [OF verdict [OF that]]) (auto simp: render_explain_result_def jopt_def split: option.split)
  have "wp (bind (explain_or_404 T order_id) (\<lambda>r. bind (?verdict (timeline_seqs (ex_timeline r)))
      (\<lambda>cv. return (render_explain_result r @ [(''chain_verified'', jopt JBool cv)])))) ?Q ?E ?w"
    unfolding wp_bind [of "explain_or_404 T order_id"] by (rule wp_mono [OF explained]) (use rest in blast)+
  then show ?thesis unfolding get_order_audit_def wp_with_uow began_def [symmetric] Let_def by simp
qed

end
