(* ===== verification/Spec2Isabelle.thy ===== *)
theory Spec2Isabelle
  imports Razorpay Anchor Rate_Limit Quote_Token Dashboard
begin

text \<open>
  \<^bold>\<open>ACTL, the agentic commerce transaction layer.\<close> An agent or a browser buys on behalf of a
  principal within a signed mandate. The program (\<open>src/src/actl\<close>) checks every purchase against the
  mandate, reserves budget in a double-entry ledger, creates and captures payments at a provider, and
  records every step in a hash-chained audit log. This development models it from the pure domain
  functions up to the endpoints and the programs the processes run, and proves what makes them correct.

  \<^bold>\<open>Parts and theories.\<close>
  \<^item> \<open>Prelude\<close>: strings as UTF-8 bytes, datetimes as microseconds, the exceptions as one
    datatype. \<open>Sha256\<close>: SHA-256 and HMAC as the standard defines them. \<open>Datetime\<close>: the text
    form of a datetime.
  \<^item> \<open>Canonical\<close> (\<open>domain/audit/canonical.py\<close>): JSON canonicalisation; injectivity and
    independence of key order. \<open>Hash_Chain\<close> (\<open>domain/audit/chain.py\<close>, \<open>merkle.py\<close>): entry
    hashes and Merkle roots; collision-or-equal theorems.
  \<^item> \<open>Mandate\<close> (\<open>domain/mandate\<close>): the document, its spec hash and signature, the state
    machine with its guards. \<open>Policy\<close> (\<open>domain/policy\<close>): the twelve rules, the evaluator and the
    reason codes. \<open>Catalog\<close> (\<open>domain/catalog\<close>, \<open>domain/agent/buyer.py\<close>): quotes and ranking.
  \<^item> \<open>Platform\<close> (\<open>platform\<close>): circuit breaker, ids, redaction. \<open>Exec\<close>: the effects of the
    program as functions from a state to a result or an exception and a state, weakest preconditions
    (\<open>wp\<close>), preserved invariants (\<open>keeps\<close>) and the retry loop of \<open>platform/retry.py\<close>.
  \<^item> \<open>Db\<close> (\<open>infrastructure/db\<close>): the tables with their constraints, the repositories, the
    unit of work, and the world: clock, fresh ids, faults of statements, commits of other processes,
    and the settings (\<open>config.py\<close>).
  \<^item> \<open>Audit_Service\<close> and \<open>Ledger\<close> (\<open>application/audit_service.py\<close>,
    \<open>ledger_service.py\<close>, \<open>domain/ledger/model.py\<close>): appending and verifying the log; reserve,
    capture, release, reverse, sweep, and their refinement of an abstract reservation life cycle.
  \<^item> \<open>Provider\<close> (\<open>application/ports.py\<close>, \<open>providers/simulator/adapter.py\<close>): the
    payment port as a record of operations, calls through breaker and retry, the simulator.
    \<open>Razorpay\<close> (\<open>providers/razorpay/adapter.py\<close>): the adapter of the real provider over an HTTP
    client.
  \<^item> \<open>Transactions\<close>: programs of several transactions; the interfaces below.
  \<^item> \<open>Payment\<close> (\<open>application/payment_service.py\<close>), \<open>Compensations\<close>
    (\<open>application/compensations.py\<close>), \<open>Gate\<close> (\<open>application/gate.py\<close>), \<open>Saga\<close>
    (\<open>application/orchestrator/saga.py\<close>), \<open>Worker\<close> (\<open>worker.py\<close>, the webhook route, the
    sweep command): the programs that move money, statement by statement, with every early return and
    except clause.
  \<^item> \<open>Anchor\<close> (\<open>infrastructure/anchor\<close>, the anchor loop of \<open>worker.py\<close>,
    \<open>chain/src/AuditCheckpointAnchor.sol\<close>): the contract on the chain, its client, and the tick that
    submits and marks checkpoints.
  \<^item> \<open>Catalog_Service\<close> (\<open>application/catalog_service.py\<close>): catalog pages with their cursors,
    quotes, price changes. \<open>Upsell\<close> (\<open>application/upsell_service.py\<close>): add-ons to a booking.
  \<^item> \<open>Envelope\<close> (\<open>domain/agent/envelope.py\<close>, \<open>application/agents/envelope_service.py\<close>,
    \<open>infrastructure/cache/nonce.py\<close>): signed messages, their verification and the check for
    replays. \<open>Merchant\<close> (\<open>application/agents/merchant.py\<close>): the handlers of the six requests.
    \<open>Agent_Api\<close> (\<open>interfaces/agent\<close>): body schemas, dispatch, the message endpoint.
  \<^item> \<open>Draft\<close> (\<open>domain/mandate/draft.py\<close>): slots, questions and the check of amounts against
    the user's own words, with \<open>decimal.Decimal\<close>. \<open>Llm\<close> (\<open>application/conversation\<close>,
    \<open>infrastructure/llm/repair.py\<close>): extraction, its regular expressions as fallback, ranking,
    narration. \<open>Llm_Clients\<close> (\<open>conversation/budget.py\<close>, \<open>infrastructure/llm\<close>): the clients
    behind that port.
  \<^item> \<open>Buyer_Api\<close> (\<open>interfaces/http/routers/buyer.py\<close>, \<open>application/recovery.py\<close>) and
    \<open>Http_Api\<close> (\<open>routers/catalog.py\<close>, \<open>admin.py\<close>, \<open>well_known.py\<close>): the HTTP endpoints.
    \<open>Endpoints\<close>: all of them and the background work as one datatype of calls.
  \<^item> \<open>Json_Text\<close>: the text of JSON as \<open>json.dumps\<close> prints and \<open>json.loads\<close> scans it, and their
    round trip. \<open>Quote_Token\<close> (\<open>domain/catalog/quote.py\<close>): verification of quote tokens.
    \<open>Audit_Bundle\<close> (\<open>src/scripts/export_audit_bundle.py\<close>): the exported bundle and the verifier
    script that travels with it.
  \<^item> \<open>Doubles\<close>: rounding to IEEE doubles. \<open>Rate_Limit\<close>
    (\<open>infrastructure/cache/rate_limit.py\<close>): the token bucket that runs in Redis.
  \<^item> \<open>Explain\<close> (\<open>application/explain_service.py\<close>, \<open>routers/audit.py\<close>): the timeline of an
    order. \<open>Growth\<close> (\<open>application/growth\<close>, \<open>routers/growth.py\<close>): the simulated sessions of both
    arms and the metrics over the outbox.
  \<^item> \<open>Demo_Events\<close> and \<open>Demo\<close> (\<open>application/demo_events.py\<close>, \<open>demo.py\<close>,
    \<open>demo_runs.py\<close>): the events of a live run, the five scenarios, their traces and the background
    runs. \<open>Dashboard\<close> (\<open>routers/merchant.py\<close>): the merchant's routes with their queries and the
    guard before the demonstrations.

  \<^bold>\<open>How they interact.\<close> An endpoint opens units of work, calls the services inside and between
  them, and a purchase goes from a quote (\<open>Catalog_Service\<close>) over a proposal (\<open>Merchant\<close>), the
  policy engine and the gate to the saga, which calls the provider and settles in the ledger; every
  step appends to the audit log in the transaction it belongs to.

  \<^bold>\<open>Interfaces.\<close> \<open>transactional\<close>: a component whose steps keep an invariant inside a
  transaction (instances: the audit log, the budget). \<open>provider_port\<close>: a payment provider has no
  access to the database (instances: the simulator and the Razorpay adapter). \<open>payment_db\<close>,
  extended by \<open>purchase_db\<close> and that by \<open>commerce_db\<close>: what an invariant of the database must
  survive so that the payment programs, the gate and the saga, and every endpoint keep it;
  \<open>provider_port\<close> is a sublocale for four invariants, the valid audit log, a known idempotency key,
  the spending limits and the append-only log, so that each program is proved to keep them by one
  proof. \<open>observation\<close>: something that code inside transactions cannot change (instances: the
  provider calls, those of one name, and what other processes do). \<open>expiring_keys\<close>: what the check for replays relies on in
  Redis (instance: keys with deadlines and a clock). \<open>growth_db\<close> extends \<open>commerce_db\<close> for
  programs that also write the outbox; the scenarios of \<open>Demo\<close> need \<open>commerce_db\<close> only.
  \<open>anchor_chain\<close>: what the anchor loop relies on
  in the chain (instance: the contract behind an unreliable node).

  \<^bold>\<open>What is shown.\<close> Of the running system: limits and the valid log in every run of the
  money-moving programs, an append-only log for every endpoint, one order per key, provider calls only
  after the committed intent, anchored checkpoints really on the chain, capture only with a valid signature, resolved purchases never executed
  again, the meaning of passing the gate and that a denial commits nothing, failing closed. Of the agent
  protocol: only authentic and timely messages are acted on, none twice, a proposal is decided on the
  merchant's own records, and answers are signed envelopes. Of the buyer's side: amounts of a draft are
  the user's own words whatever the model says, ranking only reorders, a locked mandate passes the gate,
  an add-on is bought once and at the price offered. Of the parts: the invariants and refinement of log
  and ledger, completeness and soundness of the policy engine, the mandate's life cycle, injectivity of
  the canonical form and of the hashes up to a collision of SHA-256, complete paging, round trips, the
  behaviour of breaker, redaction and clients. Of the evidence: an exported bundle verifies and an
  accepted one carries the payloads of the log, a quote token round-trips and binds its terms, an
  explanation is complete and ordered, a demonstration reports a verdict that holds and every background
  run ends, the growth metrics count the sessions that were run, no demonstration starts outside a safe
  environment, and the dashboard reports no broken chain on a valid log. Of the rate limiter: the granted tokens
  are bounded by the rate whatever the doubles round to. Some properties state where the code differs from its
  documentation.

  \<^bold>\<open>Modelling decisions.\<close> A statement of the database may fail at any time (\<open>faults\<close>);
  other processes commit arbitrary changes when a transaction begins (\<open>others\<close>), and the row and
  advisory locks are what justifies that they do not interfere inside it. Inserts are checked at the
  statement. \<open>SELECT DISTINCT\<close> returns references in the order of their first row. Column widths and
  row timestamps are not modelled. Sleeps change no state. Tracing, metrics and logging have no effect on
  the modelled state. A request handler returns the body of its answer or raises \<open>HTTPException\<close>.
  Parameters stand for what is not under \<open>src\<close>: the pydantic forms of values (\<open>json_datetime\<close>,
  \<open>wire\<close>), the collation of the database, Ed25519, Redis, the Unicode database, the validation of a
  model's answer, the wording of prompts, the Groq SDK, HTTP, the node of the chain, the times that the
  database gives to rows (\<open>row_times\<close>), the random generator of the simulation (\<open>rng\<close>), the
  conversion of a decimal text to a float and back, the wall clock of a recorder and the class name of
  an exception. A scenario of \<open>Demo\<close> runs on \<open>lab_world\<close>: the database of the process with
  a fixed clock, a fresh simulator and breaker and ids from a seed.

  \<^bold>\<open>Bounds.\<close> Loops are structurally recursive: the poll for a concurrent attempt runs 40
  rounds (2.0 s in steps of 0.05 s), the gate retries 50 times, provider calls are retried
  \<open>max_retry_attempts\<close> times (3 by default), a checkpoint covers 64 entries, a stale price is
  requoted once, the model is asked twice. Matching a regular expression is structural in the expression
  and the text. The JSON scanner takes fuel for its mutual recursion; \<open>loads\<close> gives it twice the length
  of the text, and \<open>loads_fuel\<close> shows that more of it changes no result.

  \<^bold>\<open>Not modelled.\<close> Construction of the objects at start; metrics, tracing and logging; the wording
  of prompts; the command line except the sweeper; the seed script, the demo suite and the migrations.
\<close>

end
